(* ===== verification/Prelude.thy ===== *)
theory Prelude
  imports
    Complex_Main
    "HOL-Library.Char_ord"
    "HOL-Library.List_Lexorder"
    "HOL-Library.Product_Lexorder"
    "HOL-Library.AList"
begin

text \<open>
  What every component shares: the tables that stand for the standard library's \<open>HashMap\<close>
  and \<open>BTreeMap\<close>, the string operations of \<open>str\<close> the sources use, 64-bit counters, and the
  lemma collections the component proofs draw on.

  A \<open>HashMap\<close> is an association list with distinct keys. Its order is the order a walk over
  the map takes, which the language leaves open, so a theorem about a table holds for every
  order its entries may have. A \<open>BTreeMap\<close> is an association list in strictly ascending key
  order. A \<open>BTreeSet\<close> is a strictly ascending list.

  A \<open>String\<close> is a list of bytes. The order on strings is the lexicographic byte order of the
  language. A decimal or hexadecimal number is read by the rules of \<open>from_str_radix\<close>.
\<close>

section \<open>Collections of lemmas\<close>

named_theorems table_simps
  \<open>what a table holds after an operation\<close>

named_theorems frame_simps
  \<open>the fields an operation leaves alone\<close>

named_theorems inv_intros
  \<open>preservation of the invariants by the operations\<close>

section \<open>Tables\<close>

type_synonym ('k, 'v) table = "('k \<times> 'v) list"

text \<open>\<open>HashMap::insert\<close>, \<open>remove\<close>, \<open>retain\<close>, and \<open>get_mut\<close> followed by a change in place.\<close>

definition hm_wf :: "('k, 'v) table \<Rightarrow> bool" where
  "hm_wf m \<longleftrightarrow> distinct (map fst m)"

fun hm_insert :: "'k \<Rightarrow> 'v \<Rightarrow> ('k, 'v) table \<Rightarrow> ('k, 'v) table" where
  "hm_insert k v [] = [(k, v)]"
| "hm_insert k v ((k', v') # m) =
     (if k = k' then (k, v) # m else (k', v') # hm_insert k v m)"

definition hm_remove :: "'k \<Rightarrow> ('k, 'v) table \<Rightarrow> ('k, 'v) table" where
  "hm_remove k m = filter (\<lambda>(k', _). k' \<noteq> k) m"

definition hm_retain :: "('k \<Rightarrow> 'v \<Rightarrow> bool) \<Rightarrow> ('k, 'v) table \<Rightarrow> ('k, 'v) table" where
  "hm_retain P m = filter (\<lambda>(k, v). P k v) m"

definition hm_map :: "('v \<Rightarrow> 'v) \<Rightarrow> ('k, 'v) table \<Rightarrow> ('k, 'v) table" where
  "hm_map f m = map (\<lambda>(k, v). (k, f v)) m"

definition hm_modify :: "'k \<Rightarrow> ('v \<Rightarrow> 'v) \<Rightarrow> ('k, 'v) table \<Rightarrow> ('k, 'v) table" where
  "hm_modify k f m = map (\<lambda>(k', v). (k', if k' = k then f v else v)) m"

definition hm_values :: "('k, 'v) table \<Rightarrow> 'v list" where
  "hm_values m = map snd m"

definition hm_has :: "('k, 'v) table \<Rightarrow> 'k \<Rightarrow> bool" where
  "hm_has m k \<longleftrightarrow> map_of m k \<noteq> None"

text \<open>\<open>BTreeMap::insert\<close>, and the walk \<open>collect\<close> makes over pairs.\<close>

definition bt_wf :: "('k::linorder, 'v) table \<Rightarrow> bool" where
  "bt_wf m \<longleftrightarrow> sorted_wrt (<) (map fst m)"

fun bt_insert :: "'k::linorder \<Rightarrow> 'v \<Rightarrow> ('k, 'v) table \<Rightarrow> ('k, 'v) table" where
  "bt_insert k v [] = [(k, v)]"
| "bt_insert k v ((k', v') # m) =
     (if k < k' then (k, v) # (k', v') # m
      else if k = k' then (k, v) # m
      else (k', v') # bt_insert k v m)"

definition bt_extend :: "('k::linorder, 'v) table \<Rightarrow> ('k \<times> 'v) list \<Rightarrow> ('k, 'v) table" where
  "bt_extend m kvs = fold (\<lambda>(k, v). bt_insert k v) kvs m"

abbreviation bt_of_list :: "('k::linorder \<times> 'v) list \<Rightarrow> ('k, 'v) table" where
  "bt_of_list kvs \<equiv> bt_extend [] kvs"

text \<open>\<open>BTreeSet::insert\<close> and \<open>remove\<close>; \<open>sort\<close> followed by \<open>dedup\<close>.\<close>

definition bs_insert :: "'a::linorder \<Rightarrow> 'a list \<Rightarrow> 'a list" where
  "bs_insert x xs = (if x \<in> set xs then xs else insort x xs)"

definition bs_remove :: "'a \<Rightarrow> 'a list \<Rightarrow> 'a list" where
  "bs_remove x xs = filter (\<lambda>y. y \<noteq> x) xs"

text \<open>\<open>Vec::dedup\<close> drops a neighbour equal to the one kept before it.\<close>

fun dedup :: "'a list \<Rightarrow> 'a list" where
  "dedup [] = []"
| "dedup [x] = [x]"
| "dedup (x # y # xs) = (if x = y then dedup (x # xs) else x # dedup (y # xs))"

definition sort_dedup :: "'a::linorder list \<Rightarrow> 'a list" where
  "sort_dedup xs = dedup (sort xs)"

section \<open>Bounded counters\<close>

text \<open>Addition on \<open>u64\<close> in a release build wraps.\<close>

definition u64_add :: "nat \<Rightarrow> nat \<Rightarrow> nat" where
  "u64_add a b = (a + b) mod 2 ^ 64"

section \<open>Strings\<close>

abbreviation nl :: "char list" where
  "nl \<equiv> [CHR 0x0A]"

fun strip_prefix :: "string \<Rightarrow> string \<Rightarrow> string option" where
  "strip_prefix [] s = Some s"
| "strip_prefix (c # p) [] = None"
| "strip_prefix (c # p) (d # s) = (if c = d then strip_prefix p s else None)"

definition starts_with :: "string \<Rightarrow> string \<Rightarrow> bool" where
  "starts_with p s \<longleftrightarrow> strip_prefix p s \<noteq> None"

fun split_once :: "char \<Rightarrow> string \<Rightarrow> (string \<times> string) option" where
  "split_once c [] = None"
| "split_once c (d # s) =
     (if d = c then Some ([], s)
      else map_option (\<lambda>(a, b). (d # a, b)) (split_once c s))"

definition rsplit_once :: "char \<Rightarrow> string \<Rightarrow> (string \<times> string) option" where
  "rsplit_once c s = map_option (\<lambda>(a, b). (rev b, rev a)) (split_once c (rev s))"

text \<open>\<open>str::split\<close> on one character: always at least one piece.\<close>

fun split_on :: "char \<Rightarrow> string \<Rightarrow> string list" where
  "split_on c [] = [[]]"
| "split_on c (d # s) =
     (if d = c then [] # split_on c s
      else (case split_on c s of [] \<Rightarrow> [[d]] | p # ps \<Rightarrow> (d # p) # ps))"

fun join :: "string \<Rightarrow> string list \<Rightarrow> string" where
  "join sep [] = []"
| "join sep [x] = x"
| "join sep (x # y # xs) = x @ sep @ join sep (y # xs)"

fun contains_str :: "string \<Rightarrow> string \<Rightarrow> bool" where
  "contains_str p [] \<longleftrightarrow> p = []"
| "contains_str p (c # s) \<longleftrightarrow> starts_with p (c # s) \<or> contains_str p s"

text \<open>The byte sequences of the characters \<open>str::trim\<close> removes (Unicode \<open>White_Space\<close>).\<close>

definition white_space :: "string list" where
  "white_space =
     map (\<lambda>b. [char_of (b::nat)]) [9, 10, 11, 12, 13, 32] @
     map (map char_of)
       ([[194, 133], [194, 160], [225, 154, 128]] @
        map (\<lambda>b. [226, 128, b]) [128, 129, 130, 131, 132, 133, 134, 135, 136, 137, 138, 168, 169, 175] @
        [[226, 129, 159], [227, 128, 128 :: nat]])"

definition strip_any :: "string list \<Rightarrow> string \<Rightarrow> string option" where
  "strip_any ps s = (case List.find (\<lambda>p. starts_with p s) ps of
     None \<Rightarrow> None | Some p \<Rightarrow> strip_prefix p s)"

text \<open>
  Removing one of \<open>ps\<close> from the front until none is left. The pieces are not empty, so the
  length of the string bounds the number of rounds.
\<close>

fun trim_front :: "string list \<Rightarrow> nat \<Rightarrow> string \<Rightarrow> string" where
  "trim_front ps 0 s = s"
| "trim_front ps (Suc n) s =
     (case strip_any ps s of None \<Rightarrow> s | Some s' \<Rightarrow> trim_front ps n s')"

definition trim :: "string \<Rightarrow> string" where
  "trim s = (let a = trim_front white_space (length s) s
     in rev (trim_front (map rev white_space) (length a) (rev a)))"

text \<open>\<open>split_whitespace\<close>, \<open>lines\<close> and \<open>chunks\<close>.\<close>

lemma strip_any_shorter:
  assumes "strip_any ps s = Some t" "[] \<notin> set ps"
  shows "length t < length s"
proof -
  obtain p where f: "List.find (\<lambda>p. starts_with p s) ps = Some p" and t: "strip_prefix p s = Some t"
    using assms(1) by (auto simp: strip_any_def split: option.splits)
  from f have "p \<in> set ps" by (auto simp: find_Some_iff)
  note p = this t
  have "length s = length p + length t" using p(2)
    by (induction p s rule: strip_prefix.induct) (auto split: if_splits)
  with p(1) assms(2) show ?thesis by (cases p) auto
qed

lemma white_space_pieces: "[] \<notin> set white_space"
  by (simp add: white_space_def)

function words_of :: "string \<Rightarrow> string \<Rightarrow> string list" where
  "words_of acc [] = (if acc = [] then [] else [rev acc])"
| "words_of acc (c # s) =
     (case strip_any white_space (c # s) of
        Some t \<Rightarrow> (if acc = [] then [] else [rev acc]) @ words_of [] t
      | None \<Rightarrow> words_of (c # acc) s)"
  by pat_completeness auto
termination words_of
  by (relation "measure (length \<circ> snd)") (auto dest: strip_any_shorter simp: white_space_pieces)

definition strip_cr :: "string \<Rightarrow> string" where
  "strip_cr s = (if s \<noteq> [] \<and> last s = CHR 0x0D then butlast s else s)"

definition lines_of :: "string \<Rightarrow> string list" where
  "lines_of s = (let ps = split_on (CHR 0x0A) s
     in map strip_cr (butlast ps) @ (if last ps = [] then [] else [last ps]))"

fun chunks :: "nat \<Rightarrow> 'a list \<Rightarrow> 'a list list" where
  "chunks n [] = []"
| "chunks n (x # xs) = (x # take (n - 1) xs) # chunks n (drop (n - 1) xs)"

section \<open>Numbers as text\<close>

definition digit_char :: "nat \<Rightarrow> char" where
  "digit_char d = char_of (if d < 10 then 48 + d else 87 + d)"

fun show_nat :: "nat \<Rightarrow> string" where
  "show_nat n = (if n < 10 then [digit_char n] else show_nat (n div 10) @ [digit_char (n mod 10)])"

declare show_nat.simps [simp del]

definition show_int :: "int \<Rightarrow> string" where
  "show_int i = (if i < 0 then CHR ''-'' # show_nat (nat (- i)) else show_nat (nat i))"

text \<open>\<open>char::to_digit\<close> and \<open>from_str_radix\<close> for an unsigned type with largest value \<open>mx\<close>.\<close>

definition to_digit :: "nat \<Rightarrow> char \<Rightarrow> nat option" where
  "to_digit r c = (let b = of_char c :: nat;
     d = (if 48 \<le> b \<and> b \<le> 57 then b - 48
          else if 97 \<le> b \<and> b \<le> 122 then b - 87
          else if 65 \<le> b \<and> b \<le> 90 then b - 55
          else r)
     in if d < r then Some d else None)"

fun read_digits :: "nat \<Rightarrow> nat \<Rightarrow> string \<Rightarrow> nat option" where
  "read_digits r acc [] = Some acc"
| "read_digits r acc (c # s) =
     (case to_digit r c of None \<Rightarrow> None | Some d \<Rightarrow> read_digits r (acc * r + d) s)"

definition parse_uint :: "nat \<Rightarrow> nat \<Rightarrow> string \<Rightarrow> nat option" where
  "parse_uint mx r s = (let body = (case s of c # t \<Rightarrow> if c = CHR ''+'' then t else s | [] \<Rightarrow> [])
     in if body = [] then None
        else (case read_digits r 0 body of
                None \<Rightarrow> None
              | Some n \<Rightarrow> if n \<le> mx then Some n else None))"

abbreviation parse_u64 :: "string \<Rightarrow> nat option" where
  "parse_u64 s \<equiv> parse_uint (2 ^ 64 - 1) 10 s"

abbreviation parse_u16 :: "string \<Rightarrow> nat option" where
  "parse_u16 s \<equiv> parse_uint (2 ^ 16 - 1) 10 s"

text \<open>\<open>{:?}\<close> on a string of ASCII text: quoted, with the quote, the backslash and the line
  characters escaped.\<close>

definition escape_char :: "char \<Rightarrow> string" where
  "escape_char c =
     (if c = CHR 0x22 then [CHR 0x5C, CHR 0x22]
      else if c = CHR 0x5C then [CHR 0x5C, CHR 0x5C]
      else if c = CHR 0x0A then [CHR 0x5C, CHR ''n'']
      else if c = CHR 0x0D then [CHR 0x5C, CHR ''r'']
      else if c = CHR 0x09 then [CHR 0x5C, CHR ''t'']
      else [c])"

definition debug_str :: "string \<Rightarrow> string" where
  "debug_str s = [CHR 0x22] @ concat (map escape_char s) @ [CHR 0x22]"

section \<open>Lemmas on tables\<close>

text \<open>
  The contract of a keyed table: what a lookup returns after an insert or a removal, and what
  both keep of the representation invariant. \<open>HashMap\<close> and \<open>BTreeMap\<close> both meet it, and the
  lemmas a client needs are proved once from it.
\<close>

locale keyed_table =
  fixes inv :: "('k, 'v) table \<Rightarrow> bool"
    and ins :: "'k \<Rightarrow> 'v \<Rightarrow> ('k, 'v) table \<Rightarrow> ('k, 'v) table"
    and del :: "'k \<Rightarrow> ('k, 'v) table \<Rightarrow> ('k, 'v) table"
  assumes inv_empty: "inv []"
    and inv_ins: "inv m \<Longrightarrow> inv (ins k v m)"
    and inv_del: "inv m \<Longrightarrow> inv (del k m)"
    and inv_distinct: "inv m \<Longrightarrow> distinct (map fst m)"
    and get_ins: "inv m \<Longrightarrow> map_of (ins k v m) k' = (if k' = k then Some v else map_of m k')"
    and get_del: "inv m \<Longrightarrow> map_of (del k m) k' = (if k' = k then None else map_of m k')"
begin

definition ins_all :: "('k \<times> 'v) list \<Rightarrow> ('k, 'v) table \<Rightarrow> ('k, 'v) table" where
  "ins_all kvs m = fold (\<lambda>(k, v). ins k v) kvs m"

lemma inv_ins_all: "inv m \<Longrightarrow> inv (ins_all kvs m)"
  unfolding ins_all_def by (induction kvs arbitrary: m) (auto simp: inv_ins)

lemma get_ins_all:
  "inv m \<Longrightarrow> map_of (ins_all kvs m) k =
     (case map_of (rev kvs) k of Some v \<Rightarrow> Some v | None \<Rightarrow> map_of m k)"
  unfolding ins_all_def
  by (induction kvs arbitrary: m)
    (auto simp: inv_ins get_ins map_add_def split: option.splits prod.splits)

lemma in_ins:
  assumes "inv m"
  shows "(k', v') \<in> set (ins k v m) \<longleftrightarrow> (if k' = k then v' = v else (k', v') \<in> set m)"
proof -
  have "(k', v') \<in> set (ins k v m) \<longleftrightarrow> map_of (ins k v m) k' = Some v'"
    using assms by (simp add: inv_distinct inv_ins)
  also have "\<dots> \<longleftrightarrow> (if k' = k then v' = v else map_of m k' = Some v')"
    using assms by (auto simp: get_ins)
  finally show ?thesis using assms by (simp add: inv_distinct)
qed

lemma in_del:
  assumes "inv m"
  shows "(k', v') \<in> set (del k m) \<longleftrightarrow> k' \<noteq> k \<and> (k', v') \<in> set m"
proof -
  have "(k', v') \<in> set (del k m) \<longleftrightarrow> map_of (del k m) k' = Some v'"
    using assms by (simp add: inv_distinct inv_del)
  also have "\<dots> \<longleftrightarrow> k' \<noteq> k \<and> map_of m k' = Some v'"
    using assms by (auto simp: get_del)
  finally show ?thesis using assms by (simp add: inv_distinct)
qed

lemma ins_then_del: "inv m \<Longrightarrow> map_of (del k (ins k v m)) = map_of (del k m)"
  by (rule ext) (simp add: get_del get_ins inv_ins)

end

lemma map_of_hm_insert [table_simps]:
  "map_of (hm_insert k v m) k' = (if k' = k then Some v else map_of m k')"
  by (induction m) auto

lemma fst_set_hm_insert: "fst ` set (hm_insert k v m) = insert k (fst ` set m)"
  by (induction m) (simp, force)

lemma map_of_filter_key [table_simps]:
  "map_of (filter (\<lambda>(k', _). k' \<noteq> k) m) k' = (if k' = k then None else map_of m k')"
  by (induction m) auto

lemma hm_wf_insert [inv_intros]: "hm_wf m \<Longrightarrow> hm_wf (hm_insert k v m)"
  unfolding hm_wf_def
  by (induction m) (auto simp: fst_set_hm_insert)

lemma distinct_map_fst_filter: "distinct (map fst m) \<Longrightarrow> distinct (map fst (filter P m))"
  by (induction m) auto

interpretation hm: keyed_table hm_wf hm_insert hm_remove
  by unfold_locales
    (auto simp: hm_remove_def map_of_hm_insert map_of_filter_key hm_wf_def
      distinct_map_fst_filter intro: hm_wf_insert [unfolded hm_wf_def])

lemma map_of_bt_insert_gen: "map_of (bt_insert k v m) k' = (if k' = k then Some v else map_of m k')"
  by (induction m) auto

lemma fst_set_bt_insert: "fst ` set (bt_insert k v m) = insert k (fst ` set m)"
  by (induction m) (simp, force)

lemma in_bt_insert: "x \<in> set (bt_insert k v m) \<Longrightarrow> x = (k, v) \<or> x \<in> set m"
  by (induction m) (auto split: if_splits)

lemma in_bt_extend: "x \<in> set (bt_extend m kvs) \<Longrightarrow> x \<in> set m \<or> x \<in> set kvs"
  unfolding bt_extend_def by (induction kvs arbitrary: m) (force dest: in_bt_insert)+

lemma bt_wf_insert [inv_intros]: "bt_wf m \<Longrightarrow> bt_wf (bt_insert k v m)"
  unfolding bt_wf_def
proof (induction m)
  case Nil
  then show ?case by simp
next
  case (Cons a m)
  obtain k' v' where a: "a = (k', v')" by (cases a)
  have *: "\<And>y w. (y, w) \<in> set (bt_insert k v m) \<Longrightarrow> y = k \<or> y \<in> fst ` set m"
    using fst_set_bt_insert [of k v m] by force
  show ?case using Cons a by (fastforce dest!: *)
qed

lemma bt_wf_distinct: "bt_wf m \<Longrightarrow> distinct (map fst m)"
  unfolding bt_wf_def by (simp add: strict_sorted_iff)

lemma bt_wf_filter: "bt_wf m \<Longrightarrow> bt_wf (filter P m)"
  unfolding bt_wf_def by (induction m) auto

interpretation bt: keyed_table bt_wf bt_insert hm_remove
  by unfold_locales
    (auto simp: hm_remove_def map_of_bt_insert_gen map_of_filter_key bt_wf_distinct bt_wf_filter
      bt_wf_def [of "[]"] intro: bt_wf_insert)

lemma bt_extend_ins_all: "bt_extend m kvs = bt.ins_all kvs m"
  by (simp add: bt_extend_def bt.ins_all_def)

lemma bt_wf_extend [inv_intros]: "bt_wf m \<Longrightarrow> bt_wf (bt_extend m kvs)"
  by (simp add: bt_extend_ins_all bt.inv_ins_all)

lemma map_of_rev_distinct:
  assumes "distinct (map fst xs)"
  shows "map_of (rev xs) = map_of xs"
proof -
  have "distinct (map fst (rev xs))" using assms by (simp add: rev_map [symmetric])
  then show ?thesis using assms by (simp add: map_of_inject_set)
qed

lemma map_of_bt_of_list: "distinct (map fst kvs) \<Longrightarrow> map_of (bt_of_list kvs) = map_of kvs"
  by (simp add: fun_eq_iff bt_extend_ins_all bt.get_ins_all map_of_rev_distinct
      bt_wf_def split: option.splits)

lemma bt_wf_Nil [simp]: "bt_wf []"
  by (simp add: bt_wf_def)

lemma bt_insert_last: "\<forall>x \<in> set m. fst x < k \<Longrightarrow> bt_insert k v m = m @ [(k, v)]"
  by (induction m) auto

text \<open>Inserting pairs that are in strictly ascending order already changes nothing.\<close>

lemma bt_extend_sorted: "bt_wf (m @ kvs) \<Longrightarrow> bt_extend m kvs = m @ kvs"
proof (induction kvs arbitrary: m)
  case Nil
  then show ?case by (simp add: bt_extend_def)
next
  case (Cons a kvs)
  then have "bt_insert (fst a) (snd a) m = m @ [a]"
    by (subst bt_insert_last) (auto simp: bt_wf_def sorted_wrt_append)
  then have "bt_extend m (a # kvs) = bt_extend (m @ [a]) kvs"
    by (cases a) (simp add: bt_extend_def)
  with Cons show ?case by simp
qed

lemma bt_of_list_sorted: "bt_wf kvs \<Longrightarrow> bt_of_list kvs = kvs"
  using bt_extend_sorted [of "[]"] by simp

lemma map_of_hm_remove [table_simps]:
  "map_of (hm_remove k m) k' = (if k' = k then None else map_of m k')"
  by (simp add: hm_remove_def map_of_filter_key)

lemma hm_wf_retain [inv_intros]: "hm_wf m \<Longrightarrow> hm_wf (hm_retain P m)"
  by (simp add: hm_wf_def hm_retain_def distinct_map_fst_filter)

lemma map_fst_hm_map [simp]: "map fst (hm_map f m) = map fst m"
  by (induction m) (auto simp: hm_map_def)

lemma map_fst_hm_modify [simp]: "map fst (hm_modify k f m) = map fst m"
  by (induction m) (auto simp: hm_modify_def)

lemma hm_wf_map [inv_intros]: "hm_wf m \<Longrightarrow> hm_wf (hm_map f m)"
  by (simp add: hm_wf_def)

lemma hm_wf_modify [inv_intros]: "hm_wf m \<Longrightarrow> hm_wf (hm_modify k f m)"
  by (simp add: hm_wf_def)

lemma hm_wf_remove [inv_intros]: "hm_wf m \<Longrightarrow> hm_wf (hm_remove k m)"
  by (rule hm.inv_del)

lemma map_of_hm_map [table_simps]: "map_of (hm_map f m) k = map_option f (map_of m k)"
  by (induction m) (auto simp: hm_map_def)

lemma map_of_hm_modify [table_simps]:
  "map_of (hm_modify k f m) k' = (if k' = k then map_option f (map_of m k) else map_of m k')"
  by (induction m) (auto simp: hm_modify_def)

text \<open>Changing a row in place: the table around it stays as it was.\<close>

lemma hm_modify_absent: "k \<notin> fst ` set m \<Longrightarrow> hm_modify k f m = m"
  by (induction m) (auto simp: hm_modify_def)

lemma hm_modify_split:
  assumes "hm_wf m" "map_of m k = Some v"
  shows "\<exists>xs ys. m = xs @ (k, v) # ys \<and> k \<notin> fst ` set xs \<and> k \<notin> fst ` set ys
    \<and> (\<forall>f. hm_modify k f m = xs @ (k, f v) # ys)"
proof -
  from map_of_SomeD [OF assms(2)] obtain xs ys where m: "m = xs @ (k, v) # ys"
    by (meson split_list)
  with assms(1) have out: "k \<notin> fst ` set xs" "k \<notin> fst ` set ys" by (auto simp: hm_wf_def)
  have "hm_modify k f m = hm_modify k f xs @ (k, f v) # hm_modify k f ys" for f
    using m by (simp add: hm_modify_def)
  with m out show ?thesis by (auto simp: hm_modify_absent)
qed

lemma set_hm_values: "v \<in> set (hm_values m) \<longleftrightarrow> (\<exists>k. (k, v) \<in> set m)"
  by (force simp: hm_values_def)

lemma in_hm_modify: "(j, x) \<in> set (hm_modify k f m) \<longleftrightarrow>
    (if j = k then \<exists>v. (k, v) \<in> set m \<and> x = f v else (j, x) \<in> set m)"
  by (induction m) (auto simp: hm_modify_def)

lemma hm_values_modify: "x \<in> set (hm_values (hm_modify k f m)) \<Longrightarrow>
    x \<in> set (hm_values m) \<or> (\<exists>v. (k, v) \<in> set m \<and> x = f v)"
  unfolding set_hm_values in_hm_modify by metis

lemma map_of_hm_retain:
  "hm_wf m \<Longrightarrow> map_of (hm_retain P m) k =
     (case map_of m k of None \<Rightarrow> None | Some v \<Rightarrow> if P k v then Some v else None)"
  unfolding hm_wf_def hm_retain_def
  by (induction m) (auto split: option.splits simp: map_of_eq_None_iff)

lemma map_of_hm_retain_key: "map_of (hm_retain (\<lambda>k _. ok k) m) g = (if ok g then map_of m g else None)"
  by (induction m) (auto simp: hm_retain_def)

lemma hm_get_in: "map_of m k = Some v \<Longrightarrow> (k, v) \<in> set m"
  by (rule map_of_SomeD)

lemma hm_in_get: "hm_wf m \<Longrightarrow> (k, v) \<in> set m \<longleftrightarrow> map_of m k = Some v"
  by (simp add: hm_wf_def)

lemma hm_has_iff: "hm_has m k \<longleftrightarrow> k \<in> fst ` set m"
  by (simp add: hm_has_def map_of_eq_None_iff)

text \<open>A table whose rows carry their own key.\<close>

definition keyed :: "('v \<Rightarrow> 'k) \<Rightarrow> ('k, 'v) table \<Rightarrow> bool" where
  "keyed f m \<longleftrightarrow> hm_wf m \<and> (\<forall>(k, v) \<in> set m. f v = k)"

lemma keyed_wf: "keyed f m \<Longrightarrow> hm_wf m"
  by (simp add: keyed_def)

lemma keyed_key: "keyed f m \<Longrightarrow> (k, v) \<in> set m \<Longrightarrow> f v = k"
  by (auto simp: keyed_def)

lemma keyed_lookup: "keyed f m \<Longrightarrow> v \<in> set (hm_values m) \<longleftrightarrow> map_of m (f v) = Some v"
  by (auto simp: keyed_def hm_wf_def set_hm_values)

lemma in_hm_insert: "hm_wf m \<Longrightarrow> (j, x) \<in> set (hm_insert k v m) \<longleftrightarrow> (if j = k then x = v else (j, x) \<in> set m)"
  by (simp add: hm_in_get [OF hm_wf_insert] hm_in_get map_of_hm_insert eq_commute)

lemma in_hm_map: "(j, x) \<in> set (hm_map f m) \<longleftrightarrow> (\<exists>v. (j, v) \<in> set m \<and> x = f v)"
  by (auto simp: hm_map_def)

lemma keyed_insert: "keyed f m \<Longrightarrow> f v = k \<Longrightarrow> keyed f (hm_insert k v m)"
  by (auto simp: keyed_def in_hm_insert intro: hm_wf_insert split: if_splits)

lemma keyed_modify: "keyed f m \<Longrightarrow> (\<And>v. (k, v) \<in> set m \<Longrightarrow> f (g v) = f v) \<Longrightarrow> keyed f (hm_modify k g m)"
  by (fastforce simp: keyed_def in_hm_modify intro: hm_wf_modify split: if_splits)

lemma keyed_map: "keyed f m \<Longrightarrow> (\<And>v. f (g v) = f v) \<Longrightarrow> keyed f (hm_map g m)"
  by (fastforce simp: keyed_def in_hm_map intro: hm_wf_map)

lemma keyed_remove: "keyed f m \<Longrightarrow> keyed f (hm_remove k m)"
  by (auto simp: keyed_def hm_remove_def hm_wf_def distinct_map_filter)

lemma keyed_fold_remove: "keyed f m \<Longrightarrow> keyed f (fold hm_remove ks m)"
  by (induction ks arbitrary: m) (simp_all add: keyed_remove)

lemma keyed_Nil [simp]: "keyed f []"
  by (simp add: keyed_def hm_wf_def)

lemma in_fold_hm_remove: "x \<in> set (fold hm_remove ks m) \<longleftrightarrow> x \<in> set m \<and> fst x \<notin> set ks"
  by (induction ks arbitrary: m) (auto simp: hm_remove_def)

lemma hm_has_fold_remove: "hm_has (fold hm_remove ks m) k \<longleftrightarrow> hm_has m k \<and> k \<notin> set ks"
  by (force simp: hm_has_iff in_fold_hm_remove image_iff)

section \<open>Lemmas on lists\<close>

lemma set_dedup [simp]: "set (dedup xs) = set xs"
  by (induction xs rule: dedup.induct) auto

lemma sorted_wrt_less_dedup: "sorted xs \<Longrightarrow> sorted_wrt (<) (dedup (xs :: 'a::linorder list))"
  by (induction xs rule: dedup.induct) (auto simp: order.strict_iff_order)

lemma set_sort_dedup [simp]: "set (sort_dedup xs) = set xs"
  by (simp add: sort_dedup_def)

lemma sort_dedup_strict: "sorted_wrt (<) (sort_dedup xs)"
  by (simp add: sort_dedup_def sorted_wrt_less_dedup)

lemma distinct_sort_dedup [simp]: "distinct (sort_dedup xs)"
  using sort_dedup_strict [of xs] by (simp add: strict_sorted_iff)

lemma set_bs_insert [simp]: "set (bs_insert x xs) = insert x (set xs)"
  by (auto simp: bs_insert_def set_insort_key)

lemma set_bs_remove [simp]: "set (bs_remove x xs) = set xs - {x}"
  by (auto simp: bs_remove_def)

lemma bs_insert_strict: "sorted_wrt (<) xs \<Longrightarrow> sorted_wrt (<) (bs_insert x xs)"
  by (auto simp: bs_insert_def strict_sorted_iff distinct_insort sorted_insort)

lemma bs_remove_strict: "sorted_wrt (<) xs \<Longrightarrow> sorted_wrt (<) (bs_remove x xs)"
  by (simp add: bs_remove_def sorted_wrt_filter)

lemma bs_remove_Nil_iff: "bs_remove x xs = [] \<longleftrightarrow> set xs \<subseteq> {x}"
  by (auto simp: bs_remove_def filter_empty_conv)

lemma in_map_filter: "x \<in> set (List.map_filter f xs) \<longleftrightarrow> Some x \<in> f ` set xs"
  by (induction xs) (auto simp: map_filter_simps split: option.splits)

lemma find_Some_in: "List.find P xs = Some x \<Longrightarrow> x \<in> set xs \<and> P x"
  by (auto simp: find_Some_iff)

lemma length_concat_replicate_sum:
  "length (concat xss) = sum_list (map length xss)"
  by (rule length_concat)

lemma u64_add_small: "a + b < 2 ^ 64 \<Longrightarrow> u64_add a b = a + b"
  by (simp add: u64_add_def)

lemma u64_add_bound: "u64_add a b < 2 ^ 64"
  by (simp add: u64_add_def)

section \<open>Lemmas on strings\<close>

lemma strip_prefix_append [simp]: "strip_prefix p (p @ s) = Some s"
  by (induction p) auto

lemma strip_prefix_Some: "strip_prefix p s = Some t \<longleftrightarrow> s = p @ t"
  by (induction p s rule: strip_prefix.induct) auto

lemma starts_with_append [simp]: "starts_with p (p @ s)"
  by (simp add: starts_with_def)

lemma split_once_Some:
  "split_once c s = Some (a, b) \<longleftrightarrow> s = a @ c # b \<and> c \<notin> set a"
proof (induction s arbitrary: a)
  case (Cons d s)
  then show ?case by (cases a) auto
qed simp

lemma rsplit_once_Some:
  "rsplit_once c s = Some (a, b) \<longleftrightarrow> s = a @ c # b \<and> c \<notin> set b"
proof -
  have "rsplit_once c s = Some (a, b) \<longleftrightarrow> split_once c (rev s) = Some (rev b, rev a)"
    by (auto simp: rsplit_once_def)
  also have "\<dots> \<longleftrightarrow> s = a @ c # b \<and> c \<notin> set b"
    by (auto simp: split_once_Some rev_swap)
  finally show ?thesis .
qed

lemma show_nat_ne: "show_nat n \<noteq> []"
  by (subst show_nat.simps) simp

lemma to_digit_digit_char: "d < r \<Longrightarrow> r \<le> 36 \<Longrightarrow> to_digit r (digit_char d) = Some d"
  by (auto simp: to_digit_def digit_char_def Let_def)

lemma read_digits_append:
  "read_digits r acc (s @ t) =
     (case read_digits r acc s of None \<Rightarrow> None | Some n \<Rightarrow> read_digits r n t)"
  by (induction s arbitrary: acc) (auto split: option.splits)

lemma read_digits_show_nat: "read_digits 10 0 (show_nat n) = Some n"
proof (induction n rule: show_nat.induct)
  case (1 n)
  show ?case
  proof (cases "n < 10")
    case True
    then show ?thesis by (simp add: show_nat.simps [of n] to_digit_digit_char)
  next
    case False
    with 1 have "read_digits 10 0 (show_nat (n div 10)) = Some (n div 10)" by simp
    with False show ?thesis
      by (simp add: show_nat.simps [of n] read_digits_append to_digit_digit_char)
  qed
qed

lemma digit_char_not:
  "d < 16 \<Longrightarrow> of_char (digit_char d) \<in> {48..57} \<union> {97..102::nat}"
  by (auto simp: digit_char_def)

lemma show_nat_chars: "c \<in> set (show_nat n) \<Longrightarrow> of_char c \<in> {48..57::nat}"
proof (induction n rule: show_nat.induct)
  case (1 n)
  show ?case
  proof (cases "n < 10")
    case True
    with 1(2) show ?thesis by (simp add: show_nat.simps [of n] digit_char_def)
  next
    case False
    with 1(2) have "c \<in> set (show_nat (n div 10)) \<or> c = digit_char (n mod 10)"
      by (auto simp: show_nat.simps [of n])
    then show ?thesis
    proof
      assume "c \<in> set (show_nat (n div 10))"
      with 1(1) False show ?thesis by simp
    next
      assume "c = digit_char (n mod 10)"
      then show ?thesis by (simp add: digit_char_def)
    qed
  qed
qed

lemma colon_not_in_show_nat: "CHR '':'' \<notin> set (show_nat n)"
  using show_nat_chars [of "CHR '':''" n] by auto

lemma plus_not_in_show_nat: "CHR ''+'' \<notin> set (show_nat n)"
  using show_nat_chars [of "CHR ''+''" n] by auto

text \<open>Reading back a printed number gives the number.\<close>

lemma parse_uint_show_nat: "n \<le> mx \<Longrightarrow> parse_uint mx 10 (show_nat n) = Some n"
proof -
  assume n: "n \<le> mx"
  obtain c t where s: "show_nat n = c # t" using show_nat_ne by (cases "show_nat n") auto
  with plus_not_in_show_nat [of n] have "c \<noteq> CHR ''+''" by auto
  with s n read_digits_show_nat [of n] show ?thesis
    by (simp add: parse_uint_def)
qed

section \<open>Trimming\<close>

lemma white_space_ends: "\<forall>p \<in> set white_space. p \<noteq> [] \<and> ((of_char (hd p) :: nat) \<le> 32 \<or> 128 \<le> (of_char (hd p) :: nat))
    \<and> ((of_char (last p) :: nat) \<le> 32 \<or> 128 \<le> (of_char (last p) :: nat))"
  by code_simp

lemma trim_front_none: "\<forall>p \<in> set ps. p \<noteq> [] \<and> hd p \<noteq> c \<Longrightarrow> trim_front ps n (c # s) = c # s"
proof -
  assume h: "\<forall>p \<in> set ps. p \<noteq> [] \<and> hd p \<noteq> c"
  have "\<not> starts_with p (c # s)" if "p \<in> set ps" for p
    using h that by (cases p) (auto simp: starts_with_def strip_prefix_Some)
  then have "List.find (\<lambda>p. starts_with p (c # s)) ps = None" by (simp add: find_None_iff)
  then show ?thesis by (cases n) (simp_all add: strip_any_def)
qed

text \<open>Text that begins and ends with a visible ASCII character is not trimmed.\<close>

definition visible :: "char \<Rightarrow> bool" where
  "visible c \<longleftrightarrow> (let k = of_char c :: nat in 32 < k \<and> k < 128)"

lemma trim_visible:
  assumes "s \<noteq> []" "visible (hd s)" "visible (last s)"
  shows "trim s = s"
proof -
  obtain c t where s: "s = c # t" using assms(1) by (cases s) auto
  obtain d u where r: "rev s = d # u" using assms(1) by (cases "rev s") auto
  then have "d = last s" by (metis hd_rev list.sel(1))
  then have "visible c" "visible d" using assms s by simp_all
  then have "\<forall>p \<in> set white_space. p \<noteq> [] \<and> hd p \<noteq> c" "\<forall>p \<in> set (map rev white_space). p \<noteq> [] \<and> hd p \<noteq> d"
    using white_space_ends by (fastforce simp: visible_def Let_def hd_rev)+
  then have "trim_front white_space (length s) s = s" "trim_front (map rev white_space) (length s) (rev s) = rev s"
    unfolding r by (metis s trim_front_none, metis trim_front_none)
  then show ?thesis by (simp add: trim_def Let_def)
qed

section \<open>Transition systems\<close>

text \<open>Invariants of a step relation hold in every state it reaches.\<close>

locale transition_system =
  fixes start :: "'s \<Rightarrow> bool" and step :: "'s \<Rightarrow> 's \<Rightarrow> bool" and inv :: "'s \<Rightarrow> bool"
  assumes inv_start: "start s \<Longrightarrow> inv s"
    and inv_step: "inv s \<Longrightarrow> step s t \<Longrightarrow> inv t"
begin

lemma inv_reached:
  assumes "start s" "step\<^sup>*\<^sup>* s t"
  shows "inv t"
  using assms(2,1) by (induction rule: rtranclp_induct) (auto intro: inv_start inv_step)

lemma inv_between:
  assumes "inv s" "step\<^sup>*\<^sup>* s t"
  shows "inv t"
  using assms(2,1) by (induction rule: rtranclp_induct) (auto intro: inv_step)

end

end
