(* ===== verification/Json.thy ===== *)
theory Json
  imports Prelude
begin

text \<open>
  JSON values as \<open>serde_json\<close> holds them, with the accessors the sources call. An object is a
  \<open>BTreeMap\<close>, so its entries are in ascending key order. A number keeps the spelling it was
  read in: a non-negative integer, a negative one, or a finite double. A double is its exact
  rational value.
\<close>

section \<open>Values\<close>

datatype jnum = PosInt nat | NegInt int | Float rat

datatype json =
    JNull
  | JBool bool
  | JNum jnum
  | JStr string
  | JArr "json list"
  | JObj "(string \<times> json) list"

section \<open>Doubles\<close>

text \<open>An integer as a double: round to nearest, ties to even, at 53 significant bits.\<close>

fun nbits :: "nat \<Rightarrow> nat" where
  "nbits n = (if n = 0 then 0 else Suc (nbits (n div 2)))"

declare nbits.simps [simp del]

definition f64_of_nat :: "nat \<Rightarrow> nat" where
  "f64_of_nat n =
     (if n < 2 ^ 53 then n
      else (let k = nbits n - 53; q = n div 2 ^ k; r = n mod 2 ^ k; half = 2 ^ (k - 1)
            in if r < half \<or> (r = half \<and> even q) then q * 2 ^ k else (q + 1) * 2 ^ k))"

definition u64_max :: nat where
  "u64_max = 2 ^ 64 - 1"

section \<open>Accessors\<close>

definition as_str :: "json \<Rightarrow> string option" where
  "as_str v = (case v of JStr s \<Rightarrow> Some s | _ \<Rightarrow> None)"

definition as_bool :: "json \<Rightarrow> bool option" where
  "as_bool v = (case v of JBool b \<Rightarrow> Some b | _ \<Rightarrow> None)"

definition as_array :: "json \<Rightarrow> json list option" where
  "as_array v = (case v of JArr a \<Rightarrow> Some a | _ \<Rightarrow> None)"

definition as_object :: "json \<Rightarrow> (string \<times> json) list option" where
  "as_object v = (case v of JObj o1 \<Rightarrow> Some o1 | _ \<Rightarrow> None)"

definition as_u64 :: "json \<Rightarrow> nat option" where
  "as_u64 v = (case v of JNum (PosInt n) \<Rightarrow> Some n | _ \<Rightarrow> None)"

definition num_f64 :: "jnum \<Rightarrow> rat" where
  "num_f64 n = (case n of PosInt k \<Rightarrow> of_nat (f64_of_nat k)
     | NegInt i \<Rightarrow> - of_nat (f64_of_nat (nat (- i))) | Float f \<Rightarrow> f)"

definition as_f64 :: "json \<Rightarrow> rat option" where
  "as_f64 v = (case v of JNum n \<Rightarrow> Some (num_f64 n) | _ \<Rightarrow> None)"

text \<open>\<open>v["k"]\<close> is the value under \<open>k\<close>, and null for a missing key or a value that is not an
  object.\<close>

definition jget :: "json \<Rightarrow> string \<Rightarrow> json" where
  "jget v k = (case v of JObj o1 \<Rightarrow> (case map_of o1 k of Some x \<Rightarrow> x | None \<Rightarrow> JNull) | _ \<Rightarrow> JNull)"

text \<open>The iterator idiom \<open>as_object().into_iter().flatten()\<close>, and its array form.\<close>

definition entries :: "json \<Rightarrow> (string \<times> json) list" where
  "entries v = (case as_object v of Some o1 \<Rightarrow> o1 | None \<Rightarrow> [])"

definition elems :: "json \<Rightarrow> json list" where
  "elems v = (case as_array v of Some a \<Rightarrow> a | None \<Rightarrow> [])"

text \<open>Building an object sorts its keys, and a repeated key keeps the last value.\<close>

definition jobj :: "(string \<times> json) list \<Rightarrow> json" where
  "jobj kvs = JObj (bt_of_list kvs)"

definition jstrs :: "string list \<Rightarrow> json" where
  "jstrs ss = JArr (map JStr ss)"

definition jnat :: "nat \<Rightarrow> json" where
  "jnat n = JNum (PosInt n)"

definition jopt :: "('a \<Rightarrow> json) \<Rightarrow> 'a option \<Rightarrow> json" where
  "jopt f v = (case v of None \<Rightarrow> JNull | Some x \<Rightarrow> f x)"

text \<open>The strings of an array: \<open>island::str_list\<close> and \<open>mesh::str_list\<close>.\<close>

definition str_list :: "json \<Rightarrow> string list" where
  "str_list v = List.map_filter as_str (elems v)"

section \<open>Lemmas\<close>

lemmas json_access = as_str_def as_bool_def as_array_def as_object_def as_u64_def as_f64_def
  jget_def entries_def elems_def

lemma f64_of_nat_small [simp]: "n < 2 ^ 53 \<Longrightarrow> f64_of_nat n = n"
  by (simp add: f64_of_nat_def)

lemma jget_jobj: "jget (jobj kvs) k = (case map_of (rev kvs) k of Some v \<Rightarrow> v | None \<Rightarrow> JNull)"
  by (simp add: jget_def jobj_def bt_extend_ins_all bt.get_ins_all split: option.splits)

lemma str_list_jstrs [simp]: "str_list (jstrs ss) = ss"
  by (induction ss) (simp_all add: str_list_def jstrs_def json_access List.map_filter_def)

lemma elems_JArr [simp]: "elems (JArr xs) = xs"
  by (simp add: elems_def as_array_def)

lemma entries_JObj [simp]: "entries (JObj o1) = o1"
  by (simp add: entries_def as_object_def)

lemma as_str_JStr [simp]: "as_str (JStr s) = Some s"
  by (simp add: as_str_def)

lemma as_str_eq_Some: "as_str v = Some s \<longleftrightarrow> v = JStr s"
  by (cases v) (simp_all add: as_str_def)

text \<open>The number of bits of a positive integer.\<close>

lemma nbits_unique: "2 ^ j \<le> n \<Longrightarrow> n < 2 ^ Suc j \<Longrightarrow> nbits n = Suc j"
proof (induction j arbitrary: n)
  case 0
  then have "n = 1" by simp
  then show ?case by (simp add: nbits.simps)
next
  case (Suc j)
  then have "2 ^ j \<le> n div 2" "n div 2 < 2 ^ Suc j" by auto
  with Suc have "nbits (n div 2) = Suc j" by blast
  moreover have "n \<noteq> 0" using Suc.prems(1) by (metis le_zero_eq power_not_zero zero_neq_numeral)
  ultimately show ?case by (simp add: nbits.simps [of n])
qed

lemma nbits_bounds: "0 < n \<Longrightarrow> \<exists>j. nbits n = Suc j \<and> 2 ^ j \<le> n \<and> n < 2 ^ Suc j"
proof -
  assume "0 < n"
  then obtain j where "2 ^ j \<le> n" "n < 2 ^ (j + 1)" using ex_power_ivl1 [of 2 n] by auto
  then show ?thesis using nbits_unique [of j n] by auto
qed

end
