(* ===== verification/Wire.thy ===== *)
theory Wire
  imports Json
begin

text \<open>
  The wire protocol of \<open>rust/mentatd/src/proto.rs\<close>: the message type, the frame header, and
  the framing of \<open>write_frame\<close> and \<open>read_frame\<close>. The JSON text of a header is produced and read
  by \<open>serde\<close>, so it is a parameter of the codec.
\<close>

section \<open>Data\<close>

type_synonym payload = "nat list"
type_synonym str_map = "(string, string) table"

record gpu =
  g_index :: nat
  g_vendor :: string
  g_name :: string
  g_memory :: nat
  g_uma :: bool

record machine =
  m_memory :: nat
  m_cpus :: nat
  m_gpus :: "gpu list"

record service =
  s_host :: string
  s_port :: nat
  s_path :: string
  s_provider :: string
  s_note :: string

record resume_actor =
  r_actor_id :: string
  r_name :: string
  r_gpu_ids :: "nat list"
  r_pid :: nat
  r_owner :: string
  r_pending_refs :: "string list"

text \<open>
  The enum \<open>Msg\<close>, its variants grouped by the link they travel on, as the enum's own comments
  group them.
\<close>

datatype client_msg =
    Hello string string string bool string string
  | Nodes
  | Resources
  | Available
  | Claim string json
  | PgCreate "nat list" string string
  | PgTable string
  | PgRemove string
  | ActorCreate string nat string nat str_map
  | ActorCall string string
  | RefGet string "nat option"
  | RefWait "string list" nat "nat option"
  | Status "string option"
  | ActorStop string bool

datatype reply_msg =
    Ok
  | Err string string string string
  | HelloOk string string string string string
  | NodesOk "json list"
  | ResourcesOk "(string, nat) table"
  | AvailableOk "(string, (string, nat) table) table"
  | ClaimOk string nat string json
  | PgCreateOk string
  | PgTableOk json
  | ActorCreateOk string string "nat list"
  | ActorCallOk string
  | RefGetOk string string
  | RefWaitOk "string list"
  | StatusOk json

datatype agent_msg =
    AgentRegister string string string string string nat machine "(string, service) table"
      "resume_actor list" "string list" str_map
  | AgentRegisterOk string string
  | ActorSpawn string string str_map "nat list" string
  | ActorSpawnResult string bool string nat
  | ActorDispatch string string string
  | ActorResult string bool string
  | ActorExit string "int option" "int option"
  | ActorKill string
  | ServiceNote string string
  | Ping
  | Pong

datatype peer_msg =
    PeerHello string string string nat nat "string list" "(string, string list) table" str_map
  | PeerHelloOk string string string nat nat "string list" "(string, string list) table" str_map
  | Probe string string
  | ProbeOk string string
  | PeerStatus json
  | PeerEvent json

datatype host_msg =
    HostHello string
  | Ctor string
  | CtorOk
  | CtorErr string
  | HostCall string string
  | HostResult string bool

datatype msg =
    C client_msg
  | R reply_msg
  | A agent_msg
  | P peer_msg
  | H host_msg
  | Unknown

record frame =
  f_req :: nat
  f_msg :: msg
  f_unknown_t :: string

text \<open>\<open>Msg::error\<close>, \<open>Msg::refused\<close> and \<open>Frame::new\<close>.\<close>

definition msg_error :: "string \<Rightarrow> msg" where
  "msg_error e = R (Err e [] [] [])"

definition msg_refused :: "string \<Rightarrow> string \<Rightarrow> msg" where
  "msg_refused code e = R (Err e code [] [])"

definition frame_new :: "nat \<Rightarrow> msg \<Rightarrow> frame" where
  "frame_new req m = \<lparr>f_req = req, f_msg = m, f_unknown_t = []\<rparr>"

section \<open>Framing\<close>

definition MAX_FRAME :: nat where
  "MAX_FRAME = 256 * 1024 * 1024"

text \<open>\<open>(n as u32).to_le_bytes()\<close>, and \<open>u32::from_le_bytes\<close>.\<close>

definition u32_le :: "nat \<Rightarrow> payload" where
  "u32_le n = [n mod 256, n div 256 mod 256, n div 65536 mod 256, n div 16777216 mod 256]"

definition u32_of_le :: "payload \<Rightarrow> nat" where
  "u32_of_le b = b ! 0 + 256 * b ! 1 + 65536 * b ! 2 + 16777216 * b ! 3"

text \<open>The bytes \<open>write_frame\<close> puts on the wire, with \<open>to_vec\<close> the serializer.\<close>

definition write_frame :: "(frame \<Rightarrow> payload) \<Rightarrow> frame \<Rightarrow> payload \<Rightarrow> payload" where
  "write_frame to_vec f pl = (let header = to_vec f
     in u32_le (length header) @ u32_le (length pl) @ header @ pl)"

text \<open>
  What a socket gives a reader, call by call: some bytes, an interrupted call, or a failure.
  The end of the list, and an empty chunk, are end of file.
\<close>

datatype rd = Data payload | Interrupted | Fail string

type_synonym reader = "rd list"

datatype io_error = UnexpectedEof | InvalidData string | IoFail string

datatype fill = Filled payload reader | CleanEof reader | FillErr io_error

text \<open>\<open>read_exact_or_eof\<close>: fill a buffer of \<open>n\<close> bytes, \<open>acc\<close> being filled already.\<close>

fun read_exact_or_eof :: "nat \<Rightarrow> payload \<Rightarrow> reader \<Rightarrow> fill" where
  "read_exact_or_eof n acc [] =
     (if n \<le> length acc then Filled acc []
      else if acc = [] then CleanEof [] else FillErr UnexpectedEof)"
| "read_exact_or_eof n acc (x # r) =
     (if n \<le> length acc then Filled acc (x # r)
      else (case x of
          Data d \<Rightarrow>
            (if d = [] then (if acc = [] then CleanEof r else FillErr UnexpectedEof)
             else if length d \<le> n - length acc then read_exact_or_eof n (acc @ d) r
             else Filled (acc @ take (n - length acc) d) (Data (drop (n - length acc) d) # r))
        | Interrupted \<Rightarrow> read_exact_or_eof n acc r
        | Fail e \<Rightarrow> FillErr (IoFail e)))"

text \<open>\<open>Read::read_exact\<close> of the standard library: as above, and an early end is an error.\<close>

definition read_exact :: "nat \<Rightarrow> reader \<Rightarrow> io_error + payload \<times> reader" where
  "read_exact n r = (case read_exact_or_eof n [] r of
     Filled b r' \<Rightarrow> Inr (b, r') | CleanEof _ \<Rightarrow> Inl UnexpectedEof | FillErr e \<Rightarrow> Inl e)"

definition header_too_long :: "nat \<Rightarrow> nat \<Rightarrow> string" where
  "header_too_long hlen plen =
     ''frame over '' @ show_nat MAX_FRAME @ '' bytes: header='' @ show_nat hlen @
     '' payload='' @ show_nat plen"

text \<open>
  \<open>read_frame\<close>: \<open>from_slice\<close> is the deserializer of a header, \<open>value_of\<close> the reader of a JSON
  value, \<open>bad\<close> the text of a header error.
\<close>

definition read_frame ::
  "(payload \<Rightarrow> frame option) \<Rightarrow> (payload \<Rightarrow> json option) \<Rightarrow> (payload \<Rightarrow> string) \<Rightarrow> reader
     \<Rightarrow> io_error + ((frame \<times> payload) \<times> reader) option" where
  "read_frame from_slice value_of bad r =
     (case read_exact_or_eof 8 [] r of
        CleanEof _ \<Rightarrow> Inr None
      | FillErr e \<Rightarrow> Inl e
      | Filled lens r1 \<Rightarrow>
          (let hlen = u32_of_le (take 4 lens); plen = u32_of_le (drop 4 lens)
           in if MAX_FRAME < hlen \<or> MAX_FRAME < plen
              then Inl (InvalidData (header_too_long hlen plen))
              else (case read_exact hlen r1 of
                  Inl e \<Rightarrow> Inl e
                | Inr (header, r2) \<Rightarrow>
                    (case read_exact plen r2 of
                       Inl e \<Rightarrow> Inl e
                     | Inr (pl, r3) \<Rightarrow>
                         (case from_slice header of
                            None \<Rightarrow> Inl (InvalidData (bad header))
                          | Some f \<Rightarrow>
                              let f' = (if f_msg f = Unknown
                                 then f\<lparr>f_unknown_t :=
                                   (case value_of header of None \<Rightarrow> []
                                    | Some v \<Rightarrow> (case as_str (jget v ''t'') of None \<Rightarrow> [] | Some t \<Rightarrow> t))\<rparr>
                                 else f)
                              in Inr (Some ((f', pl), r3)))))))"

section \<open>Lemmas on framing\<close>

text \<open>The bytes a reader will give, when no call on it fails.\<close>

fun bytes_of :: "reader \<Rightarrow> payload" where
  "bytes_of [] = []"
| "bytes_of (Data d # r) = d @ bytes_of r"
| "bytes_of (Interrupted # r) = bytes_of r"
| "bytes_of (Fail e # r) = []"

definition healthy :: "reader \<Rightarrow> bool" where
  "healthy r \<longleftrightarrow> (\<forall>x \<in> set r. case x of Data d \<Rightarrow> d \<noteq> [] | Interrupted \<Rightarrow> True | Fail _ \<Rightarrow> False)"

lemma healthy_simps [simp]:
  "healthy []"
  "healthy (Data d # r) \<longleftrightarrow> d \<noteq> [] \<and> healthy r"
  "healthy (Interrupted # r) \<longleftrightarrow> healthy r"
  "healthy (Fail e # r) \<longleftrightarrow> False"
  by (auto simp: healthy_def)

text \<open>
  However the bytes arrive, filling a buffer takes exactly its length from the front of them.
\<close>

lemma read_exact_or_eof_takes:
  assumes "healthy r" "n \<le> length acc + length (bytes_of r)" "length acc \<le> n"
  shows "\<exists>r'. read_exact_or_eof n acc r = Filled (take n (acc @ bytes_of r)) r' \<and> healthy r'
      \<and> bytes_of r' = drop n (acc @ bytes_of r)"
  using assms
proof (induction n acc r rule: read_exact_or_eof.induct)
  case (1 n acc)
  then show ?case by auto
next
  case (2 n acc x r)
  show ?case
  proof (cases "n \<le> length acc")
    case True
    with 2(5) have "n = length acc" by simp
    with 2 show ?thesis by auto
  next
    case False
    show ?thesis
    proof (cases x)
      case (Data d)
      show ?thesis
      proof (cases "length d \<le> n - length acc")
        case True
        with False Data 2(1) [OF False Data _ True] 2(3-5) show ?thesis by auto
      next
        case longer: False
        with False Data 2(3-5) show ?thesis by auto
      qed
    qed (use False 2 in auto)
  qed
qed

lemma read_exact_takes:
  assumes "healthy r" "n \<le> length (bytes_of r)"
  shows "\<exists>r'. read_exact n r = Inr (take n (bytes_of r), r') \<and> healthy r'
      \<and> bytes_of r' = drop n (bytes_of r)"
  using read_exact_or_eof_takes [of r n "[]"] assms by (auto simp: read_exact_def)

lemma u32_roundtrip:
  assumes "n < 2 ^ 32"
  shows "u32_of_le (u32_le n) = n"
proof -
  have q: "n div 65536 = n div 256 div 256" "n div 16777216 = n div 256 div 256 div 256"
    using div_mult2_eq [of n 256 256] div_mult2_eq [of n 65536 256] by simp_all
  have "n div 16777216 mod 256 = n div 16777216" using assms by simp
  then have "u32_of_le (u32_le n) = n mod 256 + 256 * (n div 256 mod 256)
      + 65536 * (n div 256 div 256 mod 256) + 16777216 * (n div 256 div 256 div 256)"
    by (simp add: u32_of_le_def u32_le_def q)
  also have "\<dots> = n"
    using div_mult_mod_eq [of n 256] div_mult_mod_eq [of "n div 256" 256]
      div_mult_mod_eq [of "n div 256 div 256" 256] by linarith
  finally show ?thesis .
qed

lemma length_u32_le [simp]: "length (u32_le n) = 4"
  by (simp add: u32_le_def)

lemma read_frame_clean_eof: "healthy r \<Longrightarrow> bytes_of r = [] \<Longrightarrow> read_frame fs vo bad r = Inr None"
proof -
  assume "healthy r" "bytes_of r = []"
  then have "\<exists>r'. read_exact_or_eof 8 [] r = CleanEof r'"
  proof (induction r)
    case (Cons x r)
    then show ?case by (cases x) auto
  qed simp
  then show ?thesis by (auto simp: read_frame_def)
qed

text \<open>A frame on the wire, its header being \<open>h\<close>, is read off the front of whatever follows it.\<close>

lemma read_frame_bytes:
  assumes "from_slice h = Some f" "f_msg f \<noteq> Unknown" "length h \<le> MAX_FRAME" "length pl \<le> MAX_FRAME"
    and "healthy r" "bytes_of r = u32_le (length h) @ u32_le (length pl) @ h @ pl @ rest"
  shows "\<exists>r'. read_frame from_slice value_of bad r = Inr (Some ((f, pl), r')) \<and> healthy r' \<and> bytes_of r' = rest"
proof -
  obtain r1 where r1: "read_exact_or_eof 8 [] r = Filled (u32_le (length h) @ u32_le (length pl)) r1"
    "healthy r1" "bytes_of r1 = h @ pl @ rest"
    using read_exact_or_eof_takes [OF assms(5), of 8 "[]"] assms(6) by auto
  obtain r2 where r2: "read_exact (length h) r1 = Inr (h, r2)" "healthy r2" "bytes_of r2 = pl @ rest"
    using read_exact_takes [OF r1(2), of "length h"] r1(3) by auto
  obtain r3 where r3: "read_exact (length pl) r2 = Inr (pl, r3)" "healthy r3" "bytes_of r3 = rest"
    using read_exact_takes [OF r2(2), of "length pl"] r2(3) by auto
  have "u32_of_le (u32_le (length h)) = length h" "u32_of_le (u32_le (length pl)) = length pl"
    using assms(3,4) by (simp_all add: MAX_FRAME_def u32_roundtrip)
  with r1 r2 r3 assms(1-4) show ?thesis
    by (auto simp: read_frame_def)
qed

section \<open>Properties\<close>

text \<open>C13: A frame written by \<open>write_frame\<close> is read back by \<open>read_frame\<close>, payload and all, however
  the socket cuts the bytes into chunks and however often a read is interrupted, and the reader
  is left at the first byte after the frame. The serializer is assumed to be read back by the
  deserializer on this header, and both lengths are within the reader's cap.\<close>

theorem read_frame_write_frame:
  assumes "from_slice (to_vec f) = Some f" "f_msg f \<noteq> Unknown"
    and "length (to_vec f) \<le> MAX_FRAME" "length pl \<le> MAX_FRAME"
    and "healthy r" "bytes_of r = write_frame to_vec f pl @ rest"
  shows "\<exists>r'. read_frame from_slice value_of bad r = Inr (Some ((f, pl), r'))
      \<and> healthy r' \<and> bytes_of r' = rest"
  using read_frame_bytes [of from_slice "to_vec f" f pl r rest] assms by (simp add: write_frame_def Let_def)

theorem read_frame_write_frame_witness:
  "\<exists>r'. read_frame (\<lambda>b. if b = [123, 125] then Some (frame_new 7 (A Ping)) else None) (\<lambda>_. None)
        (\<lambda>_. []) [Interrupted, Data [2, 0, 0, 0, 1, 0], Interrupted, Data [0, 0, 123], Data [125, 9, 5]]
      = Inr (Some ((frame_new 7 (A Ping), [9]), r'))
    \<and> healthy r' \<and> bytes_of r' = [5]"
  by (rule read_frame_write_frame [where to_vec = "\<lambda>_. [123, 125]" and f = "frame_new 7 (A Ping)"])
    (simp_all add: frame_new_def MAX_FRAME_def write_frame_def u32_le_def)

text \<open>\<open>read_frame\<close> refuses a frame whose header or payload length is over the cap from the eight
  length bytes alone: the rest of the stream is not read.\<close>

theorem read_frame_over_cap:
  assumes "healthy r" "bytes_of r = u32_le hlen @ u32_le plen @ rest"
    and "hlen < 2 ^ 32" "plen < 2 ^ 32" "MAX_FRAME < hlen \<or> MAX_FRAME < plen"
  shows "read_frame from_slice value_of bad r = Inl (InvalidData (header_too_long hlen plen))"
proof -
  obtain r1 where "read_exact_or_eof 8 [] r = Filled (u32_le hlen @ u32_le plen) r1"
    using read_exact_or_eof_takes [OF assms(1), of 8 "[]"] assms(2) by auto
  then show ?thesis using assms(3-5) by (simp add: read_frame_def u32_roundtrip)
qed

theorem read_frame_over_cap_witness:
  "read_frame (\<lambda>_. None) (\<lambda>_. None) (\<lambda>_. []) [Data [0, 0, 0, 17, 0, 0, 0, 0], Data [1, 2]]
     = Inl (InvalidData (header_too_long 285212672 0))"
  by (rule read_frame_over_cap [where rest = "[1, 2]"]) (simp_all add: u32_le_def MAX_FRAME_def)

end
