(* ===== verification/Island.thy ===== *)
theory Island
  imports Wire "HOL-Library.Multiset"
begin

text \<open>
  Fabric islands (\<open>rust/mentatd/src/island.rs\<close>): which nodes reach each other over an
  RDMA-tagged link, derived from tags and probes. The derivation walks the connected components
  of the port graph, keeps one port per node, and prunes what is left to a mutually connected
  set.
\<close>

section \<open>Data\<close>

type_synonym port = "string \<times> string"

record island =
  i_nodes :: "string list"
  i_addr :: "(string, string) table"

record fabrics =
  fb_islands :: "island list"
  fb_tagged :: "string list"

record fabric_view =
  v_rdma :: "(string, string list) table"
  v_ok_pairs :: "(string \<times> string) list"

record pruned =
  pr_node :: string
  pr_addr :: string
  pr_reaches :: nat
  pr_of :: nat

section \<open>The port graph\<close>

definition linked :: "fabric_view \<Rightarrow> string \<Rightarrow> string \<Rightarrow> bool" where
  "linked v a b \<longleftrightarrow> (a, b) \<in> set (v_ok_pairs v) \<or> (b, a) \<in> set (v_ok_pairs v)"

definition ports :: "fabric_view \<Rightarrow> port list" where
  "ports v = sort (concat (map (\<lambda>(n, addrs). map (Pair n) addrs) (v_rdma v)))"

definition joins :: "fabric_view \<Rightarrow> port \<Rightarrow> port \<Rightarrow> bool" where
  "joins v x y \<longleftrightarrow> fst x \<noteq> fst y \<and> linked v (snd x) (snd y)"

section \<open>The walk over one component\<close>

text \<open>The body of the walk: every port that joins \<open>p\<close> and is new goes on both lists.\<close>

definition expand ::
  "fabric_view \<Rightarrow> port \<Rightarrow> port list \<Rightarrow> port list \<times> port list \<Rightarrow> port list \<times> port list" where
  "expand v p ps = fold (\<lambda>q (cs, queue).
     if q \<notin> set cs \<and> joins v p q then (cs @ [q], queue @ [q]) else (cs, queue)) ps"

lemma expand_Nil [simp]: "expand v p [] cq = cq"
  by (simp add: expand_def)

lemma expand_Cons [simp]:
  "expand v p (q # ps) (cs, queue) =
     (if q \<notin> set cs \<and> joins v p q then expand v p ps (cs @ [q], queue @ [q])
      else expand v p ps (cs, queue))"
  by (simp add: expand_def)

lemma expand_appends:
  "expand v p ps (cs, queue) = (cs', queue') \<Longrightarrow>
     \<exists>new. cs' = cs @ new \<and> queue' = queue @ new \<and> distinct new \<and> set new \<inter> set cs = {}
        \<and> set new = {q \<in> set ps. joins v p q} - set cs"
proof (induction ps arbitrary: cs queue)
  case Nil
  then show ?case by simp
next
  case (Cons q ps)
  show ?case
  proof (cases "q \<notin> set cs \<and> joins v p q")
    case True
    with Cons.prems have "expand v p ps (cs @ [q], queue @ [q]) = (cs', queue')" by simp
    from Cons.IH [OF this] obtain new where new: "cs' = (cs @ [q]) @ new"
      "queue' = (queue @ [q]) @ new" "distinct new" "set new \<inter> set (cs @ [q]) = {}"
      "set new = {r \<in> set ps. joins v p r} - set (cs @ [q])"
      by blast
    from new(1,2) have "cs' = cs @ q # new" "queue' = queue @ q # new" by simp_all
    moreover have "distinct (q # new)" "set (q # new) \<inter> set cs = {}"
      using new(3,4) True by auto
    moreover have "set (q # new) = {r \<in> set (q # ps). joins v p r} - set cs"
      using new(5) True by auto
    ultimately show ?thesis by blast
  next
    case False
    with Cons.prems have "expand v p ps (cs, queue) = (cs', queue')" by auto
    from Cons.IH [OF this] False show ?thesis by auto
  qed
qed

text \<open>The loop: pop the last queued port, expand it, until the queue is empty.\<close>

function walk_component :: "fabric_view \<Rightarrow> port list \<Rightarrow> port list \<times> port list \<Rightarrow> port list" where
  "walk_component v ps (cs, queue) =
     (if queue = [] then cs
      else walk_component v ps (expand v (last queue) ps (cs, butlast queue)))"
  by pat_completeness auto

text \<open>Each round takes a port off the queue, and every port it adds is new to the component.\<close>

lemma expand_measure:
  assumes "expand v p ps (cs, butlast queue) = (cs', queue')" "queue \<noteq> []"
  shows "2 * card (set ps - set cs') + length queue' < 2 * card (set ps - set cs) + length queue"
proof -
  from expand_appends [OF assms(1)] obtain new where new: "cs' = cs @ new"
    "queue' = butlast queue @ new" "distinct new" "set new \<inter> set cs = {}"
    "set new = {q \<in> set ps. joins v p q} - set cs"
    by blast
  have sub: "set new \<subseteq> set ps - set cs" using new(5) by auto
  have "set ps - set cs' = (set ps - set cs) - set new" using new(1) by auto
  then have "card (set ps - set cs') = card (set ps - set cs) - length new"
    using sub new(3) by (simp add: card_Diff_subset distinct_card)
  moreover have "length new \<le> card (set ps - set cs)"
    using sub new(3) by (metis card_mono distinct_card finite_Diff finite_set)
  moreover have "length queue' + 1 = length queue + length new"
    using new(2) assms(2) by (cases queue rule: rev_cases) auto
  ultimately show ?thesis by linarith
qed

termination walk_component
  by (relation "measure (\<lambda>(v, ps, cs, queue). 2 * card (set ps - set cs) + length queue)")
    (auto dest: expand_measure split: prod.splits)

declare walk_component.simps [simp del]

section \<open>Pruning\<close>

definition degree :: "fabric_view \<Rightarrow> port list \<Rightarrow> port \<Rightarrow> nat" where
  "degree v cs p = length (filter (\<lambda>q. joins v p q) cs)"

text \<open>\<open>dedup_by\<close> on the node: the first port of each run of ports of one node is kept.\<close>

fun dedup_node :: "port list \<Rightarrow> port list" where
  "dedup_node [] = []"
| "dedup_node [p] = [p]"
| "dedup_node (p # q # ps) =
     (if fst q = fst p then dedup_node (p # ps) else p # dedup_node (q # ps))"

definition one_port_per_node :: "fabric_view \<Rightarrow> port list \<Rightarrow> port list" where
  "one_port_per_node v cs =
     dedup_node (sort_key (\<lambda>p. (fst p, - int (degree v cs p), snd p)) cs)"

text \<open>The least of the \<open>(degree, port)\<close> pairs.\<close>

definition worst :: "fabric_view \<Rightarrow> port list \<Rightarrow> nat \<times> port" where
  "worst v cs = min_list (map (\<lambda>p. (degree v cs p, p)) cs)"

lemma worst_in: "cs \<noteq> [] \<Longrightarrow> \<exists>p \<in> set cs. worst v cs = (degree v cs p, p)"
proof -
  assume "cs \<noteq> []"
  then have "worst v cs \<in> set (map (\<lambda>p. (degree v cs p, p)) cs)"
    unfolding worst_def by (subst min_list_Min) (auto intro!: Min_in)
  then show ?thesis by auto
qed

function prune :: "fabric_view \<Rightarrow> port list \<Rightarrow> pruned list \<Rightarrow> port list \<times> pruned list" where
  "prune v cs acc =
     (if cs = [] then (cs, acc)
      else (let (deg, port) = worst v cs
            in if deg + 1 \<ge> length cs then (cs, acc)
               else prune v (filter (\<lambda>q. q \<noteq> port) cs)
                 (acc @ [\<lparr>pr_node = fst port, pr_addr = snd port, pr_reaches = deg,
                          pr_of = length cs - 1\<rparr>])))"
  by pat_completeness auto

lemma length_filter_neq_less: "x \<in> set xs \<Longrightarrow> length (filter (\<lambda>y. y \<noteq> x) xs) < length xs"
  by (induction xs) (auto simp: less_Suc_eq_le)

termination prune
proof (relation "measure (\<lambda>(v, cs, acc). length cs)", goal_cases)
  case (2 v cs acc x deg port)
  with worst_in [of cs v] show ?case by (auto intro: length_filter_neq_less)
qed simp

declare prune.simps [simp del]

section \<open>The islands\<close>

text \<open>The islands and the pruned ports of one component.\<close>

definition component_island :: "fabric_view \<Rightarrow> port list \<Rightarrow> island list \<times> pruned list" where
  "component_island v cs =
     (let (kept, pr) = prune v (one_port_per_node v cs) []
      in (if length kept < 2 then []
          else [\<lparr>i_nodes = map fst (sort kept), i_addr = bt_of_list (sort kept)\<rparr>], pr))"

text \<open>The loop over the seeds: \<open>placed\<close> holds every port of a component met before.\<close>

fun seed_loop ::
  "fabric_view \<Rightarrow> port list \<Rightarrow> port list \<Rightarrow> port list \<Rightarrow> island list \<times> pruned list" where
  "seed_loop v ps [] placed = ([], [])"
| "seed_loop v ps (seed # seeds) placed =
     (if seed \<in> set placed then seed_loop v ps seeds placed
      else (let cs = walk_component v ps ([seed], [seed]);
                (isl, pr) = component_island v cs;
                (isls, prs) = seed_loop v ps seeds (placed @ cs)
            in (isl @ isls, pr @ prs)))"

definition islands :: "fabric_view \<Rightarrow> island list \<times> pruned list" where
  "islands v = (let (out, pr) = seed_loop v (ports v) (ports v) []
     in (sort_key i_nodes out, pr))"

definition fabrics_of :: "fabric_view \<Rightarrow> fabrics \<times> pruned list" where
  "fabrics_of v = (let (isl, pr) = islands v
     in (\<lparr>fb_islands = isl, fb_tagged = map fst (v_rdma v)\<rparr>, pr))"

section \<open>Gathering the view\<close>

definition has_rdma_tag :: "(string, string list) table \<Rightarrow> string \<Rightarrow> bool" where
  "has_rdma_tag tags a = (case map_of tags a of None \<Rightarrow> False | Some t \<Rightarrow> ''rdma'' \<in> set t)"

definition note_node ::
  "string \<Rightarrow> string list \<Rightarrow> (string, string list) table \<Rightarrow> fabric_view \<Rightarrow> fabric_view" where
  "note_node node addrs tags v =
     (let tagged = filter (has_rdma_tag tags) addrs
      in if tagged = [] then v else v\<lparr>v_rdma := bt_insert node tagged (v_rdma v)\<rparr>)"

definition add_pair :: "string \<Rightarrow> string \<Rightarrow> fabric_view \<Rightarrow> fabric_view" where
  "add_pair a b v = v\<lparr>v_ok_pairs := bs_insert (a, b) (v_ok_pairs v)\<rparr>"

definition tag_map :: "json \<Rightarrow> (string, string list) table" where
  "tag_map v = bt_of_list (map (\<lambda>(k, t). (k, str_list t)) (entries v))"

text \<open>The successful pairs of a published probe table.\<close>

definition published_ok :: "json \<Rightarrow> (string \<times> string) list" where
  "published_ok probes =
     concat (map (\<lambda>(local, remotes).
       map (\<lambda>(remote, r). (local, remote))
         (filter (\<lambda>(remote, r). as_bool (jget r ''ok'') = Some True) (entries remotes)))
       (entries probes))"

definition merge_peer :: "string \<times> json \<Rightarrow> fabric_view \<Rightarrow> fabric_view" where
  "merge_peer = (\<lambda>(id, q) v.
     if as_bool (jget q ''alive'') \<noteq> Some True then v
     else fold (\<lambda>(a, b). add_pair a b) (published_ok (jget q ''probes''))
            (note_node id (str_list (jget q ''addrs'')) (tag_map (jget q ''addr_tags'')) v))"

definition merge_published :: "json \<Rightarrow> fabric_view \<Rightarrow> fabric_view" where
  "merge_published peers v = fold merge_peer (entries peers) v"

section \<open>Lemmas on the graph\<close>

lemma linked_sym: "linked v a b \<longleftrightarrow> linked v b a"
  by (auto simp: linked_def)

lemma joins_sym: "joins v x y \<longleftrightarrow> joins v y x"
  by (auto simp: joins_def linked_sym)

lemma joins_irrefl [simp]: "\<not> joins v x x"
  by (simp add: joins_def)

lemma in_ports: "p \<in> set (ports v) \<longleftrightarrow> (\<exists>addrs. (fst p, addrs) \<in> set (v_rdma v) \<and> snd p \<in> set addrs)"
  by (cases p) (force simp: ports_def)

section \<open>Lemmas on the walk\<close>

abbreviation port_step :: "fabric_view \<Rightarrow> port list \<Rightarrow> (port \<times> port) set" where
  "port_step v ps \<equiv> {(p, q). q \<in> set ps \<and> joins v p q}"

text \<open>The walk keeps what it has, stays reachable, and closes whatever has left the queue.\<close>

lemma walk_component_keeps: "set cs \<subseteq> set (walk_component v ps (cs, queue))"
proof (induction v ps "(cs, queue)" arbitrary: cs queue rule: walk_component.induct)
  case (1 v ps cs queue)
  show ?case
  proof (cases "queue = []")
    case True
    then show ?thesis by (simp add: walk_component.simps)
  next
    case False
    obtain cs' queue' where e: "expand v (last queue) ps (cs, butlast queue) = (cs', queue')"
      by fastforce
    from 1 [OF False e] expand_appends [OF e] False e show ?thesis
      by (subst walk_component.simps) auto
  qed
qed

lemma walk_component_reaches:
  assumes "set queue \<subseteq> set cs" "\<forall>p \<in> set cs. (s, p) \<in> (port_step v ps)\<^sup>*"
  shows "\<forall>p \<in> set (walk_component v ps (cs, queue)). (s, p) \<in> (port_step v ps)\<^sup>*"
  using assms
proof (induction v ps "(cs, queue)" arbitrary: cs queue rule: walk_component.induct)
  case (1 v ps cs queue)
  show ?case
  proof (cases "queue = []")
    case True
    with 1(3) show ?thesis by (simp add: walk_component.simps)
  next
    case False
    obtain cs' queue' where e: "expand v (last queue) ps (cs, butlast queue) = (cs', queue')"
      by fastforce
    from expand_appends [OF e] obtain new where new: "cs' = cs @ new" "queue' = butlast queue @ new"
      "set new \<subseteq> {q \<in> set ps. joins v (last queue) q}" by blast
    have "(s, last queue) \<in> (port_step v ps)\<^sup>*" using False 1(2,3) last_in_set by blast
    then have "\<forall>q \<in> set new. (s, q) \<in> (port_step v ps)\<^sup>*"
      using new(3) by (auto intro: rtrancl_into_rtrancl)
    with new 1(2,3) have "set queue' \<subseteq> set cs'" "\<forall>p \<in> set cs'. (s, p) \<in> (port_step v ps)\<^sup>*"
      by (auto dest: in_set_butlastD)
    from 1(1) [OF False e this] False e show ?thesis
      by (subst walk_component.simps) simp
  qed
qed

lemma walk_component_closed:
  assumes "set queue \<subseteq> set cs"
    and "\<forall>p \<in> set cs - set queue. \<forall>q \<in> set ps. joins v p q \<longrightarrow> q \<in> set cs"
  shows "\<forall>p \<in> set (walk_component v ps (cs, queue)). \<forall>q \<in> set ps.
      joins v p q \<longrightarrow> q \<in> set (walk_component v ps (cs, queue))"
  using assms
proof (induction v ps "(cs, queue)" arbitrary: cs queue rule: walk_component.induct)
  case (1 v ps cs queue)
  show ?case
  proof (cases "queue = []")
    case True
    with 1(3) show ?thesis by (simp add: walk_component.simps)
  next
    case False
    obtain cs' queue' where e: "expand v (last queue) ps (cs, butlast queue) = (cs', queue')"
      by fastforce
    from expand_appends [OF e] obtain new where new: "cs' = cs @ new" "queue' = butlast queue @ new"
      "set new = {q \<in> set ps. joins v (last queue) q} - set cs" by blast
    have q: "set queue = insert (last queue) (set (butlast queue))"
      using False by (cases queue rule: rev_cases) auto
    from new q 1(2) have sub: "set queue' \<subseteq> set cs'" by auto
    have closed: "\<forall>p \<in> set cs' - set queue'. \<forall>r \<in> set ps. joins v p r \<longrightarrow> r \<in> set cs'"
    proof (intro ballI impI)
      fix p r assume p: "p \<in> set cs' - set queue'" and r: "r \<in> set ps" "joins v p r"
      show "r \<in> set cs'"
      proof (cases "p = last queue")
        case True
        with r new show ?thesis by auto
      next
        case False
        with p new q have "p \<in> set cs - set queue" by auto
        with 1(3) r have "r \<in> set cs" by blast
        with new show ?thesis by simp
      qed
    qed
    have "walk_component v ps (cs, queue) = walk_component v ps (cs', queue')"
      using False e by (simp add: walk_component.simps [of v ps cs queue])
    with 1(1) [OF False e sub closed] show ?thesis by simp
  qed
qed

lemma component_reaches:
  "p \<in> set (walk_component v ps ([s], [s])) \<Longrightarrow> (s, p) \<in> (port_step v ps)\<^sup>*"
  using walk_component_reaches [where queue = "[s]" and cs = "[s]" and s = s and v = v and ps = ps]
  by simp

lemma component_has_seed: "s \<in> set (walk_component v ps ([s], [s]))"
  using walk_component_keeps [of "[s]" v ps "[s]"] by simp

lemma component_closed:
  assumes "p \<in> set (walk_component v ps ([s], [s]))" "q \<in> set ps" "joins v p q"
  shows "q \<in> set (walk_component v ps ([s], [s]))"
  using walk_component_closed [where queue = "[s]" and cs = "[s]" and v = v and ps = ps] assms
  by simp

section \<open>Lemmas on pruning\<close>

lemma set_dedup_node: "set (dedup_node ps) \<subseteq> set ps"
  by (induction ps rule: dedup_node.induct) auto

lemma dedup_node_strict: "sorted (map fst ps) \<Longrightarrow> sorted_wrt (<) (map fst (dedup_node ps))"
proof (induction ps rule: dedup_node.induct)
  case (3 p q ps)
  show ?case
  proof (cases "fst q = fst p")
    case False
    with 3(3) have "fst p < fst q" by (auto simp: order.strict_iff_order)
    moreover have "\<forall>x \<in> set (dedup_node (q # ps)). fst q \<le> fst x"
      using 3(3) set_dedup_node [of "q # ps"] by auto
    moreover have "sorted_wrt (<) (map fst (dedup_node (q # ps)))"
      using 3(2) [OF False] 3(3) by simp
    ultimately show ?thesis using False by fastforce
  qed (use 3 in auto)
qed auto

lemma sorted_fst_sort_key:
  "sorted (map fst (sort_key (\<lambda>p. (fst p, f p)) xs))"
proof -
  let ?ys = "sort_key (\<lambda>p. (fst p, f p)) xs"
  have "sorted (map (\<lambda>p. (fst p, f p)) ?ys)" by (rule sorted_sort_key)
  then have "sorted_wrt (\<lambda>x y. (fst x, f x) \<le> (fst y, f y)) ?ys" by (simp add: sorted_map)
  then have "sorted_wrt (\<lambda>x y. fst x \<le> fst y) ?ys" by (rule sorted_wrt_mono_rel [rotated]) auto
  then show ?thesis by (simp add: sorted_map)
qed

lemma one_port_per_node_strict: "sorted_wrt (<) (map fst (one_port_per_node v cs))"
  unfolding one_port_per_node_def by (rule dedup_node_strict) (rule sorted_fst_sort_key)

lemma set_one_port_per_node: "set (one_port_per_node v cs) \<subseteq> set cs"
  using set_dedup_node by (fastforce simp: one_port_per_node_def)

lemma worst_least: "p \<in> set cs \<Longrightarrow> fst (worst v cs) \<le> degree v cs p"
proof -
  assume p: "p \<in> set cs"
  then have "worst v cs \<le> (degree v cs p, p)"
    unfolding worst_def by (subst min_list_Min) (auto intro!: Min_le)
  then show ?thesis by (cases "worst v cs") auto
qed

text \<open>What is left after pruning is part of what went in, and no port is short of a link.\<close>

lemma prune_result:
  assumes "prune v cs acc = (kept, prs)"
  shows "set kept \<subseteq> set cs \<and> (\<exists>P. kept = filter P cs)
     \<and> (\<forall>p \<in> set kept. length kept \<le> degree v kept p + 1)"
  using assms
proof (induction v cs acc rule: prune.induct)
  case (1 v cs acc)
  show ?case
  proof (cases "cs = []")
    case True
    with "1.prems" show ?thesis by (simp add: prune.simps)
  next
    case False
    obtain deg port where w: "worst v cs = (deg, port)" by (cases "worst v cs") simp
    show ?thesis
    proof (cases "deg + 1 \<ge> length cs")
      case True
      with False w "1.prems" have "kept = cs" by (simp add: prune.simps)
      moreover have "\<exists>P. cs = filter P cs" by (rule exI [of _ "\<lambda>_. True"]) simp
      moreover have "\<forall>p \<in> set cs. deg \<le> degree v cs p"
        using worst_least [of _ cs v] w by force
      ultimately show ?thesis using True by fastforce
    next
      case more: False
      let ?cs = "filter (\<lambda>q. q \<noteq> port) cs"
      from "1.prems" False more w have "prune v ?cs (acc @ [\<lparr>pr_node = fst port, pr_addr = snd port,
          pr_reaches = deg, pr_of = length cs - 1\<rparr>]) = (kept, prs)"
        by (subst (asm) prune.simps) simp
      from "1.IH" [OF False w [symmetric] refl more this]
      obtain P where "set kept \<subseteq> set ?cs" "kept = filter P ?cs"
        "\<forall>p \<in> set kept. length kept \<le> degree v kept p + 1" by blast
      moreover from this(2) have "kept = filter (\<lambda>x. x \<noteq> port \<and> P x) cs" by (simp add: conj_commute)
      ultimately show ?thesis by auto
    qed
  qed
qed

lemma full_degree_joins_all:
  assumes "distinct kept" "length kept \<le> degree v kept p + 1" "p \<in> set kept" "q \<in> set kept" "p \<noteq> q"
  shows "joins v p q"
proof (rule ccontr)
  assume "\<not> joins v p q"
  then have "set (filter (joins v p) kept) \<subseteq> set kept - {p, q}" by auto
  then have "card (set (filter (joins v p) kept)) \<le> card (set kept - {p, q})"
    by (intro card_mono) auto
  moreover have "card (set (filter (joins v p) kept)) = degree v kept p"
    using assms(1) by (metis degree_def distinct_card distinct_filter)
  moreover have "card (set kept - {p, q}) = length kept - 2"
    using assms by (simp add: card_Diff_subset distinct_card)
  moreover have "2 \<le> length kept"
    using assms(3-5) by (cases kept; cases "tl kept") auto
  ultimately show False using assms(2) by linarith
qed

section \<open>Lemmas on the islands\<close>

lemma sort_strict_fst:
  assumes "sorted_wrt (<) (map fst (ps :: port list))"
  shows "sort ps = ps"
proof (rule sort_key_id_if_sorted)
  from assms have "sorted_wrt (\<lambda>x y. fst x < fst y) ps" by (simp add: sorted_wrt_map)
  then have "sorted_wrt (\<le>) ps" by (rule sorted_wrt_mono_rel [rotated]) (auto simp: less_eq_prod_def)
  then show "sorted (map (\<lambda>x. x) ps)" by simp
qed

lemma kept_strict:
  assumes "prune v (one_port_per_node v cs) [] = (kept, prs)"
  shows "sorted_wrt (<) (map fst kept)"
proof -
  from prune_result [OF assms] obtain P where "kept = filter P (one_port_per_node v cs)" by blast
  then show ?thesis
    using one_port_per_node_strict [of v cs] by (simp add: sorted_wrt_map sorted_wrt_filter)
qed

lemma kept_subset:
  assumes "prune v (one_port_per_node v cs) [] = (kept, prs)"
  shows "set kept \<subseteq> set cs"
  using prune_result [OF assms] set_one_port_per_node by blast

lemma component_islandE:
  assumes "i \<in> set (fst (component_island v cs))"
  obtains kept prs where "prune v (one_port_per_node v cs) [] = (kept, prs)"
    "i = \<lparr>i_nodes = map fst kept, i_addr = kept\<rparr>" "2 \<le> length kept" "set kept \<subseteq> set cs"
proof -
  obtain kept prs where p: "prune v (one_port_per_node v cs) [] = (kept, prs)"
    by (cases "prune v (one_port_per_node v cs) []") simp
  have "sort kept = kept" "bt_of_list kept = kept"
    using kept_strict [OF p] by (auto intro: sort_strict_fst bt_of_list_sorted simp: bt_wf_def)
  with p assms have "i = \<lparr>i_nodes = map fst kept, i_addr = kept\<rparr>" "2 \<le> length kept"
    by (auto simp: component_island_def split: if_splits)
  with that p kept_subset [OF p] show ?thesis by blast
qed

lemma seed_loop_from_component:
  "i \<in> set (fst (seed_loop v ps seeds placed)) \<Longrightarrow>
     \<exists>seed \<in> set seeds. i \<in> set (fst (component_island v (walk_component v ps ([seed], [seed]))))"
proof (induction seeds arbitrary: placed)
  case (Cons seed seeds)
  let ?cs = "walk_component v ps ([seed], [seed])"
  show ?case
  proof (cases "seed \<in> set placed")
    case True
    with Cons show ?thesis by auto
  next
    case False
    then have "fst (seed_loop v ps (seed # seeds) placed) =
        fst (component_island v ?cs) @ fst (seed_loop v ps seeds (placed @ ?cs))"
      by (simp add: Let_def split: prod.splits)
    with Cons.prems have "i \<in> set (fst (component_island v ?cs)) \<or>
        i \<in> set (fst (seed_loop v ps seeds (placed @ ?cs)))" by simp
    with Cons.IH [of "placed @ ?cs"] show ?thesis by auto
  qed
qed simp

lemma set_islands: "set (fst (islands v)) = set (fst (seed_loop v (ports v) (ports v) []))"
  by (simp add: islands_def split: prod.splits)

text \<open>Ports reached from a seed are ports.\<close>

lemma reach_in_ports: "(s, p) \<in> (port_step v ps)\<^sup>* \<Longrightarrow> s \<in> set ps \<Longrightarrow> p \<in> set ps"
  by (induction rule: rtrancl_induct) auto

lemma walk_component_subset: "s \<in> set ps \<Longrightarrow> set (walk_component v ps ([s], [s])) \<subseteq> set ps"
  using component_reaches reach_in_ports by blast

text \<open>A set of ports closed under joining is left by no walk that starts outside it.\<close>

lemma reach_avoids_closed:
  assumes "(s, p) \<in> (port_step v ps)\<^sup>*" "s \<in> set ps" "s \<notin> S"
    and "\<And>x y. x \<in> S \<Longrightarrow> y \<in> set ps \<Longrightarrow> joins v x y \<Longrightarrow> y \<in> S"
  shows "p \<notin> S"
  using assms(1)
proof (induction rule: rtrancl_induct)
  case (step y z)
  have "y \<in> set ps" using step(1) assms(2) by (rule reach_in_ports)
  with step assms(4) [of z y] joins_sym show ?case by blast
qed (rule assms(3))

lemma walk_avoids_closed:
  assumes "s \<in> set ps" "s \<notin> S" "\<And>x y. x \<in> S \<Longrightarrow> y \<in> set ps \<Longrightarrow> joins v x y \<Longrightarrow> y \<in> S"
  shows "set (walk_component v ps ([s], [s])) \<inter> S = {}"
  using component_reaches reach_avoids_closed [OF _ assms(1,2)] assms(3) by blast

lemma component_island_ports:
  "distinct (concat (map i_addr (fst (component_island v cs)))) \<and>
   set (concat (map i_addr (fst (component_island v cs)))) \<subseteq> set cs"
proof -
  obtain kept prs where p: "prune v (one_port_per_node v cs) [] = (kept, prs)"
    by (cases "prune v (one_port_per_node v cs) []") simp
  have strict: "sorted_wrt (<) (map fst kept)" by (rule kept_strict [OF p])
  then have "distinct kept" by (simp add: strict_sorted_iff distinct_map)
  moreover have "sort kept = kept" "bt_of_list kept = kept"
    using strict by (auto intro: sort_strict_fst bt_of_list_sorted simp: bt_wf_def)
  ultimately show ?thesis using p kept_subset [OF p] by (simp add: component_island_def)
qed

lemma seed_loop_disjoint:
  assumes "set seeds \<subseteq> set ps"
    and "\<And>x y. x \<in> set placed \<Longrightarrow> y \<in> set ps \<Longrightarrow> joins v x y \<Longrightarrow> y \<in> set placed"
  shows "distinct (concat (map i_addr (fst (seed_loop v ps seeds placed)))) \<and>
     set (concat (map i_addr (fst (seed_loop v ps seeds placed)))) \<inter> set placed = {}"
  using assms
proof (induction seeds arbitrary: placed)
  case (Cons seed seeds)
  show ?case
  proof (cases "seed \<in> set placed")
    case True
    with Cons show ?thesis by simp
  next
    case False
    let ?cs = "walk_component v ps ([seed], [seed])"
    let ?isl = "concat (map i_addr (fst (component_island v ?cs)))"
    let ?rest = "concat (map i_addr (fst (seed_loop v ps seeds (placed @ ?cs))))"
    have cs: "set ?cs \<inter> set placed = {}"
      using Cons.prems False by (intro walk_avoids_closed) auto
    have closed: "x \<in> set (placed @ ?cs) \<Longrightarrow> y \<in> set ps \<Longrightarrow> joins v x y \<Longrightarrow> y \<in> set (placed @ ?cs)" for x y
      using Cons.prems(2) [of x y] component_closed [of x v ps seed y] by auto
    have "set seeds \<subseteq> set ps" using Cons.prems(1) by simp
    from Cons.IH [OF this closed]
    have rest: "distinct ?rest" "set ?rest \<inter> set (placed @ ?cs) = {}" by simp_all
    have isl: "distinct ?isl" "set ?isl \<subseteq> set ?cs" using component_island_ports by blast+
    have "concat (map i_addr (fst (seed_loop v ps (seed # seeds) placed))) = ?isl @ ?rest"
      using False by (simp add: Let_def split: prod.splits)
    with rest isl cs show ?thesis by (auto simp del: concat.simps)
  qed
qed simp

text \<open>A component that is a clique already, one port per node, is kept whole.\<close>

lemma walk_component_distinct:
  "distinct cs \<Longrightarrow> distinct (walk_component v ps (cs, queue))"
proof (induction v ps "(cs, queue)" arbitrary: cs queue rule: walk_component.induct)
  case (1 v ps cs queue)
  show ?case
  proof (cases "queue = []")
    case True
    with 1(2) show ?thesis by (simp add: walk_component.simps)
  next
    case False
    obtain cs' queue' where e: "expand v (last queue) ps (cs, butlast queue) = (cs', queue')"
      by fastforce
    from expand_appends [OF e] 1(2) have "distinct cs'" by fastforce
    from 1(1) [OF False e this] False e show ?thesis by (subst walk_component.simps) simp
  qed
qed

lemma dedup_node_distinct: "distinct (map fst ps) \<Longrightarrow> dedup_node ps = ps"
  by (induction ps rule: dedup_node.induct) auto

lemma prune_clique:
  assumes "\<And>p. p \<in> set cs \<Longrightarrow> length cs \<le> degree v cs p + 1"
  shows "prune v cs acc = (cs, acc)"
  using worst_in [of cs v] assms by (subst prune.simps) auto

lemma clique_degree:
  assumes "distinct cs" "p \<in> set cs" "\<And>q. q \<in> set cs \<Longrightarrow> q \<noteq> p \<Longrightarrow> joins v p q"
  shows "degree v cs p = length cs - 1"
proof -
  have "filter (joins v p) cs = filter (\<lambda>q. q \<noteq> p) cs"
    using assms(3) by (intro filter_cong) auto
  moreover have "length (filter (\<lambda>q. q \<noteq> p) cs) = card (set cs - {p})"
    using assms(1) distinct_card [of "filter (\<lambda>q. q \<noteq> p) cs"] by (simp add: set_diff_eq)
  ultimately show ?thesis using assms(1,2) by (simp add: degree_def distinct_card)
qed

text \<open>Ports that all join one another, and no port besides.\<close>

definition closed_clique :: "fabric_view \<Rightarrow> port set \<Rightarrow> bool" where
  "closed_clique v S \<longleftrightarrow> S \<subseteq> set (ports v) \<and> (\<forall>p \<in> S. \<forall>q \<in> S. p \<noteq> q \<longrightarrow> joins v p q)
     \<and> (\<forall>p \<in> S. \<forall>q \<in> set (ports v). joins v p q \<longrightarrow> q \<in> S)"

lemma closed_cliqueD:
  assumes "closed_clique v S" "p \<in> S"
  shows "p \<in> set (ports v)" "q \<in> S \<Longrightarrow> p \<noteq> q \<Longrightarrow> joins v p q"
    "q \<in> set (ports v) \<Longrightarrow> joins v p q \<Longrightarrow> q \<in> S"
  using assms unfolding closed_clique_def by blast+

lemma clique_walk:
  assumes "closed_clique v S" "s \<in> S"
  shows "set (walk_component v (ports v) ([s], [s])) = S"
proof
  have "p \<in> S" if "(s, p) \<in> (port_step v (ports v))\<^sup>*" for p
    using that
  proof (induction rule: rtrancl_induct)
    case (step y z)
    with closed_cliqueD(3) [OF assms(1), of y z] show ?case by simp
  qed (rule assms(2))
  then show "set (walk_component v (ports v) ([s], [s])) \<subseteq> S" using component_reaches by blast
  show "S \<subseteq> set (walk_component v (ports v) ([s], [s]))"
  proof
    fix p assume p: "p \<in> S"
    show "p \<in> set (walk_component v (ports v) ([s], [s]))"
    proof (cases "p = s")
      case False
      with p assms have "joins v s p" "p \<in> set (ports v)"
        using closed_cliqueD(1,2) by metis+
      with component_closed [OF component_has_seed] show ?thesis by blast
    qed (simp add: component_has_seed)
  qed
qed

lemma clique_island:
  assumes "closed_clique v S" "s \<in> S" "2 \<le> card S"
  shows "\<exists>i \<in> set (fst (component_island v (walk_component v (ports v) ([s], [s])))). set (i_addr i) = S"
proof -
  let ?cs = "walk_component v (ports v) ([s], [s])"
  let ?sorted = "sort_key (\<lambda>p. (fst p, - int (degree v ?cs p), snd p)) ?cs"
  have set_cs: "set ?cs = S" by (rule clique_walk [OF assms(1,2)])
  have dist: "distinct ?sorted" using walk_component_distinct [of "[s]"] by simp
  have "inj_on fst S"
  proof (rule inj_onI, rule ccontr)
    fix p q assume "p \<in> S" "q \<in> S" "fst p = fst q" "p \<noteq> q"
    with closed_cliqueD(2) [OF assms(1), of p q] show False by (simp add: joins_def)
  qed
  with dist set_cs have "distinct (map fst ?sorted)" by (simp add: distinct_map)
  then have one: "one_port_per_node v ?cs = ?sorted"
    unfolding one_port_per_node_def by (rule dedup_node_distinct)
  have len: "length ?sorted = card S" using distinct_card [OF dist] set_cs by simp
  have "degree v ?sorted p = length ?sorted - 1" if "p \<in> set ?sorted" for p
  proof (rule clique_degree [OF dist that])
    fix q assume "q \<in> set ?sorted" "q \<noteq> p"
    with that set_cs have "p \<in> S" "q \<in> S" "p \<noteq> q" by simp_all
    then show "joins v p q" using closed_cliqueD(2) [OF assms(1)] by simp
  qed
  then have kept: "prune v ?sorted [] = (?sorted, [])" by (intro prune_clique) auto
  then have strict: "sorted_wrt (<) (map fst ?sorted)"
    using kept_strict [of v ?cs] one by simp
  then have "sort ?sorted = ?sorted" "bt_of_list ?sorted = ?sorted"
    by (auto intro: sort_strict_fst bt_of_list_sorted simp: bt_wf_def)
  with one kept len assms(3) set_cs show ?thesis by (simp add: component_island_def)
qed

lemma seed_loop_finds_clique:
  assumes "closed_clique v S" "2 \<le> card S" "set seeds \<subseteq> set (ports v)"
    and "S \<inter> set seeds \<noteq> {}" "S \<inter> set placed = {}"
  shows "\<exists>i \<in> set (fst (seed_loop v (ports v) seeds placed)). set (i_addr i) = S"
  using assms(3-5)
proof (induction seeds arbitrary: placed)
  case (Cons seed seeds)
  let ?cs = "walk_component v (ports v) ([seed], [seed])"
  show ?case
  proof (cases "seed \<in> set placed")
    case True
    with Cons show ?thesis by auto
  next
    case False
    then have loop: "fst (seed_loop v (ports v) (seed # seeds) placed) =
        fst (component_island v ?cs) @ fst (seed_loop v (ports v) seeds (placed @ ?cs))"
      by (simp add: Let_def split: prod.splits)
    show ?thesis
    proof (cases "seed \<in> S")
      case True
      with loop clique_island [OF assms(1) True assms(2)] show ?thesis by auto
    next
      case out: False
      have "set ?cs \<inter> S = {}"
      proof (rule walk_avoids_closed)
        show "seed \<in> set (ports v)" using Cons.prems(1) by simp
        show "seed \<notin> S" by (rule out)
        show "\<And>x y. x \<in> S \<Longrightarrow> y \<in> set (ports v) \<Longrightarrow> joins v x y \<Longrightarrow> y \<in> S"
          by (rule closed_cliqueD(3) [OF assms(1)])
      qed
      with Cons.prems out have "set seeds \<subseteq> set (ports v)" "S \<inter> set seeds \<noteq> {}"
        "S \<inter> set (placed @ ?cs) = {}" by auto
      from Cons.IH [OF this] loop show ?thesis by auto
    qed
  qed
qed simp

section \<open>Properties of the islands\<close>

text \<open>C10: an island is what its clients assume it is. It has at least two nodes, listed once
  each in ascending order with one address per node; every address is a tagged port of its node;
  and any two of its ports have a probe that answered, in one direction or the other.\<close>

theorem islands_sound:
  assumes "i \<in> set (fst (islands v))"
  shows "2 \<le> length (i_nodes i) \<and> sorted_wrt (<) (i_nodes i) \<and> map fst (i_addr i) = i_nodes i
    \<and> (\<forall>p \<in> set (i_addr i). \<exists>addrs. (fst p, addrs) \<in> set (v_rdma v) \<and> snd p \<in> set addrs)
    \<and> (\<forall>p \<in> set (i_addr i). \<forall>q \<in> set (i_addr i). p \<noteq> q \<longrightarrow> linked v (snd p) (snd q))"
proof -
  from assms seed_loop_from_component obtain s where s: "s \<in> set (ports v)"
    "i \<in> set (fst (component_island v (walk_component v (ports v) ([s], [s]))))"
    unfolding set_islands by blast
  from s(2) obtain kept prs
    where k: "prune v (one_port_per_node v (walk_component v (ports v) ([s], [s]))) [] = (kept, prs)"
      "i = \<lparr>i_nodes = map fst kept, i_addr = kept\<rparr>" "2 \<le> length kept"
      "set kept \<subseteq> set (walk_component v (ports v) ([s], [s]))"
    by (rule component_islandE)
  have strict: "sorted_wrt (<) (map fst kept)" by (rule kept_strict [OF k(1)])
  then have dist: "distinct kept" by (simp add: strict_sorted_iff distinct_map)
  have "set kept \<subseteq> set (ports v)" using k(4) walk_component_subset [OF s(1)] by blast
  then have "\<forall>p \<in> set kept. \<exists>addrs. (fst p, addrs) \<in> set (v_rdma v) \<and> snd p \<in> set addrs"
    using in_ports by blast
  moreover have "linked v (snd p) (snd q)" if "p \<in> set kept" "q \<in> set kept" "p \<noteq> q" for p q
    using full_degree_joins_all [OF dist _ that] prune_result [OF k(1)] that by (auto simp: joins_def)
  ultimately show ?thesis using k(2,3) strict by simp
qed

text \<open>No port is in two islands, or in one of them twice.\<close>

theorem islands_disjoint: "distinct (concat (map i_addr (fst (islands v))))"
proof -
  let ?out = "fst (seed_loop v (ports v) (ports v) [])"
  have perm: "mset (fst (islands v)) = mset ?out"
    by (simp add: islands_def split: prod.splits)
  have "distinct (concat (map i_addr ?out))"
    using seed_loop_disjoint [of "ports v" "ports v" "[]" v] by simp
  moreover have "mset (concat (map i_addr (fst (islands v)))) = mset (concat (map i_addr ?out))"
    unfolding mset_concat map_map by (metis perm mset_map sum_mset_sum_list)
  ultimately show ?thesis by (metis mset_eq_imp_distinct_iff)
qed

text \<open>C11: the derivation misses nothing it should keep. Two or more tagged ports that all reach
  one another, and reach no port besides, are the ports of one island.\<close>

theorem islands_complete:
  assumes "closed_clique v S" "2 \<le> card S"
  shows "\<exists>i \<in> set (fst (islands v)). set (i_addr i) = S"
proof -
  have "S \<noteq> {}" using assms(2) by auto
  with assms(1) have "S \<inter> set (ports v) \<noteq> {}" by (auto simp: closed_clique_def)
  with assms show ?thesis
    unfolding set_islands by (intro seed_loop_finds_clique) auto
qed

end
