(* ===== verification/Config.thy ===== *)
theory Config
  imports Prelude
begin

text \<open>
  The tuning knobs of \<open>rust/mentatd/src/config.rs\<close>. The environment is a parameter: the value of
  a variable, or nothing when it is unset.
\<close>

section \<open>Data\<close>

record cfg =
  pg_pending_timeout_ms :: nat
  agent_degraded_after_ms :: nat
  agent_dead_after_ms :: nat
  history_keep_ms :: nat
  peer_stale_after_ms :: nat
  peer_dead_after_ms :: nat
  election_hold_down_ms :: nat
  election_boot_wait_ms :: nat
  probe_interval_ms :: nat
  probe_timeout_ms :: nat
  island_placement :: bool
  island_hold_down_ms :: nat
  host_connect_timeout_ms :: nat
  slow_call_warn_ms :: nat
  agent_ping_interval_ms :: nat
  peer_status_interval_ms :: nat
  tcp_dead_after_ms :: nat
  session_reap_grace_ms :: nat

type_synonym vars = "string \<Rightarrow> string option"

section \<open>Reading the environment\<close>

definition env_ms :: "vars \<Rightarrow> string \<Rightarrow> nat \<Rightarrow> nat" where
  "env_ms var name dflt =
     (case var name of
        None \<Rightarrow> dflt
      | Some v \<Rightarrow> if trim v = [] then dflt
          else (case parse_u64 (trim v) of Some n \<Rightarrow> n | None \<Rightarrow> dflt))"

definition lower_char :: "char \<Rightarrow> char" where
  "lower_char c = (let b = of_char c :: nat in if 65 \<le> b \<and> b \<le> 90 then char_of (b + 32) else c)"

definition to_ascii_lowercase :: "string \<Rightarrow> string" where
  "to_ascii_lowercase s = map lower_char s"

definition env_on :: "vars \<Rightarrow> string \<Rightarrow> bool \<Rightarrow> bool" where
  "env_on var name dflt =
     (case var name of
        None \<Rightarrow> dflt
      | Some v \<Rightarrow>
          (if trim v = [] then dflt
           else (let w = to_ascii_lowercase (trim v)
                 in if w \<in> {''off'', ''no'', ''false'', ''0''} then False
                    else if w \<in> {''on'', ''yes'', ''true'', ''1''} then True
                    else dflt)))"

definition cfg_of :: "vars \<Rightarrow> cfg" where
  "cfg_of var = \<lparr>
     pg_pending_timeout_ms = env_ms var ''MENTAT_PG_PENDING_TIMEOUT_MS'' 600000,
     agent_degraded_after_ms = env_ms var ''MENTAT_AGENT_DEGRADED_AFTER_MS'' 30000,
     agent_dead_after_ms = env_ms var ''MENTAT_AGENT_DEAD_AFTER_MS'' 60000,
     history_keep_ms = env_ms var ''MENTAT_HISTORY_KEEP_MS'' 600000,
     peer_stale_after_ms = env_ms var ''MENTAT_PEER_STALE_AFTER_MS'' 30000,
     peer_dead_after_ms = env_ms var ''MENTAT_PEER_DEAD_AFTER_MS'' 60000,
     election_hold_down_ms = env_ms var ''MENTAT_ELECTION_HOLD_DOWN_MS'' 5000,
     election_boot_wait_ms = env_ms var ''MENTAT_ELECTION_BOOT_WAIT_MS'' 20000,
     probe_interval_ms = env_ms var ''MENTAT_PROBE_INTERVAL_MS'' 15000,
     probe_timeout_ms = env_ms var ''MENTAT_PROBE_TIMEOUT_MS'' 2000,
     island_placement = env_on var ''MENTAT_ISLAND_PLACEMENT'' True,
     island_hold_down_ms = env_ms var ''MENTAT_ISLAND_HOLD_DOWN_MS'' 5000,
     host_connect_timeout_ms = env_ms var ''MENTAT_HOST_CONNECT_TIMEOUT_MS'' 60000,
     slow_call_warn_ms = env_ms var ''MENTAT_SLOW_CALL_WARN_MS'' 15000,
     agent_ping_interval_ms = env_ms var ''MENTAT_AGENT_PING_INTERVAL_MS'' 2000,
     peer_status_interval_ms = env_ms var ''MENTAT_PEER_STATUS_INTERVAL_MS'' 2000,
     tcp_dead_after_ms = env_ms var ''MENTAT_TCP_DEAD_AFTER_MS'' 75000,
     session_reap_grace_ms = env_ms var ''MENTAT_SESSION_REAP_GRACE_MS'' 0\<rparr>"

abbreviation default_cfg :: cfg where
  "default_cfg \<equiv> cfg_of (\<lambda>_. None)"

section \<open>Lemmas\<close>

lemma env_ms_bound: "dflt < 2 ^ 64 \<Longrightarrow> env_ms var name dflt < 2 ^ 64"
  by (auto simp: env_ms_def parse_uint_def Let_def split: option.splits if_splits)

end
