(* ===== verification/Ip.thy ===== *)
theory Ip
  imports Prelude
begin

text \<open>
  Addresses as text: the reader of \<open>std::net::IpAddr\<close> the daemon calls through
  \<open>state::is_loopback\<close>. A reader takes the front of the text and returns what is left, and an
  address is accepted only when nothing is left.
\<close>

section \<open>Readers\<close>

type_synonym 'a reading = "string \<Rightarrow> ('a \<times> string) option"

fun take_digits :: "nat \<Rightarrow> string \<Rightarrow> nat list \<times> string" where
  "take_digits r [] = ([], [])"
| "take_digits r (c # s) =
     (case to_digit r c of
        None \<Rightarrow> ([], c # s)
      | Some d \<Rightarrow> (let (ds, rest) = take_digits r s in (d # ds, rest)))"

definition digits_value :: "nat \<Rightarrow> nat list \<Rightarrow> nat" where
  "digits_value r ds = foldl (\<lambda>n d. n * r + d) 0 ds"

text \<open>A number of at most \<open>maxd\<close> digits and at most \<open>mx\<close>, with or without leading zeros.\<close>

definition read_number :: "nat \<Rightarrow> nat \<Rightarrow> nat \<Rightarrow> bool \<Rightarrow> nat reading" where
  "read_number mx r maxd zeros s =
     (let (ds, rest) = take_digits r s
      in if ds = [] \<or> maxd < length ds \<or> mx < digits_value r ds
            \<or> (\<not> zeros \<and> hd ds = 0 \<and> 1 < length ds)
         then None else Some (digits_value r ds, rest))"

definition read_given_char :: "char \<Rightarrow> unit reading" where
  "read_given_char c s = (case s of [] \<Rightarrow> None | d # t \<Rightarrow> if d = c then Some ((), t) else None)"

text \<open>The separator stands before every piece but the first.\<close>

definition read_separator :: "char \<Rightarrow> nat \<Rightarrow> 'a reading \<Rightarrow> 'a reading" where
  "read_separator c i rd s =
     (if i = 0 then rd s
      else (case read_given_char c s of None \<Rightarrow> None | Some (_, t) \<Rightarrow> rd t))"

fun read_octets :: "nat \<Rightarrow> nat \<Rightarrow> nat list reading" where
  "read_octets i 0 s = Some ([], s)"
| "read_octets i (Suc n) s =
     (case read_separator (CHR ''.'') i (read_number 255 10 3 False) s of
        None \<Rightarrow> None
      | Some (v, t) \<Rightarrow>
          (case read_octets (Suc i) n t of
             None \<Rightarrow> None | Some (vs, u) \<Rightarrow> Some (v # vs, u)))"

definition read_ipv4_addr :: "nat list reading" where
  "read_ipv4_addr s = read_octets 0 4 s"

text \<open>
  Up to \<open>left\<close> more groups from position \<open>i\<close>: an embedded IPv4 address ends the groups and
  counts for two. The groups, whether an IPv4 address ended them, and the rest of the text.
\<close>

fun read_groups :: "nat \<Rightarrow> nat \<Rightarrow> string \<Rightarrow> nat list \<times> bool \<times> string" where
  "read_groups i 0 s = ([], False, s)"
| "read_groups i (Suc left) s =
     (case (if 0 < left then read_separator (CHR '':'') i read_ipv4_addr s else None) of
        Some (v, t) \<Rightarrow> ([v ! 0 * 256 + v ! 1, v ! 2 * 256 + v ! 3], True, t)
      | None \<Rightarrow>
          (case read_separator (CHR '':'') i (read_number 65535 16 4 True) s of
             None \<Rightarrow> ([], False, s)
           | Some (g, t) \<Rightarrow>
               (let (gs, v4, u) = read_groups (Suc i) left t in (g # gs, v4, u))))"

definition read_ipv6_addr :: "nat list reading" where
  "read_ipv6_addr s =
     (let (head, v4, t) = read_groups 0 8 s
      in if length head = 8 then Some (head, t)
         else if v4 then None
         else (case read_given_char (CHR '':'') t of
             None \<Rightarrow> None
           | Some (_, t1) \<Rightarrow>
               (case read_given_char (CHR '':'') t1 of
                  None \<Rightarrow> None
                | Some (_, t2) \<Rightarrow>
                    (let (tail, _, u) = read_groups 0 (8 - (length head + 1)) t2
                     in Some (head @ replicate (8 - length head - length tail) 0 @ tail, u)))))"

datatype ip_addr = V4 "nat list" | V6 "nat list"

definition parse_ip :: "string \<Rightarrow> ip_addr option" where
  "parse_ip s =
     (case read_ipv4_addr s of
        Some (v, t) \<Rightarrow> if t = [] then Some (V4 v) else None
      | None \<Rightarrow>
          (case read_ipv6_addr s of
             Some (g, t) \<Rightarrow> if t = [] then Some (V6 g) else None
           | None \<Rightarrow> None))"

text \<open>\<open>IpAddr::is_loopback\<close>, and \<open>state::is_loopback\<close> on text.\<close>

definition ip_is_loopback :: "ip_addr \<Rightarrow> bool" where
  "ip_is_loopback a = (case a of V4 v \<Rightarrow> v ! 0 = 127 | V6 g \<Rightarrow> g = [0, 0, 0, 0, 0, 0, 0, 1])"

definition is_loopback :: "string \<Rightarrow> bool" where
  "is_loopback ip = (case parse_ip ip of None \<Rightarrow> False | Some a \<Rightarrow> ip_is_loopback a)"

section \<open>Addresses as text\<close>

definition show_ipv4 :: "nat \<Rightarrow> nat \<Rightarrow> nat \<Rightarrow> nat \<Rightarrow> string" where
  "show_ipv4 a b c d = show_nat a @ CHR ''.'' # show_nat b @ CHR ''.'' # show_nat c @ CHR ''.'' # show_nat d"

text \<open>The \<open>Display\<close> of an address: an IPv4-mapped one ends in dotted form; otherwise the first of the
  longest runs of two or more zero groups is written as two colons.\<close>

fun show_hex :: "nat \<Rightarrow> string" where
  "show_hex n = (if n < 16 then [digit_char n] else show_hex (n div 16) @ [digit_char (n mod 16)])"

declare show_hex.simps [simp del]

fun groups_of :: "nat list \<Rightarrow> nat list" where
  "groups_of (a # b # os) = (a * 256 + b) # groups_of os"
| "groups_of os = []"

text \<open>\<open>(start, len)\<close> of the run under way and of the longest so far.\<close>

fun zero_run :: "nat \<Rightarrow> nat \<times> nat \<Rightarrow> nat \<times> nat \<Rightarrow> nat list \<Rightarrow> nat \<times> nat" where
  "zero_run i run longest [] = longest"
| "zero_run i run longest (g # gs) =
     (if g = 0 then
        (let run' = (if snd run = 0 then (i, 1) else (fst run, snd run + 1))
         in zero_run (i + 1) run' (if snd longest < snd run' then run' else longest) gs)
      else zero_run (i + 1) (0, 0) longest gs)"

definition show_groups :: "nat list \<Rightarrow> string" where
  "show_groups gs = join '':'' (map show_hex gs)"

definition show_v6 :: "nat list \<Rightarrow> string" where
  "show_v6 os =
     (if take 12 os = replicate 10 0 @ [255, 255]
      then ''::ffff:'' @ show_ipv4 (os ! 12) (os ! 13) (os ! 14) (os ! 15)
      else (let gs = groups_of os; (start, len) = zero_run 0 (0, 0) (0, 0) gs
            in if 1 < len then show_groups (take start gs) @ ''::'' @ show_groups (drop (start + len) gs)
               else show_groups gs))"

section \<open>Lemmas\<close>

lemma take_digits_append:
  assumes "\<forall>c \<in> set s. to_digit r c \<noteq> None" "t = [] \<or> to_digit r (hd t) = None"
  shows "take_digits r (s @ t) = (map (the \<circ> to_digit r) s, t)"
  using assms
proof (induction s)
  case Nil
  then show ?case by (cases t) auto
next
  case (Cons c s)
  then show ?case by (auto split: option.splits)
qed

lemma show_nat_digits: "\<forall>c \<in> set (show_nat n). to_digit 10 c \<noteq> None"
  using show_nat_chars [of _ n] by (fastforce simp: to_digit_def Let_def)

lemma read_digits_value:
  "\<forall>c \<in> set s. to_digit r c \<noteq> None \<Longrightarrow>
     read_digits r acc s = Some (foldl (\<lambda>n d. n * r + d) acc (map (the \<circ> to_digit r) s))"
  by (induction s arbitrary: acc) (auto split: option.splits)

lemma show_nat_value: "digits_value 10 (map (the \<circ> to_digit 10) (show_nat n)) = n"
  using read_digits_value [OF show_nat_digits, of 0 n] read_digits_show_nat [of n]
  by (simp add: digits_value_def)

lemma digit_char_zero: "d < 10 \<Longrightarrow> digit_char d = CHR ''0'' \<longleftrightarrow> d = 0"
proof
  assume "d < 10" "digit_char d = CHR ''0''"
  with to_digit_digit_char [of d 10] have "to_digit 10 (CHR ''0'') = Some d" by simp
  then show "d = 0" by (simp add: to_digit_def)
next
  have "char_of (48 :: nat) = CHR ''0''" by code_simp
  then show "d = 0 \<Longrightarrow> digit_char d = CHR ''0''" by (simp add: digit_char_def)
qed

text \<open>A printed byte has at most three digits, and no leading zero.\<close>

lemma show_octet:
  assumes "n \<le> 255"
  shows "length (show_nat n) \<le> 3 \<and> (hd (show_nat n) = CHR ''0'' \<longrightarrow> length (show_nat n) = 1)"
proof -
  consider "n < 10" | "10 \<le> n" "n < 100" | "100 \<le> n" by linarith
  then show ?thesis
  proof cases
    case 1
    then show ?thesis by (simp add: show_nat.simps [of n])
  next
    case 2
    then have "n div 10 < 10" "0 < n div 10" by auto
    with 2 digit_char_zero [of "n div 10"] show ?thesis
      by (simp add: show_nat.simps [of n] show_nat.simps [of "n div 10"])
  next
    case 3
    with assms have d: "10 \<le> n div 10" "n div 10 div 10 < 10" "0 < n div 10 div 10" by auto
    with 3 digit_char_zero [of "n div 10 div 10"] show ?thesis
      by (simp add: show_nat.simps [of n] show_nat.simps [of "n div 10"]
          show_nat.simps [of "n div 10 div 10"])
  qed
qed

lemma read_number_octet:
  assumes "n \<le> 255" "t = [] \<or> hd t = CHR ''.''"
  shows "read_number 255 10 3 False (show_nat n @ t) = Some (n, t)"
proof -
  have "t = [] \<or> to_digit 10 (hd t) = None" using assms(2) by (auto simp: to_digit_def)
  then have "take_digits 10 (show_nat n @ t) = (map (the \<circ> to_digit 10) (show_nat n), t)"
    by (intro take_digits_append show_nat_digits)
  moreover have "the (to_digit 10 (hd (show_nat n))) = 0 \<Longrightarrow> hd (show_nat n) = CHR ''0''"
  proof -
    assume z: "the (to_digit 10 (hd (show_nat n))) = 0"
    have "of_char (hd (show_nat n)) \<in> {48..57::nat}"
      using show_nat_chars [of "hd (show_nat n)" n] show_nat_ne [of n] by auto
    moreover from this have "to_digit 10 (hd (show_nat n)) = Some (of_char (hd (show_nat n)) - 48)"
      by (auto simp: to_digit_def Let_def)
    ultimately have "of_char (hd (show_nat n)) = (48 :: nat)" using z by simp
    then have "of_char (hd (show_nat n)) = (of_char (CHR ''0'') :: nat)" by simp
    then show ?thesis by (simp only: of_char_eq_iff)
  qed
  ultimately show ?thesis
    using show_octet [OF assms(1)] show_nat_value [of n] assms(1) show_nat_ne [of n]
    by (auto simp: read_number_def Let_def hd_map)
qed

lemma parse_ip_show_ipv4:
  assumes "a \<le> 255" "b \<le> 255" "c \<le> 255" "d \<le> 255"
  shows "parse_ip (show_ipv4 a b c d) = Some (V4 [a, b, c, d])"
proof -
  have "read_ipv4_addr (show_ipv4 a b c d) = Some ([a, b, c, d], [])"
  proof -
    have "read_ipv4_addr s = read_octets 0 (Suc (Suc (Suc (Suc 0)))) s" for s
      by (simp add: read_ipv4_addr_def numeral_eq_Suc)
    then show ?thesis
      using assms read_number_octet [of d "[]"]
      by (simp add: show_ipv4_def read_separator_def read_given_char_def read_number_octet)
  qed
  then show ?thesis by (simp add: parse_ip_def)
qed

text \<open>A dotted address is a loopback address exactly when its first byte is 127.\<close>

lemma is_loopback_ipv4:
  assumes "a \<le> 255" "b \<le> 255" "c \<le> 255" "d \<le> 255"
  shows "is_loopback (show_ipv4 a b c d) \<longleftrightarrow> a = 127"
  using parse_ip_show_ipv4 [OF assms] by (simp add: is_loopback_def ip_is_loopback_def)

end
