(* ===== verification/State.thy ===== *)
theory State
  imports Island Config Ip
begin

text \<open>
  The state of a daemon (\<open>rust/mentatd/src/state.rs\<close>): its tables, the event stream, the free
  GPUs of an agent, and the ids.

  Every handler of the daemon holds the state's mutex while it reads or writes the tables, so an
  operation here takes the state before one hold of the lock and returns the state after it. The
  environment \<open>env\<close> is what the hold reads from outside: the clock, which is read once per hold,
  the configuration, the box's own addresses, whether each write to a socket succeeds, and
  whether each event subscriber is still there.

  The record has three fields the program does not have. \<open>sent\<close> lists every frame written to a
  socket, in order, with the outcome of the write; \<open>closed_socks\<close> lists the sockets shut down;
  \<open>events\<close> lists the events recorded. A socket is a number, and two writers wrap the same socket
  when the numbers are equal.
\<close>

section \<open>Data\<close>

type_synonym sock = nat

datatype actor_state = Spawning | Running | Dead string nat

type_synonym queued_call = "string \<times> string \<times> payload"

record actor_info =
  ac_id :: string
  ac_name :: string
  ac_group :: string
  ac_agent :: string
  ac_node_id :: string
  ac_gpu_ids :: "nat list"
  ac_owner :: string
  ac_state :: actor_state
  ac_pid :: "nat option"
  ac_queued_calls :: "queued_call list"

record agent_info =
  ag_id :: string
  ag_group :: string
  ag_node_id :: string
  ag_node_ip :: string
  ag_machine :: machine
  ag_container :: string
  ag_pid :: nat
  ag_services :: "(string, service) table"
  ag_meta :: str_map
  ag_writer :: sock
  ag_alive :: bool
  ag_lost_at_ms :: "nat option"
  ag_degraded :: bool
  ag_gone_since_ms :: "nat option"
  ag_seq :: nat

datatype pg_state = Pending | Created | Removed

record bundle_assignment =
  ba_agent :: string
  ba_node_id :: string
  ba_gpu_ids :: "nat list"
  ba_env :: str_map

record pg_info =
  pg_id :: string
  pg_group :: string
  pg_owner :: string
  pg_bundles :: "nat list"
  pg_strategy :: string
  pg_assignment :: "bundle_assignment option list"
  pg_state :: pg_state
  pg_created_ms :: nat
  pg_fail_reason :: "string option"
  pg_claim :: string
  pg_island :: "island option"
  pg_pending_reason :: "string option"
  pg_removed_ms :: "nat option"

datatype ref_state = RefPending | RefReady bool payload | RefActorDied string

record ref_info =
  rf_state :: ref_state
  rf_actor :: "string option"
  rf_owner :: string
  rf_method :: string
  rf_created_ms :: nat
  rf_warned :: bool

record client_info =
  cl_id :: string
  cl_group :: string
  cl_kind :: string
  cl_node_id :: string
  cl_has_session :: bool

record claim_info =
  cm_shape :: json
  cm_view :: json
  cm_generation :: nat
  cm_holders :: "string list"

record counters =
  ct_actors_spawned :: nat
  ct_actor_exits_clean :: nat
  ct_actor_exits_signal :: nat
  ct_actor_exits_error :: nat
  ct_calls_total :: nat
  ct_clients_total :: nat
  ct_agents_registered :: nat
  ct_relayed :: nat

record patch =
  pt_at :: "string list"
  pt_value :: "json option"

record pair_probe =
  pp_ok :: bool
  pp_rtt_ms :: nat
  pp_last_ok_ms :: "nat option"
  pp_error :: string
  pp_neighbour_mac :: "string option"
  pp_direct :: "bool option"

type_synonym probe_table = "(string, (string, pair_probe) table) table"

record peer_info =
  pe_node_id :: string
  pe_outbound :: bool
  pe_node_ip :: string
  pe_link_ip :: string
  pe_addrs :: "string list"
  pe_addr_tags :: "(string, string list) table"
  pe_addr_ifaces :: str_map
  pe_addr_macs :: str_map
  pe_probe_pairs :: probe_table
  pe_ambiguous_ports :: "string list"
  pe_control_port :: nat
  pe_http_port :: nat
  pe_writer :: sock
  pe_alive :: bool
  pe_last_seen_ms :: nat
  pe_dead_since_ms :: "nat option"
  pe_stale :: bool
  pe_last_status :: json

record sent_frame =
  sf_sock :: sock
  sf_req :: nat
  sf_msg :: msg
  sf_payload :: payload
  sf_ok :: bool

record state =
  node_id :: string
  node_ip :: string
  hostname :: string
  control_addr :: string
  control_port :: nat
  http_port :: nat
  peers :: "(string, peer_info) table"
  dialing :: "string list"
  fabrics :: fabrics
  head_node_id :: string
  head_generation :: nat
  head_since_ms :: "nat option"
  agents :: "(string, agent_info) table"
  actors :: "(string, actor_info) table"
  pgs :: "(string, pg_info) table"
  refs :: "(string, ref_info) table"
  clients :: "(string, client_info) table"
  client_links :: "(string \<times> sock) list"
  claims :: "(string \<times> string, claim_info) table"
  claim_generation :: nat
  misfiled_warned :: "string list"
  reap_pending :: "(string, nat) table"
  next_reap :: nat
  next_seq :: nat
  next_ref :: nat
  counters :: counters
  next_event_seq :: nat
  boot_id :: string
  event_subs :: "nat list"
  sent :: "sent_frame list"
  closed_socks :: "sock list"
  events :: "json list"

record env =
  e_now :: nat
  e_cfg :: cfg
  e_local_addrs :: "string list"
  e_local_tags :: "(string, string list) table"
  e_local_ifaces :: str_map
  e_local_macs :: str_map
  e_all_local_addrs :: "string list"
  e_send_err :: "sock \<Rightarrow> nat \<Rightarrow> string option"
  e_sub_ok :: "nat \<Rightarrow> bool"
  e_debug :: "msg \<Rightarrow> string"

definition is_dead :: "actor_state \<Rightarrow> bool" where
  "is_dead a = (case a of Dead _ _ \<Rightarrow> True | _ \<Rightarrow> False)"

text \<open>\<open>iter().flatten()\<close> over optional entries.\<close>

definition somes :: "'a option list \<Rightarrow> 'a list" where
  "somes xs = List.map_filter (\<lambda>x. x) xs"

section \<open>Node ids\<close>

definition hex2 :: "char \<Rightarrow> string" where
  "hex2 c = (let b = of_char c :: nat in [digit_char (b div 16), digit_char (b mod 16)])"

definition hex_bytes :: "string \<Rightarrow> string" where
  "hex_bytes s = concat (map hex2 s)"

definition node_id_for :: "string \<Rightarrow> string" where
  "node_id_for ip = (let hex = take 56 (hex_bytes (''mentat:'' @ ip))
     in hex @ replicate (56 - length hex) (CHR ''0''))"

fun chunks2 :: "'a list \<Rightarrow> 'a list list" where
  "chunks2 [] = []"
| "chunks2 [x] = [[x]]"
| "chunks2 (x # y # s) = [x, y] # chunks2 s"

fun collect_opt :: "'a option list \<Rightarrow> 'a list option" where
  "collect_opt [] = Some []"
| "collect_opt (None # xs) = None"
| "collect_opt (Some x # xs) = map_option ((#) x) (collect_opt xs)"

text \<open>The byte sequences \<open>String::from_utf8\<close> accepts.\<close>

definition cont :: "nat \<Rightarrow> nat \<Rightarrow> char \<Rightarrow> bool" where
  "cont lo hi c = (lo \<le> (of_char c :: nat) \<and> (of_char c :: nat) \<le> hi)"

fun valid_utf8 :: "string \<Rightarrow> bool" where
  "valid_utf8 [] \<longleftrightarrow> True"
| "valid_utf8 (c # s) \<longleftrightarrow>
     (let b = of_char c :: nat
      in if b < 128 then valid_utf8 s
         else (case s of
             [] \<Rightarrow> False
           | c1 # s1 \<Rightarrow>
               (if 194 \<le> b \<and> b \<le> 223 then cont 128 191 c1 \<and> valid_utf8 s1
                else (case s1 of
                    [] \<Rightarrow> False
                  | c2 # s2 \<Rightarrow>
                      (if 224 \<le> b \<and> b \<le> 239
                       then cont (if b = 224 then 160 else 128) (if b = 237 then 159 else 191) c1
                            \<and> cont 128 191 c2 \<and> valid_utf8 s2
                       else (case s2 of
                           [] \<Rightarrow> False
                         | c3 # s3 \<Rightarrow>
                             240 \<le> b \<and> b \<le> 244
                             \<and> cont (if b = 240 then 144 else 128) (if b = 244 then 143 else 191) c1
                             \<and> cont 128 191 c2 \<and> cont 128 191 c3 \<and> valid_utf8 s3))))))"

definition node_ip_of :: "string \<Rightarrow> string option" where
  "node_ip_of node =
     (case collect_opt (map (parse_uint 255 16) (chunks2 node)) of
        None \<Rightarrow> None
      | Some bytes \<Rightarrow>
          (let text = map char_of (takeWhile (\<lambda>b. b \<noteq> 0) bytes)
           in if valid_utf8 text then strip_prefix ''mentat:'' text else None))"

text \<open>\<open>new_actor_id\<close> and \<open>new_pg_id\<close>, with the random part given.\<close>

definition new_actor_id :: "string \<Rightarrow> string" where
  "new_actor_id hex = ''a:'' @ hex"

definition new_pg_id :: "string \<Rightarrow> string" where
  "new_pg_id hex = ''p:'' @ hex"

section \<open>Sockets and events\<close>

text \<open>\<open>FrameWriter::send\<close>: the error, if the write failed. \<open>FrameWriter::shutdown\<close>.\<close>

definition send :: "env \<Rightarrow> sock \<Rightarrow> msg \<Rightarrow> nat \<Rightarrow> payload \<Rightarrow> state \<Rightarrow> string option \<times> state" where
  "send E w m req pl s =
     (let e = e_send_err E w (length (sent s))
      in (e, s\<lparr>sent := sent s @ [\<lparr>sf_sock = w, sf_req = req, sf_msg = m, sf_payload = pl,
                                   sf_ok = (e = None)\<rparr>]\<rparr>))"

definition shutdown :: "sock \<Rightarrow> state \<Rightarrow> state" where
  "shutdown w s = s\<lparr>closed_socks := closed_socks s @ [w]\<rparr>"

text \<open>A write whose outcome the code does not look at.\<close>

abbreviation post :: "env \<Rightarrow> sock \<Rightarrow> msg \<Rightarrow> nat \<Rightarrow> payload \<Rightarrow> state \<Rightarrow> state" where
  "post E w m req pl s \<equiv> snd (send E w m req pl s)"

definition patch_set :: "string list \<Rightarrow> json \<Rightarrow> patch" where
  "patch_set path v = \<lparr>pt_at = path, pt_value = Some v\<rparr>"

definition patch_remove :: "string list \<Rightarrow> patch" where
  "patch_remove path = \<lparr>pt_at = path, pt_value = None\<rparr>"

definition patch_json :: "patch \<Rightarrow> json" where
  "patch_json p = jobj ((''at'', jstrs (pt_at p)) #
     (case pt_value p of None \<Rightarrow> [] | Some v \<Rightarrow> [(''value'', v)]))"

definition notify_peers :: "env \<Rightarrow> json \<Rightarrow> peer_info list \<Rightarrow> state \<Rightarrow> state" where
  "notify_peers E data ps s =
     fold (\<lambda>p s. if pe_alive p then post E (pe_writer p) (P (PeerEvent data)) 0 [] s else s) ps s"

definition emit :: "env \<Rightarrow> string \<Rightarrow> json \<Rightarrow> state \<Rightarrow> state" where
  "emit E kind flds s =
     (let seq = next_event_seq s;
          data = jobj ([(''type'', JStr kind), (''seq'', jnat seq), (''ts_ms'', jnat (e_now E)),
                        (''node'', JStr (node_id s))] @ entries flds);
          s1 = s\<lparr>next_event_seq := u64_add seq 1, events := events s @ [data],
                 event_subs := filter (e_sub_ok E) (event_subs s)\<rparr>
      in notify_peers E data (hm_values (peers s1)) s1)"

definition emit_patch :: "env \<Rightarrow> string \<Rightarrow> patch list \<Rightarrow> string \<Rightarrow> state \<Rightarrow> state" where
  "emit_patch E kind pt why s =
     emit E kind (jobj ((''patch'', JArr (map patch_json pt)) #
       (if why = [] then [] else [(''why'', JStr why)]))) s"

definition deliver_peer_event :: "env \<Rightarrow> state \<Rightarrow> state" where
  "deliver_peer_event E s = s\<lparr>event_subs := filter (e_sub_ok E) (event_subs s)\<rparr>"

section \<open>Operations on the state\<close>

definition empty_counters :: counters where
  "empty_counters = \<lparr>ct_actors_spawned = 0, ct_actor_exits_clean = 0, ct_actor_exits_signal = 0,
     ct_actor_exits_error = 0, ct_calls_total = 0, ct_clients_total = 0,
     ct_agents_registered = 0, ct_relayed = 0\<rparr>"

definition new_state :: "string \<Rightarrow> string \<Rightarrow> string \<Rightarrow> string \<Rightarrow> state" where
  "new_state ip host addr boot = \<lparr>
     node_id = node_id_for ip, node_ip = ip, hostname = host, control_addr = addr,
     control_port = (case rsplit_once (CHR '':'') addr of
        None \<Rightarrow> 0 | Some (_, p) \<Rightarrow> (case parse_u16 p of None \<Rightarrow> 0 | Some n \<Rightarrow> n)),
     http_port = 0, peers = [], dialing = [], fabrics = \<lparr>fb_islands = [], fb_tagged = []\<rparr>,
     head_node_id = [], head_generation = 0, head_since_ms = None,
     agents = [], actors = [], pgs = [], refs = [], clients = [], client_links = [],
     claims = [], claim_generation = 0, misfiled_warned = [], reap_pending = [],
     next_reap = 1, next_seq = 1, next_ref = 1, counters = empty_counters,
     next_event_seq = 1, boot_id = boot, event_subs = [], sent = [], closed_socks = [], events = []\<rparr>"

definition take_seq :: "state \<Rightarrow> nat \<times> state" where
  "take_seq s = (next_seq s, s\<lparr>next_seq := u64_add (next_seq s) 1\<rparr>)"

definition ref_id_of :: "string \<Rightarrow> nat \<Rightarrow> string" where
  "ref_id_of actor r = actor @ CHR '':'' # show_nat r"

definition new_ref_id :: "string \<Rightarrow> state \<Rightarrow> string \<times> state" where
  "new_ref_id actor s =
     (ref_id_of actor (next_ref s), s\<lparr>next_ref := u64_add (next_ref s) 1\<rparr>)"

text \<open>\<open>free_gpus_of\<close>: each live bundle and each live actor strikes its devices off the list.\<close>

definition strike :: "nat list \<Rightarrow> nat list \<Rightarrow> nat list" where
  "strike gpus free = filter (\<lambda>g. g \<notin> set gpus) free"

definition strike_pg :: "string \<Rightarrow> pg_info \<Rightarrow> nat list \<Rightarrow> nat list" where
  "strike_pg aid pg free =
     (if pg_state pg = Removed then free
      else fold (\<lambda>b free. if ba_agent b = aid then strike (ba_gpu_ids b) free else free)
             (somes (pg_assignment pg)) free)"

definition strike_actor :: "string \<Rightarrow> actor_info \<Rightarrow> nat list \<Rightarrow> nat list" where
  "strike_actor aid a free =
     (if ac_agent a = aid \<and> \<not> is_dead (ac_state a) then strike (ac_gpu_ids a) free else free)"

definition free_gpus_of :: "state \<Rightarrow> string \<Rightarrow> nat list" where
  "free_gpus_of s aid =
     (case map_of (agents s) aid of
        None \<Rightarrow> []
      | Some a \<Rightarrow>
          fold (strike_actor aid) (hm_values (actors s))
            (fold (strike_pg aid) (hm_values (pgs s)) (map g_index (m_gpus (ag_machine a)))))"

section \<open>Lemmas: what sending and emitting leave alone\<close>

text \<open>Neither touches a table: only the outgoing frames and the event stream change.\<close>

lemma fst_send [simp]: "fst (send E w m req pl s) = e_send_err E w (length (sent s))"
  by (simp add: send_def Let_def)

lemma send_frame [simp, frame_simps]:
  "node_id (snd (send E w m req pl s)) = node_id s"
  "node_ip (snd (send E w m req pl s)) = node_ip s"
  "hostname (snd (send E w m req pl s)) = hostname s"
  "control_addr (snd (send E w m req pl s)) = control_addr s"
  "control_port (snd (send E w m req pl s)) = control_port s"
  "http_port (snd (send E w m req pl s)) = http_port s"
  "peers (snd (send E w m req pl s)) = peers s"
  "dialing (snd (send E w m req pl s)) = dialing s"
  "fabrics (snd (send E w m req pl s)) = fabrics s"
  "head_node_id (snd (send E w m req pl s)) = head_node_id s"
  "head_generation (snd (send E w m req pl s)) = head_generation s"
  "head_since_ms (snd (send E w m req pl s)) = head_since_ms s"
  "agents (snd (send E w m req pl s)) = agents s"
  "actors (snd (send E w m req pl s)) = actors s"
  "pgs (snd (send E w m req pl s)) = pgs s"
  "refs (snd (send E w m req pl s)) = refs s"
  "clients (snd (send E w m req pl s)) = clients s"
  "client_links (snd (send E w m req pl s)) = client_links s"
  "claims (snd (send E w m req pl s)) = claims s"
  "claim_generation (snd (send E w m req pl s)) = claim_generation s"
  "misfiled_warned (snd (send E w m req pl s)) = misfiled_warned s"
  "reap_pending (snd (send E w m req pl s)) = reap_pending s"
  "next_reap (snd (send E w m req pl s)) = next_reap s"
  "next_seq (snd (send E w m req pl s)) = next_seq s"
  "next_ref (snd (send E w m req pl s)) = next_ref s"
  "counters (snd (send E w m req pl s)) = counters s"
  "boot_id (snd (send E w m req pl s)) = boot_id s"
  by (simp_all add: send_def Let_def)

lemma shutdown_frame [simp, frame_simps]:
  "node_id (shutdown w s) = node_id s"
  "node_ip (shutdown w s) = node_ip s"
  "hostname (shutdown w s) = hostname s"
  "control_addr (shutdown w s) = control_addr s"
  "control_port (shutdown w s) = control_port s"
  "http_port (shutdown w s) = http_port s"
  "peers (shutdown w s) = peers s"
  "dialing (shutdown w s) = dialing s"
  "fabrics (shutdown w s) = fabrics s"
  "head_node_id (shutdown w s) = head_node_id s"
  "head_generation (shutdown w s) = head_generation s"
  "head_since_ms (shutdown w s) = head_since_ms s"
  "agents (shutdown w s) = agents s"
  "actors (shutdown w s) = actors s"
  "pgs (shutdown w s) = pgs s"
  "refs (shutdown w s) = refs s"
  "clients (shutdown w s) = clients s"
  "client_links (shutdown w s) = client_links s"
  "claims (shutdown w s) = claims s"
  "claim_generation (shutdown w s) = claim_generation s"
  "misfiled_warned (shutdown w s) = misfiled_warned s"
  "reap_pending (shutdown w s) = reap_pending s"
  "next_reap (shutdown w s) = next_reap s"
  "next_seq (shutdown w s) = next_seq s"
  "next_ref (shutdown w s) = next_ref s"
  "counters (shutdown w s) = counters s"
  "boot_id (shutdown w s) = boot_id s"
  by (simp_all add: shutdown_def)

lemma notify_peers_sent: "\<exists>out. notify_peers E data ps s = s\<lparr>sent := sent s @ out\<rparr>"
proof (induction ps arbitrary: s)
  case Nil
  show ?case by (rule exI [of _ "[]"]) (simp add: notify_peers_def)
next
  case (Cons p ps)
  show ?case
  proof (cases "pe_alive p")
    case True
    obtain f where f: "post E (pe_writer p) (P (PeerEvent data)) 0 [] s = s\<lparr>sent := sent s @ [f]\<rparr>"
      unfolding send_def Let_def snd_conv by blast
    from Cons [of "s\<lparr>sent := sent s @ [f]\<rparr>"] obtain out
      where "notify_peers E data ps (s\<lparr>sent := sent s @ [f]\<rparr>) = s\<lparr>sent := sent s @ f # out\<rparr>"
      by auto
    with True f show ?thesis by (auto simp: notify_peers_def)
  qed (use Cons [of s] in \<open>simp add: notify_peers_def\<close>)
qed

lemma emit_changes:
  "\<exists>n ev subs out. emit E kind flds s =
     s\<lparr>next_event_seq := n, events := ev, event_subs := subs, sent := out\<rparr>"
proof -
  have "\<exists>out. notify_peers E data ps (s\<lparr>next_event_seq := n, events := ev, event_subs := subs\<rparr>) =
      s\<lparr>next_event_seq := n, events := ev, event_subs := subs, sent := out\<rparr>" for data ps n ev subs
    using notify_peers_sent [of E data ps "s\<lparr>next_event_seq := n, events := ev, event_subs := subs\<rparr>"]
    by auto
  then show ?thesis unfolding emit_def Let_def by blast
qed

lemma emit_frame [simp, frame_simps]:
  "node_id (emit E kind flds s) = node_id s"
  "node_ip (emit E kind flds s) = node_ip s"
  "hostname (emit E kind flds s) = hostname s"
  "control_addr (emit E kind flds s) = control_addr s"
  "control_port (emit E kind flds s) = control_port s"
  "http_port (emit E kind flds s) = http_port s"
  "peers (emit E kind flds s) = peers s"
  "dialing (emit E kind flds s) = dialing s"
  "fabrics (emit E kind flds s) = fabrics s"
  "head_node_id (emit E kind flds s) = head_node_id s"
  "head_generation (emit E kind flds s) = head_generation s"
  "head_since_ms (emit E kind flds s) = head_since_ms s"
  "agents (emit E kind flds s) = agents s"
  "actors (emit E kind flds s) = actors s"
  "pgs (emit E kind flds s) = pgs s"
  "refs (emit E kind flds s) = refs s"
  "clients (emit E kind flds s) = clients s"
  "client_links (emit E kind flds s) = client_links s"
  "claims (emit E kind flds s) = claims s"
  "claim_generation (emit E kind flds s) = claim_generation s"
  "misfiled_warned (emit E kind flds s) = misfiled_warned s"
  "reap_pending (emit E kind flds s) = reap_pending s"
  "next_reap (emit E kind flds s) = next_reap s"
  "next_seq (emit E kind flds s) = next_seq s"
  "next_ref (emit E kind flds s) = next_ref s"
  "counters (emit E kind flds s) = counters s"
  "boot_id (emit E kind flds s) = boot_id s"
  using emit_changes [of E kind flds s] by auto

lemma emit_patch_frame [simp, frame_simps]:
  "node_id (emit_patch E kind pt why s) = node_id s"
  "node_ip (emit_patch E kind pt why s) = node_ip s"
  "hostname (emit_patch E kind pt why s) = hostname s"
  "control_addr (emit_patch E kind pt why s) = control_addr s"
  "control_port (emit_patch E kind pt why s) = control_port s"
  "http_port (emit_patch E kind pt why s) = http_port s"
  "peers (emit_patch E kind pt why s) = peers s"
  "dialing (emit_patch E kind pt why s) = dialing s"
  "fabrics (emit_patch E kind pt why s) = fabrics s"
  "head_node_id (emit_patch E kind pt why s) = head_node_id s"
  "head_generation (emit_patch E kind pt why s) = head_generation s"
  "head_since_ms (emit_patch E kind pt why s) = head_since_ms s"
  "agents (emit_patch E kind pt why s) = agents s"
  "actors (emit_patch E kind pt why s) = actors s"
  "pgs (emit_patch E kind pt why s) = pgs s"
  "refs (emit_patch E kind pt why s) = refs s"
  "clients (emit_patch E kind pt why s) = clients s"
  "client_links (emit_patch E kind pt why s) = client_links s"
  "claims (emit_patch E kind pt why s) = claims s"
  "claim_generation (emit_patch E kind pt why s) = claim_generation s"
  "misfiled_warned (emit_patch E kind pt why s) = misfiled_warned s"
  "reap_pending (emit_patch E kind pt why s) = reap_pending s"
  "next_reap (emit_patch E kind pt why s) = next_reap s"
  "next_seq (emit_patch E kind pt why s) = next_seq s"
  "next_ref (emit_patch E kind pt why s) = next_ref s"
  "counters (emit_patch E kind pt why s) = counters s"
  "boot_id (emit_patch E kind pt why s) = boot_id s"
  by (simp_all add: emit_patch_def)

lemma emit_closed_sel: "closed_socks (emit E kind flds s) = closed_socks s"
  using emit_changes [of E kind flds s] by auto

lemma emit_closed [simp]: "closed_socks (emit_patch E kind pt why s) = closed_socks s"
  by (simp add: emit_patch_def emit_closed_sel)

text \<open>An event takes the next number, and the numbers of a boot only grow.\<close>

lemma emit_next_event_seq [simp]:
  "next_event_seq (emit E kind flds s) = u64_add (next_event_seq s) 1"
proof -
  have "next_event_seq (notify_peers E data ps t) = next_event_seq t" for data ps t
    using notify_peers_sent [of E data ps t] by auto
  then show ?thesis by (simp add: emit_def Let_def)
qed

section \<open>Lemmas on free GPUs\<close>

lemma set_somes: "b \<in> set (somes xs) \<longleftrightarrow> Some b \<in> set xs"
  by (force simp: somes_def map_filter_def)

lemma somes_simps [simp]:
  "somes [] = []" "somes (None # xs) = somes xs" "somes (Some x # xs) = x # somes xs"
  by (simp_all add: somes_def map_filter_def)

lemma somes_append [simp]: "somes (xs @ ys) = somes xs @ somes ys"
  by (simp add: somes_def map_filter_def)

lemma somes_map_Some [simp]: "somes (map Some xs) = xs"
  by (induction xs) simp_all

lemma somes_replicate_None [simp]: "somes (replicate n None) = []"
  by (induction n) simp_all

lemma set_somes_all_None: "(\<forall>x \<in> set xs. x = None) \<Longrightarrow> somes xs = []"
  by (induction xs) auto

text \<open>What an agent's devices are held by: a bundle of a group that is not removed, or an actor
  that is not dead.\<close>

definition bundle_holds :: "state \<Rightarrow> string \<Rightarrow> nat \<Rightarrow> bool" where
  "bundle_holds s aid g \<longleftrightarrow> (\<exists>pg \<in> set (hm_values (pgs s)). pg_state pg \<noteq> Removed
     \<and> (\<exists>b \<in> set (somes (pg_assignment pg)). ba_agent b = aid \<and> g \<in> set (ba_gpu_ids b)))"

definition actor_holds :: "state \<Rightarrow> string \<Rightarrow> nat \<Rightarrow> bool" where
  "actor_holds s aid g \<longleftrightarrow> (\<exists>a \<in> set (hm_values (actors s)). ac_agent a = aid
     \<and> \<not> is_dead (ac_state a) \<and> g \<in> set (ac_gpu_ids a))"

lemma fold_filter_ex:
  assumes "\<And>x xs. f x xs = filter (\<lambda>g. \<not> Q x g) xs"
  shows "fold f ys xs = filter (\<lambda>g. \<not> (\<exists>y \<in> set ys. Q y g)) xs"
  using assms by (induction ys arbitrary: xs) (auto simp: conj_commute)

lemma strike_pg_filter:
  "strike_pg aid pg free = filter (\<lambda>g. \<not> (pg_state pg \<noteq> Removed
     \<and> (\<exists>b \<in> set (somes (pg_assignment pg)). ba_agent b = aid \<and> g \<in> set (ba_gpu_ids b)))) free"
proof (cases "pg_state pg = Removed")
  case False
  have "fold (\<lambda>b free. if ba_agent b = aid then strike (ba_gpu_ids b) free else free) bs xs =
      filter (\<lambda>g. \<not> (\<exists>b \<in> set bs. ba_agent b = aid \<and> g \<in> set (ba_gpu_ids b))) xs" for bs xs
    by (rule fold_filter_ex) (simp add: strike_def)
  with False show ?thesis by (simp add: strike_pg_def)
qed (simp add: strike_pg_def)

lemma strike_actor_filter:
  "strike_actor aid a free = filter (\<lambda>g. \<not> (ac_agent a = aid \<and> \<not> is_dead (ac_state a)
     \<and> g \<in> set (ac_gpu_ids a))) free"
  by (simp add: strike_actor_def strike_def)

lemma free_gpus_of_filter:
  "free_gpus_of s aid =
     (case map_of (agents s) aid of None \<Rightarrow> []
      | Some a \<Rightarrow> filter (\<lambda>g. \<not> bundle_holds s aid g \<and> \<not> actor_holds s aid g)
                   (map g_index (m_gpus (ag_machine a))))"
proof -
  have "fold (strike_pg aid) ps xs = filter (\<lambda>g. \<not> (\<exists>pg \<in> set ps. pg_state pg \<noteq> Removed
      \<and> (\<exists>b \<in> set (somes (pg_assignment pg)). ba_agent b = aid \<and> g \<in> set (ba_gpu_ids b)))) xs" for ps xs
    by (rule fold_filter_ex) (rule strike_pg_filter)
  moreover have "fold (strike_actor aid) as xs = filter (\<lambda>g. \<not> (\<exists>a \<in> set as. ac_agent a = aid
      \<and> \<not> is_dead (ac_state a) \<and> g \<in> set (ac_gpu_ids a))) xs" for as xs
    by (rule fold_filter_ex) (rule strike_actor_filter)
  ultimately show ?thesis
    by (auto simp: free_gpus_of_def bundle_holds_def actor_holds_def split: option.splits
        intro!: filter_cong)
qed

lemma free_gpus_of_cong:
  "agents s = agents t \<Longrightarrow> actors s = actors t \<Longrightarrow> pgs s = pgs t \<Longrightarrow> free_gpus_of s = free_gpus_of t"
  by (rule ext) (simp add: free_gpus_of_def split: option.splits)

lemma free_gpus_of_length:
  "map_of (agents s) aid = Some a \<Longrightarrow> length (free_gpus_of s aid) \<le> length (m_gpus (ag_machine a))"
  by (simp add: free_gpus_of_filter)

end
