(* ===== verification/Status.thy ===== *)
theory Status
  imports State
begin

text \<open>
  The rows of the status snapshot and the snapshot itself (\<open>rust/mentatd/src/status.rs\<close>). The
  events of the daemon carry these rows, so an event and a snapshot spell one row the same way.
\<close>

section \<open>Rows\<close>

definition jstr_map :: "str_map \<Rightarrow> json" where
  "jstr_map m = JObj (map (\<lambda>(k, v). (k, JStr v)) m)"

definition jtags :: "(string, string list) table \<Rightarrow> json" where
  "jtags m = JObj (map (\<lambda>(k, v). (k, jstrs v)) m)"

definition jnats :: "nat list \<Rightarrow> json" where
  "jnats ns = JArr (map jnat ns)"

definition gpu_json :: "gpu \<Rightarrow> json" where
  "gpu_json g = jobj [(''index'', jnat (g_index g)), (''vendor'', JStr (g_vendor g)),
     (''name'', JStr (g_name g)), (''memory'', jnat (g_memory g)), (''uma'', JBool (g_uma g))]"

definition machine_json :: "machine \<Rightarrow> json" where
  "machine_json m = jobj [(''memory'', jnat (m_memory m)), (''cpus'', jnat (m_cpus m)),
     (''gpus'', JArr (map gpu_json (m_gpus m)))]"

definition service_json :: "service \<Rightarrow> json" where
  "service_json v = jobj [(''host'', JStr (s_host v)), (''port'', jnat (s_port v)),
     (''path'', JStr (s_path v)), (''provider'', JStr (s_provider v)), (''note'', JStr (s_note v))]"

definition pair_probe_json :: "pair_probe \<Rightarrow> json" where
  "pair_probe_json r = jobj [(''ok'', JBool (pp_ok r)), (''rtt_ms'', jnat (pp_rtt_ms r)),
     (''last_ok_ms'', jopt jnat (pp_last_ok_ms r)), (''error'', JStr (pp_error r)),
     (''neighbour_mac'', jopt JStr (pp_neighbour_mac r)), (''direct'', jopt JBool (pp_direct r))]"

definition probe_table_json :: "peer_info \<Rightarrow> json" where
  "probe_table_json p = JObj (map (\<lambda>(local, remotes).
     (local, JObj (map (\<lambda>(remote, r). (remote, pair_probe_json r)) remotes))) (pe_probe_pairs p))"

definition agent_row :: "state \<Rightarrow> agent_info \<Rightarrow> json" where
  "agent_row s a = jobj [
     (''node_ip'', JStr (ag_node_ip a)),
     (''node_id'', JStr (ag_node_id a)),
     (''container'', JStr (ag_container a)),
     (''alive'', JBool (ag_alive a)),
     (''degraded'', JBool (ag_degraded a)),
     (''gone_since_ms'', jopt jnat (ag_gone_since_ms a)),
     (''machine'', machine_json (ag_machine a)),
     (''gpus_free'', jnats (free_gpus_of s (ag_id a))),
     (''services'', JObj (map (\<lambda>(k, v). (k, service_json v)) (ag_services a))),
     (''meta'', jstr_map (ag_meta a)),
     (''pid'', jnat (ag_pid a))]"

definition actor_row :: "actor_info \<Rightarrow> json" where
  "actor_row a =
     (let (st, reason) = (case ac_state a of
            Spawning \<Rightarrow> (''spawning'', []) | Running \<Rightarrow> (''running'', [])
          | Dead reason _ \<Rightarrow> (''dead'', reason))
      in jobj [(''name'', JStr (ac_name a)), (''node_id'', JStr (ac_node_id a)),
           (''gpu_ids'', jnats (ac_gpu_ids a)), (''state'', JStr st), (''reason'', JStr reason),
           (''pid'', jopt jnat (ac_pid a))])"

definition pg_state_str :: "pg_state \<Rightarrow> string" where
  "pg_state_str p = (case p of Pending \<Rightarrow> ''PENDING'' | Created \<Rightarrow> ''CREATED'' | Removed \<Rightarrow> ''REMOVED'')"

definition pg_row :: "pg_info \<Rightarrow> json" where
  "pg_row p = jobj [
     (''bundles'', jnats (pg_bundles p)),
     (''strategy'', JStr (pg_strategy p)),
     (''state'', JStr (pg_state_str (pg_state p))),
     (''claim'', JStr (pg_claim p)),
     (''pending_reason'', jopt JStr (pg_pending_reason p)),
     (''island_nodes'', jopt (\<lambda>i. jnat (length (i_nodes i))) (pg_island p))]"

definition claim_row :: "claim_info \<Rightarrow> json" where
  "claim_row c = jobj [
     (''generation'', jnat (cm_generation c)),
     (''holders'', jstrs (cm_holders c)),
     (''sets'', JObj (map (\<lambda>(k, v). (k, jnat (length (elems v)))) (entries (jget (cm_view c) ''sets''))))]"

definition peer_groups :: "peer_info \<Rightarrow> json" where
  "peer_groups p = (case as_object (jget (pe_last_status p) ''groups'') of
     None \<Rightarrow> JNull
   | Some gs \<Rightarrow> JObj (map (\<lambda>(name, g). (name, jobj [
        (''gpus_total'', jget g ''gpus_total''), (''gpus_used'', jget g ''gpus_used'')])) gs))"

definition peer_row :: "peer_info \<Rightarrow> json" where
  "peer_row p = jobj [
     (''node_ip'', JStr (pe_node_ip p)),
     (''link_ip'', JStr (pe_link_ip p)),
     (''addrs'', jstrs (pe_addrs p)),
     (''addr_tags'', jtags (pe_addr_tags p)),
     (''addr_ifaces'', jstr_map (pe_addr_ifaces p)),
     (''addr_macs'', jstr_map (pe_addr_macs p)),
     (''probes'', probe_table_json p),
     (''control_port'', jnat (pe_control_port p)),
     (''http_port'', jnat (pe_http_port p)),
     (''alive'', JBool (pe_alive p)),
     (''stale'', JBool (pe_stale p)),
     (''last_seen_ms'', jnat (pe_last_seen_ms p)),
     (''dead_since_ms'', jopt jnat (pe_dead_since_ms p)),
     (''groups'', peer_groups p)]"

definition client_row :: "client_info \<Rightarrow> json" where
  "client_row c = jobj [(''group'', JStr (cl_group c)), (''kind'', JStr (cl_kind c)),
     (''node_id'', JStr (cl_node_id c)), (''session'', JBool (cl_has_session c))]"

section \<open>The snapshot\<close>

definition PROTO :: string where
  "PROTO = ''0.99''"

definition snapshot_groups :: "state \<Rightarrow> string option \<Rightarrow> string list" where
  "snapshot_groups s scope =
     (let gs = sort_dedup (map ag_group (hm_values (agents s)) @ map ac_group (hm_values (actors s)))
      in case scope of
           None \<Rightarrow> gs
         | Some g \<Rightarrow> (let kept = filter (\<lambda>x. x = g) gs in if kept = [] then [g] else kept))"

definition group_agents :: "state \<Rightarrow> string \<Rightarrow> agent_info list" where
  "group_agents s g = filter (\<lambda>a. ag_alive a \<and> ag_group a = g) (hm_values (agents s))"

definition gpus_total :: "state \<Rightarrow> string \<Rightarrow> nat" where
  "gpus_total s g = sum_list (map (\<lambda>a. length (m_gpus (ag_machine a))) (group_agents s g))"

definition gpus_free :: "state \<Rightarrow> string \<Rightarrow> nat" where
  "gpus_free s g = sum_list (map (\<lambda>a. length (free_gpus_of s (ag_id a))) (group_agents s g))"

text \<open>\<open>gpus_used\<close> is a subtraction on \<open>usize\<close>.\<close>

definition group_json :: "state \<Rightarrow> string \<Rightarrow> json" where
  "group_json s g = jobj [
     (''claims'', jobj (List.map_filter (\<lambda>((grp, name), c).
        if grp = g then Some (name, claim_row c) else None) (claims s))),
     (''agents'', jobj (map (\<lambda>a. (ag_id a, agent_row s a))
        (filter (\<lambda>a. ag_group a = g) (hm_values (agents s))))),
     (''actors'', jobj (map (\<lambda>a. (ac_id a, actor_row a))
        (filter (\<lambda>a. ac_group a = g) (hm_values (actors s))))),
     (''placement_groups'', jobj (map (\<lambda>p. (pg_id p, pg_row p))
        (filter (\<lambda>p. pg_group p = g) (hm_values (pgs s))))),
     (''gpus_total'', jnat (gpus_total s g)),
     (''gpus_used'', jnat (gpus_total s g - gpus_free s g))]"

definition island_json :: "island \<Rightarrow> json" where
  "island_json i = jobj [(''nodes'', jstrs (i_nodes i)), (''addrs'', jstr_map (i_addr i))]"

definition counters_json :: "counters \<Rightarrow> json" where
  "counters_json c = jobj [
     (''actors_spawned'', jnat (ct_actors_spawned c)),
     (''actor_exits_clean'', jnat (ct_actor_exits_clean c)),
     (''actor_exits_signal'', jnat (ct_actor_exits_signal c)),
     (''actor_exits_error'', jnat (ct_actor_exits_error c)),
     (''calls_total'', jnat (ct_calls_total c)),
     (''clients_total'', jnat (ct_clients_total c)),
     (''agents_registered'', jnat (ct_agents_registered c)),
     (''relayed'', jnat (ct_relayed c))]"

definition snapshot :: "env \<Rightarrow> state \<Rightarrow> string option \<Rightarrow> json" where
  "snapshot E s scope = jobj [
     (''proto'', JStr PROTO),
     (''node_id'', JStr (node_id s)),
     (''node_ip'', JStr (node_ip s)),
     (''addrs'', jstrs (e_local_addrs E)),
     (''addr_tags'', jtags (e_local_tags E)),
     (''addr_ifaces'', jstr_map (e_local_ifaces E)),
     (''addr_macs'', jstr_map (e_local_macs E)),
     (''hostname'', JStr (hostname s)),
     (''control_port'', jnat (control_port s)),
     (''head_node_id'', JStr (head_node_id s)),
     (''head_generation'', jnat (head_generation s)),
     (''seq'', jnat (next_event_seq s - 1)),
     (''boot_id'', JStr (boot_id s)),
     (''islands'', JArr (map island_json (fb_islands (fabrics s)))),
     (''peers'', jobj (map (\<lambda>p. (pe_node_id p, peer_row p)) (hm_values (peers s)))),
     (''clients'', jobj (map (\<lambda>c. (cl_id c, client_row c))
        (filter (\<lambda>c. case scope of None \<Rightarrow> True | Some g \<Rightarrow> cl_group c = g) (hm_values (clients s))))),
     (''groups'', jobj (map (\<lambda>g. (g, group_json s g)) (snapshot_groups s scope))),
     (''counters'', counters_json (counters s))]"

section \<open>Lemmas\<close>

lemma jget_group_used:
  "as_u64 (jget (group_json s g) ''gpus_used'') = Some (gpus_total s g - gpus_free s g)"
  "as_u64 (jget (group_json s g) ''gpus_total'') = Some (gpus_total s g)"
  by (simp_all add: group_json_def jget_jobj as_u64_def jnat_def)

end
