(* ===== verification/Claim.thy ===== *)
theory Claim
  imports Status
begin

text \<open>
  Matching a requested shape against the probed topology (\<open>rust/mentatd/src/claim.rs\<close>): reading
  a request, the best link between two nodes, the candidates for a set, the backtracking search
  over the sets, and the answer. A result is \<open>Inl\<close> the refusal text or \<open>Inr\<close> the value.

  A GPU count is an \<open>f64\<close> that is a whole number, and stands here as that number.
\<close>

section \<open>Requests\<close>

datatype link = Rdma | Any

datatype layout = Mesh | Ring | Line

definition layout_parse :: "string \<Rightarrow> string + layout" where
  "layout_parse s =
     (if s = ''mesh'' \<or> s = [] then Inr Mesh
      else if s = ''ring'' then Inr Ring
      else if s = ''line'' then Inr Line
      else Inl (''unknown layout '' @ debug_str s @ '', expected mesh, ring or line''))"

definition ordered :: "layout \<Rightarrow> bool" where
  "ordered l \<longleftrightarrow> l \<noteq> Mesh"

definition link_parse :: "string \<Rightarrow> string + link" where
  "link_parse s =
     (if s \<in> {''rdma'', ''roce'', ''fabric''} then Inr Rdma
      else if s \<in> {''ip'', ''any'', []} then Inr Any
      else Inl (''unknown link '' @ debug_str s @ '', expected rdma or ip''))"

record set_req =
  sr_name :: string
  sr_bundles :: "nat list"
  sr_link :: link
  sr_layout :: layout
  sr_vendor :: string

record between_req =
  br_from :: string
  br_to :: string
  br_link :: link

record request =
  rq_sets :: "set_req list"
  rq_between :: "between_req list"

text \<open>A double that is a whole number of GPUs: finite, not negative, no fraction.\<close>

definition whole :: "rat \<Rightarrow> nat option" where
  "whole f = (if 0 \<le> f \<and> of_int (floor f) = f then Some (nat (floor f)) else None)"

definition two64 :: nat where
  "two64 = 2 ^ 64"

text \<open>\<open>canon\<close>: a whole number that fits is spelled as an integer; \<open>f as u64\<close> saturates.\<close>

definition canon_num :: "jnum \<Rightarrow> json" where
  "canon_num n = (case whole (num_f64 n) of
     Some k \<Rightarrow> if k \<le> two64 then jnat (min k u64_max) else JNum n
   | None \<Rightarrow> JNum n)"

fun canon :: "json \<Rightarrow> bool \<Rightarrow> json" where
  "canon (JNum (PosInt n)) inside =
     (if inside then JArr (replicate n (jnat 1)) else canon_num (PosInt n))"
| "canon (JNum n) inside = canon_num n"
| "canon (JArr xs) inside = JArr (map (\<lambda>x. canon x False) xs)"
| "canon (JObj kvs) inside = JObj (map (\<lambda>(k, x). (k, canon x (k = ''bundles''))) kvs)"
| "canon v inside = v"

definition canonical :: "json \<Rightarrow> json" where
  "canonical v = canon v False"

text \<open>\<open>collect\<close> into a \<open>Result\<close>: the first error wins.\<close>

fun collect_res :: "('e + 'a) list \<Rightarrow> 'e + 'a list" where
  "collect_res [] = Inr []"
| "collect_res (Inl e # xs) = Inl e"
| "collect_res (Inr x # xs) =
     (case collect_res xs of Inl e \<Rightarrow> Inl e | Inr ys \<Rightarrow> Inr (x # ys))"

definition parse_bundles :: "string \<Rightarrow> json \<Rightarrow> string + nat list" where
  "parse_bundles name v =
     (case v of
        JArr a \<Rightarrow> collect_res (map (\<lambda>b.
          case (case as_f64 b of None \<Rightarrow> None | Some f \<Rightarrow> whole f) of
            None \<Rightarrow> Inl (''set '' @ debug_str name @ '': every bundle is a whole number of GPUs'')
          | Some n \<Rightarrow> Inr n) a)
      | JNum n \<Rightarrow> Inr (replicate (case as_u64 v of None \<Rightarrow> 0 | Some n \<Rightarrow> n) 1)
      | _ \<Rightarrow> Inl (''set '' @ debug_str name @ '' needs bundles''))"

definition str_or :: "string \<Rightarrow> json \<Rightarrow> string" where
  "str_or d v = (case as_str v of None \<Rightarrow> d | Some s \<Rightarrow> s)"

definition parse_set :: "json \<Rightarrow> string + set_req" where
  "parse_set v =
     (case as_str (jget v ''name'') of
        None \<Rightarrow> Inl ''a set needs a name''
      | Some name \<Rightarrow>
          (case parse_bundles name (jget v ''bundles'') of
             Inl e \<Rightarrow> Inl e
           | Inr bundles \<Rightarrow>
               (case link_parse (str_or ''ip'' (jget v ''link'')) of
                  Inl e \<Rightarrow> Inl e
                | Inr l \<Rightarrow>
                    (case layout_parse (str_or ''mesh'' (jget v ''layout'')) of
                       Inl e \<Rightarrow> Inl e
                     | Inr lay \<Rightarrow> Inr \<lparr>sr_name = name, sr_bundles = bundles, sr_link = l,
                          sr_layout = lay, sr_vendor = str_or [] (jget v ''vendor'')\<rparr>))))"

definition parse_between :: "json \<Rightarrow> string + between_req" where
  "parse_between v =
     (case as_str (jget v ''from'') of
        None \<Rightarrow> Inl ''between needs from''
      | Some a \<Rightarrow>
          (case as_str (jget v ''to'') of
             None \<Rightarrow> Inl ''between needs to''
           | Some b \<Rightarrow>
               (case link_parse (str_or ''ip'' (jget v ''link'')) of
                  Inl e \<Rightarrow> Inl e
                | Inr l \<Rightarrow> Inr \<lparr>br_from = a, br_to = b, br_link = l\<rparr>)))"

definition parse :: "json \<Rightarrow> string + request" where
  "parse shape =
     (case as_array (jget shape ''sets'') of
        None \<Rightarrow> Inl ''shape needs a sets array''
      | Some a \<Rightarrow>
          (case collect_res (map parse_set a) of
             Inl e \<Rightarrow> Inl e
           | Inr sets \<Rightarrow>
               (case as_array (jget shape ''between'') of
                  None \<Rightarrow> Inr \<lparr>rq_sets = sets, rq_between = []\<rparr>
                | Some b \<Rightarrow>
                    (case collect_res (map parse_between b) of
                       Inl e \<Rightarrow> Inl e
                     | Inr bs \<Rightarrow> Inr \<lparr>rq_sets = sets, rq_between = bs\<rparr>))))"

section \<open>Topology\<close>

record net_port =
  po_addr :: string
  po_iface :: "string option"
  po_tags :: "string list"

definition is_rdma :: "net_port \<Rightarrow> bool" where
  "is_rdma p \<longleftrightarrow> ''rdma'' \<in> set (po_tags p)"

record topo =
  t_islands :: "island list"
  t_ports :: "(string, net_port list) table"
  t_links :: "(string \<times> string, nat) table"
  t_forwarded :: "(string \<times> string) list"
  t_free_gpus :: "(string, nat) table"
  t_hosts :: str_map
  t_vendors :: str_map

record net_path =
  pa_from :: string
  pa_to :: string
  pa_local :: net_port
  pa_remote :: net_port
  pa_rtt_ms :: nat

definition rtt :: "topo \<Rightarrow> string \<Rightarrow> string \<Rightarrow> nat option" where
  "rtt t a b = (case map_of (t_links t) (a, b) of
     Some r \<Rightarrow> Some r | None \<Rightarrow> map_of (t_links t) (b, a))"

definition is_forwarded :: "topo \<Rightarrow> string \<Rightarrow> string \<Rightarrow> bool" where
  "is_forwarded t a b \<longleftrightarrow> (a, b) \<in> set (t_forwarded t) \<or> (b, a) \<in> set (t_forwarded t)"

text \<open>A running best: a later candidate wins only when it is strictly better.\<close>

definition keep_best :: "('a \<Rightarrow> 'k::linorder) \<Rightarrow> 'a \<Rightarrow> 'a option \<Rightarrow> 'a option" where
  "keep_best key c best = (case best of
     None \<Rightarrow> Some c | Some b \<Rightarrow> if key c < key b then Some c else Some b)"

definition path_of :: "topo \<Rightarrow> string \<Rightarrow> string \<Rightarrow> link \<Rightarrow> bool \<Rightarrow> net_port \<Rightarrow> net_port \<Rightarrow> net_path option" where
  "path_of t a b l cable x y =
     (if l = Rdma \<and> \<not> (is_rdma x \<and> is_rdma y) then None
      else (case rtt t (po_addr x) (po_addr y) of
          None \<Rightarrow> None
        | Some r \<Rightarrow>
            (if cable \<and> is_forwarded t (po_addr x) (po_addr y) then None
             else Some \<lparr>pa_from = a, pa_to = b, pa_local = x, pa_remote = y, pa_rtt_ms = r\<rparr>)))"

definition path_rank :: "net_path \<Rightarrow> nat \<times> string \<times> string" where
  "path_rank p = (pa_rtt_ms p, po_addr (pa_local p), po_addr (pa_remote p))"

definition path :: "topo \<Rightarrow> string \<Rightarrow> string \<Rightarrow> link \<Rightarrow> bool \<Rightarrow> net_path option" where
  "path t a b l cable =
     (case map_of (t_ports t) a of
        None \<Rightarrow> None
      | Some pa \<Rightarrow>
          (case map_of (t_ports t) b of
             None \<Rightarrow> None
           | Some pb \<Rightarrow>
               fold (\<lambda>x best. fold (\<lambda>y best.
                 case path_of t a b l cable x y of None \<Rightarrow> best | Some c \<Rightarrow> keep_best path_rank c best)
                 pb best) pa None))"

section \<open>Candidates\<close>

definition MAX_CHAINS :: nat where
  "MAX_CHAINS = 32"

definition free_on :: "topo \<Rightarrow> string \<Rightarrow> nat" where
  "free_on t n = (case map_of (t_free_gpus t) n of None \<Rightarrow> 0 | Some f \<Rightarrow> f)"

text \<open>
  \<open>walk\<close> with \<open>k\<close> members still to choose: \<open>k = 0\<close> is the test \<open>chain.len() == want\<close>.
\<close>

fun walk :: "topo \<Rightarrow> set_req \<Rightarrow> string list \<Rightarrow> nat \<Rightarrow> string list \<Rightarrow> string list list \<Rightarrow> string list list" where
  "walk t st nodes 0 chain out =
     (if MAX_CHAINS \<le> length out then out
      else if sr_layout st \<noteq> Ring \<or> length (sr_bundles st) < 3
           \<or> path t (last chain) (hd chain) (sr_link st) True \<noteq> None
      then out @ [chain] else out)"
| "walk t st nodes (Suc k) chain out =
     (if MAX_CHAINS \<le> length out then out
      else fold (\<lambda>n out.
        if n \<in> set chain \<or> free_on t n < sr_bundles st ! length chain then out
        else if sr_layout st = Ring \<and> chain \<noteq> [] \<and> n < hd chain then out
        else if chain \<noteq> [] \<and> path t (last chain) n (sr_link st) True = None then out
        else walk t st nodes k (chain @ [n]) out) nodes out)"

text \<open>The first \<open>want\<close> nodes that fit, member by member.\<close>

definition first_fit :: "topo \<Rightarrow> set_req \<Rightarrow> string list \<Rightarrow> string list \<Rightarrow> string list" where
  "first_fit t st taken nodes = fold (\<lambda>n chosen.
     if length chosen = length (sr_bundles st) then chosen
     else if n \<notin> set taken \<and> sr_bundles st ! length chosen \<le> free_on t n then chosen @ [n]
     else chosen) nodes []"

definition candidates :: "topo \<Rightarrow> set_req \<Rightarrow> string list \<Rightarrow> string list list" where
  "candidates t st taken =
     (let want = length (sr_bundles st)
      in if ordered (sr_layout st)
         then walk t st (filter (\<lambda>n. n \<notin> set taken) (map fst (t_free_gpus t))) want [] []
         else (case sr_link st of
             Rdma \<Rightarrow> List.map_filter (\<lambda>i.
               let avail = filter (\<lambda>n. n \<notin> set taken) (i_nodes i);
                   chosen = first_fit t st taken avail
               in if length avail < want then None
                  else if length chosen = want then Some chosen else None) (t_islands t)
           | Any \<Rightarrow>
               (let chosen = first_fit t st taken (map fst (t_free_gpus t))
                in if length chosen = want then [chosen] else [])))"

section \<open>The search\<close>

type_synonym chosen = "(string, string list) table"

definition best_between :: "topo \<Rightarrow> link \<Rightarrow> string list \<Rightarrow> string list \<Rightarrow> net_path option" where
  "best_between t l as bs =
     fold (\<lambda>a best. fold (\<lambda>c best.
       case path t a c l False of None \<Rightarrow> best
       | Some p \<Rightarrow> keep_best (\<lambda>p. (pa_rtt_ms p, pa_from p, pa_to p)) p best) bs best) as None"

fun paths_between :: "topo \<Rightarrow> between_req list \<Rightarrow> chosen \<Rightarrow> net_path list option" where
  "paths_between t [] ch = Some []"
| "paths_between t (b # bs) ch =
     (case map_of ch (br_from b) of
        None \<Rightarrow> None
      | Some f \<Rightarrow>
          (case map_of ch (br_to b) of
             None \<Rightarrow> None
           | Some u \<Rightarrow>
               (case best_between t (br_link b) f u of
                  None \<Rightarrow> None
                | Some p \<Rightarrow> map_option ((#) p) (paths_between t bs ch))))"

text \<open>
  \<open>search\<close>, with \<open>chosen\<close> and \<open>taken\<close> changed in place and undone; \<open>try_cands\<close> is the loop over
  one set's candidates.
\<close>

function (sequential)
  search :: "topo \<Rightarrow> request \<Rightarrow> set_req list \<Rightarrow> chosen \<Rightarrow> string list \<Rightarrow> bool \<times> chosen \<times> string list" and
  try_cands :: "topo \<Rightarrow> request \<Rightarrow> set_req \<Rightarrow> set_req list \<Rightarrow> string list list \<Rightarrow> chosen \<Rightarrow> string list
    \<Rightarrow> bool \<times> chosen \<times> string list" where
  "search t rq [] ch tk = (paths_between t (rq_between rq) ch \<noteq> None, ch, tk)"
| "search t rq (st # rest) ch tk = try_cands t rq st rest (candidates t st tk) ch tk"
| "try_cands t rq st rest [] ch tk = (False, ch, tk)"
| "try_cands t rq st rest (c # cs) ch tk =
     (let (ok, ch', tk') = search t rq rest (bt_insert (sr_name st) c ch) (fold bs_insert c tk)
      in if ok then (True, ch', tk')
         else try_cands t rq st rest cs (hm_remove (sr_name st) ch') (fold bs_remove c tk'))"
  by pat_completeness auto

termination
  by (relation "measures [\<lambda>x. case x of Inl (t, rq, os, ch, tk) \<Rightarrow> length os
          | Inr (t, rq, st, rest, cs, ch, tk) \<Rightarrow> length rest,
        \<lambda>x. case x of Inl _ \<Rightarrow> 0 | Inr (t, rq, st, rest, cs, ch, tk) \<Rightarrow> Suc (length cs)]") auto

section \<open>The answer\<close>

record member =
  me_node :: string
  me_bind :: net_port
  me_prev :: "net_path option"
  me_next :: "net_path option"
  me_vendor :: string

record solution =
  so_sets :: "(string, member list) table"
  so_between :: "net_path list"

definition neighbour_indices :: "layout \<Rightarrow> nat \<Rightarrow> nat \<Rightarrow> nat option \<times> nat option" where
  "neighbour_indices lay k i = (case lay of
     Mesh \<Rightarrow> (None, None)
   | Ring \<Rightarrow> if 1 < k then (Some ((i + k - 1) mod k), Some ((i + 1) mod k)) else (None, None)
   | Line \<Rightarrow> (if 0 < i then Some (i - 1) else None, if i + 1 < k then Some (i + 1) else None))"

definition link_to :: "topo \<Rightarrow> set_req \<Rightarrow> string list \<Rightarrow> nat \<Rightarrow> nat option \<Rightarrow> string + net_path option" where
  "link_to t st nodes i j = (case j of
     None \<Rightarrow> Inr None
   | Some j \<Rightarrow> (case path t (nodes ! i) (nodes ! j) (sr_link st) True of
        Some p \<Rightarrow> Inr (Some p)
      | None \<Rightarrow> Inl (nodes ! i @ '' has no cable to '' @ nodes ! j @ '' in set '' @ debug_str (sr_name st))))"

definition neighbours :: "topo \<Rightarrow> set_req \<Rightarrow> string list \<Rightarrow> nat \<Rightarrow> string + (net_path option \<times> net_path option)" where
  "neighbours t st nodes i =
     (let (prev, next) = neighbour_indices (sr_layout st) (length nodes) i
      in case link_to t st nodes i prev of
           Inl e \<Rightarrow> Inl e
         | Inr p \<Rightarrow> (case link_to t st nodes i next of Inl e \<Rightarrow> Inl e | Inr q \<Rightarrow> Inr (p, q)))"

definition bind_for :: "topo \<Rightarrow> set_req \<Rightarrow> string \<Rightarrow> string list \<Rightarrow> net_port option" where
  "bind_for t st node ps =
     (case map_of (t_ports t) node of
        None \<Rightarrow> None
      | Some own \<Rightarrow>
          (case sr_link st of
             Rdma \<Rightarrow> List.find (\<lambda>p. is_rdma p \<and> (\<forall>q \<in> set (filter (\<lambda>q. q \<noteq> node) ps).
               (case map_of (t_ports t) q of None \<Rightarrow> False
                | Some qp \<Rightarrow> \<exists>y \<in> set qp. is_rdma y \<and> rtt t (po_addr p) (po_addr y) \<noteq> None))) own
           | Any \<Rightarrow> (case own of [] \<Rightarrow> None | p # _ \<Rightarrow> Some p)))"

definition member_for :: "topo \<Rightarrow> set_req \<Rightarrow> string list \<Rightarrow> nat \<Rightarrow> string + member" where
  "member_for t st nodes i =
     (let n = nodes ! i
      in case neighbours t st nodes i of
           Inl e \<Rightarrow> Inl e
         | Inr (prev, next) \<Rightarrow>
             (let vendor = (if sr_vendor st = []
                            then (case map_of (t_vendors t) n of None \<Rightarrow> [] | Some v \<Rightarrow> v)
                            else sr_vendor st)
              in case (case next of Some p \<Rightarrow> Some p | None \<Rightarrow> prev) of
                   Some p \<Rightarrow> Inr \<lparr>me_node = n, me_bind = pa_local p, me_prev = prev, me_next = next,
                                  me_vendor = vendor\<rparr>
                 | None \<Rightarrow>
                     (case bind_for t st n nodes of
                        None \<Rightarrow> Inl (n @ '' has no address for set '' @ debug_str (sr_name st))
                      | Some b \<Rightarrow> Inr \<lparr>me_node = n, me_bind = b, me_prev = prev, me_next = next,
                                       me_vendor = vendor\<rparr>)))"

definition members_for :: "topo \<Rightarrow> chosen \<Rightarrow> set_req \<Rightarrow> string + member list" where
  "members_for t ch st =
     (let nodes = (case map_of ch (sr_name st) of None \<Rightarrow> [] | Some ns \<Rightarrow> ns)
      in collect_res (map (member_for t st nodes) [0..<length nodes]))"

definition why_not_set :: "topo \<Rightarrow> set_req \<Rightarrow> string option" where
  "why_not_set t st =
     (let want = length (sr_bundles st)
      in if ordered (sr_layout st)
         then Some (''set '' @ debug_str (sr_name st) @ '' wants a '' @
           (if sr_layout st = Ring then ''ring'' else ''line'') @ '' of '' @ show_nat want @
           '' nodes, each cabled to the next over '' @
           (if sr_link st = Rdma then ''rdma'' else ''probed'') @
           '' links, and no such order of free nodes exists'')
         else (case sr_link st of
             Rdma \<Rightarrow>
               (let biggest = fold max (map (\<lambda>i. length (i_nodes i)) (t_islands t)) 0
                in if biggest < want
                   then Some (''set '' @ debug_str (sr_name st) @ '' wants '' @ show_nat want @
                     '' nodes sharing a fabric, largest island has '' @ show_nat biggest)
                   else None)
           | Any \<Rightarrow>
               (let have' = length (t_free_gpus t)
                in if have' < want
                   then Some (''set '' @ debug_str (sr_name st) @ '' wants '' @ show_nat want @
                     '' nodes, cluster has '' @ show_nat have')
                   else None)))"

definition why_not :: "topo \<Rightarrow> request \<Rightarrow> string" where
  "why_not t rq =
     (let parts = List.map_filter (why_not_set t) (rq_sets rq)
      in join ''. '' (if parts = [] then [''no assignment satisfies every set and link together'']
                      else parts))"

text \<open>The refusals \<open>solve\<close> makes before it searches.\<close>

definition check_request :: "request \<Rightarrow> string option" where
  "check_request rq =
     (let names = map sr_name (rq_sets rq)
      in case List.find (\<lambda>s. sr_bundles s = []) (rq_sets rq) of
           Some s \<Rightarrow> Some (''set '' @ debug_str (sr_name s) @ '' asks for no nodes'')
         | None \<Rightarrow>
             (if \<not> distinct names then Some ''two sets share a name''
              else map_option (\<lambda>n. ''between names '' @ debug_str n @ '', which is not a set'')
                (List.find (\<lambda>n. n \<notin> set names)
                  (concat (map (\<lambda>b. [br_from b, br_to b]) (rq_between rq))))))"

definition solve_order :: "request \<Rightarrow> set_req list" where
  "solve_order rq = sort_key (\<lambda>s. (sr_link s \<noteq> Rdma, sr_name s)) (rq_sets rq)"

definition solve :: "topo \<Rightarrow> request \<Rightarrow> string + solution" where
  "solve t rq =
     (case check_request rq of
        Some e \<Rightarrow> Inl e
      | None \<Rightarrow>
          (let (ok, ch, tk) = search t rq (solve_order rq) [] []
           in if \<not> ok then Inl (why_not t rq)
              else (case collect_res (map (\<lambda>s. case members_for t ch s of
                        Inl e \<Rightarrow> Inl e | Inr ms \<Rightarrow> Inr (sr_name s, ms)) (rq_sets rq)) of
                  Inl e \<Rightarrow> Inl e
                | Inr sets \<Rightarrow>
                    (case paths_between t (rq_between rq) ch of
                       None \<Rightarrow> Inl ''no probed link satisfies a between entry''
                     | Some ps \<Rightarrow> Inr \<lparr>so_sets = bt_of_list sets, so_between = ps\<rparr>))))"

section \<open>The answer as JSON\<close>

definition host_of :: "topo \<Rightarrow> string \<Rightarrow> string" where
  "host_of t n = (case map_of (t_hosts t) n of None \<Rightarrow> n | Some h \<Rightarrow> h)"

definition neighbour_json :: "topo \<Rightarrow> string \<Rightarrow> net_path option \<Rightarrow> (string \<times> json) list" where
  "neighbour_json t key p = (case p of
     None \<Rightarrow> []
   | Some p \<Rightarrow> [(key, jobj [
        (''node'', JStr (pa_to p)),
        (''host'', JStr (host_of t (pa_to p))),
        (''addr'', JStr (po_addr (pa_remote p))),
        (''bind'', JStr (po_addr (pa_local p))),
        (''iface'', jopt JStr (po_iface (pa_local p)))])])"

definition member_json :: "topo \<Rightarrow> member \<Rightarrow> json" where
  "member_json t m = jobj ([
     (''node'', JStr (me_node m)),
     (''host'', JStr (host_of t (me_node m))),
     (''vendor'', JStr (me_vendor m)),
     (''bind'', JStr (po_addr (me_bind m))),
     (''iface'', jopt JStr (po_iface (me_bind m))),
     (''tags'', jstrs (po_tags (me_bind m)))]
     @ neighbour_json t ''prev'' (me_prev m) @ neighbour_json t ''next'' (me_next m))"

definition end_json :: "topo \<Rightarrow> str_map \<Rightarrow> string \<Rightarrow> net_port \<Rightarrow> json" where
  "end_json t of_set n p = jobj [
     (''set'', JStr (case map_of of_set n of None \<Rightarrow> [] | Some k \<Rightarrow> k)),
     (''node'', JStr n),
     (''host'', JStr (host_of t n)),
     (''addr'', JStr (po_addr p)),
     (''iface'', jopt JStr (po_iface p))]"

definition path_json :: "topo \<Rightarrow> str_map \<Rightarrow> net_path \<Rightarrow> json" where
  "path_json t of_set p = jobj [
     (''from'', end_json t of_set (pa_from p) (pa_local p)),
     (''to'', end_json t of_set (pa_to p) (pa_remote p)),
     (''rtt_ms'', jnat (pa_rtt_ms p))]"

definition solution_json :: "topo \<Rightarrow> solution \<Rightarrow> json" where
  "solution_json t so =
     (let of_set = bt_of_list (concat (map (\<lambda>(k, ms). map (\<lambda>m. (me_node m, k)) ms) (so_sets so)))
      in jobj [
        (''sets'', JObj (map (\<lambda>(k, ms). (k, JArr (map (member_json t) ms))) (so_sets so))),
        (''between'', JArr (map (path_json t of_set) (so_between so)))])"

section \<open>The topology of a daemon\<close>

text \<open>\<open>entry(k).or_insert(v)\<close> on a \<open>BTreeMap\<close>.\<close>

definition bt_or_insert :: "'k::linorder \<Rightarrow> 'v \<Rightarrow> ('k, 'v) table \<Rightarrow> ('k, 'v) table" where
  "bt_or_insert k v m = (if hm_has m k then m else bt_insert k v m)"

definition record_node ::
  "string \<Rightarrow> string \<Rightarrow> string list \<Rightarrow> (string, string list) table \<Rightarrow> str_map \<Rightarrow> topo \<Rightarrow> topo" where
  "record_node node host addrs tags ifaces t =
     (let ps = map (\<lambda>a. \<lparr>po_addr = a, po_iface = map_of ifaces a,
            po_tags = (case map_of tags a of None \<Rightarrow> [] | Some ts \<Rightarrow> ts)\<rparr>) addrs;
          t1 = (if ps = [] then t else t\<lparr>t_ports := bt_insert node ps (t_ports t)\<rparr>)
      in t1\<lparr>t_hosts := bt_insert node host (t_hosts t1)\<rparr>)"

definition add_link :: "string \<Rightarrow> string \<Rightarrow> nat \<Rightarrow> topo \<Rightarrow> topo" where
  "add_link a b r t = t\<lparr>t_links := bt_insert (a, b) r (t_links t)\<rparr>"

definition add_forwarded :: "string \<Rightarrow> string \<Rightarrow> topo \<Rightarrow> topo" where
  "add_forwarded a b t = t\<lparr>t_forwarded := bs_insert (a, b) (t_forwarded t)\<rparr>"

definition own_probe :: "string \<Rightarrow> string \<times> pair_probe \<Rightarrow> topo \<Rightarrow> topo" where
  "own_probe local = (\<lambda>(remote, r) t.
     (let t1 = (if pp_ok r then add_link local remote (pp_rtt_ms r) t else t)
      in if pp_direct r = Some False then add_forwarded local remote t1 else t1))"

definition published_probe :: "string \<Rightarrow> string \<times> json \<Rightarrow> topo \<Rightarrow> topo" where
  "published_probe local = (\<lambda>(remote, r) t.
     (let t1 = (if as_bool (jget r ''ok'') = Some True
                then add_link local remote (case as_u64 (jget r ''rtt_ms'') of None \<Rightarrow> 0 | Some n \<Rightarrow> n) t
                else t)
      in if jget r ''direct'' = JBool False then add_forwarded local remote t1 else t1))"

definition published_peer :: "string \<times> json \<Rightarrow> topo \<Rightarrow> topo" where
  "published_peer = (\<lambda>(_, q) t.
     if as_bool (jget q ''alive'') \<noteq> Some True then t
     else fold (\<lambda>(local, remotes). fold (published_probe local) (entries remotes))
            (entries (jget q ''probes'')) t)"

definition record_peer :: "peer_info \<Rightarrow> topo \<Rightarrow> topo" where
  "record_peer p t =
     fold published_peer (entries (jget (pe_last_status p) ''peers''))
       (fold (\<lambda>(local, remotes). fold (own_probe local) remotes) (pe_probe_pairs p)
         (record_node (pe_node_id p) (pe_node_ip p) (pe_addrs p) (pe_addr_tags p) (pe_addr_ifaces p) t))"

definition record_agent :: "state \<Rightarrow> agent_info \<Rightarrow> topo \<Rightarrow> topo" where
  "record_agent s a t =
     (let n = ag_node_id a
      in t\<lparr>t_free_gpus := bt_insert n (free_on t n + length (free_gpus_of s (ag_id a))) (t_free_gpus t),
           t_vendors := (case m_gpus (ag_machine a) of
              [] \<Rightarrow> t_vendors t | g # _ \<Rightarrow> bt_or_insert n (g_vendor g) (t_vendors t)),
           t_ports := bt_or_insert n [\<lparr>po_addr = ag_node_ip a, po_iface = None, po_tags = []\<rparr>] (t_ports t),
           t_hosts := bt_or_insert n (ag_node_ip a) (t_hosts t)\<rparr>)"

definition topology :: "env \<Rightarrow> state \<Rightarrow> topo" where
  "topology E s =
     fold (record_agent s) (filter ag_alive (hm_values (agents s)))
       (fold record_peer (filter pe_alive (hm_values (peers s)))
         (record_node (node_id s) (hostname s) (e_local_addrs E) (e_local_tags E) (e_local_ifaces E)
           \<lparr>t_islands = fb_islands (fabrics s), t_ports = [], t_links = [], t_forwarded = [],
            t_free_gpus = [], t_hosts = [], t_vendors = []\<rparr>))"

end
