(* ===== verification/ClaimSolver.thy ===== *)
theory ClaimSolver
  imports Claim
begin

text \<open>
  What the claim solver of \<open>Claim\<close> guarantees: the best link is a best link, a walk finds chains
  of cabled nodes, the backtracking search with its undo finds an answer exactly when one of the
  choices leads to one, and a solved request has the shape it asked for.
\<close>

section \<open>The best of several\<close>

abbreviation best_step :: "('k \<Rightarrow> 'r::linorder) \<Rightarrow> ('x \<Rightarrow> 'k option) \<Rightarrow> 'x \<Rightarrow> 'k option \<Rightarrow> 'k option" where
  "best_step key f x best \<equiv> (case f x of None \<Rightarrow> best | Some c \<Rightarrow> keep_best key c best)"

lemma fold_best_None: "fold (best_step key f) xs b = None \<longleftrightarrow> b = None \<and> (\<forall>x \<in> set xs. f x = None)"
proof (induction xs arbitrary: b)
  case (Cons x xs)
  then show ?case by (cases "f x"; cases b) (auto simp: keep_best_def)
qed simp

lemma fold_best_Some:
  "fold (best_step key f) xs b = Some p \<Longrightarrow>
     (b = Some p \<or> (\<exists>x \<in> set xs. f x = Some p))
     \<and> (\<forall>x \<in> set xs. \<forall>c. f x = Some c \<longrightarrow> key p \<le> key c) \<and> (\<forall>c. b = Some c \<longrightarrow> key p \<le> key c)"
proof (induction xs arbitrary: b)
  case (Cons x xs)
  show ?case
  proof (cases "f x")
    case None
    with Cons.prems have "fold (best_step key f) xs b = Some p" by simp
    from Cons.IH [OF this] None show ?thesis by auto
  next
    case (Some c)
    with Cons.prems have *: "fold (best_step key f) xs (keep_best key c b) = Some p" by simp
    from Cons.IH [OF *] Some show ?thesis
      by (cases b) (auto simp: keep_best_def split: if_splits)
  qed
qed simp

lemma fold_fold_product:
  "fold (\<lambda>x b. fold (g x) ys b) xs b = fold (\<lambda>(x, y). g x y) (List.product xs ys) b"
  by (induction xs arbitrary: b) (simp_all add: fold_map comp_def)

section \<open>The best link between two nodes\<close>

definition usable :: "topo \<Rightarrow> string \<Rightarrow> string \<Rightarrow> link \<Rightarrow> bool \<Rightarrow> net_path \<Rightarrow> bool" where
  "usable t a b l cable p \<longleftrightarrow> (\<exists>pa pb. map_of (t_ports t) a = Some pa \<and> map_of (t_ports t) b = Some pb
     \<and> (\<exists>x \<in> set pa. \<exists>y \<in> set pb. path_of t a b l cable x y = Some p))"

lemma path_fold:
  assumes "map_of (t_ports t) a = Some pa" "map_of (t_ports t) b = Some pb"
  shows "path t a b l cable =
    fold (best_step path_rank (\<lambda>(x, y). path_of t a b l cable x y)) (List.product pa pb) None"
  using assms by (simp add: path_def fold_fold_product split_def)

lemma path_None: "path t a b l cable = None \<longleftrightarrow> (\<forall>p. \<not> usable t a b l cable p)"
proof (cases "map_of (t_ports t) a")
  case None
  then show ?thesis by (simp add: path_def usable_def)
next
  case (Some pa)
  show ?thesis
  proof (cases "map_of (t_ports t) b")
    case None
    with Some show ?thesis by (simp add: path_def usable_def)
  next
    case (Some pb)
    with \<open>map_of (t_ports t) a = Some pa\<close> show ?thesis
      by (simp add: path_fold fold_best_None usable_def) (metis not_Some_eq)
  qed
qed

lemma path_best:
  assumes "path t a b l cable = Some p"
  shows "usable t a b l cable p \<and> (\<forall>q. usable t a b l cable q \<longrightarrow> path_rank p \<le> path_rank q)"
proof -
  from assms obtain pa pb where ports: "map_of (t_ports t) a = Some pa" "map_of (t_ports t) b = Some pb"
    by (auto simp: path_def split: option.splits)
  with assms have "fold (best_step path_rank (\<lambda>(x, y). path_of t a b l cable x y))
      (List.product pa pb) None = Some p"
    by (simp add: path_fold)
  from fold_best_Some [OF this] ports show ?thesis
    by (auto simp: usable_def)
qed

lemma rtt_sym: "rtt t a b = None \<longleftrightarrow> rtt t b a = None"
  by (auto simp: rtt_def split: option.splits)

lemma is_forwarded_sym: "is_forwarded t a b \<longleftrightarrow> is_forwarded t b a"
  by (auto simp: is_forwarded_def)

lemma path_of_sym: "path_of t a b l cable x y = None \<longleftrightarrow> path_of t b a l cable y x = None"
  using rtt_sym [of t "po_addr x" "po_addr y"] is_forwarded_sym [of t "po_addr x" "po_addr y"]
  by (auto simp: path_of_def split: option.splits)

text \<open>A link one way is a link the other way.\<close>

lemma path_sym: "path t a b l cable = None \<longleftrightarrow> path t b a l cable = None"
proof -
  have one: "path t b a l cable = None" if none: "path t a b l cable = None" for a b
    unfolding path_None
  proof (intro allI notI)
    fix p assume "usable t b a l cable p"
    then obtain pa pb x y where u: "map_of (t_ports t) b = Some pa" "map_of (t_ports t) a = Some pb"
      "x \<in> set pa" "y \<in> set pb" "path_of t b a l cable x y = Some p"
      by (auto simp: usable_def)
    then obtain q where "path_of t a b l cable y x = Some q"
      using path_of_sym [of t b a l cable x y] by auto
    with u have "usable t a b l cable q" by (auto simp: usable_def)
    with none show False by (simp add: path_None)
  qed
  then show ?thesis by blast
qed

section \<open>Walks\<close>

text \<open>Nodes in an order that fits the bundles so far, each cabled to the next.\<close>

definition chain_ok :: "topo \<Rightarrow> set_req \<Rightarrow> string list \<Rightarrow> bool" where
  "chain_ok t st c \<longleftrightarrow> distinct c \<and> length c \<le> length (sr_bundles st)
     \<and> (\<forall>i < length c. sr_bundles st ! i \<le> free_on t (c ! i))
     \<and> (\<forall>i. Suc i < length c \<longrightarrow> path t (c ! i) (c ! Suc i) (sr_link st) True \<noteq> None)"

definition ring_closed :: "topo \<Rightarrow> set_req \<Rightarrow> string list \<Rightarrow> bool" where
  "ring_closed t st c \<longleftrightarrow> sr_layout st \<noteq> Ring \<or> length c < 3
     \<or> path t (last c) (hd c) (sr_link st) True \<noteq> None"

lemma chain_ok_snoc:
  assumes "chain_ok t st chain" "length chain < length (sr_bundles st)" "n \<notin> set chain"
    and "sr_bundles st ! length chain \<le> free_on t n"
    and "chain = [] \<or> path t (last chain) n (sr_link st) True \<noteq> None"
  shows "chain_ok t st (chain @ [n])"
proof -
  have "path t ((chain @ [n]) ! i) ((chain @ [n]) ! Suc i) (sr_link st) True \<noteq> None"
    if i: "Suc i < length (chain @ [n])" for i
  proof (cases "Suc i < length chain")
    case True
    with assms(1) show ?thesis by (auto simp: chain_ok_def nth_append)
  next
    case False
    with i have "length chain = Suc i" by simp
    then have "chain \<noteq> []" by auto
    moreover from this \<open>length chain = Suc i\<close> have "last chain = chain ! i" by (simp add: last_conv_nth)
    ultimately have "path t (chain ! i) n (sr_link st) True \<noteq> None" using assms(5) by simp
    with \<open>length chain = Suc i\<close> show ?thesis by (simp add: nth_append)
  qed
  with assms show ?thesis
    by (auto simp: chain_ok_def nth_append less_Suc_eq)
qed

definition walk_result :: "topo \<Rightarrow> set_req \<Rightarrow> string list \<Rightarrow> string list \<Rightarrow> bool" where
  "walk_result t st nodes c \<longleftrightarrow> chain_ok t st c \<and> length c = length (sr_bundles st)
     \<and> set c \<subseteq> set nodes \<and> ring_closed t st c"

lemma walk_sound:
  assumes "chain_ok t st chain" "length chain + k = length (sr_bundles st)" "set chain \<subseteq> set nodes"
    and "\<forall>c \<in> set out. walk_result t st nodes c"
  shows "\<forall>c \<in> set (walk t st nodes k chain out). walk_result t st nodes c"
  using assms
proof (induction k arbitrary: chain out)
  case 0
  then show ?case by (auto simp: walk_result_def ring_closed_def)
next
  case (Suc k)
  let ?f = "\<lambda>n out.
    if n \<in> set chain \<or> free_on t n < sr_bundles st ! length chain then out
    else if sr_layout st = Ring \<and> chain \<noteq> [] \<and> n < hd chain then out
    else if chain \<noteq> [] \<and> path t (last chain) n (sr_link st) True = None then out
    else walk t st nodes k (chain @ [n]) out"
  have "\<forall>c \<in> set (fold ?f nodes out). walk_result t st nodes c"
  proof (rule fold_invariant [where Q = "\<lambda>n. n \<in> set nodes" and P = "\<lambda>out. \<forall>c \<in> set out. walk_result t st nodes c"])
    fix n out' assume n: "n \<in> set nodes" and out': "\<forall>c \<in> set out'. walk_result t st nodes c"
    show "\<forall>c \<in> set (?f n out'). walk_result t st nodes c"
    proof (cases "n \<in> set chain \<or> free_on t n < sr_bundles st ! length chain
        \<or> chain \<noteq> [] \<and> path t (last chain) n (sr_link st) True = None")
      case False
      then have "chain_ok t st (chain @ [n])"
        using Suc.prems by (intro chain_ok_snoc) auto
      with Suc.IH [of "chain @ [n]" out'] Suc.prems n out' show ?thesis by auto
    qed (use out' in auto)
  qed (use Suc.prems in auto)
  then show ?case using Suc.prems by simp
qed

text \<open>A walk never returns more than \<open>MAX_CHAINS\<close> chains.\<close>

lemma walk_bound: "length out \<le> MAX_CHAINS \<Longrightarrow> length (walk t st nodes k chain out) \<le> MAX_CHAINS"
proof (induction k arbitrary: chain out)
  case (Suc k)
  let ?f = "\<lambda>n out.
    if n \<in> set chain \<or> free_on t n < sr_bundles st ! length chain then out
    else if sr_layout st = Ring \<and> chain \<noteq> [] \<and> n < hd chain then out
    else if chain \<noteq> [] \<and> path t (last chain) n (sr_link st) True = None then out
    else walk t st nodes k (chain @ [n]) out"
  have "length (fold ?f nodes out) \<le> MAX_CHAINS"
    by (rule fold_invariant [where Q = "\<lambda>_. True" and P = "\<lambda>out. length out \<le> MAX_CHAINS"])
      (use Suc in auto)
  then show ?case using Suc.prems by simp
qed auto

section \<open>Candidates\<close>

definition topo_wf :: "topo \<Rightarrow> bool" where
  "topo_wf t \<longleftrightarrow> distinct (map fst (t_free_gpus t)) \<and> (\<forall>i \<in> set (t_islands t). distinct (i_nodes i))"

text \<open>What a set asked for: as many nodes as bundles, each with the GPUs of its bundle free. A
  mesh over a fabric sits in one island. A ring or a line is a chain of cables, and a ring of
  three or more closes.\<close>

definition set_ok :: "topo \<Rightarrow> set_req \<Rightarrow> string list \<Rightarrow> bool" where
  "set_ok t st c \<longleftrightarrow> length c = length (sr_bundles st) \<and> distinct c
     \<and> (\<forall>i < length c. sr_bundles st ! i \<le> free_on t (c ! i))
     \<and> (sr_layout st = Mesh \<and> sr_link st = Rdma \<longrightarrow> (\<exists>i \<in> set (t_islands t). set c \<subseteq> set (i_nodes i)))
     \<and> (ordered (sr_layout st) \<longrightarrow>
          (\<forall>i. Suc i < length c \<longrightarrow> path t (c ! i) (c ! Suc i) (sr_link st) True \<noteq> None)
          \<and> ring_closed t st c)"

definition fit_upto :: "topo \<Rightarrow> set_req \<Rightarrow> string list \<Rightarrow> string list \<Rightarrow> string list \<Rightarrow> bool" where
  "fit_upto t st taken nodes c \<longleftrightarrow> length c \<le> length (sr_bundles st) \<and> distinct c \<and> set c \<subseteq> set nodes
     \<and> set c \<inter> set taken = {} \<and> (\<forall>i < length c. sr_bundles st ! i \<le> free_on t (c ! i))"

lemma first_fit_sound:
  assumes "distinct nodes"
  shows "fit_upto t st taken nodes (first_fit t st taken nodes)"
proof -
  let ?f = "\<lambda>n chosen. if length chosen = length (sr_bundles st) then chosen
     else if n \<notin> set taken \<and> sr_bundles st ! length chosen \<le> free_on t n then chosen @ [n]
     else chosen"
  have "fit_upto t st taken (done @ nodes) (fold ?f nodes c)"
    if "fit_upto t st taken done c" "distinct (done @ nodes)" for "done" c
    using that
  proof (induction nodes arbitrary: "done" c)
    case (Cons n nodes)
    have "fit_upto t st taken (done @ [n]) (?f n c)"
      using Cons.prems by (auto simp: fit_upto_def nth_append less_Suc_eq)
    with Cons.IH [of "done @ [n]" "?f n c"] Cons.prems show ?case by simp
  qed simp
  from this [of "[]" "[]"] assms show ?thesis by (simp add: fit_upto_def first_fit_def)
qed

lemma candidates_sound:
  assumes "topo_wf t" "c \<in> set (candidates t st taken)"
  shows "set_ok t st c \<and> set c \<inter> set taken = {}"
proof (cases "ordered (sr_layout st)")
  case True
  let ?nodes = "filter (\<lambda>n. n \<notin> set taken) (map fst (t_free_gpus t))"
  have "\<forall>c \<in> set (walk t st ?nodes (length (sr_bundles st)) [] []). walk_result t st ?nodes c"
    by (rule walk_sound) (auto simp: chain_ok_def)
  with True assms(2) have "walk_result t st ?nodes c" by (simp add: candidates_def)
  with True show ?thesis by (auto simp: walk_result_def chain_ok_def set_ok_def ordered_def)
next
  case False
  then have mesh: "sr_layout st = Mesh" by (simp add: ordered_def)
  show ?thesis
  proof (cases "sr_link st")
    case Rdma
    with False assms(2) obtain i where i: "i \<in> set (t_islands t)"
      "c = first_fit t st taken (filter (\<lambda>n. n \<notin> set taken) (i_nodes i))"
      "length c = length (sr_bundles st)"
      by (auto simp: candidates_def map_filter_def Let_def split: if_splits)
    moreover have "distinct (filter (\<lambda>n. n \<notin> set taken) (i_nodes i))"
      using assms(1) i(1) by (auto simp: topo_wf_def)
    ultimately have "fit_upto t st taken (filter (\<lambda>n. n \<notin> set taken) (i_nodes i)) c"
      using first_fit_sound by blast
    with i False Rdma show ?thesis by (auto simp: fit_upto_def set_ok_def)
  next
    case Any
    with False assms(2) have c: "c = first_fit t st taken (map fst (t_free_gpus t))"
      "length c = length (sr_bundles st)"
      by (auto simp: candidates_def Let_def split: if_splits)
    moreover have "distinct (map fst (t_free_gpus t))" using assms(1) by (simp add: topo_wf_def)
    ultimately have "fit_upto t st taken (map fst (t_free_gpus t)) c"
      using first_fit_sound by blast
    with c False Any show ?thesis by (auto simp: fit_upto_def set_ok_def)
  qed
qed

text \<open>Which candidates a set has depends on which nodes are taken, not on their order.\<close>

lemma candidates_cong: "set tk = set tk' \<Longrightarrow> candidates t st tk = candidates t st tk'"
proof -
  assume e: "set tk = set tk'"
  show ?thesis unfolding candidates_def first_fit_def e ..
qed

lemma paths_between_cong: "map_of ch = map_of ch' \<Longrightarrow> paths_between t bs ch = paths_between t bs ch'"
  by (induction bs) (simp_all cong: option.case_cong)

section \<open>The search and its undo\<close>

text \<open>The reference: some choice of candidates, set by set, meets every requirement.\<close>

fun solvable :: "topo \<Rightarrow> request \<Rightarrow> set_req list \<Rightarrow> chosen \<Rightarrow> string list \<Rightarrow> bool" where
  "solvable t rq [] ch tk \<longleftrightarrow> paths_between t (rq_between rq) ch \<noteq> None"
| "solvable t rq (st # rest) ch tk \<longleftrightarrow>
     (\<exists>c \<in> set (candidates t st tk). solvable t rq rest (bt_insert (sr_name st) c ch) (fold bs_insert c tk))"

lemma set_fold_bs_insert [simp]: "set (fold bs_insert c tk) = set c \<union> set tk"
  by (induction c arbitrary: tk) auto

lemma set_fold_bs_remove [simp]: "set (fold bs_remove c tk) = set tk - set c"
  by (induction c arbitrary: tk) auto

lemma solvable_cong:
  "map_of ch = map_of ch' \<Longrightarrow> set tk = set tk' \<Longrightarrow> solvable t rq os ch tk = solvable t rq os ch' tk'"
proof (induction os arbitrary: ch ch' tk tk')
  case Nil
  from paths_between_cong [OF Nil(1)] show ?case by simp
next
  case (Cons st rest)
  have "map_of (bt_insert (sr_name st) c ch) = map_of (bt_insert (sr_name st) c ch')" for c
    using Cons.prems(1) by (auto simp: map_of_bt_insert_gen fun_eq_iff)
  moreover have "set (fold bs_insert c tk) = set (fold bs_insert c tk')" for c
    using Cons.prems(2) by simp
  ultimately have "solvable t rq rest (bt_insert (sr_name st) c ch) (fold bs_insert c tk) =
      solvable t rq rest (bt_insert (sr_name st) c ch') (fold bs_insert c tk')" for c
    by (rule Cons.IH)
  with candidates_cong [OF Cons.prems(2)] show ?case by simp
qed

text \<open>Every set of \<open>os\<close> has its nodes in \<open>ch'\<close>, clear of \<open>tk\<close> and of one another, and the rest of
  the assignment is as it was.\<close>

definition assigned :: "topo \<Rightarrow> set_req list \<Rightarrow> chosen \<Rightarrow> string list \<Rightarrow> chosen \<Rightarrow> bool" where
  "assigned t os ch tk ch' \<longleftrightarrow>
     (\<forall>k. k \<notin> sr_name ` set os \<longrightarrow> map_of ch' k = map_of ch k)
     \<and> (\<forall>st \<in> set os. \<exists>c. map_of ch' (sr_name st) = Some c \<and> set_ok t st c \<and> set c \<inter> set tk = {})
     \<and> (\<forall>st \<in> set os. \<forall>st' \<in> set os. \<forall>c c'. sr_name st \<noteq> sr_name st'
          \<longrightarrow> map_of ch' (sr_name st) = Some c \<longrightarrow> map_of ch' (sr_name st') = Some c'
          \<longrightarrow> set c \<inter> set c' = {})"

text \<open>The outcome of a search: the answer of the reference, an assignment when there is one, and
  otherwise everything as it was.\<close>

definition search_spec ::
  "topo \<Rightarrow> request \<Rightarrow> set_req list \<Rightarrow> bool \<Rightarrow> chosen \<Rightarrow> string list \<Rightarrow> bool \<times> chosen \<times> string list \<Rightarrow> bool" where
  "search_spec t rq os sol ch tk r = (case r of (ok, ch', tk') \<Rightarrow>
     ok = sol
     \<and> (ok \<longrightarrow> assigned t os ch tk ch' \<and> paths_between t (rq_between rq) ch' \<noteq> None)
     \<and> (\<not> ok \<longrightarrow> map_of ch' = map_of ch \<and> set tk' = set tk))"

definition fresh_names :: "set_req list \<Rightarrow> chosen \<Rightarrow> bool" where
  "fresh_names os ch \<longleftrightarrow> distinct (map sr_name os) \<and> (\<forall>st \<in> set os. map_of ch (sr_name st) = None)"

lemma assigned_Cons:
  assumes "assigned t rest (bt_insert (sr_name st) c ch) (fold bs_insert c tk) ch'"
    and "set_ok t st c" "set c \<inter> set tk = {}" "sr_name st \<notin> sr_name ` set rest"
  shows "assigned t (st # rest) ch tk ch'"
proof -
  have st: "map_of ch' (sr_name st) = Some c"
    using assms(1,4) by (auto simp: assigned_def map_of_bt_insert_gen)
  have rest: "\<exists>d. map_of ch' (sr_name r) = Some d \<and> set_ok t r d \<and> set d \<inter> (set c \<union> set tk) = {}"
    if "r \<in> set rest" for r
    using assms(1) that by (auto simp: assigned_def)
  have keep: "map_of ch' k = map_of ch k" if "k \<notin> sr_name ` set (st # rest)" for k
    using assms(1) that by (auto simp: assigned_def map_of_bt_insert_gen)
  have pair: "set d \<inter> set d' = {}" if "r \<in> set (st # rest)" "r' \<in> set (st # rest)"
    "sr_name r \<noteq> sr_name r'" "map_of ch' (sr_name r) = Some d" "map_of ch' (sr_name r') = Some d'"
    for r r' d d'
  proof (cases "sr_name r = sr_name st \<or> sr_name r' = sr_name st")
    case True
    then show ?thesis
    proof
      assume r: "sr_name r = sr_name st"
      with that have "r' \<in> set rest" "d = c" using st by auto
      with rest [of r'] that show ?thesis by auto
    next
      assume r: "sr_name r' = sr_name st"
      with that have "r \<in> set rest" "d' = c" using st by auto
      with rest [of r] that show ?thesis by auto
    qed
  next
    case False
    with that have "r \<in> set rest" "r' \<in> set rest" by auto
    with assms(1) that show ?thesis unfolding assigned_def by blast
  qed
  show ?thesis
    unfolding assigned_def
  proof (intro conjI ballI allI impI)
    fix r assume r: "r \<in> set (st # rest)"
    show "\<exists>d. map_of ch' (sr_name r) = Some d \<and> set_ok t r d \<and> set d \<inter> set tk = {}"
    proof (cases "r = st")
      case True
      with st assms(2,3) show ?thesis by auto
    next
      case False
      with r rest [of r] show ?thesis by auto
    qed
  qed (use keep pair in blast)+
qed

lemma search_meets_spec:
  assumes "topo_wf t"
  shows "fresh_names os ch \<Longrightarrow> search_spec t rq os (solvable t rq os ch tk) ch tk (search t rq os ch tk)"
    and "fresh_names (st # rest) ch \<Longrightarrow> \<forall>c \<in> set cs. set_ok t st c \<and> set c \<inter> set tk = {} \<Longrightarrow>
      search_spec t rq (st # rest)
        (\<exists>c \<in> set cs. solvable t rq rest (bt_insert (sr_name st) c ch) (fold bs_insert c tk)) ch tk
        (try_cands t rq st rest cs ch tk)"
  using assms
proof (induction t rq os ch tk and t rq st rest cs ch tk rule: search_try_cands.induct)
  case (1 t rq ch tk)
  then show ?case by (simp add: search_spec_def assigned_def)
next
  case (2 t rq st rest ch tk)
  have "\<forall>c \<in> set (candidates t st tk). set_ok t st c \<and> set c \<inter> set tk = {}"
    using candidates_sound [OF 2(3)] by blast
  from 2(1) [OF 2(2) this 2(3)] show ?case by simp
next
  case (3 t rq st rest ch tk)
  then show ?case by (simp add: search_spec_def)
next
  case (4 t rq st rest c cs ch tk)
  let ?ch = "bt_insert (sr_name st) c ch" and ?tk = "fold bs_insert c tk"
  obtain ok ch' tk' where r: "search t rq rest ?ch ?tk = (ok, ch', tk')"
    by (cases "search t rq rest ?ch ?tk") auto
  have fresh: "fresh_names rest ?ch" 
    unfolding fresh_names_def map_of_bt_insert_gen
  proof (intro conjI ballI)
    fix r assume r: "r \<in> set rest"
    with 4(3) have "sr_name r \<noteq> sr_name st" "map_of ch (sr_name r) = None"
      by (auto simp: fresh_names_def image_iff)
    then show "(if sr_name r = sr_name st then Some c else map_of ch (sr_name r)) = None" by simp
  qed (use 4(3) in \<open>simp add: fresh_names_def\<close>)
  from 4(1) [OF this 4(5)] r
  have spec: "search_spec t rq rest (solvable t rq rest ?ch ?tk) ?ch ?tk (ok, ch', tk')" by simp
  have c: "set_ok t st c" "set c \<inter> set tk = {}" using 4(4) by auto
  show ?case
  proof (cases ok)
    case True
    with spec have "assigned t rest ?ch ?tk ch'" by (simp add: search_spec_def)
    with c 4(3) have "assigned t (st # rest) ch tk ch'"
      by (intro assigned_Cons) (auto simp: fresh_names_def)
    with True spec r show ?thesis by (auto simp: search_spec_def)
  next
    case False
    let ?ch2 = "hm_remove (sr_name st) ch'" and ?tk2 = "fold bs_remove c tk'"
    have ch2: "map_of ?ch2 = map_of ch"
      using spec False 4(3)
      by (auto simp: search_spec_def fun_eq_iff map_of_hm_remove map_of_bt_insert_gen fresh_names_def)
    have tk2: "set ?tk2 = set tk" using spec False c by (auto simp: search_spec_def)
    have "fresh_names (st # rest) ?ch2" using 4(3) ch2 by (simp add: fresh_names_def)
    moreover have "\<forall>c \<in> set cs. set_ok t st c \<and> set c \<inter> set ?tk2 = {}" using 4(4) tk2 by simp
    ultimately have IH: "search_spec t rq (st # rest)
        (\<exists>c \<in> set cs. solvable t rq rest (bt_insert (sr_name st) c ?ch2) (fold bs_insert c ?tk2)) ?ch2 ?tk2
        (try_cands t rq st rest cs ?ch2 ?tk2)"
      using 4(2) [OF refl r [symmetric] refl False _ _ 4(5)] by blast
    have "solvable t rq rest (bt_insert (sr_name st) d ?ch2) (fold bs_insert d ?tk2) =
        solvable t rq rest (bt_insert (sr_name st) d ch) (fold bs_insert d tk)" for d
      using ch2 tk2 by (intro solvable_cong) (auto simp: fun_eq_iff map_of_bt_insert_gen)
    moreover have "\<not> solvable t rq rest ?ch ?tk" using spec False by (simp add: search_spec_def)
    ultimately show ?thesis
      using IH False r ch2 tk2 by (auto simp: search_spec_def assigned_def split: prod.splits)
  qed
qed

section \<open>The members\<close>

lemma collect_res_map_Inr: "collect_res (map Inr ys) = Inr ys"
  by (induction ys) simp_all

lemma collect_res_InrD: "collect_res xs = Inr ys \<Longrightarrow> xs = map Inr ys"
proof (induction xs arbitrary: ys)
  case (Cons x xs)
  then show ?case by (cases x) (auto split: sum.splits)
qed simp

lemma collect_res_Inr: "collect_res xs = Inr ys \<longleftrightarrow> xs = map Inr ys"
  using collect_res_map_Inr collect_res_InrD by auto

lemma collect_res_Inl: "collect_res xs = Inl e \<Longrightarrow> Inl e \<in> set xs"
proof (induction xs)
  case (Cons x xs)
  then show ?case by (cases x) (auto split: sum.splits)
qed simp

lemma cabled_next:
  assumes "set_ok t st c" "ordered (sr_layout st)" "Suc i < length c"
  shows "path t (c ! i) (c ! Suc i) (sr_link st) True \<noteq> None"
    "path t (c ! Suc i) (c ! i) (sr_link st) True \<noteq> None"
proof -
  show *: "path t (c ! i) (c ! Suc i) (sr_link st) True \<noteq> None"
    using assms unfolding set_ok_def by blast
  then show "path t (c ! Suc i) (c ! i) (sr_link st) True \<noteq> None"
    using path_sym [of t "c ! i" "c ! Suc i"] by simp
qed

lemma cabled_ends:
  assumes "set_ok t st c" "sr_layout st = Ring" "1 < length c"
  shows "path t (c ! (length c - 1)) (c ! 0) (sr_link st) True \<noteq> None"
    "path t (c ! 0) (c ! (length c - 1)) (sr_link st) True \<noteq> None"
proof -
  show *: "path t (c ! (length c - 1)) (c ! 0) (sr_link st) True \<noteq> None"
  proof (cases "length c < 3")
    case True
    with assms(3) have "length c = 2" by simp
    with cabled_next(2) [OF assms(1), of 0] assms(2) show ?thesis by (simp add: ordered_def)
  next
    case False
    then have "c \<noteq> []" by auto
    with assms False show ?thesis
      by (auto simp: set_ok_def ring_closed_def ordered_def last_conv_nth hd_conv_nth)
  qed
  with path_sym show "path t (c ! 0) (c ! (length c - 1)) (sr_link st) True \<noteq> None" by metis
qed

text \<open>Every neighbour of a member of a chain is at the other end of a cable.\<close>

lemma neighbour_cabled:
  assumes "set_ok t st c" "i < length c"
    and "neighbour_indices (sr_layout st) (length c) i = (prev, next)"
    and "j \<in> set_option prev \<union> set_option next"
  shows "path t (c ! i) (c ! j) (sr_link st) True \<noteq> None"
proof (cases "sr_layout st")
  case Mesh
  with assms show ?thesis by (auto simp: neighbour_indices_def)
next
  case Line
  with assms cabled_next [OF assms(1), of i] cabled_next [OF assms(1), of "i - 1"] show ?thesis
    by (auto simp: neighbour_indices_def ordered_def split: if_splits)
next
  case Ring
  let ?k = "length c"
  from Ring assms have k: "1 < ?k" and j: "j = (i + ?k - 1) mod ?k \<or> j = (i + 1) mod ?k"
    by (auto simp: neighbour_indices_def split: if_splits)
  have ord: "ordered (sr_layout st)" using Ring by (simp add: ordered_def)
  from j show ?thesis
  proof
    assume j: "j = (i + ?k - 1) mod ?k"
    show ?thesis
    proof (cases i)
      case 0
      with j k have "j = ?k - 1" by simp
      with 0 cabled_ends(2) [OF assms(1) Ring k] show ?thesis by simp
    next
      case (Suc i')
      with j assms(2) have "j = i'" by (simp add: mod_if)
      with Suc cabled_next(2) [OF assms(1) ord, of i'] assms(2) show ?thesis by simp
    qed
  next
    assume j: "j = (i + 1) mod ?k"
    show ?thesis
    proof (cases "Suc i < ?k")
      case True
      with j cabled_next(1) [OF assms(1) ord True] show ?thesis by simp
    next
      case False
      with assms(2) have i: "i = ?k - 1" by simp
      then have "i + 1 = ?k" using k by simp
      with j have "j = 0" by simp
      with i cabled_ends(1) [OF assms(1) Ring k] show ?thesis by simp
    qed
  qed
qed

lemma neighbours_succeed:
  assumes "set_ok t st c" "i < length c"
  shows "\<exists>r. neighbours t st c i = Inr r"
proof -
  obtain prv nxt where ni: "neighbour_indices (sr_layout st) (length c) i = (prv, nxt)"
    by fastforce
  have "\<exists>p. link_to t st c i j = Inr p" if "j = prv \<or> j = nxt" for j
    using neighbour_cabled [OF assms ni] that by (cases j) (auto simp: link_to_def split: option.splits)
  from this [of prv] this [of nxt]
  obtain p q where "link_to t st c i prv = Inr p" "link_to t st c i nxt = Inr q" by auto
  with ni show ?thesis by (simp add: neighbours_def)
qed

lemma member_for_node: "member_for t st nodes i = Inr m \<Longrightarrow> me_node m = nodes ! i"
  by (auto simp: member_for_def Let_def split: sum.splits option.splits prod.splits)

lemma members_for_nodes:
  assumes "members_for t ch st = Inr ms" "map_of ch (sr_name st) = Some nodes"
  shows "map me_node ms = nodes"
proof -
  from assms have ms: "map (member_for t st nodes) [0..<length nodes] = map Inr ms"
    by (simp add: members_for_def collect_res_Inr)
  then have len: "length ms = length nodes" by (metis length_map length_upt minus_nat.diff_0)
  have "me_node (ms ! i) = nodes ! i" if "i < length nodes" for i
  proof -
    from ms that len have "member_for t st nodes i = Inr (ms ! i)"
      by (metis add.left_neutral diff_zero length_upt nth_map nth_upt)
    then show ?thesis by (rule member_for_node)
  qed
  with len show ?thesis by (intro nth_equalityI) simp_all
qed

lemma members_pairs:
  assumes "map (\<lambda>s. case members_for t ch s of Inl e \<Rightarrow> Inl e | Inr ms \<Rightarrow> Inr (sr_name s, ms)) ss
    = map Inr sets"
  shows "map fst sets = map sr_name ss
    \<and> (\<forall>s \<in> set ss. \<exists>ms. members_for t ch s = Inr ms \<and> (sr_name s, ms) \<in> set sets)"
  using assms
proof (induction ss arbitrary: sets)
  case (Cons s ss)
  then show ?case by (cases sets) (auto split: sum.splits)
qed simp

lemma paths_between_sound:
  assumes "paths_between t bs ch = Some ps"
  shows "list_all2 (\<lambda>b p. \<exists>f u. map_of ch (br_from b) = Some f \<and> map_of ch (br_to b) = Some u
    \<and> pa_from p \<in> set f \<and> pa_to p \<in> set u \<and> usable t (pa_from p) (pa_to p) (br_link b) False p) bs ps"
  using assms
proof (induction bs arbitrary: ps)
  case (Cons b bs)
  then obtain f u p ps' where b: "map_of ch (br_from b) = Some f" "map_of ch (br_to b) = Some u"
    "best_between t (br_link b) f u = Some p" "paths_between t bs ch = Some ps'" "ps = p # ps'"
    by (auto split: option.splits)
  have "fold (best_step (\<lambda>p. (pa_rtt_ms p, pa_from p, pa_to p)) (\<lambda>(a, c). path t a c (br_link b) False))
      (List.product f u) None = Some p"
    using b(3) by (simp add: best_between_def fold_fold_product split_def)
  from fold_best_Some [OF this] obtain a c where ac: "a \<in> set f" "c \<in> set u"
    "path t a c (br_link b) False = Some p" by auto
  from path_best [OF ac(3)] have "usable t a c (br_link b) False p" by blast
  moreover from this have "pa_from p = a" "pa_to p = c"
    by (auto simp: usable_def path_of_def split: if_splits option.splits)
  ultimately show ?case using b ac Cons.IH by auto
qed simp

section \<open>Properties of the solver\<close>

lemma check_request_None:
  assumes "check_request rq = None"
  shows "distinct (map sr_name (rq_sets rq))" "\<forall>s \<in> set (rq_sets rq). sr_bundles s \<noteq> []"
  using assms by (auto simp: check_request_def Let_def find_None_iff split: option.splits if_splits)

lemma fresh_solve_order: "check_request rq = None \<Longrightarrow> fresh_names (solve_order rq) []"
proof -
  assume "check_request rq = None"
  then have "distinct (map sr_name (rq_sets rq))" by (rule check_request_None)
  moreover have "mset (map sr_name (solve_order rq)) = mset (map sr_name (rq_sets rq))"
    by (simp add: solve_order_def)
  ultimately show ?thesis by (metis fresh_names_def map_of_eq_None_iff list.set_map empty_iff
        image_empty list.set(1) mset_eq_imp_distinct_iff)
qed

lemma set_solve_order [simp]: "set (solve_order rq) = set (rq_sets rq)"
  by (simp add: solve_order_def)

text \<open>C5: the backtracking search, which marks and unmarks nodes in place, succeeds exactly when
  some choice of candidates for the sets, taken in the solver's order, meets every link
  requirement between sets. When it fails it has put back everything it marked.\<close>

theorem search_refines_reference:
  assumes "topo_wf t" "check_request rq = None"
    and "search t rq (solve_order rq) [] [] = (ok, ch, tk)"
  shows "ok = solvable t rq (solve_order rq) [] [] \<and> (\<not> ok \<longrightarrow> map_of ch = Map.empty \<and> tk = [])"
  using search_meets_spec(1) [OF assms(1) fresh_solve_order [OF assms(2)], of rq "[]"] assms(3)
  by (auto simp: search_spec_def)

text \<open>C4: a solved claim has the shape it asked for. Every set has exactly as many nodes as
  bundles, all different, each with the GPUs of its bundle free; a mesh over a fabric lies in one
  island; neighbours in a ring or line are joined by a cable; no node is in two sets; and each
  link requirement between two sets is met by a probed link between a node of each.\<close>

theorem solve_sound:
  assumes "topo_wf t" "solve t rq = Inr so"
  shows "(\<forall>st \<in> set (rq_sets rq). \<exists>ms. map_of (so_sets so) (sr_name st) = Some ms
        \<and> set_ok t st (map me_node ms))
    \<and> (\<forall>st \<in> set (rq_sets rq). \<forall>st' \<in> set (rq_sets rq). \<forall>ms ms'. sr_name st \<noteq> sr_name st'
        \<longrightarrow> map_of (so_sets so) (sr_name st) = Some ms \<longrightarrow> map_of (so_sets so) (sr_name st') = Some ms'
        \<longrightarrow> me_node ` set ms \<inter> me_node ` set ms' = {})
    \<and> list_all2 (\<lambda>b p. \<exists>ms ms'. map_of (so_sets so) (br_from b) = Some ms
        \<and> map_of (so_sets so) (br_to b) = Some ms' \<and> pa_from p \<in> me_node ` set ms
        \<and> pa_to p \<in> me_node ` set ms' \<and> usable t (pa_from p) (pa_to p) (br_link b) False p)
      (rq_between rq) (so_between so)"
proof -
  from assms(2) obtain ch tk sets ps where
    chk: "check_request rq = None" and
    srch: "search t rq (solve_order rq) [] [] = (True, ch, tk)" and
    sets: "map (\<lambda>s. case members_for t ch s of Inl e \<Rightarrow> Inl e | Inr ms \<Rightarrow> Inr (sr_name s, ms)) (rq_sets rq)
      = map Inr sets" and
    ps: "paths_between t (rq_between rq) ch = Some ps" and
    so: "so = \<lparr>so_sets = bt_of_list sets, so_between = ps\<rparr>"
    by (auto simp: solve_def collect_res_Inr split: option.splits prod.splits sum.splits if_splits)
  have asg: "assigned t (solve_order rq) [] [] ch"
    using search_meets_spec(1) [OF assms(1) fresh_solve_order [OF chk], of rq "[]"] srch
    by (simp add: search_spec_def)
  have names: "map fst sets = map sr_name (rq_sets rq)"
    and mem: "\<And>st. st \<in> set (rq_sets rq) \<Longrightarrow> \<exists>ms. members_for t ch st = Inr ms \<and> (sr_name st, ms) \<in> set sets"
    using members_pairs [OF sets] by auto
  have dist: "distinct (map fst sets)" using names check_request_None(1) [OF chk] by simp
  then have look: "map_of (so_sets so) = map_of sets"
    using so by (simp add: map_of_bt_of_list)
  have chosen: "\<exists>ms. map_of (so_sets so) (sr_name st) = Some ms \<and> map_of ch (sr_name st) = Some (map me_node ms)
      \<and> set_ok t st (map me_node ms)" if st: "st \<in> set (rq_sets rq)" for st
  proof -
    from asg st obtain c where c: "map_of ch (sr_name st) = Some c" "set_ok t st c"
      by (auto simp: assigned_def)
    from mem [OF st] obtain ms where ms: "members_for t ch st = Inr ms" "(sr_name st, ms) \<in> set sets"
      by blast
    with c members_for_nodes [OF ms(1) c(1)] look dist show ?thesis by auto
  qed
  have apart: "me_node ` set ms \<inter> me_node ` set ms' = {}"
    if "st \<in> set (rq_sets rq)" "st' \<in> set (rq_sets rq)" "sr_name st \<noteq> sr_name st'"
      "map_of (so_sets so) (sr_name st) = Some ms" "map_of (so_sets so) (sr_name st') = Some ms'"
    for st st' ms ms'
  proof -
    have "map_of ch (sr_name st) = Some (map me_node ms)" "map_of ch (sr_name st') = Some (map me_node ms')"
      using chosen that by fastforce+
    with asg that(1-3) have "set (map me_node ms) \<inter> set (map me_node ms') = {}"
      unfolding assigned_def set_solve_order by blast
    then show ?thesis by simp
  qed
  have of_ch: "\<exists>ms. map_of (so_sets so) k = Some ms \<and> set c = me_node ` set ms" if k: "map_of ch k = Some c" for k c
  proof -
    from asg k have "k \<in> sr_name ` set (rq_sets rq)" by (auto simp: assigned_def)
    then obtain st where "st \<in> set (rq_sets rq)" "k = sr_name st" by blast
    with chosen k show ?thesis by force
  qed
  have "list_all2 (\<lambda>b p. \<exists>ms ms'. map_of (so_sets so) (br_from b) = Some ms
        \<and> map_of (so_sets so) (br_to b) = Some ms' \<and> pa_from p \<in> me_node ` set ms
        \<and> pa_to p \<in> me_node ` set ms' \<and> usable t (pa_from p) (pa_to p) (br_link b) False p)
      (rq_between rq) ps"
    using paths_between_sound [OF ps] by (rule list_all2_mono) (use of_ch in blast)
  moreover have "\<forall>st \<in> set (rq_sets rq). \<exists>ms. map_of (so_sets so) (sr_name st) = Some ms
      \<and> set_ok t st (map me_node ms)"
    using chosen by blast
  ultimately show ?thesis using apart so by simp
qed

text \<open>After a successful search the answer is never refused for a missing cable: every member
  of every chosen set has the links to its neighbours that the layout calls for.\<close>

theorem solved_members_have_cables:
  assumes "topo_wf t" "check_request rq = None"
    and "search t rq (solve_order rq) [] [] = (True, ch, tk)"
    and "st \<in> set (rq_sets rq)" "map_of ch (sr_name st) = Some nodes" "i < length nodes"
  shows "\<exists>prv nxt. neighbours t st nodes i = Inr (prv, nxt)"
proof -
  have "assigned t (solve_order rq) [] [] ch"
    using search_meets_spec(1) [OF assms(1) fresh_solve_order [OF assms(2)], of rq "[]"] assms(3)
    by (simp add: search_spec_def)
  with assms(4,5) have "set_ok t st nodes" by (force simp: assigned_def)
  from neighbours_succeed [OF this assms(6)] show ?thesis by auto
qed

section \<open>Canonical shapes\<close>

text \<open>A number with at most 53 significant bits is a double already.\<close>

lemma f64_of_nat_exact:
  assumes "2 ^ 52 \<le> q" "q \<le> 2 ^ 53"
  shows "f64_of_nat (q * 2 ^ k) = q * 2 ^ k"
proof (cases "q * 2 ^ k < 2 ^ 53")
  case False
  have half: "(0::nat) < 2 ^ i" for i by simp
  show ?thesis
  proof (cases "q = 2 ^ 53")
    case True
    have "q * 2 ^ k = 2 ^ (53 + k)" using True by (simp add: power_add)
    moreover have "nbits (2 ^ (53 + k)) = Suc (53 + k)" by (rule nbits_unique) simp_all
    moreover have "(2::nat) ^ (53 + k) mod 2 ^ Suc k = 0" "(2::nat) ^ (53 + k) div 2 ^ Suc k = 2 ^ 52"
      by (simp_all add: power_add)
    ultimately show ?thesis using False
      by (simp add: f64_of_nat_def Let_def power_add)
  next
    case less: False
    have "2 ^ (52 + k) \<le> q * 2 ^ k" using assms(1) by (simp add: power_add)
    moreover have "q * 2 ^ k < 2 ^ Suc (52 + k)" using assms(2) less by (simp add: power_add)
    ultimately have "nbits (q * 2 ^ k) = Suc (52 + k)" by (rule nbits_unique)
    then show ?thesis using False half by (simp add: f64_of_nat_def Let_def)
  qed
qed (simp add: f64_of_nat_def)

lemma f64_of_nat_idem: "f64_of_nat (f64_of_nat n) = f64_of_nat n"
proof (cases "n < 2 ^ 53")
  case False
  then obtain j where j: "nbits n = Suc j" "2 ^ j \<le> n" "n < 2 ^ Suc j" using nbits_bounds [of n] by auto
  have "53 \<le> j"
  proof (rule ccontr)
    assume "\<not> 53 \<le> j"
    then have "(2::nat) ^ Suc j \<le> 2 ^ 53" by (intro power_increasing) auto
    with j(3) False show False by simp
  qed
  then obtain k where k: "j = 52 + Suc k" "Suc j - 53 = Suc k" using le_Suc_ex by fastforce
  let ?K = "Suc k"
  have "2 ^ 52 \<le> n div 2 ^ ?K"
    using j(2) k(1) by (simp add: less_eq_div_iff_mult_less_eq power_add)
  moreover have "n div 2 ^ ?K < 2 ^ 53"
    using j(3) k(1) by (simp add: less_mult_imp_div_less power_add)
  ultimately have "f64_of_nat (n div 2 ^ ?K * 2 ^ ?K) = n div 2 ^ ?K * 2 ^ ?K"
    "f64_of_nat ((n div 2 ^ ?K + 1) * 2 ^ ?K) = (n div 2 ^ ?K + 1) * 2 ^ ?K"
    by (intro f64_of_nat_exact; simp)+
  moreover have "f64_of_nat n = n div 2 ^ ?K * 2 ^ ?K \<or> f64_of_nat n = (n div 2 ^ ?K + 1) * 2 ^ ?K"
    using False j(1) k(2) by (simp add: f64_of_nat_def Let_def)
  ultimately show ?thesis by (elim disjE) simp_all
qed simp

text \<open>A number read as a double is one: a whole value up to \<open>2\<^sup>64\<close> has 53 significant bits.\<close>

fun doubles :: "json \<Rightarrow> bool" where
  "doubles (JNum (Float r)) \<longleftrightarrow> (case whole r of None \<Rightarrow> True | Some k \<Rightarrow> k \<le> two64 \<longrightarrow> f64_of_nat k = k)"
| "doubles (JArr xs) \<longleftrightarrow> list_all doubles xs"
| "doubles (JObj kvs) \<longleftrightarrow> list_all (\<lambda>x. doubles (snd x)) kvs"
| "doubles v \<longleftrightarrow> True"

lemma whole_of_nat [simp]: "whole (of_nat k) = Some k"
  by (simp add: whole_def)

lemma f64_u64_max: "f64_of_nat u64_max = two64"
proof -
  have "nbits u64_max = Suc 63" by (rule nbits_unique) (simp_all add: u64_max_def)
  then show ?thesis by (simp add: f64_of_nat_def u64_max_def two64_def Let_def)
qed

lemma whole_canon_num:
  assumes "doubles (JNum n)"
  shows "(case as_f64 (canon_num n) of None \<Rightarrow> None | Some f \<Rightarrow> whole f) = whole (num_f64 n)"
proof (cases "whole (num_f64 n)")
  case None
  then show ?thesis by (simp add: canon_num_def as_f64_def)
next
  case (Some k)
  show ?thesis
  proof (cases "k \<le> two64")
    case le: True
    have exact: "f64_of_nat k = k"
    proof (cases n)
      case (PosInt m)
      with Some show ?thesis by (auto simp: num_f64_def f64_of_nat_idem)
    next
      case (NegInt i)
      with Some have "k = 0" by (auto simp: num_f64_def whole_def split: if_splits)
      then show ?thesis by simp
    next
      case (Float r)
      with assms Some le show ?thesis by (simp add: num_f64_def)
    qed
    have "f64_of_nat (min k u64_max) = k"
    proof (cases "k = two64")
      case True
      then have "min k u64_max = u64_max" by (simp add: u64_max_def two64_def)
      with True f64_u64_max show ?thesis by simp
    next
      case False
      with le have "min k u64_max = k" by (simp add: u64_max_def two64_def)
      with exact show ?thesis by simp
    qed
    with Some le show ?thesis by (simp add: canon_num_def as_f64_def jnat_def num_f64_def)
  qed (use Some in \<open>simp add: canon_num_def as_f64_def\<close>)
qed

lemma canon_num_JNum: "\<exists>m. canon_num n = JNum m"
  by (auto simp: canon_num_def jnat_def split: option.splits)

lemma canon_JNum_False: "canon (JNum n) False = canon_num n"
  by (cases n) simp_all

lemma as_str_canon [simp]: "as_str (canon v b) = as_str v"
proof (cases v)
  case (JNum n)
  then show ?thesis using canon_num_JNum [of n] by (cases n) (auto simp: as_str_def)
qed (simp_all add: as_str_def)

lemma map_of_canon:
  "map_of (map (\<lambda>(k, x). (k, canon x (k = ''bundles''))) kvs) k =
     map_option (\<lambda>x. canon x (k = ''bundles'')) (map_of kvs k)"
  by (induction kvs) auto

lemma jget_canon: "jget (canon v False) k = canon (jget v k) (k = ''bundles'')"
proof (cases v)
  case (JNum n)
  then show ?thesis using canon_num_JNum [of n] canon_JNum_False [of n] by (auto simp: jget_def)
next
  case (JObj kvs)
  then show ?thesis by (simp add: jget_def map_of_canon split: option.splits)
qed (simp_all add: jget_def)

lemma as_array_canon:
  "as_array (canon v False) = map_option (map (\<lambda>x. canon x False)) (as_array v)"
proof (cases v)
  case (JNum n)
  then show ?thesis using canon_num_JNum [of n] canon_JNum_False [of n] by (auto simp: as_array_def)
qed (simp_all add: as_array_def)

lemma doubles_jget: "doubles v \<Longrightarrow> doubles (jget v k)"
proof (cases v)
  case (JObj kvs)
  assume "doubles v"
  with JObj show ?thesis
    by (fastforce simp: jget_def list_all_iff split: option.splits dest: map_of_SomeD)
qed (simp_all add: jget_def)

lemma bundle_canon:
  assumes "doubles b"
  shows "(case as_f64 (canon b False) of None \<Rightarrow> None | Some f \<Rightarrow> whole f)
    = (case as_f64 b of None \<Rightarrow> None | Some f \<Rightarrow> whole f)"
proof (cases b)
  case (JNum n)
  with assms show ?thesis using whole_canon_num [of n] canon_JNum_False [of n] by (simp add: as_f64_def)
qed (simp_all add: as_f64_def)

lemma parse_bundles_canon:
  assumes "doubles v" "parse_bundles name v \<noteq> Inr []"
  shows "parse_bundles name (canon v True) = parse_bundles name v"
proof (cases v)
  case (JArr xs)
  with assms(1) have "x \<in> set xs \<Longrightarrow> doubles x" for x by (simp add: list_all_iff)
  with JArr show ?thesis
    by (simp add: parse_bundles_def comp_def bundle_canon cong: map_cong)
next
  case (JNum n)
  show ?thesis
  proof (cases n)
    case (PosInt m)
    have "collect_res (replicate m (Inr (1::nat) :: string + nat)) = Inr (replicate m 1)" by (induction m) simp_all
    with JNum PosInt show ?thesis
      by (simp add: parse_bundles_def as_u64_def as_f64_def jnat_def num_f64_def whole_def map_replicate_const)
  qed (use JNum assms(2) in \<open>auto simp: parse_bundles_def as_u64_def\<close>)
qed (simp_all add: parse_bundles_def)

lemma parse_set_canon:
  assumes "doubles v" "parse_set v = Inr st" "sr_bundles st \<noteq> []"
  shows "parse_set (canon v False) = Inr st"
proof -
  from assms(2) obtain name where n: "as_str (jget v ''name'') = Some name"
    by (auto simp: parse_set_def split: option.splits)
  with assms(2,3) have "parse_bundles name (jget v ''bundles'') \<noteq> Inr []"
    by (auto simp: parse_set_def split: sum.splits)
  with parse_bundles_canon [OF doubles_jget [OF assms(1), of "''bundles''"]]
  have "parse_bundles name (canon (jget v ''bundles'') True) = parse_bundles name (jget v ''bundles'')" .
  moreover have "parse_set (canon v False) = (case parse_bundles name (canon (jget v ''bundles'') True) of
      Inl e \<Rightarrow> Inl e
    | Inr bundles \<Rightarrow> (case link_parse (str_or ''ip'' (jget v ''link'')) of
        Inl e \<Rightarrow> Inl e
      | Inr l \<Rightarrow> (case layout_parse (str_or ''mesh'' (jget v ''layout'')) of
          Inl e \<Rightarrow> Inl e
        | Inr lay \<Rightarrow> Inr \<lparr>sr_name = name, sr_bundles = bundles, sr_link = l,
            sr_layout = lay, sr_vendor = str_or [] (jget v ''vendor'')\<rparr>)))"
    unfolding parse_set_def jget_canon str_or_def as_str_canon using n by simp
  ultimately show ?thesis using assms(2) n by (simp add: parse_set_def)
qed

lemma parse_between_canon: "parse_between (canon v False) = parse_between v"
  unfolding parse_between_def str_or_def jget_canon as_str_canon ..

text \<open>Storing a claim's shape in canonical form does not change what it asks for. A shape that
  parses, with every set asking for at least one node, parses to the same request from its
  canonical form, which is what a later placement reads.\<close>

theorem parse_canonical:
  assumes "doubles shape" "parse shape = Inr rq" "\<forall>st \<in> set (rq_sets rq). sr_bundles st \<noteq> []"
  shows "parse (canonical shape) = Inr rq"
proof -
  from assms(2) obtain a where a: "as_array (jget shape ''sets'') = Some a"
    "map parse_set a = map Inr (rq_sets rq)"
    by (auto simp: parse_def collect_res_Inr split: option.splits sum.splits)
  have "doubles (jget shape ''sets'')" using assms(1) by (rule doubles_jget)
  with a(1) have d: "x \<in> set a \<Longrightarrow> doubles x" for x
    by (auto simp: as_array_def list_all_iff split: json.splits)
  have "parse_set (canon x False) = parse_set x" if x: "x \<in> set a" for x
  proof -
    have "parse_set x \<in> set (map Inr (rq_sets rq))" using a(2) x by (metis image_eqI list.set_map)
    then obtain st where "parse_set x = Inr st" "st \<in> set (rq_sets rq)" by auto
    with parse_set_canon [OF d [OF x]] assms(3) show ?thesis by simp
  qed
  then have "map (\<lambda>x. parse_set (canon x False)) a = map Inr (rq_sets rq)"
    using a(2) by (metis (no_types, lifting) map_cong)
  then have "collect_res (map (\<lambda>x. parse_set (canon x False)) a) = Inr (rq_sets rq)"
    "collect_res (map parse_set a) = Inr (rq_sets rq)"
    using a(2) by (simp_all only: collect_res_Inr)
  moreover have "as_array (jget (canonical shape) ''sets'') = Some (map (\<lambda>x. canon x False) a)"
    using a(1) by (simp add: canonical_def jget_canon as_array_canon)
  moreover have "as_array (jget (canonical shape) ''between'') =
      map_option (map (\<lambda>x. canon x False)) (as_array (jget shape ''between''))"
    by (simp add: canonical_def jget_canon as_array_canon)
  ultimately show ?thesis
    using assms(2) a(1) unfolding parse_def
    by (cases "as_array (jget shape ''between'')") (simp_all add: parse_between_canon comp_def)
qed

end
