(* ===== verification/Placement.thy ===== *)
theory Placement
  imports ClaimSolver
begin

text \<open>
  Placement of pending groups (the section \<open>Placement\<close> of \<open>rust/mentatd/src/daemon.rs\<close>): which
  scopes a group may use, the first fit over one scope, the rank order of a ring or line claim,
  and \<open>try_place\<close>, which every state change that may free or add GPUs runs.

  Indexing a table by a key just read from it cannot miss; where the source writes
  \<open>st.agents[id]\<close> for such a key the model names a value for the missing case too.
\<close>

section \<open>Rows an event carries\<close>

definition agent_patch :: "state \<Rightarrow> string \<Rightarrow> patch option" where
  "agent_patch s aid = (case map_of (agents s) aid of
     None \<Rightarrow> None
   | Some a \<Rightarrow> Some (patch_set [''groups'', ag_group a, ''agents'', aid] (agent_row s a)))"

definition agent_patches :: "state \<Rightarrow> string \<Rightarrow> patch list" where
  "agent_patches s pid = (case map_of (pgs s) pid of
     None \<Rightarrow> []
   | Some pg \<Rightarrow> List.map_filter (agent_patch s) (sort_dedup (map ba_agent (somes (pg_assignment pg)))))"

definition pg_patch :: "state \<Rightarrow> string \<Rightarrow> string \<Rightarrow> patch list" where
  "pg_patch s grp pid = (case map_of (pgs s) pid of
     None \<Rightarrow> [] | Some pg \<Rightarrow> [patch_set [''groups'', grp, ''placement_groups'', pid] (pg_row pg)])"

definition set_pending_reason :: "env \<Rightarrow> string \<Rightarrow> string \<Rightarrow> state \<Rightarrow> state" where
  "set_pending_reason E pid why s =
     (case map_of (pgs s) pid of
        None \<Rightarrow> s
      | Some pg \<Rightarrow>
          (if pg_pending_reason pg = Some why then s
           else (let s1 = s\<lparr>pgs := hm_modify pid (\<lambda>p. p\<lparr>pg_pending_reason := Some why\<rparr>) (pgs s)\<rparr>
                 in emit_patch E ''pg_pending'' (pg_patch s1 (pg_group pg) pid) [] s1)))"

section \<open>Scopes\<close>

definition claimed_nodes :: "json \<Rightarrow> string list" where
  "claimed_nodes view = sort_dedup (List.map_filter (\<lambda>m. as_str (jget m ''node''))
     (concat (map (\<lambda>(_, ms). elems ms) (entries (jget view ''sets'')))))"

definition free_in :: "state \<Rightarrow> string \<Rightarrow> string list \<Rightarrow> nat" where
  "free_in s grp nodes = sum_list (map (\<lambda>a. length (free_gpus_of s (ag_id a)))
     (filter (\<lambda>a. ag_node_id a \<in> set nodes) (group_agents s grp)))"

definition bundle_need :: "nat list \<Rightarrow> nat" where
  "bundle_need bundles = sum_list (map (\<lambda>b. max b 1) bundles)"

definition best_fabric :: "state \<Rightarrow> string \<Rightarrow> (nat \<times> nat) option" where
  "best_fabric s grp =
     (case List.map_filter (\<lambda>i.
         if filter (\<lambda>a. ag_node_id a \<in> set (i_nodes i)) (group_agents s grp) = [] then None
         else Some (free_in s grp (i_nodes i), length (i_nodes i))) (fb_islands (fabrics s)) of
        [] \<Rightarrow> None
      | x # xs \<Rightarrow> Some (fold max xs x))"

definition no_island_reason :: "state \<Rightarrow> string \<Rightarrow> nat \<Rightarrow> nat \<Rightarrow> string" where
  "no_island_reason s grp n need =
     show_nat n @ '' bundles ('' @ show_nat need @ '' GPUs) must share one rdma fabric'' @
     (case best_fabric s grp of
        Some (free, nodes) \<Rightarrow> ''. The best fabric holding group '' @ [CHR 0x27] @ grp @ [CHR 0x27] @
          '' offers '' @ show_nat free @ '' free GPUs across '' @ show_nat nodes @ '' nodes''
      | None \<Rightarrow> '', and no node holding group '' @ [CHR 0x27] @ grp @ [CHR 0x27] @ '' is on one'')"

definition no_fit_reason :: "state \<Rightarrow> string \<Rightarrow> nat list \<Rightarrow> string" where
  "no_fit_reason s grp bundles =
     show_nat (length bundles) @ '' bundles need '' @ show_nat (bundle_need bundles) @
     '' GPUs and group '' @ [CHR 0x27] @ grp @ [CHR 0x27] @ '' has '' @ show_nat (gpus_free s grp) @ '' free''"

type_synonym scope = "island option \<times> string list option"

text \<open>The half of \<open>placement_scopes\<close> for a group placed inside a claim.\<close>

definition claim_scope :: "state \<Rightarrow> string \<Rightarrow> string \<Rightarrow> string + scope list" where
  "claim_scope s grp claim =
     (case map_of (claims s) (grp, claim) of
        None \<Rightarrow> Inl (''claim '' @ debug_str claim @ '' is not held here'')
      | Some c \<Rightarrow>
          (let nodes = claimed_nodes (cm_view c);
               served = map ag_node_id (group_agents s grp)
           in if nodes = [] then Inl (''claim '' @ debug_str claim @ '' names no nodes'')
              else (case List.find (\<lambda>n. n \<notin> set served) nodes of
                  Some missing \<Rightarrow>
                    (let at_ip = (case List.find (\<lambda>p. pe_node_id p = missing) (hm_values (peers s)) of
                           Some p \<Rightarrow> pe_node_ip p | None \<Rightarrow> missing);
                         head = (case List.find (\<lambda>p. pe_node_id p = head_node_id s) (hm_values (peers s)) of
                           Some p \<Rightarrow> pe_node_ip p @ '':'' @ show_nat (pe_control_port p)
                         | None \<Rightarrow> ''this node'')
                     in Inl (''claim '' @ debug_str claim @ '' placed a bundle on '' @ at_ip @
                        '', which has no agent of group '' @ grp @
                        '' registered with this daemon. The head solved the claim against the whole mesh.'' @
                        '' Point the driver and every agent of the group at the head, '' @ head))
                | None \<Rightarrow> Inr [(None, Some nodes)])))"

definition opted_in :: "env \<Rightarrow> state \<Rightarrow> string \<Rightarrow> bool" where
  "opted_in E s grp \<longleftrightarrow> island_placement (e_cfg E)
     \<and> (\<exists>a \<in> set (group_agents s grp). ag_node_id a \<in> set (fb_tagged (fabrics s)))"

text \<open>The islands, and each node of the group on no island, that alone could hold the group:
  size, whether the driver is elsewhere, the nodes, the island.\<close>

definition lone_nodes :: "state \<Rightarrow> string \<Rightarrow> string list" where
  "lone_nodes s grp = sort_dedup (filter (\<lambda>n. n \<notin> set (concat (map i_nodes (fb_islands (fabrics s)))))
     (map ag_node_id (group_agents s grp)))"

definition sized_scopes :: "state \<Rightarrow> string \<Rightarrow> nat \<Rightarrow> string \<Rightarrow> (nat \<times> bool \<times> string list \<times> island) list" where
  "sized_scopes s grp need driver =
     List.map_filter (\<lambda>i. if need \<le> free_in s grp (i_nodes i)
        then Some (length (i_nodes i), driver \<notin> set (i_nodes i), i_nodes i, i) else None)
       (fb_islands (fabrics s))
     @ List.map_filter (\<lambda>n. if need \<le> free_in s grp [n]
        then Some (1, n \<noteq> driver, [n], \<lparr>i_nodes = [n], i_addr = []\<rparr>) else None) (lone_nodes s grp)"

definition placement_scopes :: "env \<Rightarrow> state \<Rightarrow> string \<Rightarrow> nat list \<Rightarrow> string \<Rightarrow> string \<Rightarrow> string + scope list" where
  "placement_scopes E s grp bundles driver claim =
     (if claim \<noteq> [] then claim_scope s grp claim
      else if length bundles < 2 \<or> \<not> opted_in E s grp then Inr [(None, None)]
      else (let need = bundle_need bundles; scopes = sized_scopes s grp need driver
            in if scopes = [] then Inl (no_island_reason s grp (length bundles) need)
               else Inr (map (\<lambda>(_, _, nodes, i). (if 1 < length (i_nodes i) then Some i else None, Some nodes))
                      (sort_key (\<lambda>(size, away, nodes, i). (away, size, nodes)) scopes))))"

section \<open>First fit\<close>

text \<open>The first agent with \<open>need\<close> GPUs left gives its first \<open>need\<close>.\<close>

fun take_from :: "nat \<Rightarrow> (string \<times> nat list) list \<Rightarrow> (string \<times> nat list \<times> (string \<times> nat list) list) option" where
  "take_from need [] = None"
| "take_from need ((aid, free) # ags) =
     (if need \<le> length free then Some (aid, take need free, (aid, drop need free) # ags)
      else map_option (\<lambda>(i, g, rest). (i, g, (aid, free) # rest)) (take_from need ags))"

definition node_of_agent :: "state \<Rightarrow> string \<Rightarrow> string" where
  "node_of_agent s aid = (case map_of (agents s) aid of None \<Rightarrow> [] | Some a \<Rightarrow> ag_node_id a)"

fun fit_loop :: "state \<Rightarrow> nat list \<Rightarrow> (string \<times> nat list) list \<Rightarrow> bundle_assignment option list option" where
  "fit_loop s [] ags = Some []"
| "fit_loop s (b # bs) ags =
     (case take_from (max b 1) ags of
        None \<Rightarrow> None
      | Some (aid, g, rest) \<Rightarrow>
          map_option ((#) (Some \<lparr>ba_agent = aid, ba_node_id = node_of_agent s aid, ba_gpu_ids = g, ba_env = []\<rparr>))
            (fit_loop s bs rest))"

definition fit_agents :: "state \<Rightarrow> string \<Rightarrow> string \<Rightarrow> string list option \<Rightarrow> (string \<times> nat list) list" where
  "fit_agents s grp driver nodes =
     map (\<lambda>(_, _, aid). (aid, free_gpus_of s aid))
       (sort (map (\<lambda>a. (ag_node_id a \<noteq> driver, ag_seq a, ag_id a))
         (filter (\<lambda>a. case nodes of None \<Rightarrow> True | Some ns \<Rightarrow> ag_node_id a \<in> set ns) (group_agents s grp))))"

definition fit :: "state \<Rightarrow> string \<Rightarrow> nat list \<Rightarrow> string \<Rightarrow> string list option \<Rightarrow> bundle_assignment option list option" where
  "fit s grp bundles driver nodes = fit_loop s bundles (fit_agents s grp driver nodes)"

section \<open>Ring and line claims\<close>

type_synonym rank_order = "(string \<times> str_map) list"

definition iface_of :: "json \<Rightarrow> string option" where
  "iface_of p = as_str (jget p ''iface'')"

definition side_env :: "string \<Rightarrow> json \<Rightarrow> str_map \<Rightarrow> str_map" where
  "side_env key p env =
     (let env1 = (case as_str (jget p ''addr'') of
            None \<Rightarrow> env | Some a \<Rightarrow> bt_insert (''MENTAT_FABRIC_'' @ key) a env)
      in case iface_of p of
           None \<Rightarrow> env1 | Some i \<Rightarrow> bt_insert (''MENTAT_FABRIC_'' @ key @ ''_IFACE'') i env1)"

definition rank_env :: "layout \<Rightarrow> json \<Rightarrow> json \<Rightarrow> str_map" where
  "rank_env lay prev next =
     (let env = side_env ''NEXT'' next (side_env ''PREV'' prev
            [(''MENTAT_FABRIC_LAYOUT'', if lay = Ring then ''ring'' else ''line'')]);
          ifaces = remdups (somes [iface_of prev, iface_of next])
      in if ifaces = [] then env else bt_insert ''MENTAT_FABRIC_IFACES'' (join '','' ifaces) env)"

fun position :: "('a \<Rightarrow> bool) \<Rightarrow> 'a list \<Rightarrow> nat option" where
  "position Q [] = None"
| "position Q (x # xs) = (if Q x then Some 0 else map_option Suc (position Q xs))"

definition orient :: "layout \<Rightarrow> string \<Rightarrow> (string \<times> json \<times> json) list \<Rightarrow> (string \<times> json \<times> json) list option" where
  "orient lay driver order =
     (case position (\<lambda>m. fst m = driver) order of
        None \<Rightarrow> Some order
      | Some i \<Rightarrow>
          (if lay = Ring then Some (rotate i order)
           else if lay = Line \<and> i = length order - 1 \<and> 0 < i
           then Some (map (\<lambda>(n, p, q). (n, q, p)) (rev order))
           else if lay = Line \<and> 0 < i then None
           else Some order))"

definition claim_order :: "state \<Rightarrow> string \<Rightarrow> string \<Rightarrow> string \<Rightarrow> (string + rank_order) option" where
  "claim_order s grp claim driver =
     (case map_of (claims s) (grp, claim) of
        None \<Rightarrow> None
      | Some c \<Rightarrow>
          (case parse (cm_shape c) of
             Inl _ \<Rightarrow> None
           | Inr rq \<Rightarrow>
               (case rq_sets rq of
                  [st] \<Rightarrow>
                    (if \<not> ordered (sr_layout st) then None
                     else (case as_array (jget (jget (cm_view c) ''sets'') (sr_name st)) of
                         None \<Rightarrow> None
                       | Some ms \<Rightarrow>
                           (case orient (sr_layout st) driver
                                (map (\<lambda>m. (str_or [] (jget m ''node''), jget m ''prev'', jget m ''next'')) ms) of
                              None \<Rightarrow> Some (Inl (''claim '' @ debug_str claim @
                                '' is a line and the driver'' @ [CHR 0x27] @ ''s node is inside it. Start the driver'' @
                                '' on a node at one end of the line''))
                            | Some order \<Rightarrow> Some (Inr (map (\<lambda>(n, p, q). (n, rank_env (sr_layout st) p q)) order)))))
                | _ \<Rightarrow> None)))"

text \<open>The first of the agents with \<open>need\<close> GPUs left; \<open>free\<close> holds what earlier bundles left.\<close>

fun find_on :: "state \<Rightarrow> nat \<Rightarrow> string list \<Rightarrow> (string, nat list) table
    \<Rightarrow> (string \<times> nat list \<times> (string, nat list) table) option" where
  "find_on s need [] free = None"
| "find_on s need (aid # ids) free =
     (let f = (case map_of free aid of Some f \<Rightarrow> f | None \<Rightarrow> free_gpus_of s aid)
      in if need \<le> length f then Some (aid, take need f, bt_insert aid (drop need f) free)
         else find_on s need ids (bt_insert aid f free))"

definition agents_on :: "state \<Rightarrow> string \<Rightarrow> string \<Rightarrow> string list" where
  "agents_on s grp node = map snd (sort (map (\<lambda>a. (ag_seq a, ag_id a))
     (filter (\<lambda>a. ag_node_id a = node) (group_agents s grp))))"

fun fit_ordered_loop :: "state \<Rightarrow> string \<Rightarrow> (nat \<times> string \<times> str_map) list \<Rightarrow> (string, nat list) table
    \<Rightarrow> string + bundle_assignment option list" where
  "fit_ordered_loop s grp [] free = Inr []"
| "fit_ordered_loop s grp ((b, node, env) # rest) free =
     (case find_on s (max b 1) (agents_on s grp node) free of
        None \<Rightarrow> Inl (''the claim'' @ [CHR 0x27] @ ''s node '' @
          (case node_ip_of node of None \<Rightarrow> node | Some ip \<Rightarrow> ip) @ '' has no agent of group '' @
          [CHR 0x27] @ grp @ [CHR 0x27] @ '' with '' @ show_nat (max b 1) @ '' free GPUs'')
      | Some (aid, g, free') \<Rightarrow>
          (case fit_ordered_loop s grp rest free' of
             Inl e \<Rightarrow> Inl e
           | Inr asg \<Rightarrow> Inr (Some \<lparr>ba_agent = aid, ba_node_id = node, ba_gpu_ids = g, ba_env = env\<rparr> # asg)))"

definition fit_ordered :: "state \<Rightarrow> string \<Rightarrow> nat list \<Rightarrow> rank_order \<Rightarrow> string + bundle_assignment option list" where
  "fit_ordered s grp bundles order =
     (if length bundles \<noteq> length order
      then Inl (''the claim orders '' @ show_nat (length order) @ '' nodes and the group asks for '' @
        show_nat (length bundles) @ '' bundles'')
      else fit_ordered_loop s grp (zip bundles order) [])"

section \<open>Placing the pending groups\<close>

definition driver_node_of :: "state \<Rightarrow> string \<Rightarrow> string" where
  "driver_node_of s owner = (case map_of (clients s) owner of None \<Rightarrow> [] | Some c \<Rightarrow> cl_node_id c)"

fun first_scope :: "(scope \<Rightarrow> 'a option) \<Rightarrow> scope list \<Rightarrow> 'a option" where
  "first_scope f [] = None"
| "first_scope f (x # xs) = (case f x of Some y \<Rightarrow> Some y | None \<Rightarrow> first_scope f xs)"

text \<open>What \<open>try_place\<close> finds for one group: the reason it waits, or its placement.\<close>

definition place_pg :: "env \<Rightarrow> state \<Rightarrow> pg_info \<Rightarrow> string + (island option \<times> bundle_assignment option list)" where
  "place_pg E s pg =
     (let grp = pg_group pg; bundles = pg_bundles pg; claim = pg_claim pg;
          driver = driver_node_of s (pg_owner pg)
      in case (if claim \<noteq> [] then claim_order s grp claim driver else None) of
           Some (Inl e) \<Rightarrow> Inl e
         | Some (Inr order) \<Rightarrow>
             (case fit_ordered s grp bundles order of Inl e \<Rightarrow> Inl e | Inr a \<Rightarrow> Inr (None, a))
         | None \<Rightarrow>
             (case placement_scopes E s grp bundles driver claim of
                Inl e \<Rightarrow> Inl e
              | Inr scopes \<Rightarrow>
                  (case first_scope (\<lambda>(i, nodes). map_option (Pair i) (fit s grp bundles driver nodes)) scopes of
                     Some r \<Rightarrow> Inr r
                   | None \<Rightarrow> Inl (no_fit_reason s grp bundles))))"

definition place_one :: "env \<Rightarrow> string \<Rightarrow> state \<Rightarrow> state" where
  "place_one E pid s =
     (case map_of (pgs s) pid of
        None \<Rightarrow> s
      | Some pg \<Rightarrow>
          (case place_pg E s pg of
             Inl why \<Rightarrow> set_pending_reason E pid why s
           | Inr (island, asg) \<Rightarrow>
               (let s1 = s\<lparr>pgs := hm_modify pid (\<lambda>p. p\<lparr>pg_assignment := asg, pg_state := Created,
                       pg_island := island, pg_pending_reason := None\<rparr>) (pgs s)\<rparr>
                in emit_patch E ''pg_ready'' (pg_patch s1 (pg_group pg) pid @ agent_patches s1 pid) [] s1)))"

definition try_place :: "env \<Rightarrow> state \<Rightarrow> state" where
  "try_place E s =
     fold (place_one E) (map pg_id (filter (\<lambda>p. pg_state p = Pending) (hm_values (pgs s)))) s"

end
