(* ===== verification/PlacementProps.thy ===== *)
theory PlacementProps
  imports Placement
begin

text \<open>
  What placement guarantees. Both ways of placing a group draw GPUs from the front of what is
  left on an agent, which the locale \<open>gpu_pool\<close> states once; from it come the sizes of the
  bundles, their disjointness, and that nothing live is handed out twice. Then \<open>try_place\<close>: a
  group is placed whole or not at all, and no device is ever held by two groups.
\<close>

section \<open>Drawing GPUs from a pool\<close>

locale gpu_pool =
  fixes inv :: "'p \<Rightarrow> bool"
    and remaining :: "'p \<Rightarrow> string \<Rightarrow> nat list"
    and draw :: "'x \<Rightarrow> nat \<Rightarrow> 'p \<Rightarrow> (string \<times> nat list \<times> 'p) option"
  assumes draw_inv: "inv p \<Longrightarrow> draw x n p = Some (i, g, p') \<Longrightarrow> inv p'"
    and draw_size: "inv p \<Longrightarrow> draw x n p = Some (i, g, p') \<Longrightarrow> length g = n"
    and draw_takes: "inv p \<Longrightarrow> draw x n p = Some (i, g, p') \<Longrightarrow> remaining p i = g @ remaining p' i"
    and draw_keeps: "inv p \<Longrightarrow> draw x n p = Some (i, g, p') \<Longrightarrow> j \<noteq> i \<Longrightarrow> remaining p' j = remaining p j"
begin

primrec draw_all :: "('x \<times> nat) list \<Rightarrow> 'p \<Rightarrow> ((string \<times> nat list) list \<times> 'p) option" where
  "draw_all [] p = Some ([], p)"
| "draw_all (r # rs) p =
     (case draw (fst r) (snd r) p of
        None \<Rightarrow> None
      | Some (i, g, p') \<Rightarrow> map_option (\<lambda>(ds, q). ((i, g) # ds, q)) (draw_all rs p'))"

lemma draw_all_sizes:
  "inv p \<Longrightarrow> draw_all rs p = Some (ds, q) \<Longrightarrow> map (\<lambda>d. length (snd d)) ds = map snd rs"
proof (induction rs arbitrary: p ds)
  case (Cons r rs)
  from Cons.prems(2) obtain j g p' ds' where d: "draw (fst r) (snd r) p = Some (j, g, p')"
    "draw_all rs p' = Some (ds', q)" "ds = (j, g) # ds'"
    by (auto split: option.splits)
  with Cons.IH [OF draw_inv [OF Cons.prems(1) d(1)] d(2)] draw_size [OF Cons.prems(1) d(1)]
  show ?case by simp
qed simp

text \<open>What was drawn from an agent, in order, and what is left, is what it had.\<close>

lemma draw_all_takes:
  "inv p \<Longrightarrow> draw_all rs p = Some (ds, q) \<Longrightarrow>
     concat (map snd (filter (\<lambda>d. fst d = i) ds)) @ remaining q i = remaining p i"
proof (induction rs arbitrary: p ds)
  case (Cons r rs)
  from Cons.prems obtain j g p' ds' where d: "draw (fst r) (snd r) p = Some (j, g, p')"
    "draw_all rs p' = Some (ds', q)" "ds = (j, g) # ds'"
    by (auto split: option.splits)
  note IH = Cons.IH [OF draw_inv [OF Cons.prems(1) d(1)] d(2)]
  show ?case
  proof (cases "j = i")
    case True
    with IH d draw_takes [OF Cons.prems(1) d(1)] show ?thesis by simp
  next
    case False
    with IH d draw_keeps [OF Cons.prems(1) d(1), of i] show ?thesis by simp
  qed
qed simp

end

abbreviation left_of :: "(string \<times> nat list) list \<Rightarrow> string \<Rightarrow> nat list" where
  "left_of ags i \<equiv> (case map_of ags i of None \<Rightarrow> [] | Some f \<Rightarrow> f)"

lemma take_from_Some:
  assumes "take_from n ags = Some (i, g, rest)" "distinct (map fst ags)"
  shows "map fst rest = map fst ags \<and> length g = n \<and> i \<in> fst ` set ags \<and> left_of ags i = g @ left_of rest i
    \<and> (\<forall>j. j \<noteq> i \<longrightarrow> left_of rest j = left_of ags j)"
  using assms
proof (induction n ags arbitrary: rest rule: take_from.induct)
  case (2 n aid free ags)
  show ?case
  proof (cases "n \<le> length free")
    case True
    with 2 show ?thesis by auto
  next
    case False
    with 2(2) obtain rest' where r: "take_from n ags = Some (i, g, rest')" "rest = (aid, free) # rest'"
      by auto
    from 2(1) [OF False r(1)] 2(3) r show ?thesis by auto
  qed
qed simp

interpretation first_fit_pool: gpu_pool "\<lambda>ags. distinct (map fst ags)" left_of "\<lambda>_ :: unit. take_from"
  by unfold_locales (auto dest: take_from_Some)

abbreviation left_ordered :: "state \<Rightarrow> (string, nat list) table \<Rightarrow> string \<Rightarrow> nat list" where
  "left_ordered s free i \<equiv> (case map_of free i of None \<Rightarrow> free_gpus_of s i | Some f \<Rightarrow> f)"

lemma find_on_Some:
  "find_on s n ids free = Some (i, g, free') \<Longrightarrow>
     length g = n \<and> i \<in> set ids \<and> left_ordered s free i = g @ left_ordered s free' i
     \<and> (\<forall>j. j \<noteq> i \<longrightarrow> left_ordered s free' j = left_ordered s free j)"
proof (induction s n ids free rule: find_on.induct)
  case (2 s n aid ids free)
  let ?f = "left_ordered s free aid"
  show ?case
  proof (cases "n \<le> length ?f")
    case True
    with 2(2) show ?thesis
      by (auto simp: Let_def map_of_bt_insert_gen split: option.splits)
  next
    case False
    with 2(2) have r: "find_on s n ids (bt_insert aid ?f free) = Some (i, g, free')"
      by (auto simp: Let_def split: option.splits)
    have same: "left_ordered s (bt_insert aid ?f free) j = left_ordered s free j" for j
      by (auto simp: map_of_bt_insert_gen)
    from 2(1) [OF _ _ r] False have "length g = n \<and> i \<in> set ids
        \<and> left_ordered s (bt_insert aid ?f free) i = g @ left_ordered s free' i
        \<and> (\<forall>j. j \<noteq> i \<longrightarrow> left_ordered s free' j = left_ordered s (bt_insert aid ?f free) j)"
      by auto
    then show ?thesis by (simp add: same)
  qed
qed simp

interpretation ordered_pool: gpu_pool "\<lambda>_. True" "left_ordered s" "\<lambda>ids n. find_on s n ids" for s
  by unfold_locales (auto dest: find_on_Some)

section \<open>Assignments\<close>

definition pairs :: "bundle_assignment list \<Rightarrow> (string \<times> nat) list" where
  "pairs bs = concat (map (\<lambda>b. map (Pair (ba_agent b)) (ba_gpu_ids b)) bs)"

definition gpus_on :: "string \<Rightarrow> bundle_assignment list \<Rightarrow> nat list" where
  "gpus_on i bs = concat (map ba_gpu_ids (filter (\<lambda>b. ba_agent b = i) bs))"

lemma in_pairs: "(i, g) \<in> set (pairs bs) \<longleftrightarrow> g \<in> set (gpus_on i bs)"
  by (auto simp: pairs_def gpus_on_def)

lemma distinct_pairs: "(\<And>i. distinct (gpus_on i bs)) \<Longrightarrow> distinct (pairs bs)"
proof (induction bs)
  case Nil
  then show ?case by (simp add: pairs_def)
next
  case (Cons b bs)
  have "distinct (gpus_on i bs)" for i
    using Cons.prems [of i] by (auto simp: gpus_on_def split: if_splits)
  then have "distinct (pairs bs)" by (rule Cons.IH)
  moreover have "distinct (ba_gpu_ids b @ gpus_on (ba_agent b) bs)"
    using Cons.prems [of "ba_agent b"] by (simp add: gpus_on_def)
  ultimately show ?case
    using in_pairs [of "ba_agent b" _ bs] by (auto simp: pairs_def distinct_map inj_on_def)
qed

text \<open>An assignment drawn from the free GPUs of \<open>s\<close>: complete, each bundle the size it asked
  for, and on each agent a prefix of what is free there.\<close>

definition drawn :: "state \<Rightarrow> nat list \<Rightarrow> bundle_assignment option list \<Rightarrow> bool" where
  "drawn s bundles asg \<longleftrightarrow> asg = map Some (somes asg)
     \<and> map (\<lambda>b. length (ba_gpu_ids b)) (somes asg) = map (\<lambda>b. max b 1) bundles
     \<and> (\<forall>i. \<exists>rest. gpus_on i (somes asg) @ rest = free_gpus_of s i)"

definition on_agents :: "state \<Rightarrow> string \<Rightarrow> string list option \<Rightarrow> bundle_assignment list \<Rightarrow> bool" where
  "on_agents s grp nodes bs \<longleftrightarrow> (\<forall>b \<in> set bs. \<exists>a. map_of (agents s) (ba_agent b) = Some a \<and> ag_alive a
     \<and> ag_group a = grp \<and> ag_node_id a = ba_node_id b
     \<and> (case nodes of None \<Rightarrow> True | Some ns \<Rightarrow> ba_node_id b \<in> set ns))"

text \<open>The tables are keyed by the ids of their rows.\<close>

definition agents_wf :: "state \<Rightarrow> bool" where
  "agents_wf s \<longleftrightarrow> hm_wf (agents s) \<and> (\<forall>(k, a) \<in> set (agents s). ag_id a = k)"

definition gpus_wf :: "state \<Rightarrow> bool" where
  "gpus_wf s \<longleftrightarrow> (\<forall>(k, a) \<in> set (agents s). distinct (map g_index (m_gpus (ag_machine a))))"

lemma agents_wf_lookup:
  "agents_wf s \<Longrightarrow> a \<in> set (hm_values (agents s)) \<longleftrightarrow> map_of (agents s) (ag_id a) = Some a"
  by (auto simp: agents_wf_def hm_wf_def set_hm_values)

lemma distinct_group_agents: "agents_wf s \<Longrightarrow> distinct (map ag_id (filter Q (group_agents s grp)))"
proof -
  assume wf: "agents_wf s"
  have "map ag_id (hm_values (agents s)) = map fst (agents s)"
    using wf by (auto simp: agents_wf_def hm_values_def)
  then have "distinct (map ag_id (hm_values (agents s)))" using wf by (simp add: agents_wf_def hm_wf_def)
  then show ?thesis by (simp add: group_agents_def distinct_map_filter)
qed

lemma in_group_agents:
  "agents_wf s \<Longrightarrow> a \<in> set (group_agents s grp) \<longleftrightarrow>
     map_of (agents s) (ag_id a) = Some a \<and> ag_alive a \<and> ag_group a = grp"
  by (auto simp: group_agents_def agents_wf_lookup)

lemma distinct_fit_agents: "agents_wf s \<Longrightarrow> distinct (map fst (fit_agents s grp driver nodes))"
proof -
  assume wf: "agents_wf s"
  let ?as = "filter (\<lambda>a. case nodes of None \<Rightarrow> True | Some ns \<Rightarrow> ag_node_id a \<in> set ns) (group_agents s grp)"
  let ?ts = "map (\<lambda>a. (ag_node_id a \<noteq> driver, ag_seq a, ag_id a)) ?as"
  have ms: "mset (map (\<lambda>(_, _, aid). aid) (sort ?ts)) = mset (map (\<lambda>(_, _, aid). aid) ?ts)"
    by (simp only: mset_map mset_sort)
  have "map (\<lambda>(_, _, aid). aid) ?ts = map ag_id ?as" by simp
  then have "distinct (map (\<lambda>(_, _, aid). aid) ?ts)"
    using distinct_group_agents [OF wf] by (simp only:)
  then have "distinct (map (\<lambda>(_, _, aid). aid) (sort ?ts))"
    by (simp only: mset_eq_imp_distinct_iff [OF ms])
  moreover have "map fst (fit_agents s grp driver nodes) = map (\<lambda>(_, _, aid). aid) (sort ?ts)"
    by (simp add: fit_agents_def split_def comp_def)
  ultimately show ?thesis by simp
qed

lemma fit_agents_free: "left_of (fit_agents s grp driver nodes) i \<in> {[], free_gpus_of s i}"
proof (cases "map_of (fit_agents s grp driver nodes) i")
  case (Some f)
  then have "(i, f) \<in> set (fit_agents s grp driver nodes)" by (rule map_of_SomeD)
  with Some show ?thesis by (auto simp: fit_agents_def)
qed simp

lemma in_fit_agents:
  assumes "agents_wf s" "i \<in> fst ` set (fit_agents s grp driver nodes)"
  obtains a where "map_of (agents s) i = Some a" "ag_alive a" "ag_group a = grp"
    "case nodes of None \<Rightarrow> True | Some ns \<Rightarrow> ag_node_id a \<in> set ns"
proof -
  from assms(2) obtain a where "a \<in> set (group_agents s grp)" "ag_id a = i"
    "case nodes of None \<Rightarrow> True | Some ns \<Rightarrow> ag_node_id a \<in> set ns"
    by (auto simp: fit_agents_def)
  with that assms(1) show ?thesis by (auto simp: in_group_agents)
qed

lemma fit_loop_draws:
  assumes "fit_loop s bs ags = Some asg"
  shows "\<exists>ds q. first_fit_pool.draw_all (map (\<lambda>b. ((), max b 1)) bs) ags = Some (ds, q)
    \<and> asg = map (\<lambda>(i, g). Some \<lparr>ba_agent = i, ba_node_id = node_of_agent s i, ba_gpu_ids = g, ba_env = []\<rparr>) ds"
  using assms
proof (induction s bs ags arbitrary: asg rule: fit_loop.induct)
  case (2 s b bs ags)
  then show ?case by (fastforce split: option.splits)
qed simp

lemma draw_all_agents:
  "first_fit_pool.draw_all rs ags = Some (ds, q) \<Longrightarrow> distinct (map fst ags) \<Longrightarrow> fst ` set ds \<subseteq> fst ` set ags"
proof (induction rs arbitrary: ags ds)
  case (Cons r rs)
  from Cons.prems(1) obtain j g p' ds' where d: "take_from (snd r) ags = Some (j, g, p')"
    "first_fit_pool.draw_all rs p' = Some (ds', q)" "ds = (j, g) # ds'"
    by (auto split: option.splits)
  note t = take_from_Some [OF d(1) Cons.prems(2)]
  then have "fst ` set p' = fst ` set ags" by (metis list.set_map)
  with Cons.IH [OF d(2)] Cons.prems(2) t d(3) show ?case by auto
qed simp

lemma fit_sound:
  assumes "agents_wf s" "fit s grp bundles driver nodes = Some asg"
  shows "drawn s bundles asg \<and> on_agents s grp nodes (somes asg)"
proof -
  let ?ags = "fit_agents s grp driver nodes"
  note dist = distinct_fit_agents [OF assms(1), of grp driver nodes]
  from fit_loop_draws assms(2) obtain ds q where
    d: "first_fit_pool.draw_all (map (\<lambda>b. ((), max b 1)) bundles) ?ags = Some (ds, q)" and
    asg: "asg = map (\<lambda>(i, g). Some \<lparr>ba_agent = i, ba_node_id = node_of_agent s i, ba_gpu_ids = g, ba_env = []\<rparr>) ds"
    unfolding fit_def by blast
  let ?mk = "\<lambda>(i, g). \<lparr>ba_agent = i, ba_node_id = node_of_agent s i, ba_gpu_ids = g, ba_env = []\<rparr>"
  have sm: "asg = map Some (map ?mk ds)" using asg by (auto simp: split_def)
  then have so: "somes asg = map ?mk ds" by (simp only: somes_map_Some)
  have on: "gpus_on i (somes asg) = concat (map snd (filter (\<lambda>d. fst d = i) ds))" for i
    by (simp add: so gpus_on_def filter_map comp_def split_def)
  have "\<exists>rest. gpus_on i (somes asg) @ rest = free_gpus_of s i" for i
  proof (cases "left_of ?ags i = []")
    case True
    with first_fit_pool.draw_all_takes [OF dist d, of i] have "gpus_on i (somes asg) = []" by (simp add: on)
    then show ?thesis by simp
  next
    case False
    with fit_agents_free [of s grp driver nodes i] have "left_of ?ags i = free_gpus_of s i" by simp
    with first_fit_pool.draw_all_takes [OF dist d, of i] show ?thesis unfolding on by metis
  qed
  moreover have "map (\<lambda>b. length (ba_gpu_ids b)) (somes asg) = map (\<lambda>b. max b 1) bundles"
    using first_fit_pool.draw_all_sizes [OF dist d] by (simp add: so comp_def split_def)
  moreover have "on_agents s grp nodes (somes asg)"
    unfolding on_agents_def
  proof
    fix b assume "b \<in> set (somes asg)"
    then obtain i g where b: "b = ?mk (i, g)" "(i, g) \<in> set ds" by (auto simp: so)
    with draw_all_agents [OF d dist] have "i \<in> fst ` set ?ags" by force
    from in_fit_agents [OF assms(1) this] obtain a where "map_of (agents s) i = Some a" "ag_alive a"
      "ag_group a = grp" "case nodes of None \<Rightarrow> True | Some ns \<Rightarrow> ag_node_id a \<in> set ns" by blast
    with b show "\<exists>a. map_of (agents s) (ba_agent b) = Some a \<and> ag_alive a \<and> ag_group a = grp
        \<and> ag_node_id a = ba_node_id b \<and> (case nodes of None \<Rightarrow> True | Some ns \<Rightarrow> ba_node_id b \<in> set ns)"
      by (auto simp: node_of_agent_def split: option.splits)
  qed
  ultimately show ?thesis using sm so by (simp add: drawn_def)
qed

lemma fit_ordered_loop_draws:
  assumes "fit_ordered_loop s grp rs free = Inr asg"
  shows "\<exists>ds q. ordered_pool.draw_all s (map (\<lambda>(b, n, e). (agents_on s grp n, max b 1)) rs) free = Some (ds, q)
    \<and> asg = map Some (somes asg)
    \<and> map (\<lambda>b. (ba_agent b, ba_gpu_ids b)) (somes asg) = ds
    \<and> map (\<lambda>b. (ba_node_id b, ba_env b)) (somes asg) = map snd rs
    \<and> (\<forall>b \<in> set (somes asg). ba_agent b \<in> set (agents_on s grp (ba_node_id b)))"
  using assms
proof (induction s grp rs free arbitrary: asg rule: fit_ordered_loop.induct)
  case (2 s grp b node env rest free)
  from 2(2) obtain aid g free' asg' where
    f: "find_on s (max b 1) (agents_on s grp node) free = Some (aid, g, free')"
      "fit_ordered_loop s grp rest free' = Inr asg'"
      "asg = Some \<lparr>ba_agent = aid, ba_node_id = node, ba_gpu_ids = g, ba_env = env\<rparr> # asg'"
    by (auto split: option.splits sum.splits)
  from 2(1) [OF f(1) refl refl f(2)] find_on_Some [OF f(1)] f show ?case by auto
qed simp

lemma agents_on_wf:
  "agents_wf s \<Longrightarrow> i \<in> set (agents_on s grp node) \<longleftrightarrow>
     (\<exists>a. map_of (agents s) i = Some a \<and> ag_alive a \<and> ag_group a = grp \<and> ag_node_id a = node)"
proof -
  assume wf: "agents_wf s"
  have "i \<in> set (agents_on s grp node) \<longleftrightarrow>
      (\<exists>a \<in> set (group_agents s grp). ag_id a = i \<and> ag_node_id a = node)"
    by (auto simp: agents_on_def image_image)
  moreover have "map_of (agents s) i = Some a \<Longrightarrow> ag_id a = i" for a
    using wf map_of_SomeD [of "agents s" i a] by (auto simp: agents_wf_def)
  ultimately show ?thesis using in_group_agents [OF wf] by blast
qed

lemma fit_ordered_sound:
  assumes "agents_wf s" "fit_ordered s grp bundles order = Inr asg"
  shows "drawn s bundles asg \<and> on_agents s grp None (somes asg)
    \<and> map (\<lambda>b. (ba_node_id b, ba_env b)) (somes asg) = order"
proof -
  from assms(2) have len: "length bundles = length order"
    and loop: "fit_ordered_loop s grp (zip bundles order) [] = Inr asg"
    by (auto simp: fit_ordered_def split: if_splits)
  from fit_ordered_loop_draws [OF loop] obtain ds q where
    d: "ordered_pool.draw_all s (map (\<lambda>(b, n, e). (agents_on s grp n, max b 1)) (zip bundles order)) [] = Some (ds, q)"
      "asg = map Some (somes asg)" "map (\<lambda>b. (ba_agent b, ba_gpu_ids b)) (somes asg) = ds"
      "map (\<lambda>b. (ba_node_id b, ba_env b)) (somes asg) = map snd (zip bundles order)"
      "\<forall>b \<in> set (somes asg). ba_agent b \<in> set (agents_on s grp (ba_node_id b))"
    by blast
  have "gpus_on i (somes asg) = concat (map snd (filter (\<lambda>d. fst d = i) ds))" for i
    by (simp add: d(3) [symmetric] gpus_on_def filter_map comp_def)
  then have "\<exists>rest. gpus_on i (somes asg) @ rest = free_gpus_of s i" for i
    using ordered_pool.draw_all_takes [OF TrueI d(1), of i] by auto
  moreover have "map (\<lambda>b. length (ba_gpu_ids b)) (somes asg) = map (\<lambda>b. max b 1) bundles"
  proof -
    have "map (\<lambda>b. length (ba_gpu_ids b)) (somes asg) = map (\<lambda>d. length (snd d)) ds"
      by (simp add: d(3) [symmetric] comp_def)
    also have "\<dots> = map (\<lambda>b. max b 1) (map fst (zip bundles order))"
      using ordered_pool.draw_all_sizes [OF TrueI d(1)] by (simp add: comp_def split_def)
    finally show ?thesis using len by simp
  qed
  moreover have "on_agents s grp None (somes asg)"
    using d(5) agents_on_wf [OF assms(1)] by (auto simp: on_agents_def)
  ultimately show ?thesis using d(2,4) len by (simp add: drawn_def)
qed

section \<open>Exclusive devices\<close>

definition live_pgs :: "state \<Rightarrow> pg_info list" where
  "live_pgs s = filter (\<lambda>p. pg_state p \<noteq> Removed) (hm_values (pgs s))"

text \<open>Every device a live placement group has reserved, with its agent, one entry per
  reservation.\<close>

definition reserved :: "state \<Rightarrow> (string \<times> nat) list" where
  "reserved s = concat (map (\<lambda>p. pairs (somes (pg_assignment p))) (live_pgs s))"

definition exclusive :: "state \<Rightarrow> bool" where
  "exclusive s \<longleftrightarrow> distinct (reserved s)"

lemma in_reserved: "(i, g) \<in> set (reserved s) \<longleftrightarrow> bundle_holds s i g"
  by (force simp: reserved_def live_pgs_def bundle_holds_def pairs_def)

lemma distinct_free: "gpus_wf s \<Longrightarrow> distinct (free_gpus_of s i)"
proof (cases "map_of (agents s) i")
  case (Some a)
  assume "gpus_wf s"
  with map_of_SomeD [OF Some] have "distinct (map g_index (m_gpus (ag_machine a)))"
    by (auto simp: gpus_wf_def)
  with Some show ?thesis by (simp add: free_gpus_of_filter)
qed (simp add: free_gpus_of_def)

lemma free_not_held: "g \<in> set (free_gpus_of s i) \<Longrightarrow> \<not> bundle_holds s i g \<and> \<not> actor_holds s i g"
  by (auto simp: free_gpus_of_filter split: option.splits)

text \<open>What was drawn is new: no device twice, none that a live group or a live actor holds.\<close>

lemma drawn_new:
  assumes "gpus_wf s" "drawn s bundles asg"
  shows "distinct (pairs (somes asg)) \<and> set (pairs (somes asg)) \<inter> set (reserved s) = {}
    \<and> (\<forall>(i, g) \<in> set (pairs (somes asg)). \<not> actor_holds s i g)"
proof -
  have pre: "\<exists>rest. gpus_on i (somes asg) @ rest = free_gpus_of s i" for i
    using assms(2) by (simp add: drawn_def)
  then have "distinct (gpus_on i (somes asg))" for i
    using distinct_free [OF assms(1), of i] by (metis distinct_append)
  then have "distinct (pairs (somes asg))" by (rule distinct_pairs)
  moreover have "\<not> bundle_holds s i g \<and> \<not> actor_holds s i g" if "(i, g) \<in> set (pairs (somes asg))" for i g
  proof -
    from that pre [of i] have "g \<in> set (free_gpus_of s i)" by (metis in_pairs Un_iff set_append)
    then show ?thesis by (rule free_not_held)
  qed
  ultimately show ?thesis by (auto simp: in_reserved)
qed

section \<open>One placement step\<close>

text \<open>Placement changes the groups and records events, and touches no other table.\<close>

lemma set_pending_reason_frame [simp, frame_simps]:
  "node_id (set_pending_reason E pid why s) = node_id s"
  "node_ip (set_pending_reason E pid why s) = node_ip s"
  "hostname (set_pending_reason E pid why s) = hostname s"
  "control_addr (set_pending_reason E pid why s) = control_addr s"
  "control_port (set_pending_reason E pid why s) = control_port s"
  "http_port (set_pending_reason E pid why s) = http_port s"
  "peers (set_pending_reason E pid why s) = peers s"
  "dialing (set_pending_reason E pid why s) = dialing s"
  "fabrics (set_pending_reason E pid why s) = fabrics s"
  "head_node_id (set_pending_reason E pid why s) = head_node_id s"
  "head_generation (set_pending_reason E pid why s) = head_generation s"
  "head_since_ms (set_pending_reason E pid why s) = head_since_ms s"
  "agents (set_pending_reason E pid why s) = agents s"
  "actors (set_pending_reason E pid why s) = actors s"
  "refs (set_pending_reason E pid why s) = refs s"
  "clients (set_pending_reason E pid why s) = clients s"
  "client_links (set_pending_reason E pid why s) = client_links s"
  "claims (set_pending_reason E pid why s) = claims s"
  "claim_generation (set_pending_reason E pid why s) = claim_generation s"
  "misfiled_warned (set_pending_reason E pid why s) = misfiled_warned s"
  "reap_pending (set_pending_reason E pid why s) = reap_pending s"
  "next_reap (set_pending_reason E pid why s) = next_reap s"
  "next_seq (set_pending_reason E pid why s) = next_seq s"
  "next_ref (set_pending_reason E pid why s) = next_ref s"
  "counters (set_pending_reason E pid why s) = counters s"
  "boot_id (set_pending_reason E pid why s) = boot_id s"
  by (auto simp: set_pending_reason_def Let_def split: option.splits)

lemma place_one_frame [simp, frame_simps]:
  "node_id (place_one E pid s) = node_id s"
  "node_ip (place_one E pid s) = node_ip s"
  "hostname (place_one E pid s) = hostname s"
  "control_addr (place_one E pid s) = control_addr s"
  "control_port (place_one E pid s) = control_port s"
  "http_port (place_one E pid s) = http_port s"
  "peers (place_one E pid s) = peers s"
  "dialing (place_one E pid s) = dialing s"
  "fabrics (place_one E pid s) = fabrics s"
  "head_node_id (place_one E pid s) = head_node_id s"
  "head_generation (place_one E pid s) = head_generation s"
  "head_since_ms (place_one E pid s) = head_since_ms s"
  "agents (place_one E pid s) = agents s"
  "actors (place_one E pid s) = actors s"
  "refs (place_one E pid s) = refs s"
  "clients (place_one E pid s) = clients s"
  "client_links (place_one E pid s) = client_links s"
  "claims (place_one E pid s) = claims s"
  "claim_generation (place_one E pid s) = claim_generation s"
  "misfiled_warned (place_one E pid s) = misfiled_warned s"
  "reap_pending (place_one E pid s) = reap_pending s"
  "next_reap (place_one E pid s) = next_reap s"
  "next_seq (place_one E pid s) = next_seq s"
  "next_ref (place_one E pid s) = next_ref s"
  "counters (place_one E pid s) = counters s"
  "boot_id (place_one E pid s) = boot_id s"
  by (auto simp: place_one_def Let_def split: option.splits sum.splits)

lemma fold_place_one_frame [simp, frame_simps]:
  "node_id (fold (place_one E) ids s) = node_id s"
  "node_ip (fold (place_one E) ids s) = node_ip s"
  "hostname (fold (place_one E) ids s) = hostname s"
  "control_addr (fold (place_one E) ids s) = control_addr s"
  "control_port (fold (place_one E) ids s) = control_port s"
  "http_port (fold (place_one E) ids s) = http_port s"
  "peers (fold (place_one E) ids s) = peers s"
  "dialing (fold (place_one E) ids s) = dialing s"
  "fabrics (fold (place_one E) ids s) = fabrics s"
  "head_node_id (fold (place_one E) ids s) = head_node_id s"
  "head_generation (fold (place_one E) ids s) = head_generation s"
  "head_since_ms (fold (place_one E) ids s) = head_since_ms s"
  "agents (fold (place_one E) ids s) = agents s"
  "actors (fold (place_one E) ids s) = actors s"
  "refs (fold (place_one E) ids s) = refs s"
  "clients (fold (place_one E) ids s) = clients s"
  "client_links (fold (place_one E) ids s) = client_links s"
  "claims (fold (place_one E) ids s) = claims s"
  "claim_generation (fold (place_one E) ids s) = claim_generation s"
  "misfiled_warned (fold (place_one E) ids s) = misfiled_warned s"
  "reap_pending (fold (place_one E) ids s) = reap_pending s"
  "next_reap (fold (place_one E) ids s) = next_reap s"
  "next_seq (fold (place_one E) ids s) = next_seq s"
  "next_ref (fold (place_one E) ids s) = next_ref s"
  "counters (fold (place_one E) ids s) = counters s"
  "boot_id (fold (place_one E) ids s) = boot_id s"
  by (induction ids arbitrary: s) simp_all

lemma try_place_frame [simp, frame_simps]:
  "node_id (try_place E s) = node_id s"
  "node_ip (try_place E s) = node_ip s"
  "hostname (try_place E s) = hostname s"
  "control_addr (try_place E s) = control_addr s"
  "control_port (try_place E s) = control_port s"
  "http_port (try_place E s) = http_port s"
  "peers (try_place E s) = peers s"
  "dialing (try_place E s) = dialing s"
  "fabrics (try_place E s) = fabrics s"
  "head_node_id (try_place E s) = head_node_id s"
  "head_generation (try_place E s) = head_generation s"
  "head_since_ms (try_place E s) = head_since_ms s"
  "agents (try_place E s) = agents s"
  "actors (try_place E s) = actors s"
  "refs (try_place E s) = refs s"
  "clients (try_place E s) = clients s"
  "client_links (try_place E s) = client_links s"
  "claims (try_place E s) = claims s"
  "claim_generation (try_place E s) = claim_generation s"
  "misfiled_warned (try_place E s) = misfiled_warned s"
  "reap_pending (try_place E s) = reap_pending s"
  "next_reap (try_place E s) = next_reap s"
  "next_seq (try_place E s) = next_seq s"
  "next_ref (try_place E s) = next_ref s"
  "counters (try_place E s) = counters s"
  "boot_id (try_place E s) = boot_id s"
  by (simp_all add: try_place_def)

lemma place_pg_sound:
  assumes "agents_wf s" "place_pg E s pg = Inr (island, asg)"
  shows "drawn s (pg_bundles pg) asg \<and> on_agents s (pg_group pg) None (somes asg)"
proof -
  let ?grp = "pg_group pg" and ?bs = "pg_bundles pg" and ?d = "driver_node_of s (pg_owner pg)"
  have weaken: "on_agents s grp nodes bs \<Longrightarrow> on_agents s grp None bs" for grp nodes bs
    by (auto simp: on_agents_def)
  have scopes: "\<exists>nodes. fit s ?grp ?bs ?d nodes = Some asg"
    if "first_scope (\<lambda>(i, nodes). map_option (Pair i) (fit s ?grp ?bs ?d nodes)) scs = Some (island, asg)" for scs
    using that by (induction scs) (auto split: option.splits)
  from assms(2) consider order where "fit_ordered s ?grp ?bs order = Inr asg"
    | nodes where "fit s ?grp ?bs ?d nodes = Some asg"
    using scopes by (auto simp: place_pg_def Let_def split: option.splits sum.splits if_splits)
  then show ?thesis
  proof cases
    case 1
    with fit_ordered_sound [OF assms(1) 1] show ?thesis by blast
  next
    case 2
    with fit_sound [OF assms(1) 2] weaken show ?thesis by blast
  qed
qed

text \<open>A group before and after a placement attempt: it waits with a reason, or it is placed.\<close>

definition placed_as :: "env \<Rightarrow> state \<Rightarrow> pg_info \<Rightarrow> pg_info \<Rightarrow> bool" where
  "placed_as E s pg pg' \<longleftrightarrow> (\<exists>island asg. place_pg E s pg = Inr (island, asg)
     \<and> pg' = pg\<lparr>pg_assignment := asg, pg_state := Created, pg_island := island, pg_pending_reason := None\<rparr>)"

definition waits_as :: "pg_info \<Rightarrow> pg_info \<Rightarrow> bool" where
  "waits_as pg pg' \<longleftrightarrow> (\<exists>why. pg' = pg\<lparr>pg_pending_reason := why\<rparr>)"

lemma place_one_pgs:
  assumes "hm_wf (pgs s)" "map_of (pgs s) pid = Some pg"
  shows "\<exists>pg'. pgs (place_one E pid s) = hm_modify pid (\<lambda>_. pg') (pgs s) \<and> (placed_as E s pg pg' \<or> waits_as pg pg')"
proof -
  obtain xs ys where split: "pgs s = xs @ (pid, pg) # ys" "\<And>f. hm_modify pid f (pgs s) = xs @ (pid, f pg) # ys"
    using hm_modify_split [OF assms] by blast
  show ?thesis
  proof (cases "place_pg E s pg")
    case (Inl why)
    let ?pg = "pg\<lparr>pg_pending_reason := Some why\<rparr>"
    have "pgs (place_one E pid s) = hm_modify pid (\<lambda>_. ?pg) (pgs s)"
    proof (cases "pg_pending_reason pg = Some why")
      case True
      then have "?pg = pg" by simp
      with Inl True assms split show ?thesis by (simp add: place_one_def set_pending_reason_def)
    next
      case False
      with Inl assms split show ?thesis by (simp add: place_one_def set_pending_reason_def Let_def)
    qed
    then show ?thesis by (auto simp: waits_as_def)
  next
    case (Inr r)
    then obtain island asg where r: "place_pg E s pg = Inr (island, asg)" by (cases r) auto
    let ?pg = "pg\<lparr>pg_assignment := asg, pg_state := Created, pg_island := island, pg_pending_reason := None\<rparr>"
    have "pgs (place_one E pid s) = hm_modify pid (\<lambda>_. ?pg) (pgs s)"
      using r assms(2) split by (simp add: place_one_def Let_def)
    with r show ?thesis by (auto simp: placed_as_def)
  qed
qed

section \<open>The whole sweep\<close>

definition pgs_wf :: "state \<Rightarrow> bool" where
  "pgs_wf s \<longleftrightarrow> hm_wf (pgs s)
     \<and> (\<forall>(k, p) \<in> set (pgs s). pg_id p = k \<and> (pg_state p = Pending \<longrightarrow> somes (pg_assignment p) = []))"

definition place_inv :: "state \<Rightarrow> bool" where
  "place_inv s \<longleftrightarrow> agents_wf s \<and> gpus_wf s \<and> pgs_wf s \<and> exclusive s"

text \<open>A group placed whole: every bundle has its GPUs, on a live agent of the group, and no GPU
  of it was held by a live group or a live actor.\<close>

definition placed_whole :: "state \<Rightarrow> pg_info \<Rightarrow> pg_info \<Rightarrow> bool" where
  "placed_whole s pg pg' \<longleftrightarrow> pg_state pg' = Created \<and> pg_assignment pg' = map Some (somes (pg_assignment pg'))
     \<and> map (\<lambda>b. length (ba_gpu_ids b)) (somes (pg_assignment pg')) = map (\<lambda>b. max b 1) (pg_bundles pg)
     \<and> on_agents s (pg_group pg) None (somes (pg_assignment pg'))
     \<and> distinct (pairs (somes (pg_assignment pg')))
     \<and> (\<forall>(i, g) \<in> set (pairs (somes (pg_assignment pg'))). \<not> bundle_holds s i g \<and> \<not> actor_holds s i g)"

lemma placed_as_whole:
  assumes "agents_wf s" "gpus_wf s" "placed_as E s pg pg'"
  shows "placed_whole s pg pg' \<and> set (pairs (somes (pg_assignment pg'))) \<inter> set (reserved s) = {}"
proof -
  from assms(3) obtain island asg where p: "place_pg E s pg = Inr (island, asg)"
    "pg' = pg\<lparr>pg_assignment := asg, pg_state := Created, pg_island := island, pg_pending_reason := None\<rparr>"
    by (auto simp: placed_as_def)
  with place_pg_sound [OF assms(1) p(1)] have d: "drawn s (pg_bundles pg) asg" "on_agents s (pg_group pg) None (somes asg)"
    by auto
  with drawn_new [OF assms(2) d(1)] p show ?thesis
    by (auto simp: placed_whole_def drawn_def in_reserved [symmetric])
qed

lemma reserved_split:
  assumes "pgs s = xs @ (pid, pg) # ys"
  shows "\<exists>as bs. reserved s = as @ (if pg_state pg = Removed then [] else pairs (somes (pg_assignment pg))) @ bs
    \<and> (\<forall>pg' t. pgs t = xs @ (pid, pg') # ys \<longrightarrow>
         reserved t = as @ (if pg_state pg' = Removed then [] else pairs (somes (pg_assignment pg'))) @ bs)"
  using assms by (auto simp: reserved_def live_pgs_def hm_values_def)

lemma place_one_inv:
  assumes "place_inv s" "map_of (pgs s) pid = Some pg" "pg_state pg = Pending"
  shows "place_inv (place_one E pid s)" "set (reserved s) \<subseteq> set (reserved (place_one E pid s))"
    "\<exists>pg'. map_of (pgs (place_one E pid s)) pid = Some pg' \<and> (waits_as pg pg' \<or> placed_whole s pg pg')"
    "q \<noteq> pid \<Longrightarrow> map_of (pgs (place_one E pid s)) q = map_of (pgs s) q"
proof -
  let ?t = "place_one E pid s"
  have wf: "agents_wf s" "gpus_wf s" "hm_wf (pgs s)" and ex: "exclusive s" and pw: "pgs_wf s"
    using assms(1) by (auto simp: place_inv_def pgs_wf_def)
  from place_one_pgs [OF wf(3) assms(2), of E] obtain pg' where
    pg': "pgs ?t = hm_modify pid (\<lambda>_. pg') (pgs s)" "placed_as E s pg pg' \<or> waits_as pg pg'" by blast
  obtain xs ys where split: "pgs s = xs @ (pid, pg) # ys" "pgs ?t = xs @ (pid, pg') # ys"
    using hm_modify_split [OF wf(3) assms(2)] pg'(1) by metis
  from reserved_split [OF split(1)] obtain as bs where
    r: "reserved s = as @ (if pg_state pg = Removed then [] else pairs (somes (pg_assignment pg))) @ bs"
      "reserved ?t = as @ (if pg_state pg' = Removed then [] else pairs (somes (pg_assignment pg'))) @ bs"
    using split(2) by blast
  have none: "somes (pg_assignment pg) = []"
    using pw assms(2,3) by (auto simp: pgs_wf_def dest: map_of_SomeD)
  with r(1) have rs: "reserved s = as @ bs" by (simp add: pairs_def)
  have new: "distinct (reserved ?t) \<and> set (reserved s) \<subseteq> set (reserved ?t)
      \<and> (waits_as pg pg' \<or> placed_whole s pg pg')
      \<and> pg_id pg' = pg_id pg \<and> (pg_state pg' = Pending \<longrightarrow> somes (pg_assignment pg') = [])"
    using pg'(2)
  proof
    assume p: "placed_as E s pg pg'"
    note w = placed_as_whole [OF wf(1,2) p]
    from p have "pg_id pg' = pg_id pg" by (auto simp: placed_as_def)
    with w ex r(2) rs show ?thesis by (auto simp: exclusive_def placed_whole_def)
  next
    assume "waits_as pg pg'"
    with none ex r(2) rs assms(3) show ?thesis by (auto simp: waits_as_def exclusive_def pairs_def)
  qed
  have pid: "pg_id pg = pid" using pw assms(2) by (auto simp: pgs_wf_def dest: map_of_SomeD)
  have "pgs_wf ?t"
    unfolding pgs_wf_def
  proof (intro conjI ballI, goal_cases)
    case 1
    then show ?case using pg'(1) wf(3) by (simp add: hm_wf_modify)
  next
    case (2 x)
    with pg'(1) pw new pid show ?case
      by (cases x) (auto simp: in_hm_modify pgs_wf_def split: if_splits)
  qed
  with wf new show "place_inv ?t"
    by (simp add: place_inv_def exclusive_def agents_wf_def gpus_wf_def)
  show "set (reserved s) \<subseteq> set (reserved ?t)" using new by blast
  show "\<exists>pg'. map_of (pgs ?t) pid = Some pg' \<and> (waits_as pg pg' \<or> placed_whole s pg pg')"
    using new pg'(1) assms(2) by (simp add: map_of_hm_modify)
  show "q \<noteq> pid \<Longrightarrow> map_of (pgs ?t) q = map_of (pgs s) q" using pg'(1) by (simp add: map_of_hm_modify)
qed

text \<open>Placing more groups keeps what an earlier state says of a group placed later.\<close>

lemma placed_whole_earlier:
  assumes "placed_whole t pg pg'" "agents t = agents s" "actors t = actors s"
    and "set (reserved s) \<subseteq> set (reserved t)"
  shows "placed_whole s pg pg'"
proof -
  have "actor_holds t = actor_holds s" using assms(3) by (simp add: actor_holds_def fun_eq_iff)
  moreover have "bundle_holds s i g \<Longrightarrow> bundle_holds t i g" for i g
    using assms(4) by (auto simp: in_reserved [symmetric])
  ultimately show ?thesis
    using assms(1,2) by (auto simp: placed_whole_def on_agents_def)
qed

lemma fold_place_one:
  assumes "place_inv s" "distinct ids" "\<forall>pid \<in> set ids. \<exists>pg. map_of (pgs s) pid = Some pg \<and> pg_state pg = Pending"
  shows "place_inv (fold (place_one E) ids s) \<and> set (reserved s) \<subseteq> set (reserved (fold (place_one E) ids s))
    \<and> (\<forall>pid. pid \<notin> set ids \<longrightarrow> map_of (pgs (fold (place_one E) ids s)) pid = map_of (pgs s) pid)
    \<and> (\<forall>pid \<in> set ids. \<exists>pg pg'. map_of (pgs s) pid = Some pg \<and> map_of (pgs (fold (place_one E) ids s)) pid = Some pg'
         \<and> (waits_as pg pg' \<or> placed_whole s pg pg'))"
  using assms
proof (induction ids arbitrary: s)
  case (Cons pid ids)
  let ?s = "place_one E pid s"
  from Cons.prems(3) obtain pg where pg: "map_of (pgs s) pid = Some pg" "pg_state pg = Pending" by auto
  note one = place_one_inv [OF Cons.prems(1) pg, where E = E]
  have "\<forall>q \<in> set ids. \<exists>pg. map_of (pgs ?s) q = Some pg \<and> pg_state pg = Pending"
  proof
    fix q assume q: "q \<in> set ids"
    with Cons.prems(2) have "q \<noteq> pid" by auto
    with one(4) Cons.prems(3) q show "\<exists>pg. map_of (pgs ?s) q = Some pg \<and> pg_state pg = Pending" by simp
  qed
  with Cons.IH [OF one(1)] Cons.prems(2)
  have IH: "place_inv (fold (place_one E) ids ?s)" "set (reserved ?s) \<subseteq> set (reserved (fold (place_one E) ids ?s))"
    "\<And>q. q \<notin> set ids \<Longrightarrow> map_of (pgs (fold (place_one E) ids ?s)) q = map_of (pgs ?s) q"
    "\<And>q. q \<in> set ids \<Longrightarrow> \<exists>pg pg'. map_of (pgs ?s) q = Some pg \<and> map_of (pgs (fold (place_one E) ids ?s)) q = Some pg'
         \<and> (waits_as pg pg' \<or> placed_whole ?s pg pg')"
    by auto
  have "\<exists>pg pg'. map_of (pgs s) q = Some pg \<and> map_of (pgs (fold (place_one E) ids ?s)) q = Some pg'
      \<and> (waits_as pg pg' \<or> placed_whole s pg pg')" if "q \<in> set (pid # ids)" for q
  proof (cases "q = pid")
    case True
    with IH(3) [of q] Cons.prems(2) one(3) pg show ?thesis by auto
  next
    case False
    with that IH(4) [of q] one(4) [of q] obtain qg qg' where
      "map_of (pgs s) q = Some qg" "map_of (pgs (fold (place_one E) ids ?s)) q = Some qg'"
      "waits_as qg qg' \<or> placed_whole ?s qg qg'" by auto
    with placed_whole_earlier [of ?s qg qg' s] one(2) show ?thesis by auto
  qed
  with IH one(2) one(4) show ?case by auto
qed simp

lemma pending_ids:
  assumes "pgs_wf s"
  shows "distinct (map pg_id (filter (\<lambda>p. pg_state p = Pending) (hm_values (pgs s))))"
    "pid \<in> set (map pg_id (filter (\<lambda>p. pg_state p = Pending) (hm_values (pgs s)))) \<longleftrightarrow>
       (\<exists>pg. map_of (pgs s) pid = Some pg \<and> pg_state pg = Pending)"
proof -
  have key: "map pg_id (hm_values (pgs s)) = map fst (pgs s)"
    using assms by (auto simp: pgs_wf_def hm_values_def)
  then have "distinct (map pg_id (hm_values (pgs s)))" using assms by (simp add: pgs_wf_def hm_wf_def)
  then show "distinct (map pg_id (filter (\<lambda>p. pg_state p = Pending) (hm_values (pgs s))))"
    by (simp add: distinct_map_filter)
  have "hm_wf (pgs s)" "\<And>k p. (k, p) \<in> set (pgs s) \<Longrightarrow> pg_id p = k" using assms by (auto simp: pgs_wf_def)
  then show "pid \<in> set (map pg_id (filter (\<lambda>p. pg_state p = Pending) (hm_values (pgs s)))) \<longleftrightarrow>
       (\<exists>pg. map_of (pgs s) pid = Some pg \<and> pg_state pg = Pending)"
    by (fastforce simp: set_hm_values hm_in_get)
qed

lemma try_place_facts:
  assumes "place_inv s"
  shows "place_inv (try_place E s) \<and> set (reserved s) \<subseteq> set (reserved (try_place E s))
    \<and> (\<forall>pid pg'. map_of (pgs (try_place E s)) pid = Some pg' \<longrightarrow> (\<exists>pg. map_of (pgs s) pid = Some pg
        \<and> (pg_state pg \<noteq> Pending \<and> pg' = pg \<or> pg_state pg = Pending \<and> (waits_as pg pg' \<or> placed_whole s pg pg'))))"
proof -
  have "pgs_wf s" using assms by (simp add: place_inv_def)
  note ids = pending_ids [OF this]
  let ?ids = "map pg_id (filter (\<lambda>p. pg_state p = Pending) (hm_values (pgs s)))"
  have "\<forall>pid \<in> set ?ids. \<exists>pg. map_of (pgs s) pid = Some pg \<and> pg_state pg = Pending"
    using ids(2) by blast
  note swept = fold_place_one [OF assms ids(1) this, of E, folded try_place_def]
  have f: "place_inv (try_place E s)" "set (reserved s) \<subseteq> set (reserved (try_place E s))"
    "\<And>pid. pid \<notin> set ?ids \<Longrightarrow> map_of (pgs (try_place E s)) pid = map_of (pgs s) pid"
    "\<And>pid. pid \<in> set ?ids \<Longrightarrow> \<exists>pg pg'. map_of (pgs s) pid = Some pg \<and> map_of (pgs (try_place E s)) pid = Some pg'
         \<and> (waits_as pg pg' \<or> placed_whole s pg pg')"
    using swept by (blast, blast, blast, blast)
  have "\<exists>pg. map_of (pgs s) pid = Some pg \<and> (pg_state pg \<noteq> Pending \<and> pg' = pg
      \<or> pg_state pg = Pending \<and> (waits_as pg pg' \<or> placed_whole s pg pg'))"
    if t: "map_of (pgs (try_place E s)) pid = Some pg'" for pid pg'
  proof (cases "pid \<in> set ?ids")
    case True
    with f(4) [OF True] ids(2) [of pid] t show ?thesis by auto
  next
    case False
    with f(3) [OF False] t have "map_of (pgs s) pid = Some pg'" by simp
    with ids(2) [of pid] False show ?thesis by blast
  qed
  with f(1,2) show ?thesis by blast
qed

lemma position_found:
  "x \<in> f ` set xs \<Longrightarrow> \<exists>i. position (\<lambda>m. f m = x) xs = Some i \<and> i < length xs \<and> f (xs ! i) = x"
  by (induction xs) auto

section \<open>Properties of placement\<close>

text \<open>No GPU is ever reserved twice. If the tables are keyed by id, no agent lists one device
  index twice, groups that wait hold nothing, and no device is in two reservations, then the
  same holds after every run of \<open>try_place\<close>, and no reservation is dropped by it.\<close>

theorem try_place_exclusive:
  assumes "place_inv s"
  shows "place_inv (try_place E s) \<and> distinct (reserved (try_place E s))
    \<and> set (reserved s) \<subseteq> set (reserved (try_place E s))"
  using try_place_facts [OF assms, of E] by (auto simp: place_inv_def exclusive_def)

text \<open>C3: placement is all or nothing. After \<open>try_place\<close> a group is as it was, or it was pending and
  still is, with at most its reason changed, or it was pending and now is created with every
  bundle assigned: one bundle for each asked for, each with as many GPUs as asked for and at
  least one, on live agents of the group, none of them held before by a live group or actor.\<close>

theorem try_place_all_or_nothing:
  assumes "place_inv s" "map_of (pgs (try_place E s)) pid = Some pg'"
  shows "\<exists>pg. map_of (pgs s) pid = Some pg
    \<and> (pg_state pg \<noteq> Pending \<and> pg' = pg
       \<or> pg_state pg = Pending \<and> pg_state pg' = Pending \<and> pg_assignment pg' = pg_assignment pg
       \<or> pg_state pg = Pending \<and> placed_whole s pg pg')"
proof -
  from try_place_facts [OF assms(1), of E] assms(2) obtain pg where
    pg: "map_of (pgs s) pid = Some pg" "pg_state pg \<noteq> Pending \<and> pg' = pg
      \<or> pg_state pg = Pending \<and> (waits_as pg pg' \<or> placed_whole s pg pg')"
    by blast
  then show ?thesis by (auto simp: waits_as_def)
qed

text \<open>The scope a placement used.\<close>

lemma first_scope_in: "first_scope f xs = Some y \<Longrightarrow> \<exists>x \<in> set xs. f x = Some y"
  by (induction xs) (auto split: option.splits)

lemma place_pg_scope:
  assumes "agents_wf s" "place_pg E s pg = Inr (island, asg)" "pg_claim pg = []"
  shows "\<exists>scopes nodes. placement_scopes E s (pg_group pg) (pg_bundles pg) (driver_node_of s (pg_owner pg)) [] = Inr scopes
    \<and> (island, nodes) \<in> set scopes \<and> on_agents s (pg_group pg) nodes (somes asg)"
proof -
  let ?d = "driver_node_of s (pg_owner pg)"
  from assms(2,3) obtain scopes where sc:
    "placement_scopes E s (pg_group pg) (pg_bundles pg) ?d [] = Inr scopes"
    "first_scope (\<lambda>(i, nodes). map_option (Pair i) (fit s (pg_group pg) (pg_bundles pg) ?d nodes)) scopes = Some (island, asg)"
    by (auto simp: place_pg_def Let_def split: sum.splits option.splits)
  from first_scope_in [OF sc(2)] obtain nodes where
    n: "(island, nodes) \<in> set scopes" "fit s (pg_group pg) (pg_bundles pg) ?d nodes = Some asg" by auto
  with fit_sound [OF assms(1) n(2)] sc(1) show ?thesis by blast
qed


text \<open>The driver's end of a ring or line. Where a claim orders its nodes and the driver is on
  one of them, rank 0 is the driver's node: a ring is rotated, a line whose far end is the
  driver's is reversed with each rank's neighbours exchanged, and a line with the driver inside
  it is refused. The order keeps every node, in the claim's order up to that.\<close>

theorem orient_rank_zero:
  assumes "orient lay driver order = Some order'" "lay \<noteq> Mesh" "driver \<in> fst ` set order"
  shows "fst (hd order') = driver
    \<and> ((\<exists>i. order' = rotate i order \<and> lay = Ring) \<or> order' = order
       \<or> order' = map (\<lambda>(n, p, q). (n, q, p)) (rev order) \<and> lay = Line)"
proof -
  obtain i where i: "position (\<lambda>m. fst m = driver) order = Some i" "i < length order" "fst (order ! i) = driver"
    using position_found [OF assms(3)] by blast
  have ne: "order \<noteq> []" using assms(3) by auto
  show ?thesis
  proof (cases "lay = Ring")
    case True
    with assms(1) i have "order' = rotate i order" by (simp add: orient_def)
    moreover have "hd (rotate i order) = order ! i" using i ne by (simp add: hd_rotate_conv_nth)
    ultimately show ?thesis using True i by auto
  next
    case False
    with assms(2) have l: "lay = Line" by (cases lay) auto
    show ?thesis
    proof (cases "i = 0")
      case True
      with assms(1) i l have "order' = order" by (simp add: orient_def)
      with True i ne show ?thesis by (simp add: hd_conv_nth)
    next
      case pos: False
      with assms(1) i l have "i = length order - 1" "order' = map (\<lambda>(n, p, q). (n, q, p)) (rev order)"
        by (auto simp: orient_def split: if_splits)
      moreover from this i ne have "hd (rev order) = order ! i" by (simp add: hd_rev last_conv_nth)
      ultimately show ?thesis using i ne l by (auto simp: hd_map split_def)
    qed
  qed
qed

end
