(* ===== verification/Daemon.thy ===== *)
theory Daemon
  imports PlacementProps
begin

text \<open>
  The daemon's handlers for actors, claims and finished rows (\<open>rust/mentatd/src/daemon.rs\<close>): an
  actor's death and what it resolves, \<open>kill_actor\<close>, claims held and released, the reap of a
  driver's resources, the lifecycle sweep, and what a daemon drops when the head moves away.

  Each definition is one hold of the state's lock, or the body of a loop inside one. A handler
  that takes the lock several times is the composition of its holds, and each hold is a step of
  its own in the step relation, so that other threads may run between them.
\<close>

abbreviation quoted :: "string \<Rightarrow> string" where
  "quoted x \<equiv> [CHR 0x27] @ x @ [CHR 0x27]"

section \<open>Actors\<close>

definition actor_patch :: "state \<Rightarrow> string \<Rightarrow> string \<Rightarrow> patch list" where
  "actor_patch s grp aid = (case map_of (actors s) aid of
     None \<Rightarrow> [] | Some a \<Rightarrow> [patch_set [''groups'', grp, ''actors'', aid] (actor_row a)])"

definition opt_list :: "'a option \<Rightarrow> 'a list" where
  "opt_list x = (case x of None \<Rightarrow> [] | Some y \<Rightarrow> [y])"

text \<open>The fan-out: every pending call of the actor fails with the reason.\<close>

definition fail_refs :: "string \<Rightarrow> string \<Rightarrow> state \<Rightarrow> state" where
  "fail_refs aid reason s = s\<lparr>refs := hm_map (\<lambda>r.
     if rf_actor r = Some aid \<and> rf_state r = RefPending then r\<lparr>rf_state := RefActorDied reason\<rparr> else r) (refs s)\<rparr>"

definition bury_actor :: "env \<Rightarrow> string \<Rightarrow> string \<Rightarrow> actor_info \<Rightarrow> state \<Rightarrow> state" where
  "bury_actor E aid reason a s =
     (let s1 = s\<lparr>actors := hm_modify aid (\<lambda>x. x\<lparr>ac_state := Dead reason (e_now E), ac_queued_calls := []\<rparr>) (actors s)\<rparr>
      in emit_patch E ''actor_dead'' (actor_patch s1 (ac_group a) aid @ opt_list (agent_patch s1 (ac_agent a))) reason s1)"

definition mark_actor_dead :: "env \<Rightarrow> string \<Rightarrow> string \<Rightarrow> state \<Rightarrow> state" where
  "mark_actor_dead E aid reason s =
     (case map_of (actors s) aid of
        Some a \<Rightarrow> if is_dead (ac_state a) then s
                  else try_place E (fail_refs aid reason (bury_actor E aid reason a s))
      | None \<Rightarrow> try_place E (fail_refs aid reason s))"

definition live_writer :: "state \<Rightarrow> string \<Rightarrow> sock option" where
  "live_writer s agent = (case map_of (agents s) agent of
     None \<Rightarrow> None | Some a \<Rightarrow> if ag_alive a then Some (ag_writer a) else None)"

definition kill_actor :: "env \<Rightarrow> string \<Rightarrow> state \<Rightarrow> state" where
  "kill_actor E aid s =
     (case map_of (actors s) aid of
        None \<Rightarrow> s
      | Some a \<Rightarrow>
          (if is_dead (ac_state a) then s
           else (case live_writer s (ac_agent a) of
               Some w \<Rightarrow> post E w (A (ActorKill aid)) 0 [] s
             | None \<Rightarrow> mark_actor_dead E aid ''killed while its agent was down'' s)))"

section \<open>Claims\<close>

definition is_blank :: "string \<Rightarrow> bool" where
  "is_blank name \<longleftrightarrow> trim name = []"

text \<open>\<open>claim\<close>: the generation and the view, or the refusal.\<close>

definition claim :: "env \<Rightarrow> string \<Rightarrow> string \<Rightarrow> string \<Rightarrow> json \<Rightarrow> state \<Rightarrow> (msg + nat \<times> json) \<times> state" where
  "claim E client grp name shape s =
     (if is_blank name then (Inl (msg_refused ''bad_claim_name'' ''a claim needs a name''), s)
      else if head_node_id s \<noteq> node_id s then
        (let addr = (case List.find (\<lambda>p. pe_node_id p = head_node_id s) (hm_values (peers s)) of
               Some p \<Rightarrow> pe_node_ip p @ '':'' @ show_nat (pe_control_port p) | None \<Rightarrow> [])
         in (Inl (R (Err (''this node is not the head. Send claims to '' @ head_node_id s @ '' at '' @ addr)
                ''not_head'' addr [])), s))
      else (case map_of (claims s) (grp, name) of
          Some c \<Rightarrow>
            (if cm_shape c \<noteq> canonical shape
             then (Inl (msg_refused ''shape_conflict''
               (''claim '' @ debug_str name @ '' is held for a different shape. Use another name'')), s)
             else (Inr (cm_generation c, cm_view c),
               s\<lparr>claims := hm_modify (grp, name)
                  (\<lambda>c. c\<lparr>cm_holders := bs_insert client (cm_holders c)\<rparr>) (claims s)\<rparr>))
        | None \<Rightarrow>
            (case parse shape of
               Inl e \<Rightarrow> (Inl (msg_refused ''bad_shape'' e), s)
             | Inr rq \<Rightarrow>
                 (let topo = topology E s
                  in case solve topo rq of
                       Inl e \<Rightarrow> (Inl (msg_refused ''unsolvable_claim'' e), s)
                     | Inr so \<Rightarrow>
                         (let gen = u64_add (claim_generation s) 1;
                              view = solution_json topo so;
                              c = \<lparr>cm_shape = canonical shape, cm_view = view, cm_generation = gen,
                                   cm_holders = [client]\<rparr>;
                              s1 = s\<lparr>claim_generation := gen, claims := bt_insert (grp, name) c (claims s)\<rparr>
                          in (Inr (gen, view),
                              emit_patch E ''claim_solved''
                                [patch_set [''groups'', grp, ''claims'', name] (claim_row c)] [] s1))))))"

definition release :: "env \<Rightarrow> string \<Rightarrow> string \<times> string \<Rightarrow> state \<Rightarrow> state" where
  "release E client key s =
     (case map_of (claims s) key of
        None \<Rightarrow> s
      | Some c \<Rightarrow>
          (let c' = c\<lparr>cm_holders := bs_remove client (cm_holders c)\<rparr>;
               path = [''groups'', fst key, ''claims'', snd key]
           in if cm_holders c' = []
              then emit_patch E ''claim_released'' [patch_remove path] []
                     (s\<lparr>claims := hm_remove key (claims s)\<rparr>)
              else emit_patch E ''claim_released'' [patch_set path (claim_row c')] []
                     (s\<lparr>claims := hm_modify key (\<lambda>_. c') (claims s)\<rparr>)))"

definition release_all :: "env \<Rightarrow> string \<Rightarrow> state \<Rightarrow> state" where
  "release_all E client s = fold (release E client) (map fst (claims s)) s"

section \<open>The end of a driver session\<close>

definition client_group :: "state \<Rightarrow> string \<Rightarrow> string" where
  "client_group s client = (case map_of (clients s) client of None \<Rightarrow> ''default'' | Some c \<Rightarrow> cl_group c)"

text \<open>\<open>reap_client\<close>, first hold: the client's row goes at once. The group it had.\<close>

definition reap_client_row :: "env \<Rightarrow> string \<Rightarrow> state \<Rightarrow> string \<times> state" where
  "reap_client_row E client s =
     (client_group s client,
      emit_patch E ''driver_disconnected'' [patch_remove [''clients'', client]] []
        (s\<lparr>clients := hm_remove client (clients s)\<rparr>))"

text \<open>Second hold, with a grace: the disconnect's token is stored for the timer.\<close>

definition defer_reap :: "string \<Rightarrow> state \<Rightarrow> nat \<times> state" where
  "defer_reap client s =
     (next_reap s, s\<lparr>next_reap := u64_add (next_reap s) 1,
        reap_pending := bt_insert client (next_reap s) (reap_pending s)\<rparr>)"

definition remove_pgs_of :: "env \<Rightarrow> string \<Rightarrow> state \<Rightarrow> state" where
  "remove_pgs_of E client s =
     (let mine = filter (\<lambda>p. pg_owner p = client \<and> pg_state p \<noteq> Removed) (hm_values (pgs s));
          s1 = s\<lparr>pgs := hm_map (\<lambda>p. if pg_owner p = client \<and> pg_state p \<noteq> Removed
                 then p\<lparr>pg_state := Removed, pg_removed_ms := Some (e_now E)\<rparr> else p) (pgs s)\<rparr>
      in fold (\<lambda>p s. emit_patch E ''pg_removed''
             (pg_patch s (pg_group p) (pg_id p) @ agent_patches s (pg_id p)) ''driver session closed'' s) mine s1)"

definition live_actors_of :: "string \<Rightarrow> state \<Rightarrow> string list" where
  "live_actors_of client s =
     map ac_id (filter (\<lambda>a. ac_owner a = client \<and> \<not> is_dead (ac_state a)) (hm_values (actors s)))"

text \<open>\<open>reap_client_resources\<close>, first hold: nothing for a stale token or a session reopened
  meanwhile; otherwise the claims and groups go, and the actors to kill are named.\<close>

definition reap_begin :: "env \<Rightarrow> string \<Rightarrow> string \<Rightarrow> nat option \<Rightarrow> state \<Rightarrow> string list option \<times> state" where
  "reap_begin E client grp token s =
     (if (case token of None \<Rightarrow> False | Some k \<Rightarrow> map_of (reap_pending s) client \<noteq> Some k) then (None, s)
      else (let s1 = s\<lparr>reap_pending := hm_remove client (reap_pending s)\<rparr>
            in if (case map_of (clients s1) client of None \<Rightarrow> False | Some c \<Rightarrow> cl_has_session c) then (None, s1)
               else (let s2 = release_all E client s1;
                         ids = live_actors_of client s2;
                         s3 = remove_pgs_of E client s2;
                         s4 = (if ids = [] then s3
                               else emit_patch E ''driver_gone_reaping'' []
                                 (show_nat (length ids) @ '' actors in group '' @ grp) s3)
                     in (Some ids, s4))))"

text \<open>Last hold: the client's refs go, and what came free is placed.\<close>

definition reap_end :: "env \<Rightarrow> string \<Rightarrow> state \<Rightarrow> state" where
  "reap_end E client s = try_place E (s\<lparr>refs := hm_retain (\<lambda>_ r. rf_owner r \<noteq> client) (refs s)\<rparr>)"

definition reap_client_resources :: "env \<Rightarrow> string \<Rightarrow> string \<Rightarrow> nat option \<Rightarrow> state \<Rightarrow> state" where
  "reap_client_resources E client grp token s =
     (case reap_begin E client grp token s of
        (None, s1) \<Rightarrow> s1
      | (Some ids, s1) \<Rightarrow> reap_end E client (fold (kill_actor E) ids s1))"

definition reap_client :: "env \<Rightarrow> string \<Rightarrow> state \<Rightarrow> state" where
  "reap_client E client s =
     (let (grp, s1) = reap_client_row E client s
      in if session_reap_grace_ms (e_cfg E) = 0 then reap_client_resources E client grp None s1
         else snd (defer_reap client s1))"

section \<open>The lifecycle sweep\<close>

definition warn_refs :: "env \<Rightarrow> state \<Rightarrow> state" where
  "warn_refs E s = s\<lparr>refs := hm_map (\<lambda>r.
     if rf_state r = RefPending \<and> rf_method r \<noteq> ''run'' \<and> \<not> rf_warned r
        \<and> slow_call_warn_ms (e_cfg E) < e_now E - rf_created_ms r
     then r\<lparr>rf_warned := True\<rparr> else r) (refs s)\<rparr>"

definition timed_out :: "env \<Rightarrow> pg_info \<Rightarrow> bool" where
  "timed_out E p \<longleftrightarrow> pg_state p = Pending \<and> pg_pending_timeout_ms (e_cfg E) < e_now E - pg_created_ms p"

definition fail_pg :: "env \<Rightarrow> pg_info \<Rightarrow> state \<Rightarrow> state" where
  "fail_pg E p s =
     (let age = e_now E - pg_created_ms p;
          why = (case pg_pending_reason p of Some w \<Rightarrow> w
                 | None \<Rightarrow> ''group '' @ quoted (pg_group p) @ '' never had enough registered GPUs'');
          s1 = s\<lparr>pgs := hm_modify (pg_id p) (\<lambda>x. x\<lparr>pg_state := Removed, pg_removed_ms := Some (e_now E),
                 pg_fail_reason := Some (''placement group still PENDING after '' @ show_nat age @ ''ms: '' @ why @
                   '' (MENTAT_PG_PENDING_TIMEOUT_MS)'')\<rparr>) (pgs s)\<rparr>
      in if hm_has (pgs s1) (pg_id p)
         then emit_patch E ''pg_timeout'' (pg_patch s1 (pg_group p) (pg_id p))
                (''waited '' @ show_nat age @ '' ms: '' @ why) s1
         else s1)"

definition sweep_pending :: "env \<Rightarrow> state \<Rightarrow> state" where
  "sweep_pending E s = fold (fail_pg E) (filter (timed_out E) (hm_values (pgs s))) s"

definition down_ms :: "env \<Rightarrow> agent_info \<Rightarrow> nat option" where
  "down_ms E a = map_option (\<lambda>t. e_now E - t) (ag_lost_at_ms a)"

definition gives_up :: "env \<Rightarrow> agent_info \<Rightarrow> bool" where
  "gives_up E a = (case down_ms E a of None \<Rightarrow> False | Some d \<Rightarrow> agent_dead_after_ms (e_cfg E) \<le> d)"

definition degrades :: "env \<Rightarrow> agent_info \<Rightarrow> bool" where
  "degrades E a = (case down_ms E a of None \<Rightarrow> False
     | Some d \<Rightarrow> \<not> gives_up E a \<and> agent_degraded_after_ms (e_cfg E) \<le> d \<and> \<not> ag_degraded a)"

definition age_agent :: "env \<Rightarrow> agent_info \<Rightarrow> agent_info" where
  "age_agent E a = (if gives_up E a then a\<lparr>ag_lost_at_ms := None\<rparr>
     else if degrades E a then a\<lparr>ag_degraded := True\<rparr> else a)"

definition emit_agent :: "env \<Rightarrow> string \<Rightarrow> string \<Rightarrow> string \<Rightarrow> string \<Rightarrow> state \<Rightarrow> state" where
  "emit_agent E kind grp aid why s = (case map_of (agents s) aid of
     None \<Rightarrow> s
   | Some a \<Rightarrow> emit_patch E kind [patch_set [''groups'', grp, ''agents'', aid] (agent_row s a)] why s)"

definition give_up :: "env \<Rightarrow> agent_info \<Rightarrow> state \<Rightarrow> state" where
  "give_up E a s =
     (let down = (case down_ms E a of None \<Rightarrow> 0 | Some d \<Rightarrow> d);
          orphaned = map ac_id (filter (\<lambda>x. ac_agent x = ag_id a \<and> \<not> is_dead (ac_state x)) (hm_values (actors s)));
          s1 = emit_agent E ''agent_dead'' (ag_group a) (ag_id a)
                 (''down '' @ show_nat down @ '' ms, '' @ show_nat (length orphaned) @ '' actors orphaned'') s
      in fold (\<lambda>aid. mark_actor_dead E aid (''agent link lost for '' @ show_nat down @
            ''ms, past MENTAT_AGENT_DEAD_AFTER_MS'')) orphaned s1)"

definition sweep_agents :: "env \<Rightarrow> state \<Rightarrow> state" where
  "sweep_agents E s =
     (let degrade = filter (degrades E) (hm_values (agents s));
          gone = filter (gives_up E) (hm_values (agents s));
          s1 = s\<lparr>agents := hm_map (age_agent E) (agents s)\<rparr>;
          s2 = fold (\<lambda>a. emit_agent E ''agent_degraded'' (ag_group a) (ag_id a)
                 (''down '' @ show_nat (case down_ms E a of None \<Rightarrow> 0 | Some d \<Rightarrow> d) @ '' ms'')) degrade s1
      in fold (give_up E) gone s2)"

definition aged :: "env \<Rightarrow> nat \<Rightarrow> bool" where
  "aged E t \<longleftrightarrow> history_keep_ms (e_cfg E) < e_now E - t"

definition gone_actors :: "env \<Rightarrow> state \<Rightarrow> string list" where
  "gone_actors E s = map ac_id (filter (\<lambda>a. \<not> hm_has (clients s) (ac_owner a)
     \<and> (case ac_state a of Dead _ t \<Rightarrow> aged E t | _ \<Rightarrow> False)) (hm_values (actors s)))"

definition gone_pgs :: "env \<Rightarrow> state \<Rightarrow> string list" where
  "gone_pgs E s = map pg_id (filter (\<lambda>p. pg_state p = Removed \<and> \<not> hm_has (clients s) (pg_owner p)
     \<and> (case pg_removed_ms p of None \<Rightarrow> False | Some t \<Rightarrow> aged E t)) (hm_values (pgs s)))"

definition gone_agents :: "env \<Rightarrow> state \<Rightarrow> string list" where
  "gone_agents E s = map ag_id (filter (\<lambda>a. \<not> ag_alive a
     \<and> (case ag_gone_since_ms a of None \<Rightarrow> False | Some t \<Rightarrow> aged E t)
     \<and> \<not> (\<exists>x \<in> set (hm_values (actors s)). ac_agent x = ag_id a \<and> ac_id x \<notin> set (gone_actors E s)))
     (hm_values (agents s)))"

definition sweep_history :: "env \<Rightarrow> state \<Rightarrow> state" where
  "sweep_history E s =
     (let acs = gone_actors E s; ps = gone_pgs E s; ags = gone_agents E s
      in if acs = [] \<and> ps = [] \<and> ags = [] then s
         else (let ac_rows = List.map_filter (\<lambda>i. map_option (Pair i) (map_of (actors s) i)) acs;
                   pg_rows = List.map_filter (\<lambda>i. map_option (Pair i) (map_of (pgs s) i)) ps;
                   ag_rows = List.map_filter (\<lambda>i. map_option (Pair i) (map_of (agents s) i)) ags;
                   paths = map (\<lambda>(i, a). patch_remove [''groups'', ac_group a, ''actors'', i]) ac_rows
                     @ map (\<lambda>(i, p). patch_remove [''groups'', pg_group p, ''placement_groups'', i]) pg_rows
                     @ map (\<lambda>(i, a). patch_remove [''groups'', ag_group a, ''agents'', i]) ag_rows;
                   touched = map (\<lambda>(i, a). ac_group a) ac_rows @ map (\<lambda>(i, a). ag_group a) ag_rows;
                   actors' = fold hm_remove acs (actors s);
                   agents' = fold hm_remove ags (agents s);
                   s1 = s\<lparr>actors := actors', pgs := fold hm_remove ps (pgs s), agents := agents',
                          misfiled_warned := fold bs_remove ags (misfiled_warned s),
                          refs := hm_retain (\<lambda>_ r. case rf_actor r of None \<Rightarrow> True | Some a \<Rightarrow> hm_has actors' a) (refs s)\<rparr>;
                   emptied = sort_dedup (filter (\<lambda>g. \<not> (\<exists>a \<in> set (hm_values agents'). ag_group a = g)
                     \<and> \<not> (\<exists>a \<in> set (hm_values actors'). ac_group a = g)) touched)
               in emit_patch E ''history_swept'' (paths @ map (\<lambda>g. patch_remove [''groups'', g]) emptied)
                    (''kept '' @ show_nat (history_keep_ms (e_cfg E)) @ '' ms'') s1))"

definition sweep_lifecycle :: "env \<Rightarrow> state \<Rightarrow> state" where
  "sweep_lifecycle E s = sweep_history E (sweep_agents E (sweep_pending E (warn_refs E s)))"

section \<open>The head moving away\<close>

definition head_moved :: "env \<Rightarrow> state \<Rightarrow> state" where
  "head_moved E s =
     (if head_node_id s = node_id s \<or> (agents s = [] \<and> clients s = []) then s
      else (let reason = ''group moved to head '' @ head_node_id s;
                s1 = fold (\<lambda>(_, w). shutdown w) (client_links s)
                       (fold (\<lambda>a. shutdown (ag_writer a)) (hm_values (agents s)) s);
                gone = map (\<lambda>c. patch_remove [''clients'', c]) (map fst (clients s))
                  @ map (\<lambda>(g, n). patch_remove [''groups'', g, ''claims'', n]) (map fst (claims s));
                dead = filter (\<lambda>a. \<not> is_dead (ac_state a)) (hm_values (actors s));
                removed = filter (\<lambda>p. pg_state p \<noteq> Removed) (hm_values (pgs s));
                s2 = s1\<lparr>client_links := [], clients := [], claims := [], refs := [],
                  actors := hm_map (\<lambda>a. if is_dead (ac_state a) then a
                     else a\<lparr>ac_state := Dead reason (e_now E)\<rparr>) (actors s1),
                  pgs := hm_map (\<lambda>p. if pg_state p = Removed then p
                     else p\<lparr>pg_state := Removed, pg_removed_ms := Some (e_now E)\<rparr>) (pgs s1)\<rparr>;
                ags = sort_dedup (List.map_filter (\<lambda>a. map_option ac_agent (map_of (actors s2) (ac_id a))) dead
                  @ concat (map (\<lambda>p. case map_of (pgs s2) (pg_id p) of None \<Rightarrow> []
                       | Some q \<Rightarrow> map ba_agent (somes (pg_assignment q))) removed));
                rows = List.map_filter (agent_patch s2) ags
                  @ concat (map (\<lambda>a. actor_patch s2 (ac_group a) (ac_id a)) dead)
                  @ concat (map (\<lambda>p. pg_patch s2 (pg_group p) (pg_id p)) removed)
            in emit_patch E ''head_moved'' (gone @ rows) reason s2))"

end
