(* ===== verification/Common.thy ===== *)
theory Common
  imports State
begin

text \<open>
  The wire version rule of \<open>rust/common/src/proto.rs\<close> and the announcement signing of
  \<open>rust/common/src/secret.rs\<close>. HMAC-SHA256 and the JSON text of a value are code of other
  crates, and are parameters.
\<close>

section \<open>Versions\<close>

definition all_digits :: "string \<Rightarrow> bool" where
  "all_digits s \<longleftrightarrow> s \<noteq> [] \<and> (\<forall>c \<in> set s. 48 \<le> (of_char c :: nat) \<and> (of_char c :: nat) \<le> 57)"

definition major :: "string \<Rightarrow> string option" where
  "major v =
     (case split_once (CHR ''.'') v of
        None \<Rightarrow> None
      | Some (maj, rest) \<Rightarrow>
          (if \<not> all_digits maj \<or> \<not> all_digits rest then None
           else (let trimmed = dropWhile (\<lambda>c. c = CHR ''0'') maj
                 in Some (if trimmed = [] then ''0'' else trimmed))))"

definition CUTOVER :: "string list" where
  "CUTOVER = [''0'', ''1'']"

text \<open>The rule as a build of version \<open>mine\<close> applies it; \<open>major_matches\<close> is it for this build.\<close>

definition accepts :: "string \<Rightarrow> string \<Rightarrow> bool" where
  "accepts mine peer =
     (case (major mine, major peer) of
        (Some a, Some b) \<Rightarrow> a = b \<or> (a \<in> set CUTOVER \<and> b \<in> set CUTOVER)
      | _ \<Rightarrow> False)"

definition major_matches :: "string \<Rightarrow> bool" where
  "major_matches peer = accepts ''0.99'' peer"

section \<open>Signing\<close>

definition is_ascii_ws :: "nat \<Rightarrow> bool" where
  "is_ascii_ws b \<longleftrightarrow> b \<in> {9, 10, 12, 13, 32}"

definition trim_ascii :: "payload \<Rightarrow> payload" where
  "trim_ascii v = rev (dropWhile is_ascii_ws (rev (dropWhile is_ascii_ws v)))"

definition secret_from_env :: "string option \<Rightarrow> payload option" where
  "secret_from_env v = (case v of None \<Rightarrow> None
     | Some t \<Rightarrow> (let key = trim_ascii (map of_char t) in if key = [] then None else Some key))"

definition hex :: "payload \<Rightarrow> string" where
  "hex bytes = concat (map (\<lambda>b. [digit_char (b div 16), digit_char (b mod 16)]) bytes)"

text \<open>
  \<open>unhex\<close> slices the string every two bytes, and a slice that starts or ends inside a character
  of several bytes panics. The outer \<open>None\<close> is that panic; \<open>Some None\<close> is the \<open>None\<close> of the source.
\<close>

definition char_boundary :: "string \<Rightarrow> nat \<Rightarrow> bool" where
  "char_boundary s i \<longleftrightarrow> i \<ge> length s \<or> \<not> (128 \<le> (of_char (s ! i) :: nat) \<and> (of_char (s ! i) :: nat) < 192)"

fun unhex_from :: "string \<Rightarrow> nat \<Rightarrow> nat \<Rightarrow> payload option option" where
  "unhex_from s i 0 = Some (Some [])"
| "unhex_from s i (Suc n) =
     (if \<not> char_boundary s i \<or> \<not> char_boundary s (i + 2) then None
      else (case parse_uint 255 16 (take 2 (drop i s)) of
          None \<Rightarrow> Some None
        | Some b \<Rightarrow>
            (case unhex_from s (i + 2) n of
               None \<Rightarrow> None
             | Some None \<Rightarrow> Some None
             | Some (Some bs) \<Rightarrow> Some (Some (b # bs)))))"

definition unhex :: "string \<Rightarrow> payload option option" where
  "unhex s = (if odd (length s) then Some None else unhex_from s 0 (length s div 2))"

text \<open>\<open>sorted\<close>: object keys in byte order, at every level.\<close>

fun sorted_json :: "json \<Rightarrow> json" where
  "sorted_json (JObj kvs) = JObj (bt_of_list (map (\<lambda>(k, x). (k, sorted_json x)) kvs))"
| "sorted_json (JArr xs) = JArr (map sorted_json xs)"
| "sorted_json v = v"

definition canonical_text :: "(json \<Rightarrow> string) \<Rightarrow> json \<Rightarrow> string" where
  "canonical_text to_string payload = to_string (sorted_json payload)"

definition sign :: "(payload \<Rightarrow> payload \<Rightarrow> payload) \<Rightarrow> (json \<Rightarrow> string) \<Rightarrow> json \<Rightarrow> payload \<Rightarrow> string" where
  "sign hmac to_string payload key =
     (let sig = hex (hmac key (map of_char (canonical_text to_string payload)))
      in to_string (jobj [(''p'', payload), (''sig'', JStr sig)]))"

text \<open>\<open>verify\<close>, with \<open>from_slice\<close> the JSON reader. Outer \<open>None\<close> is a panic.\<close>

definition jget_opt :: "json \<Rightarrow> string \<Rightarrow> json option" where
  "jget_opt v k = (case v of JObj kvs \<Rightarrow> map_of kvs k | _ \<Rightarrow> None)"

definition verify :: "(payload \<Rightarrow> payload \<Rightarrow> payload) \<Rightarrow> (json \<Rightarrow> string) \<Rightarrow> (string \<Rightarrow> json option)
    \<Rightarrow> string \<Rightarrow> payload \<Rightarrow> json option option" where
  "verify hmac to_string from_slice raw key =
     (case from_slice raw of
        None \<Rightarrow> Some None
      | Some env \<Rightarrow>
          (case jget_opt env ''p'' of
             None \<Rightarrow> Some None
           | Some pl \<Rightarrow>
               (case jget_opt env ''sig'' of
                  None \<Rightarrow> Some None
                | Some sg \<Rightarrow>
                    (case as_str sg of
                       None \<Rightarrow> Some None
                     | Some t \<Rightarrow>
                         (case unhex t of
                            None \<Rightarrow> None
                          | Some None \<Rightarrow> Some None
                          | Some (Some want) \<Rightarrow>
                              Some (if hmac key (map of_char (canonical_text to_string pl)) = want
                                    then Some pl else None))))))"

definition universe_of :: "string option \<Rightarrow> string" where
  "universe_of v = (case v of None \<Rightarrow> ''default''
     | Some t \<Rightarrow> if trim t = [] then ''default'' else trim t)"

definition claimed_universe :: "(string \<Rightarrow> json option) \<Rightarrow> string \<Rightarrow> string" where
  "claimed_universe from_slice raw =
     (case from_slice raw of
        None \<Rightarrow> ''default''
      | Some v \<Rightarrow>
          (let pl = (case jget_opt v ''p'' of None \<Rightarrow> v | Some p \<Rightarrow> p)
           in case (case jget_opt pl ''universe'' of None \<Rightarrow> None | Some u \<Rightarrow> as_str u) of
                None \<Rightarrow> ''default'' | Some u \<Rightarrow> u))"

definition CLOCK_SKEW_S :: rat where
  "CLOCK_SKEW_S = 30"

definition fresh :: "rat \<Rightarrow> rat \<Rightarrow> bool" where
  "fresh t now \<longleftrightarrow> \<bar>now - t\<bar> \<le> CLOCK_SKEW_S"

section \<open>Lemmas\<close>

lemma hex_chars: "\<forall>b \<in> set bs. b < 256 \<Longrightarrow> c \<in> set (hex bs) \<Longrightarrow> of_char c \<in> {48..57} \<union> {97..102::nat}"
proof -
  assume bs: "\<forall>b \<in> set bs. b < 256" and c: "c \<in> set (hex bs)"
  then obtain b where "b \<in> set bs" "c = digit_char (b div 16) \<or> c = digit_char (b mod 16)"
    by (auto simp: hex_def)
  moreover from this bs have "b div 16 < 16" "b mod 16 < 16" by (auto simp: less_mult_imp_div_less)
  ultimately obtain d where "d < 16" "c = digit_char d" by blast
  with digit_char_not [of d] show ?thesis by simp
qed

lemma length_hex [simp]: "length (hex bs) = 2 * length bs"
  by (induction bs) (simp_all add: hex_def)

lemma hex_Cons: "hex (b # bs) = digit_char (b div 16) # digit_char (b mod 16) # hex bs"
  by (simp add: hex_def)

lemma parse_hex_byte: "b < 256 \<Longrightarrow> parse_uint 255 16 [digit_char (b div 16), digit_char (b mod 16)] = Some b"
proof -
  assume b: "b < 256"
  then have d: "b div 16 < 16" "b mod 16 < 16" by (auto simp: less_mult_imp_div_less)
  then have "digit_char (b div 16) \<noteq> CHR ''+''" using digit_char_not [of "b div 16"] by auto
  moreover have "b div 16 * 16 + b mod 16 = b" by simp
  ultimately show ?thesis using d b by (simp add: parse_uint_def to_digit_digit_char)
qed

lemma unhex_from_hex:
  assumes "\<forall>b \<in> set (pre @ bs). b < 256"
  shows "unhex_from (hex (pre @ bs)) (2 * length pre) (length bs) = Some (Some bs)"
  using assms
proof (induction bs arbitrary: pre)
  case (Cons b bs)
  let ?s = "hex (pre @ b # bs)"
  have bnd: "char_boundary ?s i" for i
  proof (cases "i < length ?s")
    case True
    then have "of_char (?s ! i) \<in> {48..57} \<union> {97..102::nat}"
      using Cons.prems nth_mem [of i ?s] by (intro hex_chars [where bs = "pre @ b # bs"]) auto
    then show ?thesis by (auto simp: char_boundary_def)
  qed (simp add: char_boundary_def)
  have "?s = hex pre @ hex (b # bs)" by (simp add: hex_def)
  then have "take 2 (drop (2 * length pre) ?s) = [digit_char (b div 16), digit_char (b mod 16)]"
    by (simp add: hex_Cons)
  moreover have "unhex_from ?s (2 * length (pre @ [b])) (length bs) = Some (Some bs)"
    using Cons.IH [of "pre @ [b]"] Cons.prems by simp
  ultimately show ?case using bnd Cons.prems by (simp add: parse_hex_byte)
qed simp

lemma unhex_hex: "\<forall>b \<in> set bs. b < 256 \<Longrightarrow> unhex (hex bs) = Some (Some bs)"
  using unhex_from_hex [of "[]" bs] by (simp add: unhex_def)

section \<open>Properties\<close>

text \<open>A signed envelope verifies under the same key and gives back the payload, and under any
  key for which the payload's code differs it does not. The reader is assumed to read back what
  the writer wrote for this envelope, and the code to be bytes.\<close>

theorem verify_sign:
  assumes "from_slice (sign hmac to_string pl key)
      = Some (jobj [(''p'', pl), (''sig'', JStr (hex (hmac key (map of_char (canonical_text to_string pl)))))])"
    and "\<forall>b \<in> set (hmac key (map of_char (canonical_text to_string pl))). b < 256"
  shows "verify hmac to_string from_slice (sign hmac to_string pl key) key' =
    Some (if hmac key' (map of_char (canonical_text to_string pl)) = hmac key (map of_char (canonical_text to_string pl))
          then Some pl else None)"
proof -
  let ?env = "jobj [(''p'', pl), (''sig'', JStr (hex (hmac key (map of_char (canonical_text to_string pl)))))]"
  have "jget_opt ?env ''p'' = Some pl"
    "jget_opt ?env ''sig'' = Some (JStr (hex (hmac key (map of_char (canonical_text to_string pl)))))"
    by (simp_all add: jget_opt_def jobj_def bt_extend_def)
  with assms unhex_hex [OF assms(2)] show ?thesis by (simp add: verify_def)
qed

theorem verify_sign_witness:
  "verify (\<lambda>k m. k) (\<lambda>v. ''x'') (\<lambda>_. Some (jobj [(''p'', JNull), (''sig'', JStr (hex [7, 200]))]))
     (sign (\<lambda>k m. k) (\<lambda>v. ''x'') JNull [7, 200]) [7, 200] = Some (Some JNull)
   \<and> verify (\<lambda>k m. k) (\<lambda>v. ''x'') (\<lambda>_. Some (jobj [(''p'', JNull), (''sig'', JStr (hex [7, 200]))]))
     (sign (\<lambda>k m. k) (\<lambda>v. ''x'') JNull [7, 200]) [8] = Some None"
  using verify_sign [where hmac = "\<lambda>k m. k" and to_string = "\<lambda>v. ''x''" and pl = JNull and key = "[7, 200]"
      and from_slice = "\<lambda>_. Some (jobj [(''p'', JNull), (''sig'', JStr (hex [7, 200]))])"]
  by simp



text \<open>The version rule is the same from both ends of a link, so no link is accepted by one
  build and refused by the other.\<close>

theorem accepts_sym: "accepts a b = accepts b a"
  by (auto simp: accepts_def split: option.splits)

end
