(* ===== verification/Clients.thy ===== *)
theory Clients
  imports Daemon Common
begin

text \<open>
  Client connections of the daemon (\<open>rust/mentatd/src/daemon.rs\<close>): where a connection belongs, the
  hello, every client message, and the end of a connection. A request that may block is modelled
  by one round of its loop; the rounds follow one another over the states the waiter wakes up in.
\<close>

section \<open>Identity\<close>

definition node_ip_from :: "string option \<Rightarrow> string option \<Rightarrow> string + string" where
  "node_ip_from env route =
     (if (case env of None \<Rightarrow> False | Some ip \<Rightarrow> trim ip \<noteq> []) then Inr (trim (the env))
      else if (case route of None \<Rightarrow> False | Some ip \<Rightarrow> \<not> is_loopback ip) then Inr (the route)
      else Inl (''no default route to take this node'' @ [CHR 0x27] @ ''s address from'' @
        (case route of None \<Rightarrow> [] | Some ip \<Rightarrow> '' (it leaves from '' @ ip @ '')'') @
        ''. Set MENTAT_NODE_IP or --node-ip to the address other nodes reach this one on, or to '' @
        ''127.0.0.1 for a daemon on its own''))"

definition client_node :: "env \<Rightarrow> state \<Rightarrow> string \<Rightarrow> string" where
  "client_node E s ip =
     (if is_loopback ip \<or> ip = node_ip s \<or> ip \<in> set (e_all_local_addrs E) then node_id s
      else (case List.find (\<lambda>p. pe_node_ip p = ip \<or> ip \<in> set (pe_addrs p)) (hm_values (peers s)) of
          Some p \<Rightarrow> pe_node_id p
        | None \<Rightarrow>
            (case List.find (\<lambda>a. ag_node_ip a = ip) (hm_values (agents s)) of
               Some a \<Rightarrow> ag_node_id a
             | None \<Rightarrow> node_id_for ip)))"

type_synonym box = "string \<times> string \<times> string list"

definition misfiled :: "string \<Rightarrow> string \<Rightarrow> box list \<Rightarrow> string option" where
  "misfiled ip nid boxes =
     (if ip = [] \<or> is_loopback ip then None
      else (case List.find (\<lambda>(_, _, addrs). ip \<in> set addrs) boxes of
          None \<Rightarrow> None
        | Some (owner, name, _) \<Rightarrow>
            (if owner = nid then None
             else Some (''claimed '' @ ip @ '', an address of '' @ name @
               '', which this daemon knows as a different node. Its GPUs would join no island and its group'' @
               '' would take no fabric''))))"

definition misfiled_node :: "env \<Rightarrow> state \<Rightarrow> string \<Rightarrow> string \<Rightarrow> string option" where
  "misfiled_node E s ip nid = misfiled ip nid
     ((node_id s, hostname s, e_local_addrs E)
      # map (\<lambda>p. (pe_node_id p, pe_node_ip p, pe_addrs p)) (filter pe_alive (hm_values (peers s))))"

section \<open>The head\<close>

datatype head = Here | At "string list" | NoHead | WaitHead

text \<open>One round of \<open>head_for\<close>; \<open>expired\<close> is the thirty seconds having passed.\<close>

definition head_for :: "state \<Rightarrow> bool \<Rightarrow> head" where
  "head_for s expired =
     (if head_node_id s \<noteq> [] then
        (if head_node_id s = node_id s then Here
         else (case map_of (peers s) (head_node_id s) of
             None \<Rightarrow> NoHead
           | Some p \<Rightarrow>
               (if \<not> pe_alive p then NoHead
                else (let port = '':'' @ show_nat (pe_control_port p)
                      in At (dedup ([pe_link_ip p @ port, pe_node_ip p @ port] @ map (\<lambda>a. a @ port) (pe_addrs p)))))))
      else if expired then NoHead else WaitHead)"

text \<open>The first frame a relay sends on: a local client or agent with no address gets this box's.\<close>

definition relay_first :: "env \<Rightarrow> state \<Rightarrow> string \<Rightarrow> msg \<Rightarrow> msg" where
  "relay_first E s peer_ip m =
     (if is_loopback peer_ip \<or> peer_ip \<in> set (e_all_local_addrs E) then
        (case m of
           C (Hello pr cid grp ses kind ip) \<Rightarrow> if ip = [] then C (Hello pr cid grp ses kind (node_ip s)) else m
         | A (AgentRegister pr aid grp ip ctr pid mach serv res una meta) \<Rightarrow>
             if ip = [] then A (AgentRegister pr aid grp (node_ip s) ctr pid mach serv res una meta) else m
         | _ \<Rightarrow> m)
      else m)"

datatype route = ToClient | ToAgent | ToPeer | Relay "string list" msg | WaitRoute | Answer msg

definition conn_entry :: "env \<Rightarrow> state \<Rightarrow> string \<Rightarrow> bool \<Rightarrow> msg \<Rightarrow> route" where
  "conn_entry E s peer_ip expired m =
     (let by_head = (\<lambda>here. case head_for s expired of
            Here \<Rightarrow> here
          | At addrs \<Rightarrow> Relay addrs (relay_first E s peer_ip m)
          | NoHead \<Rightarrow> Answer (msg_refused ''no_head'' ''no head elected yet, retry'')
          | WaitHead \<Rightarrow> WaitRoute)
      in case m of
           C (Hello _ _ _ _ _ _) \<Rightarrow> by_head ToClient
         | A (AgentRegister _ _ _ _ _ _ _ _ _ _ _) \<Rightarrow> by_head ToAgent
         | P (PeerHello _ _ _ _ _ _ _ _) \<Rightarrow> ToPeer
         | P (Probe _ _) \<Rightarrow> Answer (P (ProbeOk PROTO (node_id s)))
         | other \<Rightarrow> Answer (msg_refused ''bad_first_frame''
             (''first frame must be hello, agent_register, peer_hello or probe, got '' @ e_debug E other)))"

section \<open>Opening a client connection\<close>

definition orphans_of :: "state \<Rightarrow> string \<Rightarrow> string \<Rightarrow> string list" where
  "orphans_of s grp client =
     map ac_id (filter (\<lambda>a. ac_group a = grp \<and> ac_owner a \<noteq> client \<and> \<not> is_dead (ac_state a)
       \<and> \<not> (case map_of (clients s) (ac_owner a) of None \<Rightarrow> False | Some c \<Rightarrow> cl_has_session c)
       \<and> \<not> hm_has (reap_pending s) (ac_owner a)) (hm_values (actors s)))"

definition proto_mismatch :: "string \<Rightarrow> msg" where
  "proto_mismatch offered =
     R (Err (''proto '' @ PROTO @ '' here, '' @ offered @ '' offered'') ''proto_mismatch'' [] PROTO)"

definition has_other_session :: "state \<Rightarrow> string \<Rightarrow> string \<Rightarrow> bool" where
  "has_other_session s grp client \<longleftrightarrow>
     (\<exists>c \<in> set (hm_values (clients s)). cl_group c = grp \<and> cl_has_session c \<and> cl_id c \<noteq> client)"

text \<open>\<open>client_conn\<close> up to the orphans: \<open>None\<close> when the hello is refused, else the orphans.\<close>

definition client_hello ::
  "env \<Rightarrow> sock \<Rightarrow> nat \<Rightarrow> string \<Rightarrow> string \<Rightarrow> string \<Rightarrow> string \<Rightarrow> bool \<Rightarrow> string \<Rightarrow> string \<Rightarrow> state
    \<Rightarrow> string list option \<times> state" where
  "client_hello E w req peer_ip pr client grp session kind claimed s =
     (if \<not> major_matches pr then (None, post E w (proto_mismatch pr) req [] s)
      else if session \<and> has_other_session s grp client
      then (None, post E w (msg_refused ''duplicate_session''
             (''group '' @ quoted grp @ '' already has an active driver session. '' @
              ''Run a second instance under a different MENTAT_GROUP'')) req [] s)
      else
        (let nid = client_node E s (if claimed = [] then peer_ip else claimed);
             orphans = (if session then orphans_of s grp client else []);
             old = (case map_of (clients s) client of
                 Some c \<Rightarrow> c
               | None \<Rightarrow> \<lparr>cl_id = client, cl_group = grp, cl_kind = kind, cl_node_id = nid, cl_has_session = False\<rparr>);
             entry = old\<lparr>cl_group := grp, cl_has_session := cl_has_session old \<or> session\<rparr>;
             s1 = s\<lparr>clients := hm_insert client entry (clients s),
                    counters := (counters s)\<lparr>ct_clients_total := u64_add (ct_clients_total (counters s)) 1\<rparr>\<rparr>;
             s2 = (if session
                   then emit_patch E ''driver_connected'' [patch_set [''clients'', client] (client_row entry)] [] s1
                   else s1);
             s3 = s2\<lparr>client_links := client_links s2 @ [(client, w)]\<rparr>
         in (Some orphans,
             post E w (R (HelloOk PROTO (cl_node_id entry) (node_ip s) (control_addr s) (head_node_id s))) req [] s3)))"

section \<open>Queries\<close>

definition jf :: "nat \<Rightarrow> json" where
  "jf n = JNum (Float (of_nat n))"

definition node_entry :: "string \<Rightarrow> string \<Rightarrow> nat \<Rightarrow> nat \<Rightarrow> nat \<Rightarrow> json" where
  "node_entry nid ip gpus cpus mem = jobj [
     (''NodeID'', JStr nid), (''NodeManagerAddress'', JStr ip), (''Alive'', JBool True),
     (''Resources'', jobj [(''GPU'', jf gpus), (''CPU'', jf cpus), (''memory'', jf mem),
        (''object_store_memory'', jf 0), (''node:'' @ ip, jf 1)])]"

text \<open>What the walk over the agents keeps for a node: its address, GPUs, CPUs and memory.\<close>

definition nodes_reply :: "state \<Rightarrow> string \<Rightarrow> json list" where
  "nodes_reply s grp =
     (let start = [(node_id s, (node_ip s, 0, 8, 0))];
          rows = fold (\<lambda>a m.
            let (ip, gpus, _, _) = (case map_of m (ag_node_id a) of
                  Some r \<Rightarrow> r | None \<Rightarrow> (ag_node_ip a, 0, 0, 0))
            in bt_insert (ag_node_id a) (ip, gpus + length (m_gpus (ag_machine a)), m_cpus (ag_machine a),
                 f64_of_nat (m_memory (ag_machine a))) m) (group_agents s grp) start
      in map (\<lambda>(nid, ip, gpus, cpus, mem). node_entry nid ip gpus cpus mem) rows)"

definition resources_reply :: "state \<Rightarrow> string \<Rightarrow> (string, nat) table" where
  "resources_reply s grp =
     (let as = group_agents s grp
      in bt_of_list [
           (''GPU'', sum_list (map (\<lambda>a. length (m_gpus (ag_machine a))) as)),
           (''CPU'', sum_list (map (\<lambda>a. m_cpus (ag_machine a)) as)),
           (''memory'', fold (\<lambda>a mem. f64_of_nat (mem + f64_of_nat (m_memory (ag_machine a)))) as 0),
           (''object_store_memory'', 0)])"

definition available_reply :: "state \<Rightarrow> string \<Rightarrow> (string, (string, nat) table) table" where
  "available_reply s grp = fold (\<lambda>a m.
     let e = (case map_of m (ag_node_id a) of Some e \<Rightarrow> e | None \<Rightarrow> []);
         gpu = (case map_of e ''GPU'' of Some g \<Rightarrow> g | None \<Rightarrow> 0)
     in bt_insert (ag_node_id a) (bt_extend e [
          (''GPU'', gpu + length (free_gpus_of s (ag_id a))),
          (''CPU'', m_cpus (ag_machine a)),
          (''memory'', f64_of_nat (m_memory (ag_machine a))),
          (''node:'' @ ag_node_ip a, 1)]) m) (group_agents s grp) []"

section \<open>Placement groups\<close>

definition new_pg :: "env \<Rightarrow> string \<Rightarrow> string \<Rightarrow> string \<Rightarrow> nat list \<Rightarrow> string \<Rightarrow> string \<Rightarrow> pg_info" where
  "new_pg E pid grp client bundles strategy clm = \<lparr>pg_id = pid, pg_group = grp, pg_owner = client,
     pg_bundles = bundles, pg_strategy = strategy, pg_assignment = replicate (length bundles) None,
     pg_state = Pending, pg_created_ms = e_now E, pg_fail_reason = None, pg_claim = clm,
     pg_island = None, pg_pending_reason = None, pg_removed_ms = None\<rparr>"

definition pg_create :: "env \<Rightarrow> string \<Rightarrow> string \<Rightarrow> nat list \<Rightarrow> string \<Rightarrow> string \<Rightarrow> state \<Rightarrow> state" where
  "pg_create E pid client bundles strategy clm s =
     (let grp = client_group s client;
          s1 = s\<lparr>pgs := hm_insert pid (new_pg E pid grp client bundles strategy clm) (pgs s)\<rparr>
      in try_place E (emit_patch E ''pg_created'' (pg_patch s1 grp pid) [] s1))"

definition pg_table :: "state \<Rightarrow> string \<Rightarrow> msg" where
  "pg_table s pid =
     (case map_of (pgs s) pid of
        None \<Rightarrow> msg_error (''no such placement group '' @ pid)
      | Some pg \<Rightarrow>
          (let ix = [0..<length (pg_bundles pg)]
           in R (PgTableOk (jobj [
             (''placement_group_id'', JStr (pg_id pg)), (''name'', JStr []),
             (''bundles'', jobj (map (\<lambda>i. (show_nat i, jobj [(''GPU'', jnat (pg_bundles pg ! i))])) ix)),
             (''bundles_to_node_id'', jobj (List.map_filter (\<lambda>i.
                if i < length (pg_assignment pg)
                then map_option (\<lambda>b. (show_nat i, JStr (ba_node_id b))) (pg_assignment pg ! i) else None) ix)),
             (''strategy'', JStr (pg_strategy pg)), (''state'', JStr (pg_state_str (pg_state pg))),
             (''stats'', jobj [])]))))"

definition pg_remove :: "env \<Rightarrow> string \<Rightarrow> state \<Rightarrow> state" where
  "pg_remove E pid s =
     (case map_of (pgs s) pid of
        None \<Rightarrow> try_place E s
      | Some pg \<Rightarrow>
          (let s1 = s\<lparr>pgs := hm_modify pid (\<lambda>p. p\<lparr>pg_state := Removed, pg_removed_ms := Some (e_now E)\<rparr>) (pgs s)\<rparr>
           in try_place E (emit_patch E ''pg_removed'' (pg_patch s1 (pg_group pg) pid @ agent_patches s1 pid) [] s1)))"

section \<open>Actors\<close>

definition spawn_env :: "state \<Rightarrow> string \<Rightarrow> pg_info \<Rightarrow> bundle_assignment \<Rightarrow> agent_info \<Rightarrow> str_map \<Rightarrow> str_map" where
  "spawn_env s aid pg b ag env =
     (let base = bt_extend env [
            (''MENTAT_ACTOR_ID'', aid),
            (''MENTAT_NODE_ID'', ba_node_id b),
            (''MENTAT_GPU_IDS'', join '','' (map show_nat (ba_gpu_ids b))),
            (''MENTAT_GCS_ADDRESS'', control_addr s)];
          ip = (if ag_node_ip ag = [] then [] else [(''MENTAT_NODE_IP'', ag_node_ip ag)]);
          fabric = (case pg_island pg of
              None \<Rightarrow> []
            | Some i \<Rightarrow> (case map_of (i_addr i) (ba_node_id b) of
                 None \<Rightarrow> [] | Some a \<Rightarrow> [(''MENTAT_FABRIC_IP'', a)]))
      in bt_extend base (ip @ fabric @ ba_env b))"

text \<open>The checks of \<open>create_actor\<close>: the group, the bundle and the agent, or the refusal.\<close>

definition create_check ::
  "state \<Rightarrow> string \<Rightarrow> string \<Rightarrow> nat \<Rightarrow> string \<Rightarrow> nat \<Rightarrow> msg + pg_info \<times> bundle_assignment \<times> agent_info" where
  "create_check s grp name num_gpus pid bi =
     (if \<exists>a \<in> set (hm_values (actors s)). ac_group a = grp \<and> ac_name a = name \<and> \<not> is_dead (ac_state a)
      then Inl (msg_error (''actor name '' @ quoted name @ '' already exists in group '' @ quoted grp))
      else (case map_of (pgs s) pid of
          None \<Rightarrow> Inl (msg_error (''no such placement group '' @ pid))
        | Some pg \<Rightarrow>
            (if pg_state pg \<noteq> Created then Inl (msg_error (''placement group '' @ pid @ '' is not ready''))
             else (case (if bi < length (pg_assignment pg) then pg_assignment pg ! bi else None) of
                 None \<Rightarrow> Inl (msg_error (''bundle '' @ show_nat bi @ '' of placement group '' @ pid @ '' is not placed''))
               | Some b \<Rightarrow>
                   (if length (ba_gpu_ids b) < num_gpus
                    then Inl (msg_error (''actor wants '' @ show_nat num_gpus @ '' GPUs but bundle '' @
                      show_nat bi @ '' reserves '' @ show_nat (length (ba_gpu_ids b))))
                    else (case map_of (agents s) (ba_agent b) of
                        Some ag \<Rightarrow> if ag_alive ag then Inr (pg, b, ag)
                          else Inl (msg_error (''agent '' @ ba_agent b @ '' for bundle '' @ show_nat bi @ '' is gone''))
                      | None \<Rightarrow> Inl (msg_error (''agent '' @ ba_agent b @ '' for bundle '' @ show_nat bi @ '' is gone''))))))))"

definition create_actor ::
  "env \<Rightarrow> string \<Rightarrow> string \<Rightarrow> string \<Rightarrow> nat \<Rightarrow> string \<Rightarrow> nat \<Rightarrow> str_map \<Rightarrow> payload \<Rightarrow> state \<Rightarrow> msg \<times> state" where
  "create_actor E aid client name num_gpus pid bi env pl s =
     (let grp = client_group s client
      in case create_check s grp name num_gpus pid bi of
           Inl m \<Rightarrow> (m, s)
         | Inr (pg, b, ag) \<Rightarrow>
             (let a = \<lparr>ac_id = aid, ac_name = name, ac_group = grp, ac_agent = ag_id ag, ac_node_id = ba_node_id b,
                    ac_gpu_ids = ba_gpu_ids b, ac_owner = client, ac_state = Spawning, ac_pid = None,
                    ac_queued_calls = []\<rparr>;
                  s1 = s\<lparr>actors := hm_insert aid a (actors s),
                    counters := (counters s)\<lparr>ct_actors_spawned := u64_add (ct_actors_spawned (counters s)) 1\<rparr>\<rparr>;
                  s2 = emit_patch E ''actor_spawning'' (actor_patch s1 grp aid) [] s1;
                  (err, s3) = send E (ag_writer ag) (A (ActorSpawn aid name (spawn_env s aid pg b ag env)
                    (ba_gpu_ids b) client)) 0 pl s2
              in case err of
                   None \<Rightarrow> (R (ActorCreateOk aid (ba_node_id b) (ba_gpu_ids b)), s3)
                 | Some e \<Rightarrow>
                     (let why = ''spawn did not reach agent '' @ ag_id ag @ '': '' @ e
                      in (msg_error why, mark_actor_dead E aid why s3))))"

definition new_ref :: "env \<Rightarrow> string \<Rightarrow> string \<Rightarrow> string \<Rightarrow> ref_state \<Rightarrow> ref_info" where
  "new_ref E aid client method rs = \<lparr>rf_state = rs, rf_actor = Some aid, rf_owner = client, rf_method = method,
     rf_created_ms = e_now E, rf_warned = False\<rparr>"

definition hold_call :: "string \<Rightarrow> queued_call \<Rightarrow> state \<Rightarrow> state" where
  "hold_call aid call s =
     s\<lparr>actors := hm_modify aid (\<lambda>a. a\<lparr>ac_queued_calls := ac_queued_calls a @ [call]\<rparr>) (actors s)\<rparr>"

definition actor_call :: "env \<Rightarrow> string \<Rightarrow> string \<Rightarrow> string \<Rightarrow> payload \<Rightarrow> state \<Rightarrow> msg \<times> state" where
  "actor_call E client aid method pl s =
     (let s0 = s\<lparr>counters := (counters s)\<lparr>ct_calls_total := u64_add (ct_calls_total (counters s)) 1\<rparr>\<rparr>;
          (rid, s1) = new_ref_id aid s0;
          store = (\<lambda>rs t. t\<lparr>refs := hm_insert rid (new_ref E aid client method rs) (refs t)\<rparr>)
      in case map_of (actors s1) aid of
           None \<Rightarrow> (msg_error (''no such actor '' @ aid), s1)
         | Some a \<Rightarrow>
             (R (ActorCallOk rid),
              (case ac_state a of
                 Dead reason _ \<Rightarrow> store (RefActorDied reason) s1
               | _ \<Rightarrow>
                   (case live_writer s1 (ac_agent a) of
                      Some w \<Rightarrow>
                        (let (err, s2) = send E w (A (ActorDispatch aid rid method)) 0 pl (store RefPending s1)
                         in if err = None then s2 else hold_call aid (rid, method, pl) s2)
                    | None \<Rightarrow>
                        (if hm_has (agents s1) (ac_agent a)
                         then hold_call aid (rid, method, pl) (store RefPending s1)
                         else store (RefActorDied (''agent '' @ ac_agent a @ '' is not registered'')) s1)))))"

section \<open>Results\<close>

datatype res = ResPending | ResReady bool payload | ResDied string | ResUnknown

definition resolve_ref :: "state \<Rightarrow> string \<Rightarrow> res" where
  "resolve_ref s rid =
     (if starts_with ''p:'' rid then
        (case map_of (pgs s) rid of
           None \<Rightarrow> ResUnknown
         | Some pg \<Rightarrow> (case pg_state pg of
              Created \<Rightarrow> ResReady True []
            | Pending \<Rightarrow> ResPending
            | Removed \<Rightarrow> ResDied (case pg_fail_reason pg of Some r \<Rightarrow> r | None \<Rightarrow> ''placement group removed'')))
      else (case map_of (refs s) rid of
          None \<Rightarrow> ResUnknown
        | Some r \<Rightarrow> (case rf_state r of
             RefPending \<Rightarrow> ResPending | RefReady ok pl \<Rightarrow> ResReady ok pl | RefActorDied why \<Rightarrow> ResDied why)))"

definition unknown_ref_window :: "env \<Rightarrow> state \<Rightarrow> nat option" where
  "unknown_ref_window E s =
     (case head_since_ms s of
        None \<Rightarrow> None
      | Some since \<Rightarrow>
          (let left = u64_add since (agent_dead_after_ms (e_cfg E)) - e_now E
           in if 0 < left then Some left else None))"

text \<open>One round of \<open>do_get\<close>: the answer, or \<open>None\<close> to wait. \<open>expired\<close> is the deadline having passed.\<close>

definition get_round :: "env \<Rightarrow> string \<Rightarrow> bool \<Rightarrow> state \<Rightarrow> (msg \<times> payload) option" where
  "get_round E rid expired s =
     (let r = resolve_ref s rid
      in case (if r = ResUnknown \<and> unknown_ref_window E s \<noteq> None then ResPending else r) of
           ResReady ok pl \<Rightarrow> Some (R (RefGetOk (if ok then ''ok'' else ''error'') []), pl)
         | ResDied why \<Rightarrow> Some (R (RefGetOk ''actor_died'' why), [])
         | ResUnknown \<Rightarrow> Some (msg_refused ''unknown_ref'' (''unknown ref '' @ rid), [])
         | ResPending \<Rightarrow> if expired then Some (R (RefGetOk ''timeout'' []), []) else None)"

definition ref_ready :: "env \<Rightarrow> state \<Rightarrow> string \<Rightarrow> bool" where
  "ref_ready E s rid = (case resolve_ref s rid of
     ResPending \<Rightarrow> False | ResUnknown \<Rightarrow> unknown_ref_window E s = None | _ \<Rightarrow> True)"

definition wait_round :: "env \<Rightarrow> string list \<Rightarrow> nat \<Rightarrow> bool \<Rightarrow> state \<Rightarrow> string list option" where
  "wait_round E rids num expired s =
     (let ready = filter (ref_ready E s) rids
      in if min num (length rids) \<le> length ready then Some (take num ready)
         else if expired then Some ready else None)"

text \<open>The loops: a round per wake-up, over what the waiter sees at each.\<close>

fun do_get :: "string \<Rightarrow> (env \<times> bool \<times> state) list \<Rightarrow> (msg \<times> payload) option" where
  "do_get rid [] = None"
| "do_get rid ((E, expired, s) # ws) =
     (case get_round E rid expired s of Some r \<Rightarrow> Some r | None \<Rightarrow> do_get rid ws)"

fun do_wait :: "string list \<Rightarrow> nat \<Rightarrow> (env \<times> bool \<times> state) list \<Rightarrow> msg option" where
  "do_wait rids num [] = None"
| "do_wait rids num ((E, expired, s) # ws) =
     (case wait_round E rids num expired s of Some r \<Rightarrow> Some (R (RefWaitOk r)) | None \<Rightarrow> do_wait rids num ws)"

text \<open>\<open>wait_for_refs\<close>: how long to sleep, in milliseconds; \<open>None\<close> without a limit.\<close>

definition wait_for_refs :: "env \<Rightarrow> nat option \<Rightarrow> bool \<Rightarrow> state \<Rightarrow> nat option" where
  "wait_for_refs E left unknown s =
     (let window = (if unknown then unknown_ref_window E s else None)
      in case (left, window) of
           (Some d, Some w) \<Rightarrow> Some (min d w) | (Some d, None) \<Rightarrow> Some d | (None, w) \<Rightarrow> w)"

section \<open>Every client message\<close>

definition stop_targets :: "state \<Rightarrow> string \<Rightarrow> bool \<Rightarrow> string list" where
  "stop_targets s grp all =
     map ac_id (filter (\<lambda>a. (all \<or> ac_group a = grp) \<and> \<not> is_dead (ac_state a)) (hm_values (actors s)))"

definition stop_refusal :: "state \<Rightarrow> msg" where
  "stop_refusal s =
     (let gs = sort_dedup (map ac_group (hm_values (actors s)))
      in msg_error (''actor_stop takes a group or all. Groups: '' @ (if gs = [] then ''none'' else join '', '' gs)))"

datatype reply = Reply msg payload | Block

text \<open>\<open>handle_client_msg\<close>: \<open>rnd\<close> is the random part of a new id, \<open>expired\<close> as in the rounds.\<close>

definition handle_client_msg ::
  "env \<Rightarrow> string \<Rightarrow> bool \<Rightarrow> string \<Rightarrow> msg \<Rightarrow> string \<Rightarrow> payload \<Rightarrow> state \<Rightarrow> reply \<times> state" where
  "handle_client_msg E rnd expired client m unknown_t pl s =
     (let grp = client_group s client
      in case m of
           C Nodes \<Rightarrow> (Reply (R (NodesOk (nodes_reply s grp))) [], s)
         | C Resources \<Rightarrow> (Reply (R (ResourcesOk (resources_reply s grp))) [], s)
         | C Available \<Rightarrow> (Reply (R (AvailableOk (available_reply s grp))) [], s)
         | C (Claim name shape) \<Rightarrow>
             (case claim E client grp name shape s of
                (Inr (gen, view), s') \<Rightarrow> (Reply (R (ClaimOk name gen (head_node_id s') view)) [], s')
              | (Inl refusal, s') \<Rightarrow> (Reply refusal [], s'))
         | C (PgCreate bundles strategy clm) \<Rightarrow>
             (let pid = new_pg_id rnd
              in (Reply (R (PgCreateOk pid)) [], pg_create E pid client bundles strategy clm s))
         | C (PgTable pid) \<Rightarrow> (Reply (pg_table s pid) [], s)
         | C (PgRemove pid) \<Rightarrow> (Reply (R Ok) [], pg_remove E pid s)
         | C (ActorCreate name n pid bi env) \<Rightarrow>
             (case create_actor E (new_actor_id rnd) client name n pid bi env pl s of
                (r, s') \<Rightarrow> (Reply r [], s'))
         | C (ActorCall aid method) \<Rightarrow>
             (case actor_call E client aid method pl s of (r, s') \<Rightarrow> (Reply r [], s'))
         | C (RefGet rid timeout) \<Rightarrow>
             (case get_round E rid expired s of Some (r, p) \<Rightarrow> (Reply r p, s) | None \<Rightarrow> (Block, s))
         | C (RefWait rids num timeout) \<Rightarrow>
             (case wait_round E rids num expired s of
                Some ready \<Rightarrow> (Reply (R (RefWaitOk ready)) [], s) | None \<Rightarrow> (Block, s))
         | A (ActorKill aid) \<Rightarrow> (Reply (R Ok) [], kill_actor E aid s)
         | C (Status scope) \<Rightarrow> (Reply (R (StatusOk (snapshot E s scope))) [], s)
         | C (ActorStop g all) \<Rightarrow>
             (if (g = []) \<noteq> all then (Reply (stop_refusal s) [], s)
              else (Reply (R Ok) [], fold (kill_actor E) (stop_targets s g all) s))
         | Unknown \<Rightarrow> (Reply (msg_refused ''unknown_message'' (''no such message type '' @ debug_str unknown_t)) [], s)
         | other \<Rightarrow> (Reply (msg_error (''unexpected client message: '' @ e_debug E other)) [], s))"

section \<open>Closing a client connection\<close>

definition client_closed :: "env \<Rightarrow> string \<Rightarrow> sock \<Rightarrow> bool \<Rightarrow> state \<Rightarrow> state" where
  "client_closed E client w session s =
     (let s1 = s\<lparr>client_links := filter (\<lambda>(_, v). v \<noteq> w) (client_links s)\<rparr>;
          moved = (head_node_id s1 \<noteq> node_id s1)
      in if session \<and> \<not> moved then reap_client E client s1
         else (case map_of (clients s1) client of
             None \<Rightarrow> s1
           | Some c \<Rightarrow> if \<not> cl_has_session c \<or> moved then s1\<lparr>clients := hm_remove client (clients s1)\<rparr> else s1))"

end
