(* ===== verification/Meta.thy ===== *)
theory Meta
  imports Wire Config
begin

text \<open>
  The diagnostic metadata of an agent (\<open>rust/mentatd/src/meta.rs\<close>): the limits both the agent and
  the daemon apply, the variables it is read from, and the address in an RDMA port's GID. The
  files under \<open>/proc\<close> and \<open>/sys\<close> are not modelled.
\<close>

section \<open>Limits\<close>

definition MAX_KEYS :: nat where "MAX_KEYS = 64"
definition MAX_KEY_LEN :: nat where "MAX_KEY_LEN = 64"
definition MAX_VALUE_LEN :: nat where "MAX_VALUE_LEN = 1024"

definition key_char :: "char \<Rightarrow> bool" where
  "key_char c \<longleftrightarrow> (let b = of_char c :: nat in 97 \<le> b \<and> b \<le> 122 \<or> 48 \<le> b \<and> b \<le> 57 \<or> c \<in> set ''._-'')"

definition valid_key :: "string \<Rightarrow> bool" where
  "valid_key k \<longleftrightarrow> k \<noteq> [] \<and> length k \<le> MAX_KEY_LEN \<and> (\<forall>c \<in> set k. key_char c)"

definition bounded :: "str_map \<Rightarrow> str_map \<times> string list" where
  "bounded meta = fold (\<lambda>(k, v) (kept, dropped).
     if valid_key k \<and> length v \<le> MAX_VALUE_LEN \<and> length kept < MAX_KEYS
     then (bt_insert k v kept, dropped) else (kept, dropped @ [k])) meta ([], [])"

section \<open>Sources\<close>

definition meta_from_env :: "(string \<times> string) list \<Rightarrow> str_map" where
  "meta_from_env vs = bt_of_list (List.map_filter (\<lambda>(k, v).
     case strip_prefix ''MENTAT_META_'' k of
       None \<Rightarrow> None
     | Some name \<Rightarrow> if name \<noteq> ''FILE'' then Some (to_ascii_lowercase name, v) else None) vs)"

definition ipv4_of_gid :: "string \<Rightarrow> string option" where
  "ipv4_of_gid gid =
     (let gs = split_on (CHR '':'') gid
      in if length gs \<noteq> 8 \<or> (\<exists>g \<in> set (take 5 gs). g \<noteq> ''0000'') \<or> gs ! 5 \<noteq> ''ffff'' then None
         else (case parse_uint 65535 16 (gs ! 6) of
             None \<Rightarrow> None
           | Some hi \<Rightarrow>
               (case parse_uint 65535 16 (gs ! 7) of
                  None \<Rightarrow> None
                | Some lo \<Rightarrow> Some (show_nat (hi div 256) @ ''.'' @ show_nat (hi mod 256) @ ''.'' @
                    show_nat (lo div 256) @ ''.'' @ show_nat (lo mod 256)))))"

section \<open>Lemmas\<close>

definition within_limits :: "str_map \<Rightarrow> bool" where
  "within_limits m \<longleftrightarrow> length m \<le> MAX_KEYS \<and> (\<forall>(k, v) \<in> set m. valid_key k \<and> length v \<le> MAX_VALUE_LEN)"

text \<open>Over a map in key order the entries are taken in order, so what is kept is a prefix of what
  is acceptable.\<close>

abbreviation acceptable :: "string \<times> string \<Rightarrow> bool" where
  "acceptable \<equiv> \<lambda>(k, v). valid_key k \<and> length v \<le> MAX_VALUE_LEN"

lemma bounded_step:
  assumes "bt_wf (kept @ m)" "length kept \<le> MAX_KEYS"
  shows "fst (fold (\<lambda>(k, v) (kept, dropped).
     if valid_key k \<and> length v \<le> MAX_VALUE_LEN \<and> length kept < MAX_KEYS
     then (bt_insert k v kept, dropped) else (kept, dropped @ [k])) m (kept, dr))
    = take MAX_KEYS (kept @ filter acceptable m)"
  using assms
proof (induction m arbitrary: kept dr)
  case (Cons a m)
  obtain k v where a: "a = (k, v)" by fastforce
  have wf: "bt_wf (kept @ m)" using Cons.prems(1) by (simp add: bt_wf_def sorted_wrt_append)
  have last: "bt_insert k v kept = kept @ [(k, v)]"
    using Cons.prems(1) a by (intro bt_insert_last) (auto simp: bt_wf_def sorted_wrt_append)
  show ?case
  proof (cases "acceptable a \<and> length kept < MAX_KEYS")
    case True
    have "bt_wf ((kept @ [(k, v)]) @ m)" using Cons.prems(1) a by simp
    with True a last Cons.IH [of "kept @ [(k, v)]" dr] Cons.prems(2) show ?thesis by simp
  next
    case False
    show ?thesis
    proof (cases "length kept < MAX_KEYS")
      case True
      with False a Cons.IH [OF wf Cons.prems(2)] show ?thesis by auto
    next
      case full: False
      with Cons.prems(2) have "length kept = MAX_KEYS" by simp
      with False a Cons.IH [OF wf Cons.prems(2), of "dr @ [k]"] show ?thesis by simp
    qed
  qed
qed simp

lemma bounded_keeps: "bt_wf m \<Longrightarrow> fst (bounded m) = take MAX_KEYS (filter acceptable m)"
  using bounded_step [of "[]" m "[]"] by (simp add: bounded_def)

section \<open>Properties\<close>

text \<open>What the daemon stores of an agent's metadata is within the limits whatever the agent
  sent, is the first acceptable entries in key order, and applying the limits again changes
  nothing.\<close>

theorem bounded_limits:
  assumes "bt_wf m"
  shows "within_limits (fst (bounded m)) \<and> fst (bounded m) = take MAX_KEYS (filter acceptable m)
    \<and> fst (bounded (fst (bounded m))) = fst (bounded m)"
proof -
  have k: "fst (bounded m) = take MAX_KEYS (filter acceptable m)" by (rule bounded_keeps [OF assms])
  have "within_limits (fst (bounded m))"
    unfolding k within_limits_def by (auto dest: in_set_takeD)
  moreover have "bt_wf (fst (bounded m))"
    using bt_wf_filter [OF assms, of acceptable] unfolding k bt_wf_def
    by (metis append_take_drop_id map_append sorted_wrt_append)
  moreover have "filter acceptable (fst (bounded m)) = fst (bounded m)"
    unfolding k by (rule filter_True) (auto dest: in_set_takeD)
  ultimately show ?thesis using k bounded_keeps [of "fst (bounded m)"] by simp
qed

theorem bounded_limits_witness:
  "within_limits (fst (bounded [(''Bad'', ''x''), (''gid'', ''3''), (''kernel'', ''6.1'')]))
   \<and> fst (bounded [(''Bad'', ''x''), (''gid'', ''3''), (''kernel'', ''6.1'')]) = [(''gid'', ''3''), (''kernel'', ''6.1'')]"
proof -
  let ?m = "[(''Bad'', ''x''), (''gid'', ''3''), (''kernel'', ''6.1'')]"
  have wf: "bt_wf ?m" by code_simp
  have "fst (bounded ?m) = take MAX_KEYS (filter acceptable ?m)" using bounded_limits [OF wf] by blast
  then have "fst (bounded ?m) = [(''gid'', ''3''), (''kernel'', ''6.1'')]"
    by (simp add: valid_key_def key_char_def MAX_KEY_LEN_def MAX_VALUE_LEN_def MAX_KEYS_def)
  with bounded_limits [OF wf] show ?thesis by metis
qed

end
