(* ===== verification/Agents.thy ===== *)
theory Agents
  imports Clients Meta
begin

text \<open>
  Agent connections of the daemon (\<open>agent_conn\<close> in \<open>rust/mentatd/src/daemon.rs\<close>): which node an
  agent is on, the registration with what it resumes, every message of an agent, and the loss of
  its link. The registration is one hold of the lock; its parts are the definitions below, in the
  order the code runs them.
\<close>

section \<open>Which node\<close>

definition agent_node :: "env \<Rightarrow> state \<Rightarrow> string \<Rightarrow> string \<Rightarrow> string \<times> string" where
  "agent_node E s peer_ip claimed =
     (if claimed = [] then
        (if is_loopback peer_ip \<or> peer_ip \<in> set (e_all_local_addrs E) then (node_ip s, node_id s)
         else (case List.find (\<lambda>p. pe_node_ip p = peer_ip \<or> peer_ip \<in> set (pe_addrs p)) (hm_values (peers s)) of
             Some p \<Rightarrow> (pe_node_ip p, pe_node_id p)
           | None \<Rightarrow> (peer_ip, node_id_for peer_ip)))
      else if claimed = node_ip s then (claimed, node_id s)
      else (claimed, node_id_for claimed))"

section \<open>Registration\<close>

text \<open>The row of the new registration, in place of the old one, whose socket is shut down.\<close>

definition register_row ::
  "env \<Rightarrow> sock \<Rightarrow> string \<Rightarrow> string \<Rightarrow> string \<times> string \<Rightarrow> machine \<Rightarrow> string \<Rightarrow> nat
    \<Rightarrow> (string, service) table \<Rightarrow> str_map \<Rightarrow> state \<Rightarrow> state" where
  "register_row E w aid grp node mach ctr pid serv meta s =
     (let s1 = (case map_of (agents s) aid of None \<Rightarrow> s | Some old \<Rightarrow> shutdown (ag_writer old) s);
          (sq, s2) = take_seq s1;
          a = \<lparr>ag_id = aid, ag_group = grp, ag_node_id = snd node, ag_node_ip = fst node, ag_machine = mach,
               ag_container = ctr, ag_pid = pid, ag_services = serv, ag_meta = meta, ag_writer = w,
               ag_alive = True, ag_lost_at_ms = None, ag_degraded = False, ag_gone_since_ms = None, ag_seq = sq\<rparr>;
          s3 = s2\<lparr>agents := hm_insert aid a (agents s2),
            counters := (counters s2)\<lparr>ct_agents_registered := u64_add (ct_agents_registered (counters s2)) 1\<rparr>\<rparr>
      in emit_patch E ''agent_register'' [patch_set [''groups'', grp, ''agents'', aid] (agent_row s3 a)] [] s3)"

text \<open>The resumed actors to kill, and the ones to adopt.\<close>

definition resume_kills :: "state \<Rightarrow> resume_actor list \<Rightarrow> string list" where
  "resume_kills s resume = map r_actor_id (filter (\<lambda>r. case map_of (actors s) (r_actor_id r) of
     None \<Rightarrow> False | Some a \<Rightarrow> \<not> hm_has (clients s) (ac_owner a) \<or> is_dead (ac_state a)) resume)"

definition adopted_actor :: "string \<Rightarrow> string \<Rightarrow> string \<Rightarrow> resume_actor \<Rightarrow> actor_info" where
  "adopted_actor aid grp nid r = \<lparr>ac_id = r_actor_id r, ac_name = r_name r, ac_group = grp, ac_agent = aid,
     ac_node_id = nid, ac_gpu_ids = r_gpu_ids r, ac_owner = r_owner r, ac_state = Running,
     ac_pid = (if r_pid r = 0 then None else Some (r_pid r)), ac_queued_calls = []\<rparr>"

definition adopt_actors :: "env \<Rightarrow> string \<Rightarrow> string \<Rightarrow> string \<Rightarrow> resume_actor list \<Rightarrow> state \<Rightarrow> state" where
  "adopt_actors E aid grp nid resume s =
     (let adopt = map (adopted_actor aid grp nid)
            (filter (\<lambda>r. \<not> hm_has (actors s) (r_actor_id r)) resume);
          s1 = fold (\<lambda>a s. s\<lparr>actors := hm_insert (ac_id a) a (actors s)\<rparr>) adopt s;
          rows = map (\<lambda>a. patch_set [''groups'', grp, ''actors'', ac_id a] (actor_row a)) adopt
      in if rows = [] then s1
         else emit_patch E ''actor_adopted'' (rows @ opt_list (agent_patch s1 aid)) [] s1)"

text \<open>The calls those actors still work on, and the counter moved past their numbers.\<close>

definition reported_refs :: "resume_actor list \<Rightarrow> string list \<Rightarrow> string list" where
  "reported_refs resume unacked = concat (map r_pending_refs resume) @ unacked"

definition adopt_ref :: "env \<Rightarrow> string \<Rightarrow> string \<Rightarrow> state \<Rightarrow> state" where
  "adopt_ref E aid rid s =
     (if hm_has (refs s) rid then s
      else (case rsplit_once (CHR '':'') rid of
          None \<Rightarrow> s
        | Some (actor, n) \<Rightarrow>
            (case map_of (actors s) actor of
               None \<Rightarrow> s
             | Some a \<Rightarrow>
                 (if ac_agent a \<noteq> aid then s
                  else s\<lparr>next_ref := (case parse_u64 n of None \<Rightarrow> next_ref s | Some k \<Rightarrow> max (next_ref s) (u64_add k 1)),
                         refs := hm_insert rid \<lparr>rf_state = RefPending, rf_actor = Some actor, rf_owner = ac_owner a,
                            rf_method = [], rf_created_ms = e_now E, rf_warned = False\<rparr> (refs s)\<rparr>))))"

definition adopt_refs :: "env \<Rightarrow> string \<Rightarrow> string list \<Rightarrow> state \<Rightarrow> state" where
  "adopt_refs E aid rids s = fold (adopt_ref E aid) rids s"

text \<open>What the daemon still thinks is live and the agent left out is dead.\<close>

definition bury_missing :: "env \<Rightarrow> string \<Rightarrow> resume_actor list \<Rightarrow> state \<Rightarrow> state" where
  "bury_missing E aid resume s =
     fold (\<lambda>i. mark_actor_dead E i ''agent reconnected without this actor'')
       (map ac_id (filter (\<lambda>a. ac_agent a = aid \<and> \<not> is_dead (ac_state a)
          \<and> ac_id a \<notin> r_actor_id ` set resume) (hm_values (actors s)))) s"

text \<open>A pending call that neither side holds was lost.\<close>

definition queued_refs :: "state \<Rightarrow> string \<Rightarrow> string list" where
  "queued_refs s aid = concat (map (\<lambda>a. map fst (ac_queued_calls a))
     (filter (\<lambda>a. ac_agent a = aid) (hm_values (actors s))))"

definition of_agent :: "state \<Rightarrow> string \<Rightarrow> ref_info \<Rightarrow> bool" where
  "of_agent s aid r = (case rf_actor r of None \<Rightarrow> False
     | Some i \<Rightarrow> (case map_of (actors s) i of None \<Rightarrow> False | Some a \<Rightarrow> ac_agent a = aid))"

definition fail_lost :: "string \<Rightarrow> string list \<Rightarrow> state \<Rightarrow> state" where
  "fail_lost aid reported s =
     (let lost = map fst (filter (\<lambda>(rid, r). rf_state r = RefPending \<and> of_agent s aid r
            \<and> rid \<notin> set reported \<and> rid \<notin> set (queued_refs s aid)) (refs s))
      in s\<lparr>refs := fold (\<lambda>rid. hm_modify rid (\<lambda>r. r\<lparr>rf_state :=
            RefActorDied ''call lost while the agent link was down''\<rparr>)) lost (refs s)\<rparr>)"

text \<open>The calls held during the outage, sent in the order they arrived.\<close>

definition drains :: "actor_info \<Rightarrow> string \<Rightarrow> bool" where
  "drains a aid \<longleftrightarrow> ac_agent a = aid \<and> \<not> is_dead (ac_state a)"

definition held_calls :: "state \<Rightarrow> string \<Rightarrow> (string \<times> queued_call) list" where
  "held_calls s aid = concat (map (\<lambda>a. map (Pair (ac_id a)) (ac_queued_calls a))
     (filter (\<lambda>a. drains a aid) (hm_values (actors s))))"

definition send_held :: "env \<Rightarrow> sock \<Rightarrow> string \<Rightarrow> state \<Rightarrow> state" where
  "send_held E w aid s =
     fold (\<lambda>(actor, rid, method, pl). post E w (A (ActorDispatch actor rid method)) 0 pl) (held_calls s aid)
       (s\<lparr>actors := hm_map (\<lambda>a. if drains a aid then a\<lparr>ac_queued_calls := []\<rparr> else a) (actors s)\<rparr>)"

text \<open>The hold that registers an agent.\<close>

definition agent_register ::
  "env \<Rightarrow> sock \<Rightarrow> nat \<Rightarrow> string \<Rightarrow> string \<Rightarrow> string \<times> string \<Rightarrow> machine \<Rightarrow> string \<Rightarrow> nat
    \<Rightarrow> (string, service) table \<Rightarrow> resume_actor list \<Rightarrow> string list \<Rightarrow> str_map \<Rightarrow> state \<Rightarrow> state" where
  "agent_register E w req aid grp node mach ctr pid serv resume unacked meta s =
     (let s1 = register_row E w aid grp node mach ctr pid serv meta s;
          kills = resume_kills s1 resume;
          s2 = adopt_actors E aid grp (snd node) resume s1;
          s3 = adopt_refs E aid (reported_refs resume unacked) s2;
          s4 = bury_missing E aid resume s3;
          s5 = fail_lost aid (reported_refs resume unacked) s4;
          s6 = post E w (A (AgentRegisterOk PROTO (snd node))) req [] s5;
          s7 = fold (\<lambda>i. post E w (A (ActorKill i)) 0 []) kills s6
      in try_place E (send_held E w aid s7))"

text \<open>Before it: the protocol, the limits of the metadata, and a claimed address that belongs to
  another box. \<open>False\<close> ends the connection.\<close>

definition agent_hello ::
  "env \<Rightarrow> sock \<Rightarrow> nat \<Rightarrow> string \<Rightarrow> string \<Rightarrow> string \<Rightarrow> string \<Rightarrow> string \<Rightarrow> machine \<Rightarrow> string \<Rightarrow> nat
    \<Rightarrow> (string, service) table \<Rightarrow> resume_actor list \<Rightarrow> string list \<Rightarrow> str_map \<Rightarrow> state \<Rightarrow> bool \<times> state" where
  "agent_hello E w req peer_ip pr aid grp claimed mach ctr pid serv resume unacked meta s =
     (if \<not> major_matches pr then (False, post E w (proto_mismatch pr) req [] s)
      else
        (let node = agent_node E s peer_ip claimed
         in case misfiled_node E s (fst node) (snd node) of
              Some why \<Rightarrow>
                (False, post E w (msg_refused ''agent_refused'' (''agent '' @ aid @ '' '' @ why)) req []
                   (s\<lparr>misfiled_warned := bs_insert aid (misfiled_warned s)\<rparr>))
            | None \<Rightarrow>
                (True, agent_register E w req aid grp node mach ctr pid serv resume unacked (fst (bounded meta)) s)))"

section \<open>Messages of an agent\<close>

definition spawn_result :: "env \<Rightarrow> string \<Rightarrow> bool \<Rightarrow> string \<Rightarrow> nat \<Rightarrow> state \<Rightarrow> state" where
  "spawn_result E actor ok err pid s =
     (let s1 = (if pid = 0 then s
                else s\<lparr>actors := hm_modify actor (\<lambda>a. a\<lparr>ac_pid := Some pid\<rparr>) (actors s)\<rparr>)
      in if ok then
           (let s2 = s1\<lparr>actors := hm_modify actor (\<lambda>a. if ac_state a = Spawning then a\<lparr>ac_state := Running\<rparr> else a)
                   (actors s1)\<rparr>
            in case map_of (actors s2) actor of
                 None \<Rightarrow> s2
               | Some a \<Rightarrow> emit_patch E ''actor_running''
                   [patch_set [''groups'', ac_group a, ''actors'', actor] (actor_row a)] [] s2)
         else mark_actor_dead E actor (''spawn failed: '' @ err) s1)"

text \<open>The first resolution of a ref wins.\<close>

definition actor_result :: "string \<Rightarrow> bool \<Rightarrow> string \<Rightarrow> payload \<Rightarrow> state \<Rightarrow> state" where
  "actor_result rid ok err pl s = s\<lparr>refs := hm_modify rid (\<lambda>r.
     if rf_state r = RefPending
     then r\<lparr>rf_state := (if \<not> ok \<and> pl = [] \<and> err \<noteq> [] then RefActorDied err else RefReady ok pl)\<rparr>
     else r) (refs s)\<rparr>"

definition show_opt_int :: "int option \<Rightarrow> string" where
  "show_opt_int n = (case n of None \<Rightarrow> ''none'' | Some k \<Rightarrow> show_int k)"

definition count_exit :: "int option \<Rightarrow> int option \<Rightarrow> counters \<Rightarrow> counters" where
  "count_exit code sig c =
     (if code = Some 0 then c\<lparr>ct_actor_exits_clean := u64_add (ct_actor_exits_clean c) 1\<rparr>
      else if sig \<noteq> None then c\<lparr>ct_actor_exits_signal := u64_add (ct_actor_exits_signal c) 1\<rparr>
      else c\<lparr>ct_actor_exits_error := u64_add (ct_actor_exits_error c) 1\<rparr>)"

definition actor_exit :: "env \<Rightarrow> string \<Rightarrow> int option \<Rightarrow> int option \<Rightarrow> state \<Rightarrow> state" where
  "actor_exit E actor code sig s =
     mark_actor_dead E actor (''actor process exited (exit_code='' @ show_opt_int code @
         '' signal='' @ show_opt_int sig @ '')'')
       (s\<lparr>counters := count_exit code sig (counters s)\<rparr>)"

definition service_note :: "env \<Rightarrow> string \<Rightarrow> string \<Rightarrow> string \<Rightarrow> state \<Rightarrow> state" where
  "service_note E aid name note s =
     (case map_of (agents s) aid of
        None \<Rightarrow> s
      | Some a \<Rightarrow>
          (if \<not> hm_has (ag_services a) name then s
           else (let a' = a\<lparr>ag_services := hm_modify name (\<lambda>v. v\<lparr>s_note := note\<rparr>) (ag_services a)\<rparr>;
                     s1 = s\<lparr>agents := hm_modify aid (\<lambda>_. a') (agents s)\<rparr>
                 in emit_patch E ''service_note''
                      [patch_set [''groups'', ag_group a, ''agents'', aid] (agent_row s1 a')] name s1)))"

definition handle_agent_msg :: "env \<Rightarrow> sock \<Rightarrow> string \<Rightarrow> nat \<Rightarrow> msg \<Rightarrow> payload \<Rightarrow> state \<Rightarrow> state" where
  "handle_agent_msg E w aid req m pl s =
     (case m of
        A (ActorSpawnResult actor ok err pid) \<Rightarrow> spawn_result E actor ok err pid s
      | A (ActorResult rid ok err) \<Rightarrow> actor_result rid ok err pl s
      | A (ActorExit actor code sig) \<Rightarrow> actor_exit E actor code sig s
      | A (ServiceNote name note) \<Rightarrow> service_note E aid name note s
      | A Ping \<Rightarrow> post E w (A Pong) req [] s
      | _ \<Rightarrow> s)"

section \<open>The link lost\<close>

definition agent_lost :: "env \<Rightarrow> sock \<Rightarrow> string \<Rightarrow> state \<Rightarrow> state" where
  "agent_lost E w aid s =
     (case map_of (agents s) aid of
        None \<Rightarrow> s
      | Some a \<Rightarrow>
          (if ag_writer a \<noteq> w then s
           else (let a' = a\<lparr>ag_alive := False, ag_lost_at_ms := Some (e_now E),
                        ag_gone_since_ms := Some (e_now E), ag_degraded := False\<rparr>;
                     s1 = s\<lparr>agents := hm_modify aid (\<lambda>_. a') (agents s)\<rparr>
                 in emit_patch E ''agent_lost'' [patch_set [''groups'', ag_group a, ''agents'', aid] (agent_row s1 a')]
                      (''degrade window '' @ show_nat (agent_dead_after_ms (e_cfg E)) @ '' ms'') s1)))"

end
