(* ===== verification/AgentProc.thy ===== *)
theory AgentProc
  imports Agents
begin

text \<open>
  The agent process (\<open>rust/mentatd/src/agent.rs\<close>): the services it announces, the actor processes
  it keeps, the calls it hands to them, and what it owes the daemon across an outage.

  Several threads run in an agent: the reader of the daemon link, one thread per actor process
  that spawns it and relays its results, one that waits for its exit, and one per watched
  service. Each definition is what one of them does in one hold of a lock, or between two.
  \<open>send_daemon\<close> takes two locks with a write between them, so a message on its way through it is
  a value of its own (\<open>flight\<close>), and other threads may run while it is under way.
\<close>

section \<open>Announced services\<close>

datatype announcement = Url string | Port nat string

text \<open>\<open>find('/')\<close> and the two halves: the path keeps its slash.\<close>

definition split_slash :: "string \<Rightarrow> string \<times> string" where
  "split_slash r = (takeWhile (\<lambda>c. c \<noteq> CHR ''/'') r, dropWhile (\<lambda>c. c \<noteq> CHR ''/'') r)"

definition split_path :: "string \<Rightarrow> (nat \<times> string) option" where
  "split_path r = (case split_slash r of (p, pth) \<Rightarrow> map_option (\<lambda>n. (n, pth)) (parse_u16 p))"

definition parse_announcement :: "string \<Rightarrow> announcement" where
  "parse_announcement v =
     (case strip_prefix ''http://'' v of
        Some r \<Rightarrow>
          (case strip_prefix ''0.0.0.0:'' r of
             None \<Rightarrow> Url v
           | Some r' \<Rightarrow> (case split_path r' of Some (p, pth) \<Rightarrow> Port p pth | None \<Rightarrow> Url v))
      | None \<Rightarrow>
          (if contains_str ''://'' v then Url v
           else (case split_path v of Some (p, pth) \<Rightarrow> Port p pth | None \<Rightarrow> Url v)))"

definition no_service :: service where
  "no_service = \<lparr>s_host = [], s_port = 0, s_path = [], s_provider = [], s_note = []\<rparr>"

definition split_url :: "string \<Rightarrow> service option" where
  "split_url u =
     (case strip_prefix ''http://'' u of
        None \<Rightarrow> None
      | Some r \<Rightarrow>
          (case split_slash r of (authority, pth) \<Rightarrow>
             (case rsplit_once (CHR '':'') authority of
                None \<Rightarrow> None
              | Some (host, p) \<Rightarrow>
                  (case parse_u16 p of
                     None \<Rightarrow> None
                   | Some n \<Rightarrow> Some (no_service\<lparr>
                       s_host := (if host = ''0.0.0.0'' \<or> host = ''::'' then [] else host),
                       s_port := n, s_path := pth\<rparr>)))))"

text \<open>\<open>announced_services\<close>; \<open>Inl\<close> is the message of the exit. \<open>provider\<close> is what
  \<open>announced_provider\<close> read: a Unicode lowercase, which is outside the model.\<close>

definition announced_service :: "string \<Rightarrow> string \<Rightarrow> string + service" where
  "announced_service var v =
     (case parse_announcement v of
        Port p pth \<Rightarrow> Inr (no_service\<lparr>s_port := p, s_path := pth\<rparr>)
      | Url u \<Rightarrow> (case split_url u of
          Some s \<Rightarrow> Inr s
        | None \<Rightarrow> Inl (''mentatd: '' @ var @ '' is not an endpoint: '' @ debug_str v)))"

definition announced_services :: "string \<Rightarrow> vars \<Rightarrow> string + (string, service) table" where
  "announced_services provider var =
     fold (\<lambda>(name, key) acc. case (acc, var name) of
         (Inr out, Some v) \<Rightarrow>
           (if v = [] then Inr out
            else (case announced_service name v of
                Inl e \<Rightarrow> Inl e
              | Inr s \<Rightarrow> Inr (bt_insert key (if key = ''openai'' then s\<lparr>s_provider := provider\<rparr> else s) out)))
       | _ \<Rightarrow> acc)
     [(''MENTAT_OPENAI_API'', ''openai''), (''MENTAT_MCP_API'', ''mcp'')] (Inr [])"

definition with_notes :: "(string, service) table \<Rightarrow> str_map \<Rightarrow> (string, service) table" where
  "with_notes services notes =
     map (\<lambda>(k, v). (k, v\<lparr>s_note := (case map_of notes k of None \<Rightarrow> [] | Some n \<Rightarrow> n)\<rparr>)) services"

section \<open>Which box\<close>

definition agent_host_of :: "string \<Rightarrow> string" where
  "agent_host_of addr =
     (let a = trim addr
      in if parse_ip a \<noteq> None then a
         else (case (case strip_prefix ''['' a of None \<Rightarrow> None | Some r \<Rightarrow> split_once (CHR '']'') r) of
             Some (h, _) \<Rightarrow> h
           | None \<Rightarrow> (case rsplit_once (CHR '':'') a of Some (h, _) \<Rightarrow> h | None \<Rightarrow> a)))"

definition on_this_box :: "string \<Rightarrow> string list \<Rightarrow> bool" where
  "on_this_box addr mine \<longleftrightarrow> is_loopback (agent_host_of addr) \<or> agent_host_of addr \<in> set mine"

text \<open>\<open>route\<close> is the address the route table gives toward the daemon.\<close>

definition claimed_node_ip :: "string option \<Rightarrow> string list \<Rightarrow> string option \<Rightarrow> string \<Rightarrow> string" where
  "claimed_node_ip env mine route addr =
     (if (case env of None \<Rightarrow> False | Some v \<Rightarrow> trim v \<noteq> []) then trim (the env)
      else if on_this_box addr mine then []
      else (case route of Some ip \<Rightarrow> if is_loopback ip then [] else ip | None \<Rightarrow> []))"

section \<open>Who listens on a port\<close>

text \<open>\<open>parse_proc_addr\<close>: eight digits are a word, its bytes in reverse.\<close>

definition parse_proc_word :: "string \<Rightarrow> nat list option" where
  "parse_proc_word w = map_option rev (collect_opt (map (parse_uint 255 16) (chunks2 w)))"

definition parse_proc_addr :: "string \<Rightarrow> bool \<Rightarrow> string option" where
  "parse_proc_addr hx v6 =
     (if length hx \<noteq> (if v6 then 32 else 8) then None
      else (case collect_opt (map parse_proc_word (chunks 8 hx)) of
          None \<Rightarrow> None
        | Some ws \<Rightarrow>
            (let os = concat ws
             in Some (if v6 then show_v6 os else show_ipv4 (os ! 0) (os ! 1) (os ! 2) (os ! 3)))))"

definition listening_row :: "bool \<Rightarrow> nat \<Rightarrow> string \<Rightarrow> string option" where
  "listening_row v6 port line =
     (case words_of [] line of
        _ # local # _ # st # _ \<Rightarrow>
          (if st \<noteq> ''0A'' then None
           else (case split_once (CHR '':'') local of
               None \<Rightarrow> None
             | Some (addr, p) \<Rightarrow>
                 (if parse_uint (2 ^ 16 - 1) 16 p \<noteq> Some port then None else parse_proc_addr addr v6)))
      | _ \<Rightarrow> None)"

definition listening_addrs :: "string \<Rightarrow> bool \<Rightarrow> nat \<Rightarrow> string list" where
  "listening_addrs tab v6 port = List.map_filter (listening_row v6 port) (tl (lines_of tab))"

text \<open>Both tables, each of which may be unreadable.\<close>

definition listening_addrs_for :: "string option \<Rightarrow> string option \<Rightarrow> nat \<Rightarrow> string list" where
  "listening_addrs_for tcp tcp6 port = sort_dedup
     ((case tcp of None \<Rightarrow> [] | Some t \<Rightarrow> listening_addrs t False port) @
      (case tcp6 of None \<Rightarrow> [] | Some t \<Rightarrow> listening_addrs t True port))"

section \<open>The state of the process\<close>

record host_actor =
  ha_name :: string
  ha_owner :: string
  ha_pid :: nat
  ha_gpu_ids :: "nat list"
  ha_host :: "sock option"
  ha_pending_refs :: "string list"
  ha_queued_calls :: "queued_call list"
  ha_kill_requested :: bool

text \<open>
  Where a thread stands. \<open>sending\<close>: a call of \<open>send_daemon\<close> that is about to read the link, holds what
  it read, or failed to write and is about to buffer. \<open>phase\<close>: the thread that serves the daemon
  link, between two locks of \<open>serve_once\<close>; while it drains, it holds the lock of \<open>unsent\<close> and the
  backlog it took. \<open>spawning\<close>: the thread of one actor, which then relays its host's results.
\<close>

datatype sending = Calling | Holding "sock option" | Failed

datatype phase =
    Idle
  | Connected sock
  | Resumed sock "resume_actor list"
  | Reported sock "resume_actor list" "string list"
  | Asked sock
  | Linked sock
  | Draining sock "(msg \<times> payload) list"
  | Serving sock

datatype spawning = Starting payload | Forked nat payload | Relaying nat

datatype signal = ToGroup nat | ToProcess nat

record agent_proc =
  ap_daemon :: "sock option"
  ap_actors :: "(string, host_actor) table"
  ap_service_notes :: str_map
  ap_unsent :: "(msg \<times> payload) list"
  ap_phase :: phase
  ap_sends :: "(sending \<times> msg \<times> payload) list"
  ap_spawns :: "(string \<times> sock \<times> spawning) list"
  ap_reapers :: "(string \<times> nat) list"
  ap_sent :: "sent_frame list"
  ap_closed :: "sock list"
  ap_signals :: "signal list"

definition agent_start :: agent_proc where
  "agent_start = \<lparr>ap_daemon = None, ap_actors = [], ap_service_notes = [], ap_unsent = [], ap_phase = Idle,
     ap_sends = [], ap_spawns = [], ap_reapers = [], ap_sent = [], ap_closed = [], ap_signals = []\<rparr>"

text \<open>One frame to a socket: \<open>W w n\<close> says whether the \<open>n\<close>-th write of the process succeeds.\<close>

type_synonym writes = "sock \<Rightarrow> nat \<Rightarrow> bool"

definition frame_to :: "writes \<Rightarrow> sock \<Rightarrow> msg \<Rightarrow> nat \<Rightarrow> payload \<Rightarrow> agent_proc \<Rightarrow> bool \<times> agent_proc" where
  "frame_to W w m req pl a =
     (let ok = W w (length (ap_sent a))
      in (ok, a\<lparr>ap_sent := ap_sent a @ [\<lparr>sf_sock = w, sf_req = req, sf_msg = m, sf_payload = pl, sf_ok = ok\<rparr>]\<rparr>))"

section \<open>Messages to the daemon\<close>

definition send_daemon :: "writes \<Rightarrow> msg \<Rightarrow> payload \<Rightarrow> agent_proc \<Rightarrow> agent_proc" where
  "send_daemon W m pl a =
     (let (ok, a1) = (case ap_daemon a of None \<Rightarrow> (False, a) | Some w \<Rightarrow> frame_to W w m 0 pl a)
      in if ok then a1 else a1\<lparr>ap_unsent := ap_unsent a1 @ [(m, pl)]\<rparr>)"

text \<open>The same in its parts, with other threads in between: the call, the read of the link, the write
  without a lock, and the buffering, which waits for the lock of \<open>unsent\<close>.\<close>

definition call_send :: "msg \<Rightarrow> payload \<Rightarrow> agent_proc \<Rightarrow> agent_proc" where
  "call_send m pl a = a\<lparr>ap_sends := ap_sends a @ [(Calling, m, pl)]\<rparr>"

definition drop_nth :: "nat \<Rightarrow> 'a list \<Rightarrow> 'a list" where
  "drop_nth i xs = take i xs @ drop (Suc i) xs"

fun draining :: "phase \<Rightarrow> bool" where
  "draining (Draining w b) = True"
| "draining ph = False"

definition send_part :: "writes \<Rightarrow> nat \<Rightarrow> agent_proc \<Rightarrow> agent_proc" where
  "send_part W i a =
     (if length (ap_sends a) \<le> i then a
      else (case ap_sends a ! i of
          (Calling, m, pl) \<Rightarrow> a\<lparr>ap_sends := (ap_sends a)[i := (Holding (ap_daemon a), m, pl)]\<rparr>
        | (Holding link, m, pl) \<Rightarrow>
            (let (ok, a1) = (case link of None \<Rightarrow> (False, a) | Some w \<Rightarrow> frame_to W w m 0 pl a)
             in a1\<lparr>ap_sends := (if ok then drop_nth i (ap_sends a) else (ap_sends a)[i := (Failed, m, pl)])\<rparr>)
        | (Failed, m, pl) \<Rightarrow>
            (if draining (ap_phase a) then a
             else a\<lparr>ap_unsent := ap_unsent a @ [(m, pl)], ap_sends := drop_nth i (ap_sends a)\<rparr>)))"

section \<open>Actor processes\<close>

definition kill_actor_process :: "string \<Rightarrow> agent_proc \<Rightarrow> agent_proc" where
  "kill_actor_process i a =
     (case map_of (ap_actors a) i of
        None \<Rightarrow> a
      | Some h \<Rightarrow>
          (if ha_pid h = 0
           then a\<lparr>ap_actors := hm_modify i (\<lambda>h. h\<lparr>ha_kill_requested := True\<rparr>) (ap_actors a)\<rparr>
           else a\<lparr>ap_signals := ap_signals a @ [ToGroup (ha_pid h), ToProcess (ha_pid h)]\<rparr>))"

text \<open>\<open>ActorSpawn\<close>: the row is there before the slow work starts.\<close>

definition on_spawn :: "sock \<Rightarrow> string \<Rightarrow> string \<Rightarrow> nat list \<Rightarrow> string \<Rightarrow> payload \<Rightarrow> agent_proc \<Rightarrow> agent_proc" where
  "on_spawn w i name gpus owner pl a = a\<lparr>
     ap_actors := hm_insert i \<lparr>ha_name = name, ha_owner = owner, ha_pid = 0, ha_gpu_ids = gpus, ha_host = None,
       ha_pending_refs = [], ha_queued_calls = [], ha_kill_requested = False\<rparr> (ap_actors a),
     ap_spawns := ap_spawns a @ [(i, w, Starting pl)]\<rparr>"

text \<open>\<open>ActorDispatch\<close>: the call is pending from here on; it goes to the host, or waits for it.\<close>

definition on_dispatch :: "writes \<Rightarrow> sock \<Rightarrow> string \<Rightarrow> string \<Rightarrow> string \<Rightarrow> payload \<Rightarrow> agent_proc \<Rightarrow> agent_proc" where
  "on_dispatch W w i rid method pl a =
     (let (ok, a1) =
            (case map_of (ap_actors a) i of
               None \<Rightarrow> (False, a)
             | Some h \<Rightarrow>
                 (let a0 = a\<lparr>ap_actors := hm_modify i (\<lambda>h. h\<lparr>ha_pending_refs := List.insert rid (ha_pending_refs h)\<rparr>)
                        (ap_actors a)\<rparr>
                  in case ha_host h of
                       Some v \<Rightarrow> frame_to W v (H (HostCall rid method)) 0 pl a0
                     | None \<Rightarrow> (True, a0\<lparr>ap_actors := hm_modify i
                           (\<lambda>h. h\<lparr>ha_queued_calls := ha_queued_calls h @ [(rid, method, pl)]\<rparr>) (ap_actors a0)\<rparr>)))
      in if ok then a1
         else snd (frame_to W w (A (ActorResult rid False (''no such actor '' @ i @ '' on this agent''))) 0 [] a1))"

text \<open>
  The thread of one actor. A bind or a fork that fails ends it, with a message to the link that
  asked. A fork records the pid and honours a kill that came before it; a row that vanished leaves
  nobody to kill the child later. Then the host may fail to connect or to greet, or it connects:
  the constructor is sent, the host is published, and the calls that waited are sent in order.
\<close>

definition spawn_failed :: "writes \<Rightarrow> sock \<Rightarrow> string \<Rightarrow> string \<Rightarrow> agent_proc \<Rightarrow> agent_proc" where
  "spawn_failed W w i err a =
     snd (frame_to W w (A (ActorSpawnResult i False err 0)) 0 [] (a\<lparr>ap_actors := hm_remove i (ap_actors a)\<rparr>))"

definition forked :: "string \<Rightarrow> nat \<Rightarrow> agent_proc \<Rightarrow> agent_proc" where
  "forked i pid a =
     (case map_of (ap_actors a) i of
        None \<Rightarrow> a\<lparr>ap_signals := ap_signals a @ [ToGroup pid]\<rparr>
      | Some h \<Rightarrow>
          (let a1 = a\<lparr>ap_actors := hm_modify i (\<lambda>h. h\<lparr>ha_pid := pid\<rparr>) (ap_actors a)\<rparr>
           in if ha_kill_requested h then kill_actor_process i a1 else a1))"

definition host_call :: "writes \<Rightarrow> sock \<Rightarrow> queued_call \<Rightarrow> agent_proc \<Rightarrow> agent_proc" where
  "host_call W v q a = (case q of (rid, method, pl) \<Rightarrow>
     (let (ok, a1) = frame_to W v (H (HostCall rid method)) 0 pl a
      in if ok then a1
         else call_send (A (ActorResult rid False ''could not write the call to the actor's host socket'')) [] a1))"

definition publish :: "writes \<Rightarrow> string \<Rightarrow> sock \<Rightarrow> agent_proc \<Rightarrow> agent_proc" where
  "publish W i v a =
     (case map_of (ap_actors a) i of
        None \<Rightarrow> a
      | Some h \<Rightarrow> fold (host_call W v) (ha_queued_calls h)
          (a\<lparr>ap_actors := hm_modify i (\<lambda>h. h\<lparr>ha_host := Some v, ha_queued_calls := []\<rparr>) (ap_actors a)\<rparr>))"

text \<open>What the host says: the constructor's outcome, and results.\<close>

definition host_says :: "string \<Rightarrow> nat \<Rightarrow> msg \<Rightarrow> payload \<Rightarrow> agent_proc \<Rightarrow> agent_proc" where
  "host_says i pid m pl a =
     (case m of
        H CtorOk \<Rightarrow> call_send (A (ActorSpawnResult i True [] pid)) [] a
      | H (CtorErr err) \<Rightarrow> call_send (A (ActorSpawnResult i False (''constructor raised: '' @ err) pid)) [] a
      | H (HostResult rid ok) \<Rightarrow> call_send (A (ActorResult rid ok [])) pl
          (a\<lparr>ap_actors := hm_modify i (\<lambda>h. h\<lparr>ha_pending_refs := removeAll rid (ha_pending_refs h)\<rparr>) (ap_actors a)\<rparr>)
      | _ \<Rightarrow> a)"

datatype spawn_event =
    BindFails string
  | SpawnFails string
  | Forks nat
  | NoConnect
  | Greets sock msg
  | Says msg payload
  | Ends

definition greets :: "msg \<Rightarrow> bool" where
  "greets m \<longleftrightarrow> (case m of H (HostHello pr) \<Rightarrow> major_matches pr | _ \<Rightarrow> False)"

definition end_spawn :: "nat \<Rightarrow> agent_proc \<Rightarrow> agent_proc" where
  "end_spawn n a = a\<lparr>ap_spawns := drop_nth n (ap_spawns a)\<rparr>"

definition move_spawn :: "nat \<Rightarrow> spawning \<Rightarrow> agent_proc \<Rightarrow> agent_proc" where
  "move_spawn n sp a = a\<lparr>ap_spawns := (ap_spawns a)[n := (case ap_spawns a ! n of (i, w, _) \<Rightarrow> (i, w, sp))]\<rparr>"

definition spawn_actor :: "writes \<Rightarrow> string \<Rightarrow> string \<Rightarrow> nat \<Rightarrow> spawn_event \<Rightarrow> agent_proc \<Rightarrow> agent_proc" where
  "spawn_actor W dir python n ev a =
     (if length (ap_spawns a) \<le> n then a
      else (case ap_spawns a ! n of (i, w, sp) \<Rightarrow>
        (case (sp, ev) of
           (Starting pl, BindFails e) \<Rightarrow>
             end_spawn n (spawn_failed W w i (''bind '' @ dir @ ''/a-'' @ take 12 i @ ''.sock: '' @ e) a)
         | (Starting pl, SpawnFails e) \<Rightarrow> end_spawn n (spawn_failed W w i (''spawn '' @ python @ '': '' @ e) a)
         | (Starting pl, Forks pid) \<Rightarrow>
             (let a1 = forked i pid a
              in move_spawn n (Forked pid pl) (a1\<lparr>ap_reapers := ap_reapers a1 @ [(i, pid)]\<rparr>))
         | (Forked pid pl, NoConnect) \<Rightarrow> end_spawn n (a\<lparr>ap_signals := ap_signals a @ [ToGroup pid]\<rparr>)
         | (Forked pid pl, Greets v m) \<Rightarrow>
             (if \<not> greets m then end_spawn n a
              else (let (ok, a1) = frame_to W v (H (Ctor PROTO)) 0 pl a
                    in if ok then move_spawn n (Relaying pid) (publish W i v a1) else end_spawn n a1))
         | (Relaying pid, Says m pl) \<Rightarrow> host_says i pid m pl a
         | (Relaying pid, Ends) \<Rightarrow> end_spawn n a
         | _ \<Rightarrow> a)))"

text \<open>The thread that waits for the process: what is left of the group is swept, the row goes, and the
  exit is reported.\<close>

definition reap :: "nat \<Rightarrow> int option \<Rightarrow> int option \<Rightarrow> agent_proc \<Rightarrow> agent_proc" where
  "reap n code sig a =
     (if length (ap_reapers a) \<le> n then a
      else (case ap_reapers a ! n of (i, pid) \<Rightarrow>
        call_send (A (ActorExit i code sig)) []
          (a\<lparr>ap_signals := ap_signals a @ [ToGroup pid], ap_actors := hm_remove i (ap_actors a),
             ap_reapers := drop_nth n (ap_reapers a)\<rparr>)))"

section \<open>The daemon link\<close>

definition agent_id_of :: "string \<Rightarrow> string \<Rightarrow> string \<Rightarrow> string" where
  "agent_id_of grp ctr ip = grp @ ''@'' @ ctr @ ''@'' @ ip"

text \<open>The pause before the next attempt, in milliseconds.\<close>

definition retry_delay :: "nat \<Rightarrow> nat" where
  "retry_delay attempt = (if attempt < 5 then 1000 else 5000)"

definition resume_of :: "agent_proc \<Rightarrow> resume_actor list" where
  "resume_of a = map (\<lambda>(i, h). \<lparr>r_actor_id = i, r_name = ha_name h, r_gpu_ids = ha_gpu_ids h, r_pid = ha_pid h,
     r_owner = ha_owner h, r_pending_refs = ha_pending_refs h\<rparr>) (ap_actors a)"

definition result_ref :: "msg \<Rightarrow> string option" where
  "result_ref m = (case m of A (ActorResult rid _ _) \<Rightarrow> Some rid | _ \<Rightarrow> None)"

definition unacked_of :: "agent_proc \<Rightarrow> string list" where
  "unacked_of a = List.map_filter (\<lambda>(m, _). result_ref m) (ap_unsent a)"

text \<open>What the process is told at its start.\<close>

record agent_opts =
  ao_id :: string
  ao_group :: string
  ao_node_ip :: string
  ao_container :: string
  ao_pid :: nat
  ao_machine :: machine
  ao_services :: "(string, service) table"
  ao_meta :: str_map

definition register_msg :: "agent_opts \<Rightarrow> str_map \<Rightarrow> resume_actor list \<Rightarrow> string list \<Rightarrow> msg" where
  "register_msg ao notes resume unacked = A (AgentRegister PROTO (ao_id ao) (ao_group ao) (ao_node_ip ao)
     (ao_container ao) (ao_pid ao) (ao_machine ao) (with_notes (ao_services ao) notes) resume unacked (ao_meta ao))"

text \<open>The link is gone, or the registration failed: \<open>serve_once\<close> returns and \<open>run\<close> clears the link.\<close>

definition link_down :: "agent_proc \<Rightarrow> agent_proc" where
  "link_down a = a\<lparr>ap_phase := Idle, ap_daemon := None\<rparr>"

definition registered :: "msg \<Rightarrow> bool" where
  "registered m \<longleftrightarrow> (case m of A (AgentRegisterOk pr _) \<Rightarrow> major_matches pr | _ \<Rightarrow> False)"

text \<open>\<open>serve_once\<close> up to its read loop, one lock or one write at a time. \<open>w\<close> is the new socket and
  \<open>reply\<close> the first frame read from it.\<close>

definition serve_part :: "writes \<Rightarrow> agent_opts \<Rightarrow> sock \<Rightarrow> msg option \<Rightarrow> agent_proc \<Rightarrow> agent_proc" where
  "serve_part W ao w reply a =
     (case ap_phase a of
        Idle \<Rightarrow> a\<lparr>ap_phase := Connected w\<rparr>
      | Connected v \<Rightarrow> a\<lparr>ap_phase := Resumed v (resume_of a)\<rparr>
      | Resumed v res \<Rightarrow> a\<lparr>ap_phase := Reported v res (unacked_of a)\<rparr>
      | Reported v res una \<Rightarrow>
          (case frame_to W v (register_msg ao (ap_service_notes a) res una) 1 [] a of (ok, a1) \<Rightarrow>
             if ok then a1\<lparr>ap_phase := Asked v\<rparr> else link_down a1)
      | Asked v \<Rightarrow>
          (case reply of
             Some m \<Rightarrow> if registered m then a\<lparr>ap_daemon := Some v, ap_phase := Linked v\<rparr> else link_down a
           | None \<Rightarrow> link_down a)
      | Linked v \<Rightarrow> a\<lparr>ap_unsent := [], ap_phase := Draining v (ap_unsent a)\<rparr>
      | Draining v [] \<Rightarrow> a\<lparr>ap_phase := Serving v\<rparr>
      | Draining v ((m, pl) # rest) \<Rightarrow>
          (case frame_to W v m 0 pl a of (ok, a1) \<Rightarrow>
             if ok then a1\<lparr>ap_phase := Draining v rest\<rparr>
             else a1\<lparr>ap_unsent := ap_unsent a1 @ [(m, pl)] @ rest, ap_phase := Serving v\<rparr>)
      | Serving v \<Rightarrow> a)"

text \<open>The read loop.\<close>

definition daemon_says :: "writes \<Rightarrow> nat \<Rightarrow> msg \<Rightarrow> payload \<Rightarrow> agent_proc \<Rightarrow> agent_proc" where
  "daemon_says W req m pl a =
     (case ap_phase a of
        Serving w \<Rightarrow>
          (case m of
             A (ActorSpawn i name _ gpus owner) \<Rightarrow> on_spawn w i name gpus owner pl a
           | A (ActorKill i) \<Rightarrow> kill_actor_process i a
           | A (ActorDispatch i rid method) \<Rightarrow> on_dispatch W w i rid method pl a
           | A Ping \<Rightarrow> snd (frame_to W w (A Pong) req [] a)
           | _ \<Rightarrow> a)
      | _ \<Rightarrow> a)"

definition daemon_ends :: "agent_proc \<Rightarrow> agent_proc" where
  "daemon_ends a = (case ap_phase a of Serving _ \<Rightarrow> link_down a | _ \<Rightarrow> a)"

text \<open>The ping thread of a link: a write that fails shuts the socket down.\<close>

definition ping :: "writes \<Rightarrow> sock \<Rightarrow> agent_proc \<Rightarrow> agent_proc" where
  "ping W w a = (case frame_to W w (A Ping) 0 [] a of (ok, a1) \<Rightarrow>
     if ok then a1 else a1\<lparr>ap_closed := ap_closed a1 @ [w]\<rparr>)"

section \<open>Watching the announced ports\<close>

text \<open>One round of a watcher, which keeps whether its port ever listened and what it last reported.
  \<open>late\<close>: ten minutes have passed. \<open>None\<close> ends the thread.\<close>

definition bind_note :: "string list \<Rightarrow> string option" where
  "bind_note bound = (if ''0.0.0.0'' \<in> set bound \<or> ''::'' \<in> set bound then None
     else Some (''bound to '' @ join '','' bound @ '' only''))"

definition bt_remove :: "'k \<Rightarrow> ('k, 'v) table \<Rightarrow> ('k, 'v) table" where
  "bt_remove k m = filter (\<lambda>(k', _). k' \<noteq> k) m"

definition watch_round :: "bool \<Rightarrow> string list \<Rightarrow> string \<Rightarrow> bool \<times> string option \<Rightarrow> agent_proc
    \<Rightarrow> (bool \<times> string option) option \<times> agent_proc" where
  "watch_round late bound name st a =
     (case st of (ever, reported) \<Rightarrow>
       (if bound = [] then (if \<not> ever \<and> late then None else Some st, a)
        else if bind_note bound = reported then (Some (True, reported), a)
        else (Some (True, bind_note bound),
          call_send (A (ServiceNote name (case bind_note bound of None \<Rightarrow> [] | Some n \<Rightarrow> n))) []
            (a\<lparr>ap_service_notes := (case bind_note bound of
                 Some n \<Rightarrow> bt_insert name n (ap_service_notes a)
               | None \<Rightarrow> bt_remove name (ap_service_notes a))\<rparr>))))"

definition watched :: "(string, service) table \<Rightarrow> (string \<times> nat) list" where
  "watched services = map (\<lambda>(k, v). (k, s_port v)) (filter (\<lambda>(_, v). s_host v = []) services)"

section \<open>A send that nothing interrupts\<close>

text \<open>The parts of \<open>send_daemon\<close>, run one after the other, are \<open>send_daemon\<close>.\<close>

lemma drop_nth_appended [simp]: "drop_nth (length xs) (xs @ [x]) = xs"
  by (simp add: drop_nth_def)

lemma send_daemon_parts:
  assumes "\<not> draining (ap_phase a)"
  shows "send_part W (length (ap_sends a)) (send_part W (length (ap_sends a))
     (send_part W (length (ap_sends a)) (call_send m pl a))) = send_daemon W m pl a"
proof (cases "ap_daemon a")
  case None
  then show ?thesis using assms by (simp add: send_part_def send_daemon_def call_send_def)
next
  case (Some w)
  then show ?thesis using assms
    by (cases "W w (length (ap_sent a))") (simp_all add: send_part_def send_daemon_def call_send_def frame_to_def Let_def)
qed

end
