(* ===== verification/Testnet.thy ===== *)
theory Testnet
  imports Json
begin

text \<open>
  The pretend network of the tests (\<open>rust/mentatd/src/testnet.rs\<close>): which address is behind a
  pretend one, and which cables are up. The file it is read from is not modelled; a network is
  the JSON value in it.
\<close>

record test_net =
  n_addrs :: "(string, string) table"
  n_cut :: "(string \<times> string) list"
  n_down :: "string list"
  n_announce :: "(string, string) table"

definition str_entries :: "json \<Rightarrow> (string, string) table" where
  "str_entries v = bt_of_list (List.map_filter (\<lambda>(k, r). map_option (Pair k) (as_str r)) (entries v))"

definition testnet_parse :: "json \<Rightarrow> test_net" where
  "testnet_parse v = \<lparr>
     n_addrs = str_entries (jget v ''addrs''),
     n_cut = fold bs_insert (List.map_filter (\<lambda>p. case str_list p of [a, b] \<Rightarrow> Some (a, b) | _ \<Rightarrow> None)
       (elems (jget v ''cut''))) [],
     n_down = fold bs_insert (str_list (jget v ''down'')) [],
     n_announce = str_entries (jget v ''announce'')\<rparr>"

definition real_addr :: "test_net \<Rightarrow> string \<Rightarrow> string option" where
  "real_addr net host = map_of (n_addrs net) host"

definition reachable :: "test_net \<Rightarrow> string \<Rightarrow> string \<Rightarrow> bool" where
  "reachable net local remote \<longleftrightarrow> remote \<notin> set (n_down net) \<and> local \<notin> set (n_down net)
     \<and> (local, remote) \<notin> set (n_cut net) \<and> (remote, local) \<notin> set (n_cut net)"

definition subnet :: "string \<Rightarrow> string option" where
  "subnet a = map_option fst (rsplit_once (CHR ''.'') a)"

definition link_local :: "test_net \<Rightarrow> string list \<Rightarrow> string \<Rightarrow> string option" where
  "link_local net locals remote =
     (case List.find (\<lambda>l. subnet l = subnet remote) locals of
        Some l \<Rightarrow> Some l
      | None \<Rightarrow> (case locals of [] \<Rightarrow> None | l # _ \<Rightarrow> Some l))"

definition link_up :: "test_net \<Rightarrow> string list \<Rightarrow> string \<Rightarrow> bool" where
  "link_up net locals remote =
     (case link_local net locals remote of
        Some l \<Rightarrow> reachable net l remote
      | None \<Rightarrow> remote \<notin> set (n_down net))"

definition announce_override :: "test_net \<Rightarrow> string option \<Rightarrow> string option" where
  "announce_override net my_ip = (case my_ip of None \<Rightarrow> None | Some ip \<Rightarrow> map_of (n_announce net) ip)"

text \<open>A cable has no direction.\<close>

lemma reachable_sym: "reachable net a b \<longleftrightarrow> reachable net b a"
  by (auto simp: reachable_def)

lemma link_local_in: "link_local net locals remote = Some l \<Longrightarrow> l \<in> set locals"
  by (auto simp: link_local_def find_Some_iff split: option.splits list.splits)

end
