(* ===== verification/Mesh.thy ===== *)
theory Mesh
  imports Clients Testnet
begin

text \<open>
  The daemon mesh (\<open>rust/mentatd/src/mesh.rs\<close>): dialling, links between daemons and which of two
  links survives, what a peer pushes, staleness, the election of the head, and the probe table.
  Each definition is one hold of the state's lock. \<open>Instant\<close>s are milliseconds of a monotonic
  clock, given as an argument; sockets, name resolution and the ARP table are outside.
\<close>

section \<open>Dialling\<close>

text \<open>Whether a connector is to be started for the target.\<close>

definition dial :: "string \<Rightarrow> state \<Rightarrow> bool \<times> state" where
  "dial target s =
     (if target \<in> set (dialing s) then (False, s) else (True, s\<lparr>dialing := bs_insert target (dialing s)\<rparr>))"

definition control_of :: "json \<Rightarrow> (string \<times> nat) option" where
  "control_of q = (case (as_str (jget q ''node_ip''), as_u64 (jget q ''control_port'')) of
     (Some ip, Some port) \<Rightarrow> Some (ip, port) | _ \<Rightarrow> None)"

definition host_port :: "string \<Rightarrow> nat \<Rightarrow> string" where
  "host_port ip port = ip @ '':'' @ show_nat port"

definition peer_alive :: "state \<Rightarrow> string \<Rightarrow> bool" where
  "peer_alive s i = (case map_of (peers s) i of None \<Rightarrow> False | Some p \<Rightarrow> pe_alive p)"

definition live_peers :: "state \<Rightarrow> peer_info list" where
  "live_peers s = filter pe_alive (hm_values (peers s))"

definition discovered :: "state \<Rightarrow> string list" where
  "discovered s = concat (map (\<lambda>p. List.map_filter (\<lambda>(i, q).
     if i = node_id s \<or> peer_alive s i \<or> as_bool (jget q ''alive'') \<noteq> Some True then None
     else (case control_of q of
         None \<Rightarrow> None
       | Some (ip, port) \<Rightarrow> if ip \<noteq> [] \<and> port \<noteq> 0 then Some (host_port ip port) else None))
     (entries (jget (pe_last_status p) ''peers''))) (live_peers s))"

definition discover :: "state \<Rightarrow> state" where
  "discover s = fold (\<lambda>t s. snd (dial t s)) (discovered s) s"

text \<open>What a connector keeps between rounds, and what it does in one.\<close>

record connector =
  co_known :: "string option"
  co_uncovered :: "nat option"

datatype conn_act = Covered | StopDial | DialAll "string list"

definition covered :: "state \<Rightarrow> string \<Rightarrow> string option \<Rightarrow> bool" where
  "covered s seed known = (case known of
     Some i \<Rightarrow> peer_alive s i
   | None \<Rightarrow> (\<exists>p \<in> set (hm_values (peers s)). pe_alive p \<and> host_port (pe_node_ip p) (pe_control_port p) = seed))"

definition published_target :: "state \<Rightarrow> string \<Rightarrow> bool" where
  "published_target s seed \<longleftrightarrow> (\<exists>p \<in> set (live_peers s).
     \<exists>(i, q) \<in> set (entries (jget (pe_last_status p) ''peers'')).
       (case control_of q of None \<Rightarrow> False | Some (ip, port) \<Rightarrow> host_port ip port = seed))"

definition dial_targets :: "state \<Rightarrow> string \<Rightarrow> string option \<Rightarrow> string list" where
  "dial_targets s seed known =
     (case rsplit_once (CHR '':'') seed of
        None \<Rightarrow> [seed]
      | Some (host, port) \<Rightarrow>
          (let peer = (case known of
                 Some i \<Rightarrow> map_of (peers s) i
               | None \<Rightarrow> List.find (\<lambda>p. host_port (pe_node_ip p) (pe_control_port p) = seed \<or> host \<in> set (pe_addrs p))
                   (hm_values (peers s)))
           in case peer of
                None \<Rightarrow> [seed]
              | Some p \<Rightarrow> fold (\<lambda>a out. let t = a @ '':'' @ port in if t \<in> set out then out else out @ [t])
                  (filter (\<lambda>a. \<not> is_loopback a) (pe_addrs p)) [seed]))"

text \<open>One round at the instant \<open>t\<close>. The lock is taken once to see whether the target is covered
  and again to see whether it is published and where to dial, so the two holds may see different
  states.\<close>

definition connector_round :: "env \<Rightarrow> nat \<Rightarrow> string \<Rightarrow> bool \<Rightarrow> connector \<Rightarrow> state \<Rightarrow> state \<Rightarrow> conn_act \<times> connector" where
  "connector_round E t seed disc co s s' =
     (if covered s seed (co_known co) then (Covered, co\<lparr>co_uncovered := None\<rparr>)
      else (let since = (case co_uncovered co of None \<Rightarrow> t | Some u \<Rightarrow> u);
                co' = co\<lparr>co_uncovered := Some since\<rparr>
            in if disc \<and> history_keep_ms (e_cfg E) < t - since \<and> \<not> published_target s' seed then (StopDial, co')
               else (DialAll (dial_targets s' seed (co_known co)), co')))"

definition stop_dial :: "string \<Rightarrow> state \<Rightarrow> state" where
  "stop_dial seed s = s\<lparr>dialing := bs_remove seed (dialing s)\<rparr>"

section \<open>Hellos\<close>

record peer_ident =
  pi_node_id :: string
  pi_outbound :: bool
  pi_node_ip :: string
  pi_link_ip :: string
  pi_addrs :: "string list"
  pi_addr_tags :: "(string, string list) table"
  pi_addr_ifaces :: str_map
  pi_control_port :: nat
  pi_http_port :: nat

definition same_box :: "string list \<Rightarrow> string list \<Rightarrow> bool" where
  "same_box arriving existing \<longleftrightarrow> (\<exists>a \<in> set arriving. \<not> is_loopback a \<and> a \<in> set existing)"

definition dialer :: "string \<Rightarrow> string \<Rightarrow> bool \<Rightarrow> string" where
  "dialer mine theirs outbound = (if outbound then mine else theirs)"

definition forget_peer :: "env \<Rightarrow> string \<Rightarrow> string \<Rightarrow> state \<Rightarrow> state" where
  "forget_peer E why i s =
     emit_patch E ''peer_forgotten'' [patch_remove [''peers'', i]] why (s\<lparr>peers := hm_remove i (peers s)\<rparr>)"

definition superseded :: "peer_ident \<Rightarrow> state \<Rightarrow> string list" where
  "superseded p s = map pe_node_id (filter (\<lambda>q. \<not> pe_alive q \<and> pe_node_id q \<noteq> pi_node_id p
     \<and> same_box (pi_addrs p) (pe_addrs q)) (hm_values (peers s)))"

definition peer_row_of :: "env \<Rightarrow> peer_ident \<Rightarrow> sock \<Rightarrow> peer_info option \<Rightarrow> peer_info" where
  "peer_row_of E p w old = \<lparr>
     pe_node_id = pi_node_id p, pe_outbound = pi_outbound p, pe_node_ip = pi_node_ip p,
     pe_link_ip = pi_link_ip p, pe_addrs = pi_addrs p, pe_addr_tags = pi_addr_tags p,
     pe_addr_ifaces = pi_addr_ifaces p,
     pe_addr_macs = (case old of None \<Rightarrow> [] | Some q \<Rightarrow> pe_addr_macs q),
     pe_probe_pairs = (case old of None \<Rightarrow> [] | Some q \<Rightarrow> pe_probe_pairs q),
     pe_ambiguous_ports = [], pe_control_port = pi_control_port p, pe_http_port = pi_http_port p,
     pe_writer = w, pe_alive = True, pe_last_seen_ms = e_now E, pe_dead_since_ms = None, pe_stale = False,
     pe_last_status = (case old of None \<Rightarrow> JNull | Some q \<Rightarrow> pe_last_status q)\<rparr>"

text \<open>Whether the caller owns the link now.\<close>

definition register_peer :: "env \<Rightarrow> peer_ident \<Rightarrow> sock \<Rightarrow> state \<Rightarrow> bool \<times> state" where
  "register_peer E p w s =
     (let nid = pi_node_id p;
          held = (case map_of (peers s) nid of None \<Rightarrow> None | Some old \<Rightarrow> if pe_alive old then Some old else None)
      in if (case held of None \<Rightarrow> False
             | Some old \<Rightarrow> dialer (node_id s) nid (pe_outbound old) \<le> dialer (node_id s) nid (pi_outbound p))
         then (False, s)
         else (let s1 = (case held of None \<Rightarrow> s | Some old \<Rightarrow> shutdown (pe_writer old) s);
                   s2 = fold (forget_peer E ''superseded'') (superseded p s1) s1;
                   old = map_of (peers s2) nid;
                   row = peer_row_of E p w old;
                   s3 = s2\<lparr>peers := hm_insert nid row (peers s2)\<rparr>;
                   was = (case old of None \<Rightarrow> False | Some q \<Rightarrow> pe_alive q)
               in (True, if was then s3
                         else emit_patch E ''node_join'' [patch_set [''peers'', nid] (peer_row row)] [] s3)))"

text \<open>The answer to an arriving hello, and whether the link was taken.\<close>

definition accept_peer :: "env \<Rightarrow> sock \<Rightarrow> nat \<Rightarrow> string \<Rightarrow> peer_ident \<Rightarrow> state \<Rightarrow> bool \<times> state" where
  "accept_peer E w req pr p s =
     (if \<not> major_matches pr then (False, post E w (proto_mismatch pr) req [] s)
      else (let s1 = post E w (P (PeerHelloOk PROTO (node_id s) (node_ip s) (control_port s) (http_port s)
                  (e_local_addrs E) (e_local_tags E) (e_local_ifaces E))) req [] s
            in if pi_node_id p = node_id s then (False, s1)
               else register_peer E (p\<lparr>pi_outbound := False\<rparr>) w s1))"

definition my_hello :: "env \<Rightarrow> state \<Rightarrow> nat \<Rightarrow> nat \<Rightarrow> msg" where
  "my_hello E s cport hport = P (PeerHello PROTO (node_id s) (node_ip s) cport hport
     (e_local_addrs E) (e_local_tags E) (e_local_ifaces E))"

text \<open>The dialling side on the reply to its hello: an error, the node found to be this one, or
  the node and whether the link was taken.\<close>

definition hello_reply :: "env \<Rightarrow> sock \<Rightarrow> string \<Rightarrow> msg \<Rightarrow> state \<Rightarrow> (string + (string \<times> bool) option) \<times> state" where
  "hello_reply E w seed m s =
     (case m of
        P (PeerHelloOk pr nid ip cport hport addrs tags ifaces) \<Rightarrow>
          (if \<not> major_matches pr then (Inl (''peer proto '' @ pr @ '', this daemon '' @ PROTO), s)
           else if nid = node_id s then (Inr None, s)
           else (let link = (case rsplit_once (CHR '':'') seed of None \<Rightarrow> seed | Some (h, _) \<Rightarrow> h);
                     (took, s1) = register_peer E \<lparr>pi_node_id = nid, pi_outbound = True, pi_node_ip = ip,
                        pi_link_ip = link, pi_addrs = addrs, pi_addr_tags = tags, pi_addr_ifaces = ifaces,
                        pi_control_port = cport, pi_http_port = hport\<rparr> w s
                 in (Inr (Some (nid, took)), s1)))
      | other \<Rightarrow> (Inl (''unexpected peer hello reply: '' @ e_debug E other), s))"

section \<open>A peer's messages\<close>

definition str_map_of :: "json \<Rightarrow> str_map" where
  "str_map_of v = bt_of_list (List.map_filter (\<lambda>(k, x). map_option (Pair k) (as_str x)) (entries v))"

definition take_status :: "env \<Rightarrow> json \<Rightarrow> peer_info \<Rightarrow> peer_info" where
  "take_status E data p =
     (let addrs = str_list (jget data ''addrs'');
          obj = (\<lambda>k. as_object (jget data k) \<noteq> None)
      in p\<lparr>pe_addrs := (if addrs = [] then pe_addrs p else addrs),
           pe_addr_tags := (if obj ''addr_tags'' then tag_map (jget data ''addr_tags'') else pe_addr_tags p),
           pe_addr_ifaces := (if obj ''addr_ifaces'' then str_map_of (jget data ''addr_ifaces'') else pe_addr_ifaces p),
           pe_addr_macs := (if obj ''addr_macs'' then str_map_of (jget data ''addr_macs'') else pe_addr_macs p),
           pe_last_status := data, pe_last_seen_ms := e_now E, pe_stale := False\<rparr>)"

definition handle_peer_msg :: "env \<Rightarrow> string \<Rightarrow> msg \<Rightarrow> state \<Rightarrow> state" where
  "handle_peer_msg E peer m s =
     (case m of
        P (PeerStatus data) \<Rightarrow> s\<lparr>peers := hm_modify peer (take_status E data) (peers s)\<rparr>
      | P (PeerEvent ev) \<Rightarrow> deliver_peer_event E s
      | A Pong \<Rightarrow> s\<lparr>peers := hm_modify peer (\<lambda>p. p\<lparr>pe_last_seen_ms := e_now E\<rparr>) (peers s)\<rparr>
      | _ \<Rightarrow> s)"

definition peer_lost :: "env \<Rightarrow> sock \<Rightarrow> string \<Rightarrow> state \<Rightarrow> state" where
  "peer_lost E w peer s =
     (case map_of (peers s) peer of
        None \<Rightarrow> s
      | Some p \<Rightarrow>
          (if \<not> pe_alive p \<or> pe_writer p \<noteq> w then s
           else (let p' = p\<lparr>pe_alive := False, pe_dead_since_ms := Some (e_now E)\<rparr>
                 in emit_patch E ''node_leave'' [patch_set [''peers'', peer] (peer_row p')] ''link closed''
                      (s\<lparr>peers := hm_modify peer (\<lambda>_. p') (peers s)\<rparr>))))"

section \<open>Staleness\<close>

definition silent_ms :: "env \<Rightarrow> peer_info \<Rightarrow> nat" where
  "silent_ms E p = e_now E - pe_last_seen_ms p"

definition silent_dead :: "env \<Rightarrow> peer_info \<Rightarrow> bool" where
  "silent_dead E p \<longleftrightarrow> pe_alive p \<and> peer_dead_after_ms (e_cfg E) \<le> silent_ms E p"

definition age_peer :: "env \<Rightarrow> peer_info \<Rightarrow> peer_info" where
  "age_peer E p =
     (if silent_dead E p then p\<lparr>pe_alive := False, pe_dead_since_ms := Some (e_now E)\<rparr>
      else if pe_alive p \<and> peer_stale_after_ms (e_cfg E) \<le> silent_ms E p then p\<lparr>pe_stale := True\<rparr>
      else p)"

definition cut_links :: "test_net option \<Rightarrow> string list \<Rightarrow> state \<Rightarrow> string list" where
  "cut_links net locals s = (case net of
     None \<Rightarrow> []
   | Some n \<Rightarrow> map pe_node_id (filter (\<lambda>p. pe_alive p \<and> pe_outbound p \<and> \<not> link_up n locals (pe_link_ip p))
       (hm_values (peers s))))"

definition forgettable :: "env \<Rightarrow> peer_info \<Rightarrow> bool" where
  "forgettable E p \<longleftrightarrow> \<not> pe_alive p
     \<and> history_keep_ms (e_cfg E) < e_now E - (case pe_dead_since_ms p of None \<Rightarrow> 0 | Some t \<Rightarrow> t)"

definition sweep_peers :: "env \<Rightarrow> string list \<Rightarrow> state \<Rightarrow> state" where
  "sweep_peers E cuts s =
     (let s1 = fold (\<lambda>i s. case map_of (peers s) i of None \<Rightarrow> s | Some p \<Rightarrow> shutdown (pe_writer p) s) cuts s;
          gone = filter (silent_dead E) (hm_values (peers s1));
          s2 = fold (\<lambda>p. shutdown (pe_writer p)) gone (s1\<lparr>peers := hm_map (age_peer E) (peers s1)\<rparr>);
          s3 = fold (\<lambda>p s. case map_of (peers s) (pe_node_id p) of None \<Rightarrow> s
                 | Some q \<Rightarrow> emit_patch E ''node_leave'' [patch_set [''peers'', pe_node_id p] (peer_row q)] ''stale'' s)
                 gone s2;
          forget = map pe_node_id (filter (forgettable E) (hm_values (peers s3)))
      in fold (forget_peer E (''kept '' @ show_nat (history_keep_ms (e_cfg E)) @ '' ms'')) forget s3)"

section \<open>The election\<close>

definition node_alive :: "state \<Rightarrow> string \<Rightarrow> bool" where
  "node_alive s i \<longleftrightarrow> i = node_id s \<or> peer_alive s i"

text \<open>The heads that live peers publish and that this daemon's view has alive, and its own.\<close>

definition claimed_heads :: "state \<Rightarrow> string list" where
  "claimed_heads s =
     filter (\<lambda>h. h \<noteq> [] \<and> node_alive s h)
       (List.map_filter (\<lambda>p. as_str (jget (pe_last_status p) ''head_node_id'')) (live_peers s))
     @ (if head_node_id s \<noteq> [] \<and> node_alive s (head_node_id s) then [head_node_id s] else [])"

definition head_candidate :: "state \<Rightarrow> string" where
  "head_candidate s =
     (if claimed_heads s \<noteq> [] then Min (set (claimed_heads s))
      else Min (set (map pe_node_id (live_peers s) @ [node_id s])))"

record election =
  el_heard :: bool
  el_candidate :: "(string \<times> nat) option"

definition heard_peer :: "state \<Rightarrow> bool" where
  "heard_peer s \<longleftrightarrow> (\<exists>p \<in> set (live_peers s). pe_last_status p \<noteq> JNull)"

definition take_head :: "env \<Rightarrow> string \<Rightarrow> state \<Rightarrow> state" where
  "take_head E cand s =
     (let gen = u64_add (head_generation s) 1;
          s1 = s\<lparr>head_node_id := cand, head_generation := gen,
                 head_since_ms := (if cand = node_id s then Some (e_now E) else None)\<rparr>
      in head_moved E (emit_patch E ''head_change''
           [patch_set [''head_node_id''] (JStr cand), patch_set [''head_generation''] (jnat gen)]
           (''was '' @ head_node_id s) s1))"

text \<open>One tick of \<open>elector\<close> at the instant \<open>t\<close>, the thread having started at \<open>boot\<close>.\<close>

definition elect :: "env \<Rightarrow> nat \<Rightarrow> nat \<Rightarrow> election \<Rightarrow> state \<Rightarrow> election \<times> state" where
  "elect E boot t el s =
     (if \<not> el_heard el \<and> \<not> heard_peer s \<and> t - boot < election_boot_wait_ms (e_cfg E) then (el, s)
      else (let el1 = el\<lparr>el_heard := True\<rparr>; cand = head_candidate s
            in if cand = head_node_id s then (el1\<lparr>el_candidate := None\<rparr>, s)
               else (case el_candidate el1 of
                   Some (c, since) \<Rightarrow>
                     (if c \<noteq> cand then (el1\<lparr>el_candidate := Some (cand, t)\<rparr>, s)
                      else if election_hold_down_ms (e_cfg E) \<le> t - since
                      then (el1\<lparr>el_candidate := None\<rparr>, take_head E cand s)
                      else (el1, s))
                 | None \<Rightarrow> (el1\<lparr>el_candidate := Some (cand, t)\<rparr>, s))))"

definition push_status :: "env \<Rightarrow> state \<Rightarrow> state" where
  "push_status E s = fold (\<lambda>p. post E (pe_writer p) (P (PeerStatus (snapshot E s None))) 0 []) (live_peers s) s"

section \<open>Probes\<close>

definition fabric_ifaces :: "str_map \<Rightarrow> (string, string list) table \<Rightarrow> str_map" where
  "fabric_ifaces ifaces tags = filter (\<lambda>(addr, _).
     case map_of tags addr of None \<Rightarrow> False | Some t \<Rightarrow> ''rdma'' \<in> set t) ifaces"

definition probe_targets :: "state \<Rightarrow> (string \<times> nat \<times> string list) list" where
  "probe_targets s = map (\<lambda>p. (pe_node_id p, pe_control_port p, pe_addrs p))
     (filter (\<lambda>p. pe_alive p \<and> pe_addrs p \<noteq> []) (hm_values (peers s)))"

text \<open>What the reply to a probe says: the error, or the round trip in milliseconds.\<close>

definition probe_reply :: "env \<Rightarrow> string \<Rightarrow> nat \<Rightarrow> msg option \<Rightarrow> string + nat" where
  "probe_reply E peer ms m =
     (case m of
        None \<Rightarrow> Inl ''peer closed the connection before answering the probe''
      | Some (P (ProbeOk _ nid)) \<Rightarrow> if nid = peer then Inr ms
          else Inl (''node '' @ nid @ '' answered, expected '' @ peer)
      | Some other \<Rightarrow> Inl (''unexpected probe reply: '' @ e_debug E other))"

definition no_probe :: pair_probe where
  "no_probe = \<lparr>pp_ok = False, pp_rtt_ms = 0, pp_last_ok_ms = None, pp_error = [], pp_neighbour_mac = None,
     pp_direct = None\<rparr>"

definition probe_cell :: "env \<Rightarrow> string + nat \<Rightarrow> string option \<Rightarrow> string option \<Rightarrow> pair_probe \<Rightarrow> pair_probe" where
  "probe_cell E r mac own c =
     (let c1 = c\<lparr>pp_neighbour_mac := mac,
            pp_direct := (case (mac, own) of (Some seen, Some o1) \<Rightarrow> Some (seen = o1) | _ \<Rightarrow> None)\<rparr>
      in case r of
           Inr ms \<Rightarrow> c1\<lparr>pp_ok := True, pp_rtt_ms := ms, pp_last_ok_ms := Some (e_now E), pp_error := []\<rparr>
         | Inl e \<Rightarrow> c1\<lparr>pp_ok := False, pp_error := e\<rparr>)"

definition store_probe :: "env \<Rightarrow> string \<Rightarrow> string \<Rightarrow> string + nat \<Rightarrow> string option \<Rightarrow> peer_info \<Rightarrow> peer_info" where
  "store_probe E local remote r mac p =
     (let row = (case map_of (pe_probe_pairs p) local of None \<Rightarrow> [] | Some t \<Rightarrow> t);
          c = (case map_of row remote of None \<Rightarrow> no_probe | Some c \<Rightarrow> c)
      in p\<lparr>pe_probe_pairs := bt_insert local
             (bt_insert remote (probe_cell E r mac (map_of (pe_addr_macs p) remote) c) row) (pe_probe_pairs p)\<rparr>)"

definition probe_done :: "env \<Rightarrow> string \<Rightarrow> string \<Rightarrow> string \<Rightarrow> string + nat \<Rightarrow> string option \<Rightarrow> state \<Rightarrow> state" where
  "probe_done E peer local remote r mac s =
     s\<lparr>peers := hm_modify peer (store_probe E local remote r mac) (peers s)\<rparr>"

definition prune_pairs :: "string list \<Rightarrow> string list \<Rightarrow> probe_table \<Rightarrow> probe_table" where
  "prune_pairs locals remotes tab =
     hm_map (hm_retain (\<lambda>remote _. remote \<in> set remotes)) (hm_retain (\<lambda>local _. local \<in> set locals) tab)"

definition ambiguous_ports :: "probe_table \<Rightarrow> str_map \<Rightarrow> str_map \<Rightarrow> (string, string list) table" where
  "ambiguous_ports tab bind_ifaces peer_ifaces = bt_of_list (List.map_filter (\<lambda>(local, row).
     let ok = filter (\<lambda>(_, c). pp_ok c) row;
         reached = map fst ok;
         ifaces = remdups (map (\<lambda>r. case map_of peer_ifaces r of Some i \<Rightarrow> i | None \<Rightarrow> r) reached)
     in if \<not> hm_has bind_ifaces local \<or> (\<forall>(_, c) \<in> set ok. pp_direct c = Some True) then None
        else if 1 < length ifaces then Some (local, reached) else None) tab)"

definition probe_end :: "string \<Rightarrow> string list \<Rightarrow> string list \<Rightarrow> str_map \<Rightarrow> state \<Rightarrow> state" where
  "probe_end peer locals remotes bind_ifaces s = s\<lparr>peers := hm_modify peer (\<lambda>p.
     let tab = prune_pairs locals remotes (pe_probe_pairs p)
     in p\<lparr>pe_probe_pairs := tab,
          pe_ambiguous_ports := map fst (ambiguous_ports tab bind_ifaces (pe_addr_ifaces p))\<rparr>) (peers s)\<rparr>"

text \<open>The device's entry of the ARP table: the lines after the first, split at white space.\<close>

definition arp_line :: "string \<Rightarrow> string \<Rightarrow> string \<Rightarrow> string option" where
  "arp_line ip dev line =
     (let f = words_of [] line
      in if 6 \<le> length f \<and> f ! 0 = ip \<and> f ! 5 = dev \<and> f ! 2 \<noteq> ''0x0''
         then Some (to_ascii_lowercase (f ! 3)) else None)"

definition arp_entry :: "string \<Rightarrow> string \<Rightarrow> string \<Rightarrow> string option" where
  "arp_entry tab ip dev = (case List.map_filter (arp_line ip dev) (tl (split_on (CHR 0x0A) tab)) of
     [] \<Rightarrow> None | m # _ \<Rightarrow> Some m)"

end
