(* ===== verification/IslandRun.thy ===== *)
theory IslandRun
  imports Mesh
begin

text \<open>
  The loop that keeps the islands (\<open>rust/mentatd/src/island.rs\<close>, \<open>gather\<close> and \<open>run\<close>): the view
  read from the daemon's own tags, its peers and what they publish, and the commit of a
  partition that held still for the hold-down. The lines it logs are not modelled.
\<close>

definition own_pairs :: "probe_table \<Rightarrow> (string \<times> string) list" where
  "own_pairs tab = concat (map (\<lambda>(local, row). map (\<lambda>(remote, _). (local, remote)) (filter (\<lambda>(_, c). pp_ok c) row)) tab)"

definition gather_peer :: "peer_info \<Rightarrow> fabric_view \<Rightarrow> fabric_view" where
  "gather_peer p v =
     merge_published (jget (pe_last_status p) ''peers'')
       (fold (\<lambda>(a, b). add_pair a b) (own_pairs (pe_probe_pairs p))
         (note_node (pe_node_id p) (pe_addrs p) (pe_addr_tags p) v))"

definition gather :: "env \<Rightarrow> state \<Rightarrow> fabric_view" where
  "gather E s = fold gather_peer (live_peers s)
     (note_node (node_id s) (e_local_addrs E) (e_local_tags E) \<lparr>v_rdma = [], v_ok_pairs = []\<rparr>)"

type_synonym island_candidate = "(fabrics \<times> nat) option"

definition commit_fabrics :: "env \<Rightarrow> fabrics \<Rightarrow> state \<Rightarrow> state" where
  "commit_fabrics E fabs s = try_place E (emit_patch E ''islands_changed''
     [patch_set [''islands''] (JArr (map island_json (fb_islands fabs)))]
     (show_nat (length (fb_tagged fabs)) @ '' tagged nodes'') (s\<lparr>fabrics := fabs\<rparr>))"

text \<open>One tick at the instant \<open>t\<close>. The view was gathered in an earlier hold, from the state \<open>s0\<close>;
  this thread alone writes the partition, so the comparison and the commit see the same one.\<close>

definition island_tick :: "env \<Rightarrow> nat \<Rightarrow> state \<Rightarrow> island_candidate \<Rightarrow> state \<Rightarrow> island_candidate \<times> state" where
  "island_tick E t s0 cand s =
     (let fabs = fst (fabrics_of (gather E s0))
      in if fabrics s = fabs then (None, s)
         else (case cand of
             Some (c, since) \<Rightarrow>
               (if c \<noteq> fabs then (Some (fabs, t), s)
                else if t - since < island_hold_down_ms (e_cfg E) then (cand, s)
                else (None, commit_fabrics E fabs s))
           | None \<Rightarrow> (Some (fabs, t), s)))"

end
