(* ===== verification/MeshProps.thy ===== *)
theory MeshProps
  imports Mesh
begin

text \<open>
  Properties of the mesh: the surviving link is the same at both ends, the head a daemon would
  follow is alive and the same in every agreeing view, a live head is left only for a lower one,
  and a peer heard from is not declared gone.
\<close>

section \<open>Peer rows\<close>

text \<open>The peer table is keyed by node id.\<close>

definition peers_wf :: "state \<Rightarrow> bool" where
  "peers_wf s \<longleftrightarrow> hm_wf (peers s) \<and> (\<forall>(k, p) \<in> set (peers s). pe_node_id p = k)"

lemma peers_wf_lookup:
  "peers_wf s \<Longrightarrow> p \<in> set (hm_values (peers s)) \<longleftrightarrow> map_of (peers s) (pe_node_id p) = Some p"
  by (auto simp: peers_wf_def hm_wf_def set_hm_values)

lemma peers_wf_cong: "peers s = peers t \<Longrightarrow> peers_wf s = peers_wf t"
  by (simp add: peers_wf_def)

lemma live_peers_alive: "peers_wf s \<Longrightarrow> p \<in> set (live_peers s) \<Longrightarrow> peer_alive s (pe_node_id p)"
  by (auto simp: live_peers_def peer_alive_def peers_wf_lookup)

lemma peer_alive_live: "peer_alive s i \<Longrightarrow> peers_wf s \<Longrightarrow> \<exists>p \<in> set (live_peers s). pe_node_id p = i"
  by (force simp: peer_alive_def live_peers_def peers_wf_def set_hm_values split: option.splits dest: map_of_SomeD)

lemma forget_peer_peers [simp]: "peers (forget_peer E why i s) = hm_remove i (peers s)"
  by (simp add: forget_peer_def)

lemma forget_peer_node_id [simp]: "node_id (forget_peer E why i s) = node_id s"
  by (simp add: forget_peer_def)

lemma fold_forget_peers:
  "peers (fold (forget_peer E why) ids s) = fold hm_remove ids (peers s)"
  "node_id (fold (forget_peer E why) ids s) = node_id s"
  by (induction ids arbitrary: s) simp_all

lemma map_of_fold_hm_remove: "map_of (fold hm_remove ids m) k = (if k \<in> set ids then None else map_of m k)"
  by (induction ids arbitrary: m) (auto simp: map_of_hm_remove)

lemma hm_wf_fold_remove: "hm_wf m \<Longrightarrow> hm_wf (fold hm_remove ids m)"
  by (induction ids arbitrary: m) (simp_all add: hm_wf_remove)

section \<open>Two links to one node\<close>

lemma register_peer_refused:
  assumes "map_of (peers s) (pi_node_id p) = Some old" "pe_alive old"
    and "dialer (node_id s) (pi_node_id p) (pe_outbound old) \<le> dialer (node_id s) (pi_node_id p) (pi_outbound p)"
  shows "register_peer E p w s = (False, s)"
  using assms by (simp add: register_peer_def Let_def)

lemma register_peer_taken:
  assumes "\<not> (\<exists>old. map_of (peers s) (pi_node_id p) = Some old \<and> pe_alive old
      \<and> dialer (node_id s) (pi_node_id p) (pe_outbound old) \<le> dialer (node_id s) (pi_node_id p) (pi_outbound p))"
  shows "fst (register_peer E p w s)
    \<and> map_of (peers (snd (register_peer E p w s))) (pi_node_id p) =
        Some (peer_row_of E p w (map_of (peers s) (pi_node_id p)))
    \<and> node_id (snd (register_peer E p w s)) = node_id s"
proof -
  let ?n = "pi_node_id p"
  have notin: "?n \<notin> set (superseded p t)" for t by (auto simp: superseded_def)
  show ?thesis
    using assms notin
    by (auto simp: register_peer_def Let_def fold_forget_peers map_of_fold_hm_remove map_of_hm_insert
        split: option.splits)
qed

lemma peer_row_of_sel [simp]:
  "pe_alive (peer_row_of E p w old)" "pe_outbound (peer_row_of E p w old) = pi_outbound p"
  "pe_writer (peer_row_of E p w old) = w" "pe_node_id (peer_row_of E p w old) = pi_node_id p"
  by (simp_all add: peer_row_of_def)

lemma link_kept:
  assumes "node_id s \<noteq> nid" "\<not> peer_alive s nid" "pi_node_id p = nid" "pi_node_id q = nid"
    and "pi_outbound p \<noteq> pi_outbound q"
  shows "\<exists>r. map_of (peers (snd (register_peer E2 q v (snd (register_peer E1 p w s))))) nid = Some r
    \<and> pe_alive r \<and> pe_outbound r = (node_id s < nid)
    \<and> pe_writer r = (if pi_outbound p = (node_id s < nid) then w else v)"
proof -
  let ?s1 = "snd (register_peer E1 p w s)" and ?row = "peer_row_of E1 p w (map_of (peers s) nid)"
  have one: "map_of (peers ?s1) nid = Some ?row" "node_id ?s1 = node_id s"
    using register_peer_taken [of s p E1 w] assms(2,3) by (auto simp: peer_alive_def split: option.splits)
  show ?thesis
  proof (cases "pi_outbound p = (node_id s < nid)")
    case True
    with one assms have "register_peer E2 q v ?s1 = (False, ?s1)"
      by (intro register_peer_refused [of _ _ ?row]) (auto simp: dialer_def)
    with one True show ?thesis by simp
  next
    case False
    with one assms(1,3-5) have "map_of (peers (snd (register_peer E2 q v ?s1))) nid =
        Some (peer_row_of E2 q v (Some ?row))"
      using register_peer_taken [of ?s1 q E2 v] by (force simp: dialer_def)
    with False assms(5) show ?thesis by auto
  qed
qed

text \<open>C7: when two daemons dial each other at once, both ends keep the same link. Whichever of the
  two links each end records first, the link that stays at both ends is the one dialled by the
  daemon with the lower node id: the ends agree on who dialled it, and each keeps the socket of
  that link.\<close>

theorem both_ends_keep_one_link:
  assumes "node_id sa = a" "node_id sb = b" "a \<noteq> b" "\<not> peer_alive sa b" "\<not> peer_alive sb a"
    and "pi_node_id p = b" "pi_node_id p' = b" "pi_outbound p \<noteq> pi_outbound p'"
    and "pi_node_id q = a" "pi_node_id q' = a" "pi_outbound q \<noteq> pi_outbound q'"
  shows "\<exists>ra rb.
      map_of (peers (snd (register_peer E2 p' w' (snd (register_peer E1 p w sa))))) b = Some ra
    \<and> map_of (peers (snd (register_peer E4 q' v' (snd (register_peer E3 q v sb))))) a = Some rb
    \<and> pe_alive ra \<and> pe_alive rb \<and> pe_outbound ra = (a < b) \<and> pe_outbound rb = (b < a)
    \<and> dialer a b (pe_outbound ra) = dialer b a (pe_outbound rb)
    \<and> pe_writer ra = (if pi_outbound p = (a < b) then w else w')
    \<and> pe_writer rb = (if pi_outbound q = (b < a) then v else v')"
proof -
  from link_kept [of sa b p p' E2 w' E1 w] assms obtain ra where
    ra: "map_of (peers (snd (register_peer E2 p' w' (snd (register_peer E1 p w sa))))) b = Some ra"
      "pe_alive ra" "pe_outbound ra = (a < b)" "pe_writer ra = (if pi_outbound p = (a < b) then w else w')" by auto
  from link_kept [of sb a q q' E4 v' E3 v] assms obtain rb where
    rb: "map_of (peers (snd (register_peer E4 q' v' (snd (register_peer E3 q v sb))))) a = Some rb"
      "pe_alive rb" "pe_outbound rb = (b < a)" "pe_writer rb = (if pi_outbound q = (b < a) then v else v')" by auto
  have "a < b \<longleftrightarrow> \<not> b < a" using assms(3) by auto
  then have "dialer a b (pe_outbound ra) = dialer b a (pe_outbound rb)" using ra rb by (auto simp: dialer_def)
  with ra rb show ?thesis by blast
qed

section \<open>The head\<close>

lemma claimed_heads_alive: "h \<in> set (claimed_heads s) \<Longrightarrow> h \<noteq> [] \<and> node_alive s h"
  by (auto simp: claimed_heads_def)

lemma head_candidate_in:
  "claimed_heads s \<noteq> [] \<Longrightarrow> head_candidate s \<in> set (claimed_heads s)"
  "claimed_heads s = [] \<Longrightarrow> head_candidate s \<in> insert (node_id s) (pe_node_id ` set (live_peers s))"
proof -
  show "head_candidate s \<in> set (claimed_heads s)" if "claimed_heads s \<noteq> []"
    using that Min_in [of "set (claimed_heads s)"] by (simp add: head_candidate_def)
  show "head_candidate s \<in> insert (node_id s) (pe_node_id ` set (live_peers s))" if "claimed_heads s = []"
    using that Min_in [of "set (map pe_node_id (live_peers s) @ [node_id s])"] by (simp add: head_candidate_def)
qed

text \<open>A daemon follows only a head it has alive: itself, or a peer with a live link.\<close>

theorem head_candidate_alive:
  assumes "peers_wf s"
  shows "node_alive s (head_candidate s)"
proof (cases "claimed_heads s = []")
  case True
  then show ?thesis
    using head_candidate_in(2) [OF True] live_peers_alive [OF assms] by (auto simp: node_alive_def)
qed (use head_candidate_in(1) claimed_heads_alive in blast)

text \<open>A settled head stays head while it is alive, except for a lower one. The head a daemon
  would move to is never above a head it has and that is alive.\<close>

theorem live_head_left_only_for_lower:
  assumes "head_node_id s \<noteq> []" "node_alive s (head_node_id s)"
  shows "head_candidate s \<le> head_node_id s"
proof -
  have "head_node_id s \<in> set (claimed_heads s)" using assms by (simp add: claimed_heads_def)
  then show ?thesis by (auto simp: head_candidate_def)
qed

text \<open>A mesh of daemons whose views agree: each has a live link to each other one, and has heard
  the head each other one follows.\<close>

definition published_head :: "peer_info \<Rightarrow> string option" where
  "published_head p = as_str (jget (pe_last_status p) ''head_node_id'')"

definition agreeing :: "(string \<Rightarrow> state) \<Rightarrow> string set \<Rightarrow> bool" where
  "agreeing S ids \<longleftrightarrow> (\<forall>i \<in> ids. node_id (S i) = i \<and> peers_wf (S i)
     \<and> (\<forall>j. peer_alive (S i) j \<longleftrightarrow> j \<in> ids \<and> j \<noteq> i)
     \<and> (\<forall>p \<in> set (live_peers (S i)). published_head p = Some (head_node_id (S (pe_node_id p)))))"

lemma agreeing_live:
  assumes "agreeing S ids" "i \<in> ids"
  shows "pe_node_id ` set (live_peers (S i)) = ids - {i}"
    "p \<in> set (live_peers (S i)) \<Longrightarrow> published_head p = Some (head_node_id (S (pe_node_id p)))"
    "node_alive (S i) h \<longleftrightarrow> h \<in> ids"
proof -
  from assms have a: "node_id (S i) = i" "peers_wf (S i)" "\<And>j. peer_alive (S i) j \<longleftrightarrow> j \<in> ids \<and> j \<noteq> i"
    by (auto simp: agreeing_def)
  show "pe_node_id ` set (live_peers (S i)) = ids - {i}"
    using live_peers_alive [OF a(2)] peer_alive_live [OF _ a(2)] a(3) by (auto simp: image_iff)
  show "published_head p = Some (head_node_id (S (pe_node_id p)))" if "p \<in> set (live_peers (S i))"
    using assms that by (auto simp: agreeing_def)
  show "node_alive (S i) h \<longleftrightarrow> h \<in> ids" using a assms(2) by (auto simp: node_alive_def)
qed

lemma agreeing_claimed:
  assumes "agreeing S ids" "i \<in> ids"
  shows "set (claimed_heads (S i)) = {h \<in> ids. h \<noteq> [] \<and> (\<exists>j \<in> ids. head_node_id (S j) = h)}"
proof -
  note live = agreeing_live [OF assms]
  have "set (List.map_filter published_head (live_peers (S i))) = (\<lambda>j. head_node_id (S j)) ` (ids - {i})"
  proof -
    have "set (List.map_filter published_head (live_peers (S i))) =
        (\<lambda>p. head_node_id (S (pe_node_id p))) ` set (live_peers (S i))"
      using live(2) by (force simp: map_filter_def)
    also have "\<dots> = (\<lambda>j. head_node_id (S j)) ` (ids - {i})" unfolding live(1) [symmetric] by auto
    finally show ?thesis .
  qed
  then show ?thesis
    using live(3) assms(2) unfolding claimed_heads_def published_head_def [symmetric] by auto
qed

text \<open>C8: daemons whose views agree follow the same head. In a mesh where each daemon has a live
  link to every other and has heard the head each of them follows, the election rule gives every
  daemon the same candidate: the lowest head that any of them follows and that is one of them,
  and the lowest daemon when there is none.\<close>

theorem agreeing_views_elect_one_head:
  assumes "agreeing S ids" "i \<in> ids" "j \<in> ids"
  shows "head_candidate (S i) = head_candidate (S j) \<and> head_candidate (S i) \<in> ids"
proof -
  have same: "set (claimed_heads (S i)) = set (claimed_heads (S j))"
    using agreeing_claimed [OF assms(1)] assms(2,3) by simp
  then have nil: "claimed_heads (S i) = [] \<longleftrightarrow> claimed_heads (S j) = []" by (metis set_empty)
  have all: "set (map pe_node_id (live_peers (S k)) @ [node_id (S k)]) = ids" if "k \<in> ids" for k
  proof -
    have "node_id (S k) = k" using assms(1) that by (auto simp: agreeing_def)
    with agreeing_live(1) [OF assms(1) that] that show ?thesis by auto
  qed
  have "head_candidate (S i) = head_candidate (S j)"
    unfolding head_candidate_def all [OF assms(2)] all [OF assms(3)] same using nil by simp
  moreover have "head_candidate (S i) \<in> ids"
    using head_candidate_in [of "S i"] agreeing_claimed [OF assms(1,2)] agreeing_live(1) [OF assms(1,2)]
      assms(1,2) by (cases "claimed_heads (S i) = []") (auto simp: agreeing_def)
  ultimately show ?thesis by blast
qed

section \<open>Ticks of the election\<close>

lemma take_head_head: "head_node_id (head_moved E s) = head_node_id s" "node_id (head_moved E s) = node_id s"
proof -
  have shut: "head_node_id (fold (\<lambda>x. shutdown (f x)) xs t) = head_node_id t \<and> node_id (fold (\<lambda>x. shutdown (f x)) xs t) = node_id t"
    for f :: "'a \<Rightarrow> nat" and xs t by (induction xs arbitrary: t) simp_all
  have shut2: "head_node_id (fold (\<lambda>(_, w). shutdown w) xs t) = head_node_id t \<and> node_id (fold (\<lambda>(_, w). shutdown w) xs t) = node_id t"
    for xs :: "(string \<times> sock) list" and t by (induction xs arbitrary: t) auto
  show "head_node_id (head_moved E s) = head_node_id s" "node_id (head_moved E s) = node_id s"
    by (simp_all add: head_moved_def Let_def shut shut2)
qed

text \<open>The head changes only after the hold-down. A tick that changes the head does so to a
  candidate that an earlier tick had recorded and that has stood since, for at least the
  hold-down; and a daemon that expects peers and has heard none elects nobody before the boot
  wait is over.\<close>

theorem head_changes_after_hold_down:
  assumes "elect E boot t el s = (el', s')" "head_node_id s' \<noteq> head_node_id s"
  shows "\<exists>since. el_candidate el = Some (head_node_id s', since) \<and> head_node_id s' = head_candidate s
    \<and> election_hold_down_ms (e_cfg E) \<le> t - since
    \<and> (el_heard el \<or> heard_peer s \<or> election_boot_wait_ms (e_cfg E) \<le> t - boot)"
proof -
  have head: "head_node_id (take_head E c s) = c" for c
    by (simp add: take_head_def Let_def take_head_head)
  show ?thesis
    using assms by (auto simp: elect_def Let_def head split: if_splits option.splits)
qed

section \<open>Staleness\<close>

lemma fold_shutdown_peers [simp]: "peers (fold (\<lambda>x. shutdown (f x)) xs s) = peers s"
  by (induction xs arbitrary: s) simp_all

lemma sweep_peers_rows:
  "\<exists>ids. peers (sweep_peers E cuts s) = fold hm_remove ids (hm_map (age_peer E) (peers s))
    \<and> (\<forall>i \<in> set ids. \<exists>p \<in> set (hm_values (hm_map (age_peer E) (peers s))). pe_node_id p = i \<and> forgettable E p)"
proof -
  have a: "peers (fold (\<lambda>i s. case map_of (peers s) i of None \<Rightarrow> s | Some p \<Rightarrow> shutdown (pe_writer p) s) xs t) = peers t"
    for xs t by (induction xs arbitrary: t) (auto split: option.splits)
  have b: "peers (fold (\<lambda>p s. case map_of (peers s) (pe_node_id p) of None \<Rightarrow> s
      | Some q \<Rightarrow> emit_patch E k (f p q) why s) xs t) = peers t" for k f why xs t
    by (induction xs arbitrary: t) (auto split: option.splits)
  show ?thesis
    by (force simp: sweep_peers_def Let_def fold_forget_peers a b)
qed

text \<open>A peer that was heard from within the limit keeps its row and stays alive through a
  sweep, and one that was silent for the limit does not stay alive.\<close>

theorem sweep_keeps_heard_peers:
  assumes "peers_wf s" "map_of (peers s) i = Some p" "pe_alive p"
  shows "(silent_ms E p < peer_dead_after_ms (e_cfg E) \<longrightarrow>
      (\<exists>q. map_of (peers (sweep_peers E cuts s)) i = Some q \<and> pe_alive q \<and> pe_last_status q = pe_last_status p))
    \<and> (peer_dead_after_ms (e_cfg E) \<le> silent_ms E p \<longrightarrow> \<not> peer_alive (sweep_peers E cuts s) i)"
proof -
  obtain ids where ids: "peers (sweep_peers E cuts s) = fold hm_remove ids (hm_map (age_peer E) (peers s))"
    "\<And>j. j \<in> set ids \<Longrightarrow> \<exists>q \<in> set (hm_values (hm_map (age_peer E) (peers s))). pe_node_id q = j \<and> forgettable E q"
    using sweep_peers_rows [of E cuts s] by blast
  have row: "map_of (hm_map (age_peer E) (peers s)) i = Some (age_peer E p)"
    using assms(2) by (simp add: map_of_hm_map)
  have "i \<notin> set ids" if "silent_ms E p < peer_dead_after_ms (e_cfg E)"
  proof
    assume "i \<in> set ids"
    from ids(2) [OF this] obtain k q where q: "(k, q) \<in> set (hm_map (age_peer E) (peers s))" "pe_node_id q = i" "\<not> pe_alive q"
      by (auto simp: set_hm_values forgettable_def)
    from q(1) obtain q0 where q0: "(k, q0) \<in> set (peers s)" "q = age_peer E q0" by (auto simp: hm_map_def)
    then have "pe_node_id q0 = i" using q(2) by (auto simp: age_peer_def split: if_splits)
    moreover have "q0 \<in> set (hm_values (peers s))" using q0(1) by (auto simp: set_hm_values)
    ultimately have "q0 = p" using peers_wf_lookup [OF assms(1)] assms(2) by auto
    with q(3) q0 that assms(3) show False by (auto simp: age_peer_def silent_dead_def split: if_splits)
  qed
  then show ?thesis
    using ids(1) row assms(3)
    by (auto simp: map_of_fold_hm_remove peer_alive_def age_peer_def silent_dead_def split: if_splits)
qed

end
