(* ===== verification/DaemonInv.thy ===== *)
theory DaemonInv
  imports Agents IslandRun MeshProps "HOL-Library.Sublist"
begin

text \<open>
  The invariant of a daemon's tables and that every operation of the daemon keeps it. The theory
  goes through the operations in the order of \<open>Daemon\<close>, \<open>Clients\<close>, \<open>Agents\<close> and \<open>Mesh\<close>; the step
  relation that puts them together is in \<open>Steps\<close>.
\<close>

section \<open>The invariant\<close>

text \<open>A claim stays only while somebody holds it.\<close>

definition claims_held :: "state \<Rightarrow> bool" where
  "claims_held s \<longleftrightarrow> bt_wf (claims s) \<and> (\<forall>(k, c) \<in> set (claims s). cm_holders c \<noteq> [])"

text \<open>Every actor is on an agent the daemon has a row for.\<close>

definition hosted :: "state \<Rightarrow> bool" where
  "hosted s \<longleftrightarrow> (\<forall>(k, a) \<in> set (actors s). hm_has (agents s) (ac_agent a))"

text \<open>Every call that waits is a call of an actor that is not dead.\<close>

definition live_actor :: "state \<Rightarrow> string \<Rightarrow> bool" where
  "live_actor s i = (case map_of (actors s) i of None \<Rightarrow> False | Some a \<Rightarrow> \<not> is_dead (ac_state a))"

definition calls_live :: "state \<Rightarrow> bool" where
  "calls_live s \<longleftrightarrow> hm_wf (refs s) \<and> (\<forall>(k, r) \<in> set (refs s). rf_state r = RefPending \<longrightarrow>
     (\<exists>i. rf_actor r = Some i \<and> live_actor s i))"

definition daemon_inv :: "state \<Rightarrow> bool" where
  "daemon_inv s \<longleftrightarrow> place_inv s \<and> keyed ac_id (actors s) \<and> keyed cl_id (clients s) \<and> claims_held s
     \<and> hosted s \<and> calls_live s \<and> peers_wf s"

abbreviation tables :: "state \<Rightarrow> _" where
  "tables s \<equiv> (agents s, actors s, pgs s, refs s, clients s, claims s, peers s)"

lemma daemon_invD:
  assumes "daemon_inv s"
  shows "place_inv s" "keyed ac_id (actors s)" "keyed cl_id (clients s)" "claims_held s" "hosted s"
    "calls_live s" "peers_wf s" "hm_wf (actors s)" "hm_wf (refs s)" "hm_wf (pgs s)" "hm_wf (agents s)"
    "hm_wf (clients s)" "hm_wf (claims s)" "hm_wf (peers s)"
  using assms by (simp_all add: daemon_inv_def keyed_def calls_live_def place_inv_def pgs_wf_def agents_wf_def
      claims_held_def peers_wf_def hm_wf_def bt_wf_distinct)

lemma hosted_iff: "hosted s \<longleftrightarrow> (\<forall>k a. (k, a) \<in> set (actors s) \<longrightarrow> hm_has (agents s) (ac_agent a))"
  by (auto simp: hosted_def)

lemma calls_live_iff: "calls_live s \<longleftrightarrow> hm_wf (refs s)
    \<and> (\<forall>k r. (k, r) \<in> set (refs s) \<longrightarrow> rf_state r = RefPending \<longrightarrow> (\<exists>i. rf_actor r = Some i \<and> live_actor s i))"
  by (auto simp: calls_live_def)

lemma calls_liveD:
  "calls_live s \<Longrightarrow> (k, r) \<in> set (refs s) \<Longrightarrow> rf_state r = RefPending \<Longrightarrow> \<exists>i. rf_actor r = Some i \<and> live_actor s i"
  by (auto simp: calls_live_def)

lemma place_inv_cong: "agents s = agents t \<Longrightarrow> pgs s = pgs t \<Longrightarrow> place_inv s = place_inv t"
  by (simp add: place_inv_def agents_wf_def gpus_wf_def pgs_wf_def exclusive_def reserved_def live_pgs_def)

lemma hosted_cong: "agents s = agents t \<Longrightarrow> actors s = actors t \<Longrightarrow> hosted s = hosted t"
  by (simp add: hosted_def)

lemma calls_live_cong: "actors s = actors t \<Longrightarrow> refs s = refs t \<Longrightarrow> calls_live s = calls_live t"
  by (simp add: calls_live_def live_actor_def)

lemma claims_held_cong: "claims s = claims t \<Longrightarrow> claims_held s = claims_held t"
  by (simp add: claims_held_def)

lemma daemon_inv_cong: "tables s = tables t \<Longrightarrow> daemon_inv s = daemon_inv t"
  using place_inv_cong [of s t] hosted_cong [of s t] calls_live_cong [of s t] claims_held_cong [of s t] peers_wf_cong [of s t]
  by (simp add: daemon_inv_def)

text \<open>What is left to show when some tables change.\<close>

lemma inv_by_actors:
  assumes "daemon_inv s" "agents t = agents s" "pgs t = pgs s" "clients t = clients s" "claims t = claims s" "peers t = peers s"
    and "keyed ac_id (actors t)" "hosted t" "calls_live t"
  shows "daemon_inv t"
  using assms place_inv_cong [of t s] claims_held_cong [of t s] peers_wf_cong [of t s] by (simp add: daemon_inv_def)

lemma inv_by_refs:
  assumes "daemon_inv s" "agents t = agents s" "pgs t = pgs s" "clients t = clients s" "claims t = claims s" "peers t = peers s"
    and "actors t = actors s" "calls_live t"
  shows "daemon_inv t"
  using assms hosted_cong [of t s] by (intro inv_by_actors [OF assms(1-6)]) (simp_all add: daemon_inv_def)

lemma inv_by_place:
  assumes "daemon_inv s" "actors t = actors s" "refs t = refs s" "clients t = clients s" "claims t = claims s" "peers t = peers s"
    and "place_inv t" "hosted t"
  shows "daemon_inv t"
  using assms calls_live_cong [of t s] claims_held_cong [of t s] peers_wf_cong [of t s] by (simp add: daemon_inv_def)

lemma inv_by_pgs:
  assumes "daemon_inv s" "actors t = actors s" "refs t = refs s" "clients t = clients s" "claims t = claims s" "peers t = peers s"
    and "agents t = agents s" "place_inv t"
  shows "daemon_inv t"
  using assms hosted_cong [of t s] by (intro inv_by_place [OF assms(1-6)]) (simp_all add: daemon_inv_def)

lemma inv_by_rest:
  assumes "daemon_inv s" "agents t = agents s" "pgs t = pgs s" "actors t = actors s" "refs t = refs s"
    and "keyed cl_id (clients t)" "claims_held t" "peers_wf t"
  shows "daemon_inv t"
  using assms place_inv_cong [of t s] hosted_cong [of t s] calls_live_cong [of t s] by (simp add: daemon_inv_def)

lemma daemon_inv_quiet [simp]:
  "daemon_inv (emit_patch E k p why s) = daemon_inv s"
  "daemon_inv (snd (send E w m req pl s)) = daemon_inv s"
  "daemon_inv (shutdown w s) = daemon_inv s"
  "daemon_inv (counters_update f s) = daemon_inv s"
  "daemon_inv (client_links_update g s) = daemon_inv s"
  "daemon_inv (reap_pending_update h s) = daemon_inv s"
  "daemon_inv (next_reap_update n s) = daemon_inv s"
  "daemon_inv (next_ref_update n s) = daemon_inv s"
  "daemon_inv (next_seq_update n s) = daemon_inv s"
  "daemon_inv (misfiled_warned_update u s) = daemon_inv s"
  "daemon_inv (claim_generation_update n s) = daemon_inv s"
  "daemon_inv (event_subs_update v s) = daemon_inv s"
  "daemon_inv (dialing_update u s) = daemon_inv s"
  "daemon_inv (fabrics_update y s) = daemon_inv s"
  "daemon_inv (head_node_id_update z s) = daemon_inv s"
  "daemon_inv (head_generation_update n s) = daemon_inv s"
  "daemon_inv (head_since_ms_update x s) = daemon_inv s"
  by (rule daemon_inv_cong; simp)+

lemma daemon_inv_fold:
  "(\<And>x s. daemon_inv s \<Longrightarrow> daemon_inv (f x s)) \<Longrightarrow> daemon_inv s \<Longrightarrow> daemon_inv (fold f xs s)"
  by (induction xs arbitrary: s) simp_all

section \<open>Placement and deaths\<close>

lemma daemon_inv_try_place: "daemon_inv s \<Longrightarrow> daemon_inv (try_place E s)"
proof -
  assume inv: "daemon_inv s"
  then have "place_inv (try_place E s)" using try_place_facts [OF daemon_invD(1) [OF inv], of E] by blast
  then show ?thesis by (rule inv_by_pgs [OF inv, rotated -1]) simp_all
qed

text \<open>Calls that are resolved or dropped.\<close>

lemma daemon_inv_refs:
  assumes "daemon_inv s" "hm_wf rs"
    and "\<And>k r. (k, r) \<in> set rs \<Longrightarrow> rf_state r = RefPending \<Longrightarrow>
      \<exists>j q. (j, q) \<in> set (refs s) \<and> rf_state q = RefPending \<and> rf_actor r = rf_actor q"
  shows "daemon_inv (s\<lparr>refs := rs\<rparr>)"
proof (rule inv_by_refs [OF assms(1)])
  show "calls_live (s\<lparr>refs := rs\<rparr>)"
    using assms(2,3) calls_liveD [OF daemon_invD(6) [OF assms(1)]]
    by (fastforce simp: calls_live_def live_actor_def)
qed simp_all

lemma fail_refs_inv: "daemon_inv s \<Longrightarrow> daemon_inv (fail_refs aid reason s)"
  unfolding fail_refs_def
  by (rule daemon_inv_refs) (auto simp: in_hm_map daemon_invD intro: hm_wf_map split: if_splits)

lemma in_fail_refs:
  assumes "(k, r) \<in> set (refs (fail_refs aid reason s))" "rf_state r = RefPending"
  shows "(k, r) \<in> set (refs s) \<and> rf_actor r \<noteq> Some aid"
proof -
  from assms(1) obtain v where v: "(k, v) \<in> set (refs s)"
    "r = (if rf_actor v = Some aid \<and> rf_state v = RefPending then v\<lparr>rf_state := RefActorDied reason\<rparr> else v)"
    by (auto simp: fail_refs_def in_hm_map)
  show ?thesis
  proof (cases "rf_actor v = Some aid \<and> rf_state v = RefPending")
    case True
    then have "rf_state r = RefActorDied reason" using v(2) by simp
    with assms(2) show ?thesis by simp
  next
    case False
    then have "r = v" using v(2) by (simp only: if_False)
    with False v(1) assms(2) show ?thesis by blast
  qed
qed

text \<open>An actor's row rewritten in place, with its id and agent kept and no death.\<close>

lemma hosted_modify:
  "hosted s \<Longrightarrow> (\<And>a. ac_agent (f a) = ac_agent a) \<Longrightarrow> agents t = agents s \<Longrightarrow> actors t = hm_modify aid f (actors s) \<Longrightarrow> hosted t"
  unfolding hosted_iff by (auto simp: in_hm_modify split: if_splits)

lemma daemon_inv_actor_modify:
  assumes "daemon_inv s" "\<And>a. ac_id (f a) = ac_id a" "\<And>a. ac_agent (f a) = ac_agent a"
    and "\<And>a. is_dead (ac_state (f a)) \<longrightarrow> is_dead (ac_state a)"
  shows "daemon_inv (s\<lparr>actors := hm_modify aid f (actors s)\<rparr>)"
proof (rule inv_by_actors [OF assms(1)])
  have "live_actor (s\<lparr>actors := hm_modify aid f (actors s)\<rparr>) i" if "live_actor s i" for i
    using that assms(4) by (auto simp: live_actor_def map_of_hm_modify split: option.splits)
  then show "calls_live (s\<lparr>actors := hm_modify aid f (actors s)\<rparr>)"
    using daemon_invD(6) [OF assms(1)] by (fastforce simp: calls_live_def)
next
  show "keyed ac_id (actors (s\<lparr>actors := hm_modify aid f (actors s)\<rparr>))"
    using keyed_modify [OF daemon_invD(2) [OF assms(1)], of aid f] assms(2) by simp
next
  show "hosted (s\<lparr>actors := hm_modify aid f (actors s)\<rparr>)"
    by (rule hosted_modify [OF daemon_invD(5) [OF assms(1)] assms(3), where aid = aid]) simp_all
qed simp_all

text \<open>A death with its fan-out.\<close>

lemma daemon_inv_death:
  assumes "daemon_inv s" "\<And>a. ac_id (f a) = ac_id a" "\<And>a. ac_agent (f a) = ac_agent a"
  shows "daemon_inv (fail_refs aid reason (s\<lparr>actors := hm_modify aid f (actors s)\<rparr>))"
proof (rule inv_by_actors [OF assms(1)])
  let ?t = "fail_refs aid reason (s\<lparr>actors := hm_modify aid f (actors s)\<rparr>)"
  have ac: "actors ?t = hm_modify aid f (actors s)" by (simp add: fail_refs_def)
  have "\<exists>i. rf_actor r = Some i \<and> live_actor ?t i"
    if "(k, r) \<in> set (refs ?t)" "rf_state r = RefPending" for k r
  proof -
    from in_fail_refs [OF that] have q: "(k, r) \<in> set (refs s)" "rf_actor r \<noteq> Some aid" by simp_all
    with calls_liveD [OF daemon_invD(6) [OF assms(1)] q(1) that(2)] obtain i where
      "rf_actor r = Some i" "live_actor s i" "i \<noteq> aid" by auto
    then show ?thesis using ac by (simp add: live_actor_def map_of_hm_modify)
  qed
  then show "calls_live ?t"
    using daemon_invD(9) [OF assms(1)] by (auto simp: calls_live_def fail_refs_def intro: hm_wf_map)
  show "keyed ac_id (actors ?t)"
    using keyed_modify [OF daemon_invD(2) [OF assms(1)], of aid f] assms(2) by (simp add: ac)
  show "hosted ?t"
    by (rule hosted_modify [OF daemon_invD(5) [OF assms(1)] assms(3) _ ac]) (simp add: fail_refs_def)
qed (simp_all add: fail_refs_def)

lemma mark_actor_dead_inv: "daemon_inv s \<Longrightarrow> daemon_inv (mark_actor_dead E aid reason s)"
proof -
  assume inv: "daemon_inv s"
  have "daemon_inv (fail_refs aid reason (bury_actor E aid reason a s))" for a
  proof -
    let ?s = "s\<lparr>actors := hm_modify aid (\<lambda>x. x\<lparr>ac_state := Dead reason (e_now E), ac_queued_calls := []\<rparr>) (actors s)\<rparr>"
    have "tables (fail_refs aid reason (bury_actor E aid reason a s)) = tables (fail_refs aid reason ?s)"
      by (simp add: fail_refs_def bury_actor_def Let_def)
    moreover have "daemon_inv (fail_refs aid reason ?s)" by (rule daemon_inv_death [OF inv]) simp_all
    ultimately show ?thesis using daemon_inv_cong by blast
  qed
  with inv show ?thesis
    by (auto simp: mark_actor_dead_def intro: daemon_inv_try_place fail_refs_inv split: option.splits)
qed

lemma kill_actor_inv: "daemon_inv s \<Longrightarrow> daemon_inv (kill_actor E aid s)"
  by (auto simp: kill_actor_def intro: mark_actor_dead_inv split: option.splits)


section \<open>Placement groups that end\<close>

text \<open>Rows of the groups rewritten in place: each keeps its id, and is removed or keeps what it
  holds.\<close>

lemma subseq_distinct: "subseq xs ys \<Longrightarrow> distinct ys \<Longrightarrow> distinct xs"
proof (induction xs ys rule: list_emb.induct)
  case (list_emb_Cons2 x y xs ys)
  moreover from this have "set xs \<subseteq> set ys" using list_emb_set [of "(=)" xs ys] by auto
  ultimately show ?case by auto
qed auto

lemma subseq_concat_map: "subseq xs ys \<Longrightarrow> subseq (concat (map g xs)) (concat (map g ys))"
  by (induction xs ys rule: list_emb.induct) (auto intro: list_emb_append_mono)

lemma subseq_reserved:
  assumes "list_all2 (\<lambda>(k, p) (k', q). pg_state q = Removed \<or> pg_state q = pg_state p \<and> pg_assignment q = pg_assignment p)
      ps qs"
  shows "subseq (concat (map (\<lambda>p. pairs (somes (pg_assignment p))) (filter (\<lambda>p. pg_state p \<noteq> Removed) (map snd qs))))
    (concat (map (\<lambda>p. pairs (somes (pg_assignment p))) (filter (\<lambda>p. pg_state p \<noteq> Removed) (map snd ps))))"
  using assms
proof (induction ps qs rule: list_all2_induct)
  case (Cons x xs y ys)
  let ?g = "\<lambda>p. pairs (somes (pg_assignment p))" and ?live = "\<lambda>p. pg_state p \<noteq> Removed"
  have "subseq (concat (map ?g (filter ?live [snd y]))) (concat (map ?g (filter ?live [snd x])))"
    using Cons(1) by (cases x; cases y) auto
  from list_emb_append_mono [OF this Cons(3)] show ?case by (simp split: if_splits)
qed simp

lemma daemon_inv_pgs:
  assumes "daemon_inv s" "\<And>k p. pg_id (f k p) = pg_id p"
    and "\<And>k p. pg_state (f k p) = Removed \<or> pg_state (f k p) = pg_state p \<and> pg_assignment (f k p) = pg_assignment p"
  shows "daemon_inv (s\<lparr>pgs := map (\<lambda>(k, p). (k, f k p)) (pgs s)\<rparr>)"
proof (rule inv_by_pgs [OF assms(1)])
  let ?t = "s\<lparr>pgs := map (\<lambda>(k, p). (k, f k p)) (pgs s)\<rparr>"
  have wf: "pgs_wf s" "agents_wf s" "gpus_wf s" "distinct (reserved s)"
    using daemon_invD(1) [OF assms(1)] by (simp_all add: place_inv_def exclusive_def)
  have "list_all2 (\<lambda>(k, p) (k', q). pg_state q = Removed \<or> pg_state q = pg_state p \<and> pg_assignment q = pg_assignment p)
      (pgs s) (pgs ?t)"
    using assms(3) by (auto simp: list_all2_conv_all_nth split_def)
  then have "subseq (reserved ?t) (reserved s)"
    unfolding reserved_def live_pgs_def hm_values_def by (rule subseq_reserved)
  then have "exclusive ?t" using wf(4) subseq_distinct by (auto simp: exclusive_def)
  moreover have "pgs_wf ?t"
  proof -
    have "hm_wf (pgs ?t)" using wf(1) by (simp add: pgs_wf_def hm_wf_def comp_def split_def)
    moreover have "pg_id (f k p) = k \<and> (pg_state (f k p) = Pending \<longrightarrow> somes (pg_assignment (f k p)) = [])"
      if "(k, p) \<in> set (pgs s)" for k p
      using that wf(1) assms(2,3) [of k p] by (fastforce simp: pgs_wf_def)
    ultimately show ?thesis unfolding pgs_wf_def by auto
  qed
  ultimately show "place_inv ?t" using wf by (simp add: place_inv_def agents_wf_def gpus_wf_def)
qed simp_all

lemma daemon_inv_pgs_map:
  assumes "daemon_inv s" "\<And>p. pg_id (f p) = pg_id p"
    and "\<And>p. pg_state (f p) = Removed \<or> pg_state (f p) = pg_state p \<and> pg_assignment (f p) = pg_assignment p"
  shows "daemon_inv (s\<lparr>pgs := hm_map f (pgs s)\<rparr>)"
  using daemon_inv_pgs [OF assms(1), of "\<lambda>_. f"] assms(2,3) by (simp add: hm_map_def)

lemma daemon_inv_pgs_modify:
  assumes "daemon_inv s" "\<And>p. pg_id (f p) = pg_id p" "\<And>p. pg_state (f p) = Removed"
  shows "daemon_inv (s\<lparr>pgs := hm_modify pid f (pgs s)\<rparr>)"
  using daemon_inv_pgs [OF assms(1), of "\<lambda>k p. if k = pid then f p else p"] assms(2,3) by (simp add: hm_modify_def)

lemma remove_pgs_of_inv: "daemon_inv s \<Longrightarrow> daemon_inv (remove_pgs_of E client s)"
  unfolding remove_pgs_of_def Let_def
  by (rule daemon_inv_fold, simp, rule daemon_inv_pgs_map) (simp_all split: if_splits)

lemma fail_pg_inv: "daemon_inv s \<Longrightarrow> daemon_inv (fail_pg E p s)"
  unfolding fail_pg_def Let_def by (auto intro: daemon_inv_pgs_modify)

lemma sweep_pending_inv: "daemon_inv s \<Longrightarrow> daemon_inv (sweep_pending E s)"
  unfolding sweep_pending_def by (rule daemon_inv_fold) (rule fail_pg_inv)

section \<open>Claims\<close>

lemma inv_by_claims: "daemon_inv s \<Longrightarrow> claims_held (s\<lparr>claims := cs\<rparr>) \<Longrightarrow> daemon_inv (s\<lparr>claims := cs\<rparr>)"
  by (rule inv_by_rest) (simp_all add: daemon_invD peers_wf_def [symmetric] peers_wf_cong)

lemma claims_held_insert:
  assumes "claims_held s" "cm_holders c \<noteq> []"
  shows "claims_held (s\<lparr>claims := bt_insert k c (claims s)\<rparr>)"
proof -
  have "x \<in> set (bt_insert k c m) \<Longrightarrow> x = (k, c) \<or> x \<in> set m" for x and m :: "(string \<times> string, claim_info) table"
    by (induction m) (auto split: if_splits)
  then show ?thesis using assms bt_wf_insert by (fastforce simp: claims_held_def)
qed

lemma release_inv: "daemon_inv s \<Longrightarrow> daemon_inv (release E client k s)"
proof -
  assume inv: "daemon_inv s"
  show ?thesis
  proof (cases "map_of (claims s) k")
    case (Some c)
    let ?c = "c\<lparr>cm_holders := bs_remove client (cm_holders c)\<rparr>"
    have "claims_held (s\<lparr>claims := hm_remove k (claims s)\<rparr>)"
      using daemon_invD(4) [OF inv] by (auto simp: claims_held_def hm_remove_def intro: bt_wf_filter)
    moreover have "claims_held (s\<lparr>claims := hm_modify k (\<lambda>_. ?c) (claims s)\<rparr>)" if "cm_holders ?c \<noteq> []"
      using daemon_invD(4) [OF inv] that by (auto simp: claims_held_def in_hm_modify bt_wf_def split: if_splits)
    ultimately show ?thesis using inv Some by (auto simp: release_def Let_def intro: inv_by_claims)
  qed (use inv in \<open>simp add: release_def\<close>)
qed

lemma release_all_inv: "daemon_inv s \<Longrightarrow> daemon_inv (release_all E client s)"
  unfolding release_all_def by (rule daemon_inv_fold) (rule release_inv)

lemma claim_inv: "daemon_inv s \<Longrightarrow> daemon_inv (snd (claim E client grp name shape s))"
proof -
  assume inv: "daemon_inv s"
  have join: "claims_held (s\<lparr>claims := hm_modify k (\<lambda>c. c\<lparr>cm_holders := bs_insert client (cm_holders c)\<rparr>) (claims s)\<rparr>)" for k
  proof -
    have "bs_insert client hs \<noteq> []" for hs using set_bs_insert [of client hs] by force
    then show ?thesis using daemon_invD(4) [OF inv]
      by (auto simp: claims_held_def in_hm_modify bt_wf_def split: if_splits)
  qed
  have new: "daemon_inv (s\<lparr>claim_generation := n, claims := bt_insert k c (claims s)\<rparr>)" if "cm_holders c \<noteq> []" for n k c
  proof -
    have "daemon_inv (s\<lparr>claims := bt_insert k c (claims s)\<rparr>)"
      by (rule inv_by_claims [OF inv claims_held_insert [OF daemon_invD(4) [OF inv] that]])
    then show ?thesis by (rule daemon_inv_cong [THEN iffD1, rotated]) simp
  qed
  show ?thesis
    using inv by (auto simp: claim_def Let_def intro!: inv_by_claims join new split: option.splits sum.splits)
qed

section \<open>The end of a session\<close>

lemma inv_by_clients:
  "daemon_inv s \<Longrightarrow> keyed cl_id cs \<Longrightarrow> daemon_inv (s\<lparr>clients := cs\<rparr>)"
proof -
  assume inv: "daemon_inv s" and "keyed cl_id cs"
  moreover have "claims_held (s\<lparr>clients := cs\<rparr>)" "peers_wf (s\<lparr>clients := cs\<rparr>)"
    using claims_held_cong [of "s\<lparr>clients := cs\<rparr>" s] peers_wf_cong [of "s\<lparr>clients := cs\<rparr>" s]
      daemon_invD(4,7) [OF inv] by simp_all
  ultimately show ?thesis by (intro inv_by_rest [OF inv]) simp_all
qed

lemma drop_client_inv: "daemon_inv s \<Longrightarrow> daemon_inv (s\<lparr>clients := hm_remove client (clients s)\<rparr>)"
  by (rule inv_by_clients) (simp_all add: keyed_remove daemon_invD)

lemma reap_client_row_inv: "daemon_inv s \<Longrightarrow> daemon_inv (snd (reap_client_row E client s))"
  by (simp add: reap_client_row_def drop_client_inv)

lemma defer_reap_inv: "daemon_inv s \<Longrightarrow> daemon_inv (snd (defer_reap client s))"
  by (simp add: defer_reap_def)

lemma reap_begin_inv: "daemon_inv s \<Longrightarrow> daemon_inv (snd (reap_begin E client grp token s))"
  by (auto simp: reap_begin_def Let_def intro!: remove_pgs_of_inv release_all_inv)

lemma hm_retain_sub: "x \<in> set (hm_retain Q m) \<Longrightarrow> x \<in> set m"
  by (auto simp: hm_retain_def)

lemma reap_end_inv: "daemon_inv s \<Longrightarrow> daemon_inv (reap_end E client s)"
  unfolding reap_end_def
  by (rule daemon_inv_try_place, rule daemon_inv_refs) (auto simp: daemon_invD intro: hm_wf_retain dest: hm_retain_sub)

section \<open>The lifecycle sweep\<close>

lemma warn_refs_inv: "daemon_inv s \<Longrightarrow> daemon_inv (warn_refs E s)"
  unfolding warn_refs_def
  by (rule daemon_inv_refs) (fastforce simp: in_hm_map daemon_invD intro: hm_wf_map split: if_splits)+

text \<open>Agent rows rewritten in place, with id and machine kept.\<close>

lemma daemon_inv_agents:
  assumes "daemon_inv s" "\<And>k a. ag_id (f k a) = ag_id a" "\<And>k a. ag_machine (f k a) = ag_machine a"
  shows "daemon_inv (s\<lparr>agents := map (\<lambda>(k, a). (k, f k a)) (agents s)\<rparr>)"
proof (rule inv_by_place [OF assms(1)])
  let ?t = "s\<lparr>agents := map (\<lambda>(k, a). (k, f k a)) (agents s)\<rparr>"
  have wf: "pgs_wf s" "agents_wf s" "gpus_wf s" "exclusive s"
    using daemon_invD(1) [OF assms(1)] by (simp_all add: place_inv_def)
  have keys: "map fst (agents ?t) = map fst (agents s)" by (simp add: split_def)
  then have "hm_wf (agents ?t)" using wf(2) by (simp only: agents_wf_def hm_wf_def)
  then have "agents_wf ?t" "gpus_wf ?t" using wf(2,3) assms(2,3) by (auto simp: agents_wf_def gpus_wf_def)
  moreover have "pgs_wf ?t" "exclusive ?t" using wf by (simp_all add: pgs_wf_def exclusive_def reserved_def live_pgs_def)
  ultimately show "place_inv ?t" by (simp add: place_inv_def)
  have "hm_has (agents ?t) k \<longleftrightarrow> hm_has (agents s) k" for k
    unfolding hm_has_iff set_map [symmetric] keys ..
  then show "hosted ?t" using daemon_invD(5) [OF assms(1)] by (simp add: hosted_def)
qed simp_all

lemma daemon_inv_agents_map:
  "daemon_inv s \<Longrightarrow> (\<And>a. ag_id (f a) = ag_id a) \<Longrightarrow> (\<And>a. ag_machine (f a) = ag_machine a) \<Longrightarrow>
     daemon_inv (s\<lparr>agents := hm_map f (agents s)\<rparr>)"
  using daemon_inv_agents [of s "\<lambda>_. f"] by (simp add: hm_map_def)

lemma daemon_inv_agents_modify:
  assumes "daemon_inv s" "map_of (agents s) k = Some a" "ag_id a' = ag_id a" "ag_machine a' = ag_machine a"
  shows "daemon_inv (s\<lparr>agents := hm_modify k (\<lambda>_. a') (agents s)\<rparr>)"
proof -
  let ?f = "\<lambda>j x. if j = k \<and> x = a then a' else x"
  have "hm_modify k (\<lambda>_. a') (agents s) = map (\<lambda>(j, x). (j, ?f j x)) (agents s)"
    using daemon_invD(11) [OF assms(1)] assms(2) by (auto simp: hm_modify_def hm_in_get)
  with daemon_inv_agents [OF assms(1), of ?f] assms(3,4) show ?thesis by simp
qed

lemma emit_agent_inv [simp]: "daemon_inv (emit_agent E kind grp aid why s) = daemon_inv s"
  by (auto simp: emit_agent_def split: option.splits)

lemma give_up_inv: "daemon_inv s \<Longrightarrow> daemon_inv (give_up E a s)"
  unfolding give_up_def Let_def by (rule daemon_inv_fold) (simp_all add: mark_actor_dead_inv)

lemma sweep_agents_inv: "daemon_inv s \<Longrightarrow> daemon_inv (sweep_agents E s)"
  unfolding sweep_agents_def Let_def
  by (rule daemon_inv_fold, rule give_up_inv, assumption, rule daemon_inv_fold, simp, rule daemon_inv_agents_map)
     (simp_all add: age_agent_def)

text \<open>Rows dropped for good: the actors that go are dead, and the agents that go host nothing else.\<close>

lemma gone_actors_dead:
  "keyed ac_id (actors s) \<Longrightarrow> map_of (actors s) i = Some a \<Longrightarrow> i \<in> set (gone_actors E s) \<Longrightarrow> is_dead (ac_state a)"
  by (cases "ac_state a") (auto simp: gone_actors_def keyed_lookup is_dead_def)

lemma gone_agents_hosts:
  assumes "i \<in> set (gone_agents E s)" "(k, x) \<in> set (actors s)" "ac_agent x = i"
  shows "ac_id x \<in> set (gone_actors E s)"
  using assms by (auto simp: gone_agents_def set_hm_values)

lemma place_inv_fewer:
  assumes "place_inv s"
  shows "place_inv (s\<lparr>actors := as, pgs := fold hm_remove ps (pgs s), agents := fold hm_remove ags (agents s),
    misfiled_warned := mw, refs := rs\<rparr>)" (is "place_inv ?t")
proof -
  have wf: "pgs_wf s" "agents_wf s" "gpus_wf s" "distinct (reserved s)"
    using assms by (simp_all add: place_inv_def exclusive_def)
  have "subseq (fold hm_remove ps m) m" for ps and m :: "(string, pg_info) table"
    by (induction ps arbitrary: m) (auto simp: hm_remove_def intro: subseq_order.order_trans subseq_filter_left)
  then have "subseq (live_pgs ?t) (live_pgs s)"
    by (auto simp: live_pgs_def hm_values_def intro!: subseq_filter subseq_map)
  then have "subseq (reserved ?t) (reserved s)" unfolding reserved_def by (rule subseq_concat_map)
  then have "exclusive ?t" using wf(4) subseq_distinct by (auto simp: exclusive_def)
  moreover have "pgs_wf ?t" "agents_wf ?t" "gpus_wf ?t"
    using wf(1-3) hm_wf_fold_remove by (auto simp: pgs_wf_def agents_wf_def gpus_wf_def in_fold_hm_remove)
  ultimately show ?thesis by (simp add: place_inv_def)
qed

lemma sweep_history_inv: "daemon_inv s \<Longrightarrow> daemon_inv (sweep_history E s)"
proof -
  assume inv: "daemon_inv s"
  let ?acs = "gone_actors E s" and ?ps = "gone_pgs E s" and ?ags = "gone_agents E s"
  let ?ac = "fold hm_remove ?acs (actors s)"
  let ?rs = "hm_retain (\<lambda>_ r. case rf_actor r of None \<Rightarrow> True | Some a \<Rightarrow> hm_has ?ac a) (refs s)"
  define t where "t = s\<lparr>actors := ?ac, pgs := fold hm_remove ?ps (pgs s), agents := fold hm_remove ?ags (agents s),
    misfiled_warned := fold bs_remove ?ags (misfiled_warned s), refs := ?rs\<rparr>"
  have "place_inv t" unfolding t_def by (rule place_inv_fewer [OF daemon_invD(1) [OF inv]])
  moreover have "hosted t"
  proof -
    have "hm_has (agents t) (ac_agent a)" if "(k, a) \<in> set (actors t)" for k a
    proof -
      from that have a: "(k, a) \<in> set (actors s)" "k \<notin> set ?acs" by (auto simp: t_def in_fold_hm_remove)
      then have "hm_has (agents s) (ac_agent a)" "ac_id a = k"
        using daemon_invD(2,5) [OF inv] by (auto simp: hosted_iff keyed_def)
      with gone_agents_hosts [of "ac_agent a" E s k a] a show ?thesis by (auto simp: t_def hm_has_fold_remove)
    qed
    then show ?thesis by (simp add: hosted_iff)
  qed
  moreover have "calls_live t"
  proof -
    have "live_actor t i" if "live_actor s i" for i
      using that gone_actors_dead [OF daemon_invD(2) [OF inv], of i _ E]
      by (auto simp: live_actor_def t_def map_of_fold_hm_remove split: option.splits)
    moreover have "hm_wf (refs t)" using daemon_invD(9) [OF inv] by (simp add: t_def hm_wf_retain)
    moreover have "(k, r) \<in> set (refs s)" if "(k, r) \<in> set (refs t)" for k r
      using that hm_retain_sub [of "(k, r)"] by (simp add: t_def)
    ultimately show ?thesis using calls_liveD [OF daemon_invD(6) [OF inv]] unfolding calls_live_iff by blast
  qed
  moreover have "keyed ac_id (actors t)" using daemon_invD(2) [OF inv] by (simp add: t_def keyed_fold_remove)
  ultimately have "daemon_inv t"
    using inv by (simp add: daemon_inv_def t_def claims_held_def peers_wf_def)
  then show ?thesis using inv unfolding sweep_history_def Let_def t_def [symmetric] by simp
qed

lemma sweep_lifecycle_inv: "daemon_inv s \<Longrightarrow> daemon_inv (sweep_lifecycle E s)"
  by (simp add: sweep_lifecycle_def warn_refs_inv sweep_pending_inv sweep_agents_inv sweep_history_inv)

end
