(* ===== verification/LinkInv.thy ===== *)
theory LinkInv
  imports DaemonInv
begin

text \<open>
  The invariant of \<open>DaemonInv\<close> over the operations that connections run: the messages of clients,
  of agents and of peers, and the move of the head.
\<close>

section \<open>The head moving away\<close>

lemma fold_shutdown_tables: "tables (fold (\<lambda>x. shutdown (f x)) xs s) = tables s"
  by (induction xs arbitrary: s) simp_all

lemma head_moved_inv: "daemon_inv s \<Longrightarrow> daemon_inv (head_moved E s)"
proof -
  assume inv: "daemon_inv s"
  let ?r = "''group moved to head '' @ head_node_id s"
  let ?s1 = "fold (\<lambda>(_, w). shutdown w) (client_links s) (fold (\<lambda>a. shutdown (ag_writer a)) (hm_values (agents s)) s)"
  let ?fa = "\<lambda>a. if is_dead (ac_state a) then a else a\<lparr>ac_state := Dead ?r (e_now E)\<rparr>"
  let ?fp = "\<lambda>p. if pg_state p = Removed then p else p\<lparr>pg_state := Removed, pg_removed_ms := Some (e_now E)\<rparr>"
  let ?t = "?s1\<lparr>client_links := [], clients := [], claims := [], refs := [], actors := hm_map ?fa (actors ?s1),
    pgs := hm_map ?fp (pgs ?s1)\<rparr>"
  have s1: "tables ?s1 = tables s" by (simp only: fold_shutdown_tables split_def)
  have "daemon_inv (s\<lparr>pgs := hm_map ?fp (pgs s)\<rparr>)" by (rule daemon_inv_pgs_map [OF inv]) auto
  then have "place_inv (s\<lparr>pgs := hm_map ?fp (pgs s)\<rparr>)" by (rule daemon_invD)
  then have "place_inv ?t" using s1 by (subst place_inv_cong [of _ "s\<lparr>pgs := hm_map ?fp (pgs s)\<rparr>"]) simp_all
  moreover have "keyed ac_id (actors ?t)" using keyed_map [OF daemon_invD(2) [OF inv], of ?fa] s1 by simp
  moreover have "hosted ?t" using daemon_invD(5) [OF inv] s1 by (auto simp: hosted_iff in_hm_map)
  moreover have "peers_wf ?t" using daemon_invD(7) [OF inv] s1 by (simp add: peers_wf_def)
  ultimately have "daemon_inv ?t"
    by (simp add: daemon_inv_def claims_held_def calls_live_def hm_wf_def)
  with inv show ?thesis
    unfolding head_moved_def Let_def
    by (cases "head_node_id s = node_id s \<or> agents s = [] \<and> clients s = []")
       (simp_all only: if_True if_False daemon_inv_quiet)
qed

lemma take_head_inv: "daemon_inv s \<Longrightarrow> daemon_inv (take_head E cand s)"
  by (simp add: take_head_def Let_def head_moved_inv)

lemma elect_inv: "daemon_inv s \<Longrightarrow> daemon_inv (snd (elect E boot t el s))"
  by (auto simp: elect_def Let_def intro: take_head_inv split: option.splits)

section \<open>Clients\<close>

lemma client_hello_inv:
  assumes "daemon_inv s"
  shows "daemon_inv (snd (client_hello E w req peer_ip pr client grp session kind claimed s))"
proof -
  have "daemon_inv (s\<lparr>clients := hm_insert client c (clients s), counters := k\<rparr>)" if "cl_id c = client" for c k
  proof -
    have "daemon_inv (s\<lparr>clients := hm_insert client c (clients s)\<rparr>)"
      by (rule inv_by_clients [OF assms keyed_insert [OF daemon_invD(3) [OF assms] that]])
    then show ?thesis by (rule daemon_inv_cong [THEN iffD1, rotated]) simp
  qed
  moreover have "cl_id c = client" if "map_of (clients s) client = Some c" for c
    using that keyed_key [OF daemon_invD(3) [OF assms]] by (auto dest: map_of_SomeD)
  ultimately show ?thesis using assms
    by (auto simp: client_hello_def Let_def split: option.splits)
qed

text \<open>A new group holds nothing; if its id was taken, the old group's row goes with what it held.\<close>

lemma reserved_insert:
  assumes "somes (pg_assignment p) = []"
  shows "subseq (reserved (s\<lparr>pgs := hm_insert k p (pgs s)\<rparr>)) (reserved s)"
proof -
  let ?g = "\<lambda>m. concat (map (\<lambda>p. pairs (somes (pg_assignment p))) (filter (\<lambda>p. pg_state p \<noteq> Removed) (map snd m)))"
  have "subseq (?g (hm_insert k p m)) (?g m)" for m
    using assms by (induction m) (auto simp: pairs_def intro: list_emb_append_mono)
  then show ?thesis by (simp add: reserved_def live_pgs_def hm_values_def)
qed

lemma daemon_inv_new_pg:
  assumes "daemon_inv s" "pg_id p = k" "somes (pg_assignment p) = []"
  shows "daemon_inv (s\<lparr>pgs := hm_insert k p (pgs s)\<rparr>)"
proof (rule inv_by_pgs [OF assms(1)])
  let ?t = "s\<lparr>pgs := hm_insert k p (pgs s)\<rparr>"
  have wf: "pgs_wf s" "agents_wf s" "gpus_wf s" "exclusive s"
    using daemon_invD(1) [OF assms(1)] by (simp_all add: place_inv_def)
  then have "exclusive ?t"
    using subseq_distinct [OF reserved_insert [OF assms(3), where s = s and k = k]] by (simp add: exclusive_def)
  moreover have "pgs_wf ?t" using wf(1) assms(2,3)
    by (auto simp: pgs_wf_def in_hm_insert intro: hm_wf_insert split: if_splits)
  ultimately show "place_inv ?t" using wf by (simp add: place_inv_def agents_wf_def gpus_wf_def)
qed simp_all

lemma pg_create_inv: "daemon_inv s \<Longrightarrow> daemon_inv (pg_create E pid client bundles strategy clm s)"
  unfolding pg_create_def Let_def
  by (rule daemon_inv_try_place) (simp add: daemon_inv_new_pg new_pg_def)

lemma pg_remove_inv: "daemon_inv s \<Longrightarrow> daemon_inv (pg_remove E pid s)"
  by (auto simp: pg_remove_def Let_def intro!: daemon_inv_try_place daemon_inv_pgs_modify split: option.splits)

lemma daemon_inv_new_actor:
  assumes "daemon_inv s" "ac_id a = k" "hm_has (agents s) (ac_agent a)" "\<not> is_dead (ac_state a)"
  shows "daemon_inv (s\<lparr>actors := hm_insert k a (actors s)\<rparr>)"
proof (rule inv_by_actors [OF assms(1)])
  let ?t = "s\<lparr>actors := hm_insert k a (actors s)\<rparr>"
  show "keyed ac_id (actors ?t)" using keyed_insert [OF daemon_invD(2) [OF assms(1)] assms(2)] by simp
  show "hosted ?t" using daemon_invD(5,8) [OF assms(1)] assms(3)
    by (auto simp: hosted_iff in_hm_insert split: if_splits)
  have "live_actor ?t i" if "live_actor s i" for i
    using that assms(4) by (simp add: live_actor_def map_of_hm_insert)
  then show "calls_live ?t" using daemon_invD(6) [OF assms(1)] unfolding calls_live_iff by force
qed simp_all

lemma create_check_agent:
  "create_check s grp name n pid bi = Inr (pg, b, ag) \<Longrightarrow> map_of (agents s) (ba_agent b) = Some ag"
  by (auto simp: create_check_def split: if_splits option.splits)

lemma create_actor_inv:
  assumes "daemon_inv s"
  shows "daemon_inv (snd (create_actor E aid client name n pid bi env pl s))"
proof (cases "create_check s (client_group s client) name n pid bi")
  case (Inr r)
  obtain pg b ag where r: "r = (pg, b, ag)" by (cases r)
  let ?a = "\<lparr>ac_id = aid, ac_name = name, ac_group = client_group s client, ac_agent = ag_id ag, ac_node_id = ba_node_id b,
    ac_gpu_ids = ba_gpu_ids b, ac_owner = client, ac_state = Spawning, ac_pid = None, ac_queued_calls = []\<rparr>"
  have ag: "map_of (agents s) (ba_agent b) = Some ag" using create_check_agent Inr r by blast
  then have "ag_id ag = ba_agent b" using daemon_invD(1) [OF assms]
    by (auto simp: place_inv_def agents_wf_def dest: map_of_SomeD)
  with ag have "hm_has (agents s) (ac_agent ?a)" by (simp add: hm_has_def)
  then have "daemon_inv (s\<lparr>actors := hm_insert aid ?a (actors s)\<rparr>)"
    by (intro daemon_inv_new_actor [OF assms]) (simp_all add: is_dead_def)
  then have "daemon_inv (s\<lparr>actors := hm_insert aid ?a (actors s), counters := c\<rparr>)" for c
    by (rule daemon_inv_cong [THEN iffD1, rotated]) simp
  then show ?thesis
    using Inr r by (auto simp: create_actor_def Let_def split_def intro!: mark_actor_dead_inv split: option.splits)
qed (use assms in \<open>simp add: create_actor_def Let_def\<close>)

lemma daemon_inv_new_ref:
  assumes "daemon_inv s" "rf_state r = RefPending \<Longrightarrow> \<exists>i. rf_actor r = Some i \<and> live_actor s i"
  shows "daemon_inv (s\<lparr>refs := hm_insert rid r (refs s)\<rparr>)"
proof (rule inv_by_refs [OF assms(1)])
  show "calls_live (s\<lparr>refs := hm_insert rid r (refs s)\<rparr>)"
    using daemon_invD(6,9) [OF assms(1)] assms(2)
    by (auto simp: calls_live_iff in_hm_insert live_actor_def intro: hm_wf_insert split: if_splits)
qed simp_all

lemma hold_call_inv: "daemon_inv s \<Longrightarrow> daemon_inv (hold_call aid call s)"
  unfolding hold_call_def by (rule daemon_inv_actor_modify) simp_all

lemma actor_call_inv:
  assumes "daemon_inv s"
  shows "daemon_inv (snd (actor_call E client aid method pl s))"
proof -
  let ?s1 = "snd (new_ref_id aid (s\<lparr>counters := (counters s)\<lparr>ct_calls_total := u64_add (ct_calls_total (counters s)) 1\<rparr>\<rparr>))"
  have s1: "daemon_inv ?s1" "actors ?s1 = actors s" using assms by (simp_all add: new_ref_id_def)
  have "daemon_inv (?s1\<lparr>refs := hm_insert rid (new_ref E aid client method (RefActorDied why)) (refs ?s1)\<rparr>)" for rid why
    by (rule daemon_inv_new_ref [OF s1(1)]) (simp add: new_ref_def)
  moreover have "daemon_inv (?s1\<lparr>refs := hm_insert rid (new_ref E aid client method RefPending) (refs ?s1)\<rparr>)"
    if "map_of (actors s) aid = Some a" "\<not> is_dead (ac_state a)" for rid a
    by (rule daemon_inv_new_ref [OF s1(1)]) (use that s1(2) in \<open>simp add: new_ref_def live_actor_def\<close>)
  ultimately show ?thesis
    using s1 by (auto simp: actor_call_def Let_def split_def is_dead_def intro!: hold_call_inv
        split: option.splits actor_state.splits)
qed

lemma handle_client_msg_inv:
  assumes "daemon_inv s"
  shows "daemon_inv (snd (handle_client_msg E rnd expired client m t pl s))"
  using assms claim_inv [OF assms] create_actor_inv [OF assms] actor_call_inv [OF assms] kill_actor_inv [OF assms]
    pg_create_inv [OF assms] pg_remove_inv [OF assms] daemon_inv_fold [OF kill_actor_inv assms]
  by (auto simp: handle_client_msg_def Let_def split_def split: msg.splits client_msg.splits agent_msg.splits
      option.splits sum.splits prod.splits)

section \<open>Agents\<close>

lemma daemon_inv_new_agent:
  assumes "daemon_inv s" "ag_id a = k" "distinct (map g_index (m_gpus (ag_machine a)))"
  shows "daemon_inv (s\<lparr>agents := hm_insert k a (agents s)\<rparr>)"
proof (rule inv_by_place [OF assms(1)])
  let ?t = "s\<lparr>agents := hm_insert k a (agents s)\<rparr>"
  have wf: "pgs_wf s" "agents_wf s" "gpus_wf s" "exclusive s"
    using daemon_invD(1) [OF assms(1)] by (simp_all add: place_inv_def)
  have "hm_wf (agents s)" using wf(2) by (simp add: agents_wf_def)
  then have "agents_wf ?t" "gpus_wf ?t"
    using wf(2,3) assms(2,3) by (auto simp: agents_wf_def gpus_wf_def in_hm_insert intro: hm_wf_insert split: if_splits)
  moreover have "pgs_wf ?t" "exclusive ?t" using wf by (simp_all add: pgs_wf_def exclusive_def reserved_def live_pgs_def)
  ultimately show "place_inv ?t" by (simp add: place_inv_def)
  show "hosted ?t" using daemon_invD(5) [OF assms(1)] by (auto simp: hosted_iff hm_has_def map_of_hm_insert)
qed simp_all

lemma register_row_inv:
  assumes "daemon_inv s" "distinct (map g_index (m_gpus mach))"
  shows "daemon_inv (register_row E w aid grp node mach ctr pid serv meta s)"
proof -
  have new: "daemon_inv (t\<lparr>next_seq := n, agents := hm_insert aid a as\<rparr>)"
    if "daemon_inv t" "ag_id a = aid" "ag_machine a = mach" "as = agents t" for t n a as
  proof -
    have "daemon_inv (t\<lparr>agents := hm_insert aid a (agents t)\<rparr>)"
      by (rule daemon_inv_new_agent [OF that(1,2)]) (use that(3) assms(2) in simp)
    with that(4) show ?thesis by (simp add: daemon_inv_cong [of "t\<lparr>next_seq := n, agents := _\<rparr>" "t\<lparr>agents := _\<rparr>"])
  qed
  show ?thesis
    using assms(1) by (auto simp: register_row_def take_seq_def Let_def intro!: new split: option.splits)
qed

lemma register_row_tables:
  "actors (register_row E w aid grp node mach ctr pid serv meta s) = actors s"
  "refs (register_row E w aid grp node mach ctr pid serv meta s) = refs s"
  "hm_has (agents (register_row E w aid grp node mach ctr pid serv meta s)) aid"
  by (auto simp: register_row_def take_seq_def Let_def hm_has_def map_of_hm_insert split: option.splits)

lemma adopt_fold:
  assumes "daemon_inv s" "hm_has (agents s) aid" "\<forall>a \<in> set as. ac_agent a = aid \<and> \<not> is_dead (ac_state a)"
  shows "daemon_inv (fold (\<lambda>a s. s\<lparr>actors := hm_insert (ac_id a) a (actors s)\<rparr>) as s)
    \<and> refs (fold (\<lambda>a s. s\<lparr>actors := hm_insert (ac_id a) a (actors s)\<rparr>) as s) = refs s
    \<and> (\<forall>i. map_of (actors (fold (\<lambda>a s. s\<lparr>actors := hm_insert (ac_id a) a (actors s)\<rparr>) as s)) i
         \<in> insert (map_of (actors s) i) (Some ` set as))"
  using assms
proof (induction as arbitrary: s)
  case (Cons a as)
  let ?s = "s\<lparr>actors := hm_insert (ac_id a) a (actors s)\<rparr>"
  have "daemon_inv ?s" using Cons.prems by (intro daemon_inv_new_actor) simp_all
  with Cons.IH [of ?s] Cons.prems have IH: "daemon_inv (fold (\<lambda>a s. s\<lparr>actors := hm_insert (ac_id a) a (actors s)\<rparr>) as ?s)"
    "refs (fold (\<lambda>a s. s\<lparr>actors := hm_insert (ac_id a) a (actors s)\<rparr>) as ?s) = refs s"
    "\<And>i. map_of (actors (fold (\<lambda>a s. s\<lparr>actors := hm_insert (ac_id a) a (actors s)\<rparr>) as ?s)) i
       \<in> insert (map_of (actors ?s) i) (Some ` set as)" by simp_all
  have "map_of (actors ?s) i \<in> {Some a, map_of (actors s) i}" for i by (simp add: map_of_hm_insert)
  then have "insert (map_of (actors ?s) i) (Some ` set as) \<subseteq> insert (map_of (actors s) i) (Some ` set (a # as))" for i
    by auto
  with IH show ?case unfolding fold_simps by blast
qed simp

lemma adopt_actors_inv:
  assumes "daemon_inv s" "hm_has (agents s) aid"
  shows "daemon_inv (adopt_actors E aid grp nid resume s)" "refs (adopt_actors E aid grp nid resume s) = refs s"
    "map_of (actors (adopt_actors E aid grp nid resume s)) i = Some a \<Longrightarrow> map_of (actors s) i = Some a \<or> \<not> is_dead (ac_state a)"
proof -
  define as where "as = map (adopted_actor aid grp nid) (filter (\<lambda>r. \<not> hm_has (actors s) (r_actor_id r)) resume)"
  have live: "\<forall>a \<in> set as. ac_agent a = aid \<and> \<not> is_dead (ac_state a)" by (auto simp: as_def adopted_actor_def is_dead_def)
  note f = adopt_fold [OF assms live] and adopt_def = adopt_actors_def [of E aid grp nid resume s, folded as_def, unfolded Let_def]
  show "daemon_inv (adopt_actors E aid grp nid resume s)" "refs (adopt_actors E aid grp nid resume s) = refs s"
    unfolding adopt_def using f assms(1) by simp_all
  show "map_of (actors s) i = Some a \<or> \<not> is_dead (ac_state a)"
    if "map_of (actors (adopt_actors E aid grp nid resume s)) i = Some a"
  proof -
    have "actors (adopt_actors E aid grp nid resume s) =
        actors (fold (\<lambda>a s. s\<lparr>actors := hm_insert (ac_id a) a (actors s)\<rparr>) as s)"
      unfolding adopt_def by (simp only: emit_patch_frame split: if_split) blast
    with that have "Some a = map_of (actors (fold (\<lambda>a s. s\<lparr>actors := hm_insert (ac_id a) a (actors s)\<rparr>) as s)) i" by simp
    with f have "Some a \<in> insert (map_of (actors s) i) (Some ` set as)" by simp
    with live show ?thesis by auto
  qed
qed

text \<open>What an agent may report: no call of an actor that this daemon has buried, unless the call
  itself is known here.\<close>

definition reports_live :: "state \<Rightarrow> string \<Rightarrow> string list \<Rightarrow> bool" where
  "reports_live s aid rids \<longleftrightarrow> (\<forall>rid \<in> set rids. hm_has (refs s) rid \<or>
     (case rsplit_once (CHR '':'') rid of None \<Rightarrow> True
      | Some (i, _) \<Rightarrow> (case map_of (actors s) i of None \<Rightarrow> True
          | Some a \<Rightarrow> ac_agent a = aid \<longrightarrow> \<not> is_dead (ac_state a))))"

lemma adopt_ref_inv:
  assumes "daemon_inv s" "reports_live s aid [rid]"
  shows "daemon_inv (adopt_ref E aid rid s) \<and> actors (adopt_ref E aid rid s) = actors s
    \<and> (\<forall>k. hm_has (refs s) k \<longrightarrow> hm_has (refs (adopt_ref E aid rid s)) k)"
proof (cases "adopt_ref E aid rid s = s")
  case False
  then obtain i n a where a: "\<not> hm_has (refs s) rid" "rsplit_once (CHR '':'') rid = Some (i, n)"
    "map_of (actors s) i = Some a" "ac_agent a = aid"
    by (auto simp: adopt_ref_def split: if_splits option.splits)
  let ?r = "\<lparr>rf_state = RefPending, rf_actor = Some i, rf_owner = ac_owner a, rf_method = [], rf_created_ms = e_now E,
    rf_warned = False\<rparr>"
  have "live_actor s i" using assms(2) a by (simp add: reports_live_def live_actor_def)
  then have "daemon_inv (s\<lparr>refs := hm_insert rid ?r (refs s)\<rparr>)" by (intro daemon_inv_new_ref [OF assms(1)]) simp
  then have "daemon_inv (s\<lparr>next_ref := m, refs := hm_insert rid ?r (refs s)\<rparr>)" for m
    by (rule daemon_inv_cong [THEN iffD1, rotated]) simp
  with a show ?thesis by (auto simp: adopt_ref_def hm_has_def map_of_hm_insert)
qed (use assms in simp)

lemma reports_live_later:
  assumes "reports_live s aid rids" "actors t = actors s" "\<And>k. hm_has (refs s) k \<Longrightarrow> hm_has (refs t) k"
  shows "reports_live t aid rids"
  using assms(1,3) unfolding reports_live_def assms(2) by blast

lemma adopt_refs_inv: "daemon_inv s \<Longrightarrow> reports_live s aid rids \<Longrightarrow> daemon_inv (adopt_refs E aid rids s)"
  unfolding adopt_refs_def
proof (induction rids arbitrary: s)
  case (Cons rid rids)
  have one: "reports_live s aid [rid]" "reports_live s aid rids" using Cons.prems(2) by (simp_all add: reports_live_def)
  with adopt_ref_inv [OF Cons.prems(1) one(1), of E] reports_live_later [OF one(2), of "adopt_ref E aid rid s"] Cons.IH
  show ?case by simp
qed simp

lemma bury_missing_inv: "daemon_inv s \<Longrightarrow> daemon_inv (bury_missing E aid resume s)"
  unfolding bury_missing_def by (rule daemon_inv_fold) (rule mark_actor_dead_inv)

text \<open>A ref resolved in place.\<close>

lemma daemon_inv_resolve:
  assumes "daemon_inv s" "\<And>r. rf_actor (f r) = rf_actor r" "\<And>r. rf_state (f r) = RefPending \<Longrightarrow> rf_state r = RefPending"
  shows "daemon_inv (s\<lparr>refs := hm_modify rid f (refs s)\<rparr>)"
proof (rule daemon_inv_refs [OF assms(1)])
  show "hm_wf (hm_modify rid f (refs s))" using daemon_invD(9) [OF assms(1)] by (rule hm_wf_modify)
qed (use assms(2,3) in \<open>force simp: in_hm_modify split: if_splits\<close>)

lemma fail_lost_inv: "daemon_inv s \<Longrightarrow> daemon_inv (fail_lost aid reported s)"
proof -
  let ?f = "\<lambda>r. r\<lparr>rf_state := RefActorDied ''call lost while the agent link was down''\<rparr>"
  have "daemon_inv (s\<lparr>refs := fold (\<lambda>rid. hm_modify rid ?f) rids (refs s)\<rparr>)" if "daemon_inv s" for rids s
    using that
  proof (induction rids arbitrary: s)
    case (Cons rid rids)
    have "daemon_inv (s\<lparr>refs := hm_modify rid ?f (refs s)\<rparr>)" by (rule daemon_inv_resolve [OF Cons.prems]) simp_all
    from Cons.IH [OF this] show ?case by simp
  qed simp
  then show "daemon_inv s \<Longrightarrow> ?thesis" by (simp add: fail_lost_def Let_def)
qed

lemma send_held_inv: "daemon_inv s \<Longrightarrow> daemon_inv (send_held E w aid s)"
proof -
  assume inv: "daemon_inv s"
  let ?f = "\<lambda>a. if drains a aid then a\<lparr>ac_queued_calls := []\<rparr> else a"
  let ?t = "s\<lparr>actors := hm_map ?f (actors s)\<rparr>"
  have "daemon_inv ?t"
  proof (rule inv_by_actors [OF inv])
    show "keyed ac_id (actors ?t)" using keyed_map [OF daemon_invD(2) [OF inv], of ?f] by simp
    show "hosted ?t" using daemon_invD(5) [OF inv] by (auto simp: hosted_iff in_hm_map)
    have "live_actor ?t i" if "live_actor s i" for i
      using that by (auto simp: live_actor_def map_of_hm_map split: option.splits)
    then show "calls_live ?t" using daemon_invD(6) [OF inv] unfolding calls_live_iff by force
  qed simp_all
  then show ?thesis unfolding send_held_def by (intro daemon_inv_fold) (auto split: prod.splits)
qed

lemma agent_register_parts:
  assumes "daemon_inv s" "distinct (map g_index (m_gpus mach))" "reports_live s aid (reported_refs resume unacked)"
  shows "daemon_inv (adopt_refs E aid (reported_refs resume unacked)
    (adopt_actors E aid grp (snd node) resume (register_row E w aid grp node mach ctr pid serv meta s)))"
proof -
  let ?s1 = "register_row E w aid grp node mach ctr pid serv meta s" and ?rids = "reported_refs resume unacked"
  let ?s2 = "adopt_actors E aid grp (snd node) resume ?s1"
  have s1: "daemon_inv ?s1" by (rule register_row_inv [OF assms(1,2)])
  note a = adopt_actors_inv [OF s1 register_row_tables(3), of E grp "snd node" resume]
  have "reports_live ?s2 aid ?rids"
    using assms(3) a(2,3) unfolding reports_live_def by (fastforce simp: register_row_tables split: option.splits)
  then show ?thesis by (rule adopt_refs_inv [OF a(1)])
qed

lemma agent_register_inv:
  assumes "daemon_inv s" "distinct (map g_index (m_gpus mach))" "reports_live s aid (reported_refs resume unacked)"
  shows "daemon_inv (agent_register E w req aid grp node mach ctr pid serv resume unacked meta s)"
  unfolding agent_register_def Let_def
  by (intro daemon_inv_try_place send_held_inv daemon_inv_fold)
     (simp_all add: fail_lost_inv bury_missing_inv agent_register_parts assms)

lemma agent_hello_inv:
  assumes "daemon_inv s" "distinct (map g_index (m_gpus mach))" "reports_live s aid (reported_refs resume unacked)"
  shows "daemon_inv (snd (agent_hello E w req peer_ip pr aid grp claimed mach ctr pid serv resume unacked meta s))"
  using assms by (auto simp: agent_hello_def Let_def intro: agent_register_inv split: option.splits)

lemma spawn_result_inv: "daemon_inv s \<Longrightarrow> daemon_inv (spawn_result E actor ok err pid s)"
proof -
  assume inv: "daemon_inv s"
  let ?s1 = "if pid = 0 then s else s\<lparr>actors := hm_modify actor (\<lambda>a. a\<lparr>ac_pid := Some pid\<rparr>) (actors s)\<rparr>"
  have s1: "daemon_inv ?s1" using inv by (auto intro!: daemon_inv_actor_modify)
  then have "daemon_inv (?s1\<lparr>actors := hm_modify actor (\<lambda>a. if ac_state a = Spawning then a\<lparr>ac_state := Running\<rparr> else a)
      (actors ?s1)\<rparr>)"
    by (rule daemon_inv_actor_modify) (auto simp: is_dead_def)
  with mark_actor_dead_inv [OF s1] show ?thesis
    unfolding spawn_result_def Let_def by (auto split: option.splits)
qed

lemma actor_result_inv: "daemon_inv s \<Longrightarrow> daemon_inv (actor_result rid ok err pl s)"
  unfolding actor_result_def by (rule daemon_inv_resolve) (auto split: if_splits)

lemma service_note_inv: "daemon_inv s \<Longrightarrow> daemon_inv (service_note E aid name note s)"
  by (auto simp: service_note_def Let_def intro: daemon_inv_agents_modify split: option.splits)

lemma handle_agent_msg_inv: "daemon_inv s \<Longrightarrow> daemon_inv (handle_agent_msg E w aid req m pl s)"
  by (auto simp: handle_agent_msg_def actor_exit_def
      intro: spawn_result_inv actor_result_inv service_note_inv mark_actor_dead_inv split: msg.splits agent_msg.splits)

lemma agent_lost_inv: "daemon_inv s \<Longrightarrow> daemon_inv (agent_lost E w aid s)"
  by (auto simp: agent_lost_def Let_def intro: daemon_inv_agents_modify split: option.splits)

section \<open>Peers\<close>

lemma peers_wf_keyed: "peers_wf s \<longleftrightarrow> keyed pe_node_id (peers s)"
  by (simp add: peers_wf_def keyed_def)

lemma inv_by_peers: "daemon_inv s \<Longrightarrow> keyed pe_node_id ps \<Longrightarrow> daemon_inv (s\<lparr>peers := ps\<rparr>)"
proof -
  assume inv: "daemon_inv s" and "keyed pe_node_id ps"
  moreover have "claims_held (s\<lparr>peers := ps\<rparr>)"
    using claims_held_cong [of "s\<lparr>peers := ps\<rparr>" s] daemon_invD(4) [OF inv] by simp
  ultimately show ?thesis by (intro inv_by_rest [OF inv]) (simp_all add: peers_wf_keyed daemon_invD)
qed

lemma peers_keyed: "daemon_inv s \<Longrightarrow> keyed pe_node_id (peers s)"
  using daemon_invD(7) by (simp add: peers_wf_keyed)

lemma peer_modify_inv:
  assumes "daemon_inv s" "\<And>p. (i, p) \<in> set (peers s) \<Longrightarrow> pe_node_id (f p) = pe_node_id p"
  shows "daemon_inv (s\<lparr>peers := hm_modify i f (peers s)\<rparr>)"
  by (rule inv_by_peers [OF assms(1) keyed_modify [OF peers_keyed [OF assms(1)] assms(2)]])

lemma forget_peer_inv: "daemon_inv s \<Longrightarrow> daemon_inv (forget_peer E why i s)"
  unfolding forget_peer_def by (simp add: inv_by_peers keyed_remove peers_keyed)

lemma register_peer_inv: "daemon_inv s \<Longrightarrow> daemon_inv (snd (register_peer E p w s))"
proof -
  assume inv: "daemon_inv s"
  define s1 where "s1 = (case map_of (peers s) (pi_node_id p) of None \<Rightarrow> s
     | Some old \<Rightarrow> if pe_alive old then shutdown (pe_writer old) s else s)"
  have "daemon_inv s1" using inv by (simp add: s1_def split: option.splits)
  then have "daemon_inv (fold (forget_peer E ''superseded'') xs s1)" for xs
    by (intro daemon_inv_fold) (rule forget_peer_inv)
  then have "daemon_inv (fold (forget_peer E ''superseded'') xs s1
      \<lparr>peers := hm_insert (pi_node_id p) (peer_row_of E p w old) (peers (fold (forget_peer E ''superseded'') xs s1))\<rparr>)" for xs old
    by (intro inv_by_peers keyed_insert peers_keyed) simp_all
  then show ?thesis using inv
    unfolding register_peer_def Let_def s1_def by (auto split: option.splits if_splits)
qed

lemma accept_peer_inv: "daemon_inv s \<Longrightarrow> daemon_inv (snd (accept_peer E w req pr p s))"
  by (simp add: accept_peer_def Let_def register_peer_inv)

lemma hello_reply_inv: "daemon_inv s \<Longrightarrow> daemon_inv (snd (hello_reply E w seed m s))"
  by (auto simp: hello_reply_def Let_def split_def register_peer_inv split: msg.splits peer_msg.splits)

lemma handle_peer_msg_inv: "daemon_inv s \<Longrightarrow> daemon_inv (handle_peer_msg E peer m s)"
  by (auto simp: handle_peer_msg_def take_status_def Let_def deliver_peer_event_def intro!: peer_modify_inv
      split: msg.splits peer_msg.splits agent_msg.splits)

lemma peer_lost_inv: "daemon_inv s \<Longrightarrow> daemon_inv (peer_lost E w peer s)"
proof -
  assume inv: "daemon_inv s"
  have "daemon_inv (s\<lparr>peers := hm_modify peer (\<lambda>_. p') (peers s)\<rparr>)"
    if "map_of (peers s) peer = Some p" "pe_node_id p' = pe_node_id p" for p p'
    by (rule peer_modify_inv [OF inv]) (use that daemon_invD(14) [OF inv] in \<open>simp add: hm_in_get\<close>)
  with inv show ?thesis by (auto simp: peer_lost_def Let_def split: option.splits)
qed

lemma sweep_peers_inv: "daemon_inv s \<Longrightarrow> daemon_inv (sweep_peers E cuts s)"
proof -
  assume inv: "daemon_inv s"
  have a: "daemon_inv (fold (\<lambda>i s. case map_of (peers s) i of None \<Rightarrow> s | Some p \<Rightarrow> shutdown (pe_writer p) s) xs s)" for xs
    by (rule daemon_inv_fold [OF _ inv]) (auto split: option.splits)
  have b: "daemon_inv (fold (\<lambda>p. shutdown (pe_writer p)) xs t)" if "daemon_inv t" for xs t
    by (rule daemon_inv_fold [OF _ that]) simp
  have c: "daemon_inv (fold (\<lambda>p s. case map_of (peers s) (pe_node_id p) of None \<Rightarrow> s
      | Some q \<Rightarrow> emit_patch E k (f p q) why s) xs t)" if "daemon_inv t" for k f why xs t
    by (rule daemon_inv_fold [OF _ that]) (auto split: option.splits)
  have d: "daemon_inv (t\<lparr>peers := hm_map (age_peer E) (peers t)\<rparr>)" if "daemon_inv t" for t
    by (rule inv_by_peers [OF that keyed_map [OF peers_keyed [OF that]]]) (auto simp: age_peer_def)
  show ?thesis
    unfolding sweep_peers_def Let_def by (intro daemon_inv_fold forget_peer_inv c b d a)
qed

lemma probe_done_inv: "daemon_inv s \<Longrightarrow> daemon_inv (probe_done E peer local remote r mac s)"
  unfolding probe_done_def by (rule peer_modify_inv) (simp_all add: store_probe_def Let_def)

lemma probe_end_inv: "daemon_inv s \<Longrightarrow> daemon_inv (probe_end peer locals remotes ifaces s)"
  unfolding probe_end_def by (rule peer_modify_inv) (simp_all add: Let_def)

lemma push_status_inv: "daemon_inv s \<Longrightarrow> daemon_inv (push_status E s)"
  unfolding push_status_def by (rule daemon_inv_fold) simp_all

lemma dial_inv: "daemon_inv s \<Longrightarrow> daemon_inv (snd (dial t s))"
  by (simp add: dial_def)

lemma commit_fabrics_inv: "daemon_inv s \<Longrightarrow> daemon_inv (commit_fabrics E f s)"
  unfolding commit_fabrics_def by (rule daemon_inv_try_place) simp

end
