(* ===== verification/Steps.thy ===== *)
theory Steps
  imports LinkInv
begin

text \<open>
  The daemon as a transition system. A step is one hold of the state's lock by any thread: a
  client's hello or message, a kill, a part of a reap, a tick of a sweeper, an agent's
  registration or message, a peer's, a tick of the election or of the island loop. The threads
  interleave in any order, so a daemon's states are what any sequence of steps reaches.

  Two steps carry a condition on what arrives from outside. A registering agent lists each of its
  device indices once, and it reports no call of an actor this daemon has buried, unless the call
  is known here (the last property of this theory is what happens otherwise).
\<close>

section \<open>The daemon's steps\<close>

inductive daemon_step :: "state \<Rightarrow> state \<Rightarrow> bool" where
  hello: "daemon_step s (snd (client_hello E w req peer_ip pr client grp session kind claimed s))"
| client_msg: "daemon_step s (snd (handle_client_msg E rnd expired client m t pl s))"
| answer: "daemon_step s (snd (send E w m req pl s))"
| kill: "daemon_step s (kill_actor E aid s)"
| unlink: "daemon_step s (s\<lparr>client_links := filter (\<lambda>(_, v). v \<noteq> w) (client_links s)\<rparr>)"
| drop_client: "daemon_step s (s\<lparr>clients := hm_remove client (clients s)\<rparr>)"
| reap_row: "daemon_step s (snd (reap_client_row E client s))"
| defer_reap: "daemon_step s (snd (defer_reap client s))"
| reap_first: "daemon_step s (snd (reap_begin E client grp token s))"
| reap_last: "daemon_step s (reap_end E client s)"
| sweep: "daemon_step s (sweep_lifecycle E s)"
| register: "distinct (map g_index (m_gpus mach)) \<Longrightarrow> reports_live s aid (reported_refs resume unacked) \<Longrightarrow>
    daemon_step s (snd (agent_hello E w req peer_ip pr aid grp claimed mach ctr pid serv resume unacked meta s))"
| agent_msg: "daemon_step s (handle_agent_msg E w aid req m pl s)"
| agent_gone: "daemon_step s (agent_lost E w aid s)"
| peer_hello: "daemon_step s (snd (accept_peer E w req pr p s))"
| peer_reply: "daemon_step s (snd (hello_reply E w seed m s))"
| peer_msg: "daemon_step s (handle_peer_msg E peer m s)"
| peer_gone: "daemon_step s (peer_lost E w peer s)"
| peer_sweep: "daemon_step s (sweep_peers E cuts s)"
| election: "daemon_step s (snd (elect E boot t el s))"
| status: "daemon_step s (push_status E s)"
| dial_peer: "daemon_step s (snd (dial target s))"
| undial: "daemon_step s (stop_dial target s)"
| probed: "daemon_step s (probe_done E peer local remote r mac s)"
| probe_round: "daemon_step s (probe_end peer locals remotes ifaces s)"
| islands: "daemon_step s (snd (island_tick E t s0 cand s))"
| relayed: "daemon_step s (s\<lparr>counters := (counters s)\<lparr>ct_relayed := u64_add (ct_relayed (counters s)) 1\<rparr>\<rparr>)"

text \<open>A daemon starts with an empty state, in which \<open>run\<close> notes the HTTP port.\<close>

definition booted :: "state \<Rightarrow> bool" where
  "booted s \<longleftrightarrow> (\<exists>ip host addr boot port. s = (new_state ip host addr boot)\<lparr>http_port := port\<rparr>)"

lemma new_state_inv: "daemon_inv ((new_state ip host addr boot)\<lparr>http_port := port\<rparr>)"
  by (simp add: new_state_def daemon_inv_def place_inv_def agents_wf_def gpus_wf_def pgs_wf_def exclusive_def
      reserved_def live_pgs_def claims_held_def hosted_def calls_live_def peers_wf_def hm_wf_def hm_values_def)

lemma daemon_step_inv: "daemon_step s t \<Longrightarrow> daemon_inv s \<Longrightarrow> daemon_inv t"
  by (induction rule: daemon_step.induct)
     (simp_all add: client_hello_inv handle_client_msg_inv kill_actor_inv drop_client_inv reap_client_row_inv
       defer_reap_inv reap_begin_inv reap_end_inv sweep_lifecycle_inv agent_hello_inv handle_agent_msg_inv
       agent_lost_inv accept_peer_inv hello_reply_inv handle_peer_msg_inv peer_lost_inv sweep_peers_inv elect_inv
       push_status_inv dial_inv stop_dial_def probe_done_inv probe_end_inv island_tick_def Let_def commit_fabrics_inv
       split: option.splits)

interpretation daemon: transition_system booted daemon_step daemon_inv
  by unfold_locales (auto simp: booted_def new_state_inv intro: daemon_step_inv)

section \<open>Properties of every reachable state\<close>

text \<open>C1: no GPU is held by two placement groups, in any state a daemon reaches. Whatever clients,
  agents, peers and the daemon's own threads do, in any order, no device of an agent is in two
  reservations of live placement groups, and a group that still waits holds no device at all.\<close>

theorem no_gpu_reserved_twice:
  assumes "booted s" "daemon_step\<^sup>*\<^sup>* s t"
  shows "distinct (reserved t)
    \<and> (\<forall>(k, p) \<in> set (pgs t). pg_state p = Pending \<longrightarrow> somes (pg_assignment p) = [])"
  using daemon.inv_reached [OF assms]
  by (auto simp: daemon_inv_def place_inv_def exclusive_def pgs_wf_def)

text \<open>C2: no call waits on a dead actor, in any state a daemon reaches as long as agents report no
  call of an actor it has buried (the condition of the step \<open>register\<close>). A call that is pending
  names an actor the daemon has a row for and has not declared dead, so whatever resolves it can
  still happen: a result, or the actor's death.\<close>

theorem no_call_waits_on_a_dead_actor:
  assumes "booted s" "daemon_step\<^sup>*\<^sup>* s t" "map_of (refs t) rid = Some r" "rf_state r = RefPending"
  shows "\<exists>i a. rf_actor r = Some i \<and> map_of (actors t) i = Some a \<and> \<not> is_dead (ac_state a)"
proof -
  have "calls_live t" using daemon.inv_reached [OF assms(1,2)] by (rule daemon_invD)
  from calls_liveD [OF this map_of_SomeD [OF assms(3)] assms(4)] show ?thesis
    by (auto simp: live_actor_def split: option.splits)
qed

text \<open>Nothing is left behind, in any state a daemon reaches. Every claim in the table has a
  holder, and every actor, dead or alive, is on an agent the daemon still has a row for.\<close>

theorem no_claim_or_actor_left_behind:
  assumes "booted s" "daemon_step\<^sup>*\<^sup>* s t"
  shows "(\<forall>k c. map_of (claims t) k = Some c \<longrightarrow> cm_holders c \<noteq> [])
    \<and> (\<forall>i a. map_of (actors t) i = Some a \<longrightarrow> hm_has (agents t) (ac_agent a))"
proof -
  note inv = daemon_invD [OF daemon.inv_reached [OF assms]]
  have "cm_holders c \<noteq> []" if "map_of (claims t) k = Some c" for k c
    using inv(4) map_of_SomeD [OF that] by (auto simp: claims_held_def)
  moreover have "hm_has (agents t) (ac_agent a)" if "map_of (actors t) i = Some a" for i a
    using inv(5) map_of_SomeD [OF that] by (auto simp: hosted_iff)
  ultimately show ?thesis by blast
qed

text \<open>The exception to the calls above. An agent that comes back may report a call of an
  actor this daemon has meanwhile declared dead, and whose calls it has dropped. The daemon takes
  the call back as pending, and the report that the actor's process exited leaves it pending,
  because the actor is dead already: a driver that waits for it without a limit is not answered.\<close>

theorem resumed_call_of_a_dead_actor:
  assumes "hm_wf (actors s)" "map_of (actors s) i = Some a" "is_dead (ac_state a)" "ac_agent a = aid"
    and "\<not> hm_has (refs s) (i @ CHR '':'' # n)" "CHR '':'' \<notin> set n" "\<not> starts_with ''p:'' (i @ CHR '':'' # n)"
  shows "resolve_ref (adopt_ref E aid (i @ CHR '':'' # n) s) (i @ CHR '':'' # n) = ResPending
    \<and> resolve_ref (handle_agent_msg E' w aid req (A (ActorExit i code sig)) pl (adopt_ref E aid (i @ CHR '':'' # n) s))
        (i @ CHR '':'' # n) = ResPending"
proof -
  let ?rid = "i @ CHR '':'' # n" and ?t = "adopt_ref E aid (i @ CHR '':'' # n) s"
  have "rsplit_once (CHR '':'') ?rid = Some (i, n)" using assms(6) by (simp add: rsplit_once_Some)
  then have t: "actors ?t = actors s" "\<exists>r. map_of (refs ?t) ?rid = Some r \<and> rf_state r = RefPending"
    using assms by (simp_all add: adopt_ref_def map_of_hm_insert)
  have "handle_agent_msg E' w aid req (A (ActorExit i code sig)) pl ?t =
      ?t\<lparr>counters := count_exit code sig (counters ?t)\<rparr>"
    using assms(2,3) t(1) by (simp add: handle_agent_msg_def actor_exit_def mark_actor_dead_def)
  with t(2) assms(7) show ?thesis by (auto simp: resolve_ref_def)
qed

end
