(* ===== verification/AgentProps.thy ===== *)
theory AgentProps
  imports AgentProc Steps
begin

text \<open>
  The agent process as a transition system, and what it owes the daemon. A step is what one thread
  does between two locks: a part of \<open>send_daemon\<close>, of \<open>serve_once\<close> or of \<open>spawn_actor\<close>, a message of the
  daemon, the end of the link, a ping, the exit of a process, a round of a watcher.

  Three conditions hold of what comes from outside: the daemon spawns no actor under an id the
  agent still has a row or a thread for, the system gives no process the pid 0, and a new host's socket is
  none that is in use.
\<close>

section \<open>Steps\<close>

definition hosts_of :: "agent_proc \<Rightarrow> sock set" where
  "hosts_of a = set (List.map_filter (\<lambda>(i, h). ha_host h) (ap_actors a))"

fun spawn_given :: "agent_proc \<Rightarrow> spawn_event \<Rightarrow> bool" where
  "spawn_given a (Forks pid) \<longleftrightarrow> pid \<noteq> 0"
| "spawn_given a (Greets v m) \<longleftrightarrow> v \<notin> sf_sock ` set (ap_sent a) \<and> v \<notin> hosts_of a"
| "spawn_given a ev \<longleftrightarrow> True"

definition says_given :: "agent_proc \<Rightarrow> msg \<Rightarrow> bool" where
  "says_given a m \<longleftrightarrow> (case m of A (ActorSpawn i _ _ _ _) \<Rightarrow>
     \<not> hm_has (ap_actors a) i \<and> i \<notin> fst ` set (ap_spawns a) | _ \<Rightarrow> True)"

inductive agent_step :: "agent_opts \<Rightarrow> agent_proc \<Rightarrow> agent_proc \<Rightarrow> bool" for ao where
  sends: "agent_step ao a (send_part W n a)"
| serves: "agent_step ao a (serve_part W ao w reply a)"
| says: "says_given a m \<Longrightarrow> agent_step ao a (daemon_says W req m pl a)"
| link_ends: "agent_step ao a (daemon_ends a)"
| pings: "agent_step ao a (ping W w a)"
| spawns: "spawn_given a ev \<Longrightarrow> agent_step ao a (spawn_actor W dir python n ev a)"
| reaps: "agent_step ao a (reap n code sig a)"
| watches: "agent_step ao a (snd (watch_round late bound name st a))"

section \<open>Nothing held is lost\<close>

text \<open>The messages for the daemon that the process holds, and the frames it wrote without an error.\<close>

fun backlog :: "phase \<Rightarrow> (msg \<times> payload) list" where
  "backlog (Draining w b) = b"
| "backlog ph = []"

definition held :: "agent_proc \<Rightarrow> (msg \<times> payload) list" where
  "held a = map snd (ap_sends a) @ ap_unsent a @ backlog (ap_phase a)"

definition delivered :: "sent_frame list \<Rightarrow> (msg \<times> payload) list" where
  "delivered fs = map (\<lambda>f. (sf_msg f, sf_payload f)) (filter sf_ok fs)"

definition keeps :: "agent_proc \<Rightarrow> agent_proc \<Rightarrow> bool" where
  "keeps a b \<longleftrightarrow> (\<exists>fs. ap_sent b = ap_sent a @ fs \<and> mset (held a) \<subseteq># mset (held b) + mset (delivered fs))"

lemma delivered_append [simp]: "delivered (fs @ gs) = delivered fs @ delivered gs"
  by (simp add: delivered_def)

lemma delivered_simps [simp]:
  "delivered [] = []" "delivered (f # fs) = (if sf_ok f then [(sf_msg f, sf_payload f)] else []) @ delivered fs"
  by (simp_all add: delivered_def)

lemma keeps_refl [simp]: "keeps a a"
  by (simp add: keeps_def delivered_def)

lemma keeps_trans:
  assumes "keeps a b" "keeps b c"
  shows "keeps a c"
proof -
  from assms obtain d e where d: "ap_sent b = ap_sent a @ d" "mset (held a) \<subseteq># mset (held b) + mset (delivered d)"
    and e: "ap_sent c = ap_sent b @ e" "mset (held b) \<subseteq># mset (held c) + mset (delivered e)"
    by (auto simp: keeps_def)
  from d(2) e(2) have "mset (held a) \<subseteq># mset (held c) + mset (delivered e) + mset (delivered d)"
    by (meson subset_mset.add_right_mono subset_mset.order_trans)
  with d(1) e(1) show ?thesis by (auto simp: keeps_def ac_simps intro!: exI [of _ "d @ e"])
qed

lemma keeps_if_held:
  "ap_sent b = ap_sent a \<Longrightarrow> mset (held a) \<subseteq># mset (held b) \<Longrightarrow> keeps a b"
  by (auto simp: keeps_def delivered_def)

lemma keeps_frame [simp]: "keeps a (snd (frame_to W w m req pl a))"
  by (auto simp: keeps_def frame_to_def delivered_def held_def Let_def)

lemma keeps_frame_then:
  "frame_to W w m req pl a = (ok, a1) \<Longrightarrow> keeps a1 b \<Longrightarrow> keeps a b"
  by (metis keeps_frame keeps_trans snd_conv)

lemma mset_drop_nth:
  assumes "i < length xs"
  shows "mset xs = add_mset (xs ! i) (mset (drop_nth i xs))"
  using arg_cong [OF id_take_nth_drop [OF assms], of mset] by (simp add: drop_nth_def)

text \<open>A frame that was written without an error pays for one held message.\<close>

lemma keeps_paid:
  assumes "frame_to W w m req pl a = (True, a1)" "ap_sent b = ap_sent a1"
    and "mset (held a) = add_mset (m, pl) (mset (held b))"
  shows "keeps a b"
  using assms by (auto simp: keeps_def frame_to_def Let_def)

lemma frame_to_sel:
  "frame_to W w m req pl a = (ok, a1) \<Longrightarrow> ap_sends a1 = ap_sends a \<and> ap_unsent a1 = ap_unsent a
    \<and> ap_phase a1 = ap_phase a \<and> ap_actors a1 = ap_actors a \<and> ap_spawns a1 = ap_spawns a
    \<and> ap_reapers a1 = ap_reapers a \<and> ap_signals a1 = ap_signals a \<and> ap_daemon a1 = ap_daemon a"
  by (auto simp: frame_to_def Let_def)

lemma frame_to_snd [simp]:
  "ap_sends (snd (frame_to W w m req pl a)) = ap_sends a" "ap_unsent (snd (frame_to W w m req pl a)) = ap_unsent a"
  "ap_phase (snd (frame_to W w m req pl a)) = ap_phase a" "ap_actors (snd (frame_to W w m req pl a)) = ap_actors a"
  "ap_spawns (snd (frame_to W w m req pl a)) = ap_spawns a" "ap_reapers (snd (frame_to W w m req pl a)) = ap_reapers a"
  "ap_signals (snd (frame_to W w m req pl a)) = ap_signals a"
  by (simp_all add: frame_to_def Let_def)

lemma map_snd_move:
  "i < length xs \<Longrightarrow> snd (xs ! i) = snd y \<Longrightarrow> map snd (xs[i := y]) = map snd xs"
  by (metis list_update_id map_update nth_map length_map)

lemma mset_map_drop_nth:
  "i < length xs \<Longrightarrow> mset (map f xs) = add_mset (f (xs ! i)) (mset (map f (drop_nth i xs)))"
  by (subst mset_map, subst mset_drop_nth, assumption) simp

lemma keeps_send_part: "keeps a (send_part W i a)"
proof (cases "i < length (ap_sends a)")
  case True
  obtain st m pl where f: "ap_sends a ! i = (st, m, pl)" by (cases "ap_sends a ! i")
  note move = map_snd_move [OF True] and gone = mset_map_drop_nth [OF True, of snd]
  show ?thesis
  proof (cases st)
    case Calling
    then show ?thesis using True f move by (auto simp: send_part_def held_def intro!: keeps_if_held)
  next
    case (Holding link)
    show ?thesis
    proof (cases link)
      case None
      then show ?thesis using True f Holding move by (auto simp: send_part_def held_def intro!: keeps_if_held)
    next
      case (Some w)
      obtain ok a1 where fr: "frame_to W w m 0 pl a = (ok, a1)" by fastforce
      show ?thesis
      proof (cases ok)
        case True
        then show ?thesis using \<open>i < _\<close> f Holding Some fr gone frame_to_sel [OF fr]
          by (auto simp: send_part_def held_def intro!: keeps_paid [of W w m 0 pl a a1])
      next
        case False
        then show ?thesis using \<open>i < _\<close> f Holding Some fr move frame_to_sel [OF fr]
          by (auto simp: send_part_def held_def intro!: keeps_frame_then [OF fr] keeps_if_held)
      qed
    qed
  next
    case Failed
    then show ?thesis using True f gone by (auto simp: send_part_def held_def intro!: keeps_if_held)
  qed
qed (simp add: send_part_def)

lemma keeps_link_down: "\<not> draining (ap_phase a) \<Longrightarrow> keeps a (link_down a)"
  by (rule keeps_if_held) (cases "ap_phase a"; simp add: link_down_def held_def)+

lemma keeps_serve_part: "keeps a (serve_part W ao w reply a)"
proof (cases "ap_phase a")
  case (Reported v res una)
  obtain ok a1 where fr: "frame_to W v (register_msg ao (ap_service_notes a) res una) 1 [] a = (ok, a1)" by fastforce
  have "keeps a1 (serve_part W ao w reply a)"
    using Reported fr frame_to_sel [OF fr] by (auto simp: serve_part_def held_def intro!: keeps_link_down keeps_if_held)
  with fr show ?thesis by (rule keeps_frame_then)
next
  case (Draining v b)
  show ?thesis
  proof (cases b)
    case Nil
    then show ?thesis using Draining by (auto simp: serve_part_def held_def intro!: keeps_if_held)
  next
    case (Cons x rest)
    obtain m pl where x: "x = (m, pl)" by fastforce
    obtain ok a1 where fr: "frame_to W v m 0 pl a = (ok, a1)" by fastforce
    show ?thesis
    proof (cases ok)
      case True
      then show ?thesis using Draining Cons x fr frame_to_sel [OF fr]
        by (auto simp: serve_part_def held_def intro!: keeps_paid [of W v m 0 pl a a1])
    next
      case False
      then show ?thesis using Draining Cons x fr frame_to_sel [OF fr]
        by (auto simp: serve_part_def held_def intro!: keeps_frame_then [OF fr] keeps_if_held)
    qed
  qed
qed (auto simp: serve_part_def held_def link_down_def intro!: keeps_if_held split: option.splits)

text \<open>Steps that touch neither the messages held nor the frames written, or only add to them.\<close>

lemma keeps_untouched:
  "ap_sent b = ap_sent a \<Longrightarrow> ap_sends b = ap_sends a \<Longrightarrow> ap_unsent b = ap_unsent a \<Longrightarrow> ap_phase b = ap_phase a
    \<Longrightarrow> keeps a b"
  by (rule keeps_if_held) (simp_all add: held_def)

lemma keeps_call_send:
  "keeps a b \<Longrightarrow> keeps a (call_send m pl b)"
  by (erule keeps_trans, rule keeps_if_held) (simp_all add: call_send_def held_def)

lemma keeps_kill: "keeps a (kill_actor_process i a)"
  by (rule keeps_untouched) (simp_all add: kill_actor_process_def split: option.split)

lemma keeps_frame_after: "keeps a b \<Longrightarrow> keeps a (snd (frame_to W w m req pl b))"
  by (rule keeps_trans [OF _ keeps_frame])

lemma keeps_dispatch: "keeps a (on_dispatch W w i rid method pl a)"
proof -
  have "keeps a (snd (case map_of (ap_actors a) i of
               None \<Rightarrow> (False, a)
             | Some h \<Rightarrow>
                 (let a0 = a\<lparr>ap_actors := hm_modify i (\<lambda>h. h\<lparr>ha_pending_refs := List.insert rid (ha_pending_refs h)\<rparr>)
                        (ap_actors a)\<rparr>
                  in case ha_host h of
                       Some v \<Rightarrow> frame_to W v (H (HostCall rid method)) 0 pl a0
                     | None \<Rightarrow> (True, a0\<lparr>ap_actors := hm_modify i
                           (\<lambda>h. h\<lparr>ha_queued_calls := ha_queued_calls h @ [(rid, method, pl)]\<rparr>) (ap_actors a0)\<rparr>))))"
    by (auto simp: Let_def intro!: keeps_untouched keeps_frame_after split: option.split)
  then show ?thesis
    by (auto simp: on_dispatch_def intro!: keeps_frame_after split: prod.split)
qed

lemma keeps_spawn_failed: "keeps a (spawn_failed W w i err a)"
  by (auto simp: spawn_failed_def intro!: keeps_untouched keeps_frame_after)

lemma keeps_forked: "keeps a (forked i pid a)"
proof -
  have "keeps a (kill_actor_process i (a\<lparr>ap_actors := t\<rparr>))" for t
    by (rule keeps_trans [OF keeps_untouched keeps_kill]) simp_all
  then show ?thesis by (auto simp: forked_def Let_def intro!: keeps_untouched split: option.split)
qed

lemma keeps_host_call: "keeps a (host_call W v q a)"
  by (cases q, cases "frame_to W v (H (HostCall (fst q) (fst (snd q)))) 0 (snd (snd q)) a")
     (auto simp: host_call_def intro!: keeps_call_send dest: keeps_frame_then [OF _ keeps_refl])

lemma keeps_fold: "(\<And>x a. keeps a (f x a)) \<Longrightarrow> keeps a (fold f xs a)"
  by (induction xs arbitrary: a) (auto intro: keeps_trans)

lemma keeps_publish: "keeps a (publish W i v a)"
  by (auto simp: publish_def split: option.split intro!: keeps_trans [OF keeps_untouched keeps_fold] keeps_host_call)

lemma keeps_host_says: "keeps a (host_says i pid m pl a)"
  by (auto simp: host_says_def intro!: keeps_call_send keeps_untouched split: msg.split host_msg.split)

lemma keeps_threads: "keeps a b \<Longrightarrow> keeps a (end_spawn n b)" "keeps a b \<Longrightarrow> keeps a (move_spawn n sp b)"
  "keeps a b \<Longrightarrow> keeps a (b\<lparr>ap_reapers := r\<rparr>)"
  by (auto simp: end_spawn_def move_spawn_def intro: keeps_trans [OF _ keeps_untouched])

lemma keeps_spawn: "keeps a (spawn_actor W dir python n ev a)"
proof (cases "n < length (ap_spawns a)")
  case True
  obtain i w sp where t: "ap_spawns a ! n = (i, w, sp)" by (cases "ap_spawns a ! n")
  have pub: "keeps a (move_spawn n s (publish W i v a1))" if "frame_to W v m req pl a = (ok, a1)" for v m req pl ok a1 s
    by (rule keeps_threads, rule keeps_frame_then [OF that keeps_publish])
  have fin: "keeps a (end_spawn n a1)" if "frame_to W v m req pl a = (ok, a1)" for v m req pl ok a1
    by (rule keeps_threads, rule keeps_frame_then [OF that keeps_refl])
  show ?thesis
    using True t by (cases sp; cases ev)
      (auto simp: spawn_actor_def Let_def pub fin
        intro!: keeps_threads keeps_spawn_failed keeps_forked keeps_host_says keeps_untouched split: prod.split)
qed (simp add: spawn_actor_def)

lemma keeps_reap: "keeps a (reap n code sig a)"
  by (auto simp: reap_def intro!: keeps_call_send keeps_untouched split: prod.split)

lemma keeps_watch: "keeps a (snd (watch_round late bound name st a))"
  by (auto simp: watch_round_def intro!: keeps_call_send keeps_untouched split: prod.split)

lemma keeps_says: "keeps a (daemon_says W req m pl a)"
  by (auto simp: daemon_says_def on_spawn_def intro!: keeps_kill keeps_dispatch keeps_untouched
      split: phase.split msg.split agent_msg.split)

lemma keeps_daemon_ends: "keeps a (daemon_ends a)"
  by (auto simp: daemon_ends_def intro!: keeps_link_down split: phase.split)

lemma keeps_ping: "keeps a (ping W w a)"
proof (cases "frame_to W w (A Ping) 0 [] a")
  case (Pair ok a1)
  then have "keeps a1 (ping W w a)" by (auto simp: ping_def intro!: keeps_untouched)
  with Pair show ?thesis by (rule keeps_frame_then)
qed

lemma agent_step_keeps: "agent_step ao a b \<Longrightarrow> keeps a b"
  by (induction rule: agent_step.induct)
     (auto intro: keeps_send_part keeps_serve_part keeps_says keeps_daemon_ends keeps_ping keeps_spawn keeps_reap
        keeps_watch)

interpretation kept: transition_system "\<lambda>b. b = a" "agent_step ao" "keeps a" for a ao
  by unfold_locales (auto intro: keeps_trans agent_step_keeps)

section \<open>No call is forgotten\<close>

text \<open>The actor's end was reported, or is about to be: its process exited, or did not start.\<close>

definition gone :: "string \<Rightarrow> agent_proc \<Rightarrow> bool" where
  "gone i a \<longleftrightarrow> (\<exists>code sig. (A (ActorExit i code sig), []) \<in> set (held a @ delivered (ap_sent a)))
     \<or> (\<exists>err. A (ActorSpawnResult i False err 0) \<in> sf_msg ` set (ap_sent a))"

definition answered :: "string \<Rightarrow> agent_proc \<Rightarrow> bool" where
  "answered rid a \<longleftrightarrow> Some rid \<in> (\<lambda>(m, pl). result_ref m) ` set (held a @ delivered (ap_sent a))"

definition pending_at :: "string \<Rightarrow> string \<Rightarrow> agent_proc \<Rightarrow> bool" where
  "pending_at i rid a \<longleftrightarrow> (case map_of (ap_actors a) i of None \<Rightarrow> False | Some h \<Rightarrow> rid \<in> set (ha_pending_refs h))"

definition accounted :: "string \<Rightarrow> string \<Rightarrow> agent_proc \<Rightarrow> bool" where
  "accounted i rid a \<longleftrightarrow> pending_at i rid a \<or> answered rid a \<or> gone i a"

lemma keeps_set:
  assumes "keeps a b"
  shows "set (held a @ delivered (ap_sent a)) \<subseteq> set (held b @ delivered (ap_sent b))"
    and "set (ap_sent a) \<subseteq> set (ap_sent b)"
proof -
  obtain fs where fs: "ap_sent b = ap_sent a @ fs" "mset (held a) \<subseteq># mset (held b) + mset (delivered fs)"
    using assms by (auto simp: keeps_def)
  have "set (held a) \<subseteq> set (held b) \<union> set (delivered fs)" using set_mset_mono [OF fs(2)] by simp
  with fs(1) show "set (held a @ delivered (ap_sent a)) \<subseteq> set (held b @ delivered (ap_sent b))"
    and "set (ap_sent a) \<subseteq> set (ap_sent b)" by auto
qed

lemma gone_mono: "keeps a b \<Longrightarrow> gone i a \<Longrightarrow> gone i b"
  unfolding gone_def using keeps_set [of a b] by (blast dest: image_mono)

lemma answered_mono: "keeps a b \<Longrightarrow> answered rid a \<Longrightarrow> answered rid b"
  unfolding answered_def using keeps_set(1) [of a b] by (blast dest: image_mono)

text \<open>What each operation does to the rows.\<close>

named_theorems row_simps

lemma rows_kill [row_simps]:
  "map_of (ap_actors (kill_actor_process i a)) j = (if j = i
     then map_option (\<lambda>h. if ha_pid h = 0 then h\<lparr>ha_kill_requested := True\<rparr> else h) (map_of (ap_actors a) i)
     else map_of (ap_actors a) j)"
  by (auto simp: kill_actor_process_def map_of_hm_modify split: option.split)

lemma rows_on_spawn [row_simps]:
  "map_of (ap_actors (on_spawn w i name gpus owner pl a)) j = (if j = i
     then Some \<lparr>ha_name = name, ha_owner = owner, ha_pid = 0, ha_gpu_ids = gpus, ha_host = None,
       ha_pending_refs = [], ha_queued_calls = [], ha_kill_requested = False\<rparr> else map_of (ap_actors a) j)"
  by (simp add: on_spawn_def map_of_hm_insert)

lemma rows_frame [row_simps]: "frame_to W w m req pl a = (ok, b) \<Longrightarrow> ap_actors b = ap_actors a"
  by (simp add: frame_to_sel)

definition dispatch_row :: "string \<Rightarrow> string \<Rightarrow> payload \<Rightarrow> host_actor \<Rightarrow> host_actor" where
  "dispatch_row rid method pl h = h\<lparr>ha_pending_refs := List.insert rid (ha_pending_refs h),
     ha_queued_calls := ha_queued_calls h @ (if ha_host h = None then [(rid, method, pl)] else [])\<rparr>"

lemma rows_dispatch [row_simps]:
  "map_of (ap_actors (on_dispatch W w i rid method pl a)) j = (if j = i
     then map_option (dispatch_row rid method pl) (map_of (ap_actors a) i) else map_of (ap_actors a) j)"
proof (cases "map_of (ap_actors a) i")
  case None
  then show ?thesis by (auto simp: on_dispatch_def)
next
  case (Some h)
  show ?thesis
  proof (cases "ha_host h")
    case None
    then show ?thesis using Some by (auto simp: on_dispatch_def dispatch_row_def map_of_hm_modify)
  next
    case (Some v)
    let ?a0 = "a\<lparr>ap_actors := hm_modify i (\<lambda>h. h\<lparr>ha_pending_refs := List.insert rid (ha_pending_refs h)\<rparr>) (ap_actors a)\<rparr>"
    have "ap_actors (on_dispatch W w i rid method pl a) = ap_actors ?a0"
      using Some \<open>map_of _ i = Some h\<close>
      by (auto simp: on_dispatch_def Let_def frame_to_sel split: prod.split)
    then show ?thesis using Some \<open>map_of _ i = Some h\<close>
      by (auto simp: dispatch_row_def map_of_hm_modify)
  qed
qed

lemma rows_spawn_failed [row_simps]:
  "ap_actors (spawn_failed W w i err a) = hm_remove i (ap_actors a)"
  by (simp add: spawn_failed_def)

lemma rows_forked [row_simps]:
  "map_of (ap_actors (forked i pid a)) j = (if j = i
     then map_option (\<lambda>h. if pid = 0 \<and> ha_kill_requested h then h\<lparr>ha_pid := 0, ha_kill_requested := True\<rparr> else h\<lparr>ha_pid := pid\<rparr>)
       (map_of (ap_actors a) i)
     else map_of (ap_actors a) j)"
  by (auto simp: forked_def rows_kill map_of_hm_modify Let_def split: option.split)

lemma rows_call_send [row_simps]: "ap_actors (call_send m pl a) = ap_actors a"
  by (simp add: call_send_def)

lemma rows_host_call: "ap_actors (host_call W v q a) = ap_actors a"
  by (cases q) (auto simp: host_call_def rows_call_send frame_to_sel split: prod.split)

lemma rows_publish [row_simps]:
  "map_of (ap_actors (publish W i v a)) j = (if j = i
     then map_option (\<lambda>h. h\<lparr>ha_host := Some v, ha_queued_calls := []\<rparr>) (map_of (ap_actors a) i)
     else map_of (ap_actors a) j)"
proof -
  have "ap_actors (fold (host_call W v) qs b) = ap_actors b" for qs b
    by (induction qs arbitrary: b) (simp_all add: rows_host_call)
  then show ?thesis by (auto simp: publish_def map_of_hm_modify split: option.split)
qed

lemma rows_threads [row_simps]:
  "ap_actors (end_spawn n a) = ap_actors a" "ap_actors (move_spawn n sp a) = ap_actors a"
  by (simp_all add: end_spawn_def move_spawn_def)

lemma rows_serve [row_simps]: "ap_actors (serve_part W ao w reply a) = ap_actors a"
  by (auto simp: serve_part_def link_down_def frame_to_sel split: phase.split option.split prod.split list.split)

lemma rows_send_part [row_simps]: "ap_actors (send_part W n a) = ap_actors a"
  by (auto simp: send_part_def frame_to_sel split: sending.split option.split prod.split)

lemma rows_ping [row_simps]: "ap_actors (ping W w a) = ap_actors a"
  by (auto simp: ping_def frame_to_sel split: prod.split)

lemma rows_watch [row_simps]: "ap_actors (snd (watch_round late bound name st a)) = ap_actors a"
  by (auto simp: watch_round_def rows_call_send split: prod.split)

lemma rows_daemon_ends [row_simps]: "ap_actors (daemon_ends a) = ap_actors a"
  by (auto simp: daemon_ends_def link_down_def split: phase.split)

lemma held_call_send: "held (call_send m pl a) = map snd (ap_sends a) @ [(m, pl)] @ ap_unsent a @ backlog (ap_phase a)"
  by (simp add: held_def call_send_def)

lemma gone_reaped:
  "n < length (ap_reapers a) \<Longrightarrow> ap_reapers a ! n = (i, pid) \<Longrightarrow> gone i (reap n code sig a)"
  by (auto simp: reap_def gone_def held_call_send)

lemma gone_spawn_failed: "gone i (spawn_failed W w i err a)"
  by (auto simp: gone_def spawn_failed_def frame_to_def Let_def)

lemma gone_end_spawn [simp]: "gone i (end_spawn n a) = gone i a"
  by (simp add: gone_def end_spawn_def held_def)

lemma pending_host_says:
  assumes "pending_at i rid a"
  shows "pending_at i rid (host_says j pid m pl a) \<or> answered rid (host_says j pid m pl a)"
  using assms
  by (auto simp: host_says_def pending_at_def answered_def held_call_send result_ref_def rows_call_send map_of_hm_modify
      split: msg.split host_msg.split option.splits)

lemma pending_daemon_says:
  assumes "pending_at i rid a" "says_given a m"
  shows "pending_at i rid (daemon_says W req m pl a)"
  using assms
  by (auto simp: pending_at_def daemon_says_def says_given_def hm_has_def row_simps dispatch_row_def
      split: phase.split msg.split agent_msg.splits option.splits if_splits)

lemma pending_spawn:
  assumes "pending_at i rid a"
  shows "accounted i rid (spawn_actor W dir python n ev a)"
proof (cases "n < length (ap_spawns a)")
  case True
  obtain j w sp where t: "ap_spawns a ! n = (j, w, sp)" by (cases "ap_spawns a ! n")
  have failed: "accounted i rid (end_spawn n (spawn_failed W w j err a))" for err
    using assms gone_spawn_failed [of j W w err a]
    by (cases "j = i") (auto simp: accounted_def pending_at_def row_simps map_of_hm_remove)
  have published: "pending_at i rid (publish W j v b)" if "ap_actors b = ap_actors a" for v b
    using assms that by (auto simp: pending_at_def row_simps split: option.splits)
  have forks: "pending_at i rid (forked j pid a)" for pid
    using assms by (auto simp: pending_at_def row_simps split: option.splits)
  have threads: "pending_at i rid (end_spawn n b) = pending_at i rid b"
    "pending_at i rid (move_spawn n s b) = pending_at i rid b"
    "pending_at i rid (b\<lparr>ap_reapers := r\<rparr>) = pending_at i rid b"
    "pending_at i rid (b\<lparr>ap_signals := q\<rparr>) = pending_at i rid b" for b s r q
    by (simp_all add: pending_at_def row_simps)
  have said: "answered rid (host_says j pid m pl a)" if "\<not> pending_at i rid (host_says j pid m pl a)" for pid m pl
    using pending_host_says [OF assms] that by blast
  have frame: "pending_at i rid b" if "frame_to W v m req pl a = (ok, b)" for v m req pl ok b
    using assms frame_to_sel [OF that] by (simp add: pending_at_def)
  show ?thesis
    using True t assms failed
    by (cases sp; cases ev) (auto simp: spawn_actor_def Let_def accounted_def threads forks frame frame_to_sel
        intro!: published said split: prod.split)
qed (simp add: spawn_actor_def assms accounted_def)

lemma pending_reap:
  assumes "pending_at i rid a"
  shows "accounted i rid (reap n code sig a)"
proof (cases "n < length (ap_reapers a)")
  case True
  obtain j pid where t: "ap_reapers a ! n = (j, pid)" by (cases "ap_reapers a ! n")
  show ?thesis
  proof (cases "j = i")
    case True
    then show ?thesis using gone_reaped [OF \<open>n < _\<close>] t by (simp add: accounted_def)
  next
    case False
    then show ?thesis using assms t
      by (auto simp: reap_def accounted_def pending_at_def rows_call_send map_of_hm_remove)
  qed
qed (simp add: reap_def assms accounted_def)

lemma accounted_step:
  assumes "agent_step ao a b" "accounted i rid a"
  shows "accounted i rid b"
proof (cases "pending_at i rid a")
  case False
  then show ?thesis using assms agent_step_keeps [OF assms(1)]
    by (auto simp: accounted_def intro: answered_mono gone_mono)
next
  case True
  have same: "pending_at i rid c \<Longrightarrow> ap_actors d = ap_actors c \<Longrightarrow> accounted i rid d" for c d
    by (simp add: accounted_def pending_at_def)
  have pend: "pending_at i rid c \<Longrightarrow> accounted i rid c" for c by (simp add: accounted_def)
  show ?thesis using assms(1) True
    by (induction rule: agent_step.induct)
       (auto simp: row_simps intro: same pending_spawn pending_reap pend [OF pending_daemon_says])
qed

interpretation accounts: transition_system "accounted i rid" "agent_step ao" "accounted i rid" for i rid ao
  by unfold_locales (auto intro: accounted_step)

section \<open>Threads, pids and kills\<close>

text \<open>Every row belongs to exactly one thread that will remove it: the one that still starts the
  process, or the one that waits for its exit, which knows the row's pid.\<close>

fun starts :: "(string \<times> sock \<times> spawning) list \<Rightarrow> string list" where
  "starts [] = []"
| "starts ((i, w, Starting pl) # ts) = i # starts ts"
| "starts (t # ts) = starts ts"

lemma starts_append [simp]: "starts (xs @ ys) = starts xs @ starts ys"
  by (induction xs rule: starts.induct) simp_all

definition pid_of :: "agent_proc \<Rightarrow> string \<Rightarrow> nat option" where
  "pid_of a i = map_option ha_pid (map_of (ap_actors a) i)"

definition spawn_pid :: "spawning \<Rightarrow> nat" where
  "spawn_pid sp = (case sp of Starting _ \<Rightarrow> 1 | Forked pid _ \<Rightarrow> pid | Relaying pid \<Rightarrow> pid)"

definition threads_wf :: "agent_proc \<Rightarrow> bool" where
  "threads_wf a \<longleftrightarrow> distinct (starts (ap_spawns a) @ map fst (ap_reapers a))
     \<and> dom (pid_of a) = set (starts (ap_spawns a)) \<union> fst ` set (ap_reapers a)
     \<and> (\<forall>i \<in> set (starts (ap_spawns a)). pid_of a i = Some 0)
     \<and> (\<forall>i pid. (i, pid) \<in> set (ap_reapers a) \<longrightarrow> pid \<noteq> 0 \<and> pid_of a i = Some pid)
     \<and> 0 \<notin> (\<lambda>t. spawn_pid (snd (snd t))) ` set (ap_spawns a)
     \<and> ToGroup 0 \<notin> set (ap_signals a) \<and> ToProcess 0 \<notin> set (ap_signals a)"

lemma threads_wf_same:
  assumes "threads_wf a" "pid_of b = pid_of a" "ap_spawns b = ap_spawns a" "ap_reapers b = ap_reapers a"
    and "ToGroup 0 \<notin> set (ap_signals b) \<and> ToProcess 0 \<notin> set (ap_signals b)"
  shows "threads_wf b"
  using assms by (simp add: threads_wf_def)

lemma threads_wf_signals: "threads_wf a \<Longrightarrow> ToGroup 0 \<notin> set (ap_signals a) \<and> ToProcess 0 \<notin> set (ap_signals a)"
  by (simp add: threads_wf_def)

lemma drop_nth_length [simp]: "drop_nth (length xs) (xs @ y # ys) = xs @ ys"
  by (simp add: drop_nth_def)

lemma nth_split:
  assumes "n < length xs"
  obtains ys zs where "xs = ys @ xs ! n # zs" "n = length ys"
  using id_take_nth_drop [OF assms] assms that [of "take n xs" "drop (Suc n) xs"] by auto

text \<open>The threads after an operation.\<close>

named_theorems thread_simps

lemma threads_kill [thread_simps]:
  "ap_spawns (kill_actor_process i a) = ap_spawns a" "ap_reapers (kill_actor_process i a) = ap_reapers a"
  "pid_of (kill_actor_process i a) = pid_of a"
  by (auto simp: kill_actor_process_def pid_of_def map_of_hm_modify fun_eq_iff option.map_comp
      split: option.split intro!: option.map_cong0)

lemma threads_dispatch [thread_simps]:
  "ap_spawns (on_dispatch W w i rid m pl a) = ap_spawns a" "ap_reapers (on_dispatch W w i rid m pl a) = ap_reapers a"
  "ap_signals (on_dispatch W w i rid m pl a) = ap_signals a" "pid_of (on_dispatch W w i rid m pl a) = pid_of a"
proof -
  show "pid_of (on_dispatch W w i rid m pl a) = pid_of a"
    by (auto simp: pid_of_def rows_dispatch dispatch_row_def fun_eq_iff option.map_comp intro!: option.map_cong0)
qed (auto simp: on_dispatch_def Let_def frame_to_sel split: prod.split option.split)

lemma threads_host_says [thread_simps]:
  "ap_spawns (host_says i pid m pl a) = ap_spawns a" "ap_reapers (host_says i pid m pl a) = ap_reapers a"
  "ap_signals (host_says i pid m pl a) = ap_signals a" "pid_of (host_says i pid m pl a) = pid_of a"
  by (auto simp: host_says_def call_send_def pid_of_def map_of_hm_modify fun_eq_iff option.map_comp
      split: msg.split host_msg.split intro!: option.map_cong0)

lemma threads_host_call:
  "ap_spawns (host_call W v q a) = ap_spawns a \<and> ap_reapers (host_call W v q a) = ap_reapers a
    \<and> ap_signals (host_call W v q a) = ap_signals a"
  by (cases q) (auto simp: host_call_def call_send_def frame_to_sel split: prod.split)

lemma threads_publish [thread_simps]:
  "ap_spawns (publish W i v a) = ap_spawns a" "ap_reapers (publish W i v a) = ap_reapers a"
  "ap_signals (publish W i v a) = ap_signals a" "pid_of (publish W i v a) = pid_of a"
proof -
  have "ap_spawns (fold (host_call W v) qs b) = ap_spawns b \<and> ap_reapers (fold (host_call W v) qs b) = ap_reapers b
      \<and> ap_signals (fold (host_call W v) qs b) = ap_signals b" for qs b
    by (induction qs arbitrary: b) (simp_all add: threads_host_call)
  then show "ap_spawns (publish W i v a) = ap_spawns a" "ap_reapers (publish W i v a) = ap_reapers a"
    "ap_signals (publish W i v a) = ap_signals a"
    by (simp_all add: publish_def split: option.split)
  show "pid_of (publish W i v a) = pid_of a"
    by (auto simp: pid_of_def rows_publish fun_eq_iff option.map_comp intro!: option.map_cong0)
qed

lemma threads_frame [thread_simps]: "pid_of (snd (frame_to W w m req pl a)) = pid_of a"
  by (simp add: pid_of_def fun_eq_iff)

lemma threads_wf_row:
  assumes "threads_wf a" "i \<in> set (starts (ap_spawns a))"
  shows "\<exists>h. map_of (ap_actors a) i = Some h \<and> ha_pid h = 0"
  using assms by (fastforce simp: threads_wf_def pid_of_def)

lemma threads_wf_kill: "threads_wf a \<Longrightarrow> threads_wf (kill_actor_process i a)"
  by (frule threads_wf_signals, erule threads_wf_same)
     (simp_all add: thread_simps, simp_all add: kill_actor_process_def split: option.split)

lemma threads_wf_on_spawn:
  assumes "threads_wf a" "\<not> hm_has (ap_actors a) i"
  shows "threads_wf (on_spawn w i name gpus owner pl a)"
proof -
  let ?b = "on_spawn w i name gpus owner pl a"
  have p: "pid_of ?b = (pid_of a)(i \<mapsto> 0)" by (auto simp: pid_of_def rows_on_spawn)
  have "i \<notin> dom (pid_of a)" using assms(2) by (auto simp: pid_of_def hm_has_def)
  moreover have "ap_reapers ?b = ap_reapers a" "ap_signals ?b = ap_signals a"
    "ap_spawns ?b = ap_spawns a @ [(i, w, Starting pl)]" by (simp_all add: on_spawn_def)
  ultimately show ?thesis using assms(1) unfolding threads_wf_def p by (auto simp: spawn_pid_def image_iff)
qed

lemma threads_wf_spawn_failed:
  assumes "threads_wf a" "ap_spawns a = xs @ (i, w, Starting pl) # ys"
  shows "threads_wf (end_spawn (length xs) (spawn_failed W v i err a))"
proof -
  let ?b = "end_spawn (length xs) (spawn_failed W v i err a)"
  have p: "pid_of ?b = (pid_of a)(i := None)"
    by (auto simp: pid_of_def row_simps map_of_hm_remove)
  have b: "ap_spawns ?b = xs @ ys" "ap_reapers ?b = ap_reapers a" "ap_signals ?b = ap_signals a"
    using assms(2) by (simp_all add: end_spawn_def spawn_failed_def)
  show ?thesis using assms(1) unfolding threads_wf_def p b by (auto simp: assms(2) image_iff)
qed

lemma threads_wf_forks:
  assumes "threads_wf a" "ap_spawns a = xs @ (i, w, Starting pl) # ys" "pid \<noteq> 0"
  shows "threads_wf (move_spawn (length xs) (Forked pid pl) ((forked i pid a)\<lparr>ap_reapers := ap_reapers a @ [(i, pid)]\<rparr>))"
proof -
  let ?b = "move_spawn (length xs) (Forked pid pl) ((forked i pid a)\<lparr>ap_reapers := ap_reapers a @ [(i, pid)]\<rparr>)"
  obtain h where h: "map_of (ap_actors a) i = Some h" "ha_pid h = 0"
    using threads_wf_row [OF assms(1)] assms(2) by auto
  have p: "pid_of ?b = (pid_of a)(i \<mapsto> pid)"
    using h assms(3) by (auto simp: pid_of_def row_simps fun_eq_iff)
  have f: "ap_spawns (forked i pid a) = ap_spawns a"
    using h by (auto simp: forked_def Let_def threads_kill)
  have g: "ToGroup 0 \<notin> set (ap_signals (forked i pid a)) \<and> ToProcess 0 \<notin> set (ap_signals (forked i pid a))"
    using h assms(3) threads_wf_signals [OF assms(1)]
    by (auto simp: forked_def Let_def kill_actor_process_def map_of_hm_modify)
  have b: "ap_spawns ?b = xs @ (i, w, Forked pid pl) # ys" "ap_reapers ?b = ap_reapers a @ [(i, pid)]"
    "ap_signals ?b = ap_signals (forked i pid a)"
    using assms(2) f by (simp_all add: move_spawn_def)
  show ?thesis using assms(1,3) g unfolding threads_wf_def p b by (auto simp: assms(2) spawn_pid_def image_iff)
qed

lemma threads_wf_ended:
  assumes "threads_wf a" "ap_spawns a = xs @ (i, w, sp) # ys" "\<forall>pl. sp \<noteq> Starting pl"
    and "ap_spawns b = xs @ zs" "zs = ys \<or> zs = (i, w, Relaying (spawn_pid sp)) # ys" "ap_reapers b = ap_reapers a"
    and "pid_of b = pid_of a" "ToGroup 0 \<notin> set (ap_signals b) \<and> ToProcess 0 \<notin> set (ap_signals b)"
  shows "threads_wf b"
proof -
  have "starts (ap_spawns b) = starts (ap_spawns a)" using assms(2-5) by (cases sp) auto
  moreover have "0 \<notin> (\<lambda>t. spawn_pid (snd (snd t))) ` set (ap_spawns b)"
  proof -
    have "spawn_pid (Relaying (spawn_pid sp)) = spawn_pid sp" by (simp add: spawn_pid_def)
    then show ?thesis using assms(1,2,4,5) by (auto simp: threads_wf_def image_iff)
  qed
  ultimately show ?thesis using assms(1,6-8) by (simp add: threads_wf_def)
qed

lemma threads_wf_reap:
  assumes "threads_wf a"
  shows "threads_wf (reap n code sig a)"
proof (cases "n < length (ap_reapers a)")
  case True
  then obtain xs ys where r: "ap_reapers a = xs @ ap_reapers a ! n # ys" "n = length xs" by (rule nth_split)
  obtain i pid where t: "ap_reapers a ! n = (i, pid)" by fastforce
  let ?b = "reap n code sig a"
  have b: "ap_spawns ?b = ap_spawns a" "ap_reapers ?b = xs @ ys" "ap_signals ?b = ap_signals a @ [ToGroup pid]"
    using True t drop_nth_length [of xs "ap_reapers a ! n" ys] r by (simp_all add: reap_def call_send_def)
  have p: "pid_of ?b = (pid_of a)(i := None)"
    using True t by (auto simp: reap_def pid_of_def rows_call_send map_of_hm_remove fun_eq_iff)
  have "ap_reapers a = xs @ (i, pid) # ys" using r t by simp
  then show ?thesis using assms unfolding threads_wf_def p b by (auto simp: image_iff)
qed (simp add: reap_def assms)

lemma threads_wf_spawn:
  assumes "threads_wf a" "spawn_given a ev"
  shows "threads_wf (spawn_actor W dir python n ev a)"
proof (cases "n < length (ap_spawns a)")
  case True
  then obtain xs ys where r: "ap_spawns a = xs @ ap_spawns a ! n # ys" "n = length xs" by (rule nth_split)
  obtain i w sp where t: "ap_spawns a ! n = (i, w, sp)" by (cases "ap_spawns a ! n")
  have r': "ap_spawns a = xs @ (i, w, sp) # ys" using r t by simp
  have ok: "0 < spawn_pid sp" using assms(1) r' by (auto simp: threads_wf_def)
  show ?thesis
  proof (cases sp)
    case (Starting pl)
    note s = r' [unfolded Starting]
    have "ap_reapers (forked i pid a) = ap_reapers a" for pid
      by (simp add: forked_def Let_def thread_simps split: option.split)
    with True t r(2) assms Starting threads_wf_spawn_failed [OF assms(1) s] threads_wf_forks [OF assms(1) s]
    show ?thesis by (cases ev) (auto simp: spawn_actor_def Let_def)
  next
    case (Forked pid pl)
    have ended: "threads_wf (end_spawn n b)" if "ap_spawns b = ap_spawns a" "ap_reapers b = ap_reapers a"
      "pid_of b = pid_of a" "ToGroup 0 \<notin> set (ap_signals b) \<and> ToProcess 0 \<notin> set (ap_signals b)" for b
      using that r(2) r' Forked
      by (intro threads_wf_ended [OF assms(1) r', of _ ys]) (auto simp: end_spawn_def pid_of_def fun_eq_iff)
    have relays: "threads_wf (move_spawn n (Relaying pid) b)" if "ap_spawns b = ap_spawns a" "ap_reapers b = ap_reapers a"
      "pid_of b = pid_of a" "ap_signals b = ap_signals a" for b
      using that r(2) r' Forked threads_wf_signals [OF assms(1)]
      by (intro threads_wf_ended [OF assms(1) r', of _ "(i, w, Relaying pid) # ys"])
         (auto simp: move_spawn_def pid_of_def fun_eq_iff spawn_pid_def)
    have pid: "pid_of b = pid_of a" if "frame_to W v m req pl a = (ok, b)" for v m req pl ok b
      using frame_to_sel [OF that] by (simp add: pid_of_def fun_eq_iff)
    show ?thesis
      using True t Forked ok threads_wf_signals [OF assms(1)] assms(1)
      by (cases ev) (auto simp: spawn_actor_def thread_simps frame_to_sel pid spawn_pid_def pid_of_def [of "a\<lparr>ap_signals := x\<rparr>" for x]
          fun_eq_iff pid_of_def [of a] intro!: ended relays split: prod.split)
  next
    case (Relaying pid)
    have "threads_wf (end_spawn n a)"
      using r(2) r' Relaying threads_wf_signals [OF assms(1)]
      by (intro threads_wf_ended [OF assms(1) r', of _ ys]) (auto simp: end_spawn_def pid_of_def fun_eq_iff)
    moreover have "threads_wf (host_says i pid m pl a)" for m pl
      using threads_wf_signals [OF assms(1)] by (intro threads_wf_same [OF assms(1)]) (simp_all add: thread_simps)
    ultimately show ?thesis using True t Relaying assms(1) by (cases ev) (auto simp: spawn_actor_def)
  qed
qed (simp add: spawn_actor_def assms)

lemma quiet_threads:
  "threads_wf a \<Longrightarrow> ap_actors b = ap_actors a \<Longrightarrow> ap_spawns b = ap_spawns a \<Longrightarrow> ap_reapers b = ap_reapers a \<Longrightarrow>
    ap_signals b = ap_signals a \<Longrightarrow> threads_wf b"
  using threads_wf_signals [of a] by (auto simp: pid_of_def fun_eq_iff intro: threads_wf_same)

lemma quiet_steps [thread_simps]:
  "ap_spawns (send_part W n a) = ap_spawns a" "ap_reapers (send_part W n a) = ap_reapers a"
  "ap_signals (send_part W n a) = ap_signals a"
  "ap_spawns (serve_part W ao w reply a) = ap_spawns a" "ap_reapers (serve_part W ao w reply a) = ap_reapers a"
  "ap_signals (serve_part W ao w reply a) = ap_signals a"
  "ap_spawns (ping W w a) = ap_spawns a" "ap_reapers (ping W w a) = ap_reapers a"
  "ap_signals (ping W w a) = ap_signals a"
  "ap_spawns (daemon_ends a) = ap_spawns a" "ap_reapers (daemon_ends a) = ap_reapers a"
  "ap_signals (daemon_ends a) = ap_signals a"
  "ap_spawns (snd (watch_round late bound name st a)) = ap_spawns a"
  "ap_reapers (snd (watch_round late bound name st a)) = ap_reapers a"
  "ap_signals (snd (watch_round late bound name st a)) = ap_signals a"
  by (auto simp: send_part_def serve_part_def ping_def daemon_ends_def watch_round_def link_down_def call_send_def
      frame_to_sel split: sending.split option.split prod.split phase.split list.split)

lemma threads_wf_says:
  assumes "threads_wf a" "says_given a m"
  shows "threads_wf (daemon_says W req m pl a)"
proof -
  have "threads_wf (on_dispatch W w i rid mt pl a)" for w i rid mt pl
    using threads_wf_signals [OF assms(1)] by (intro threads_wf_same [OF assms(1)]) (simp_all add: thread_simps)
  moreover have "threads_wf (snd (frame_to W w mm req pl a))" for w mm req pl
    by (rule quiet_threads [OF assms(1)]) simp_all
  ultimately show ?thesis using assms
    by (auto simp: daemon_says_def says_given_def threads_wf_kill threads_wf_on_spawn
        split: phase.split msg.splits agent_msg.splits)
qed

lemma threads_wf_step: "agent_step ao a b \<Longrightarrow> threads_wf a \<Longrightarrow> threads_wf b"
  by (induction rule: agent_step.induct)
     (auto intro: threads_wf_says threads_wf_spawn threads_wf_reap quiet_threads simp: row_simps thread_simps)

lemma threads_wf_start: "threads_wf agent_start"
  by (simp add: threads_wf_def agent_start_def pid_of_def dom_def)

text \<open>A kill is pending for the fork, or the process group has been signalled, or the actor ended.\<close>

definition doomed :: "string \<Rightarrow> agent_proc \<Rightarrow> bool" where
  "doomed i a \<longleftrightarrow> gone i a \<or> (case map_of (ap_actors a) i of None \<Rightarrow> False
     | Some h \<Rightarrow> if ha_pid h = 0 then ha_kill_requested h else ToGroup (ha_pid h) \<in> set (ap_signals a))"

lemma doomed_quiet:
  assumes "keeps a b" "doomed i a" "set (ap_signals a) \<subseteq> set (ap_signals b)"
    and "map_option (\<lambda>h. (ha_pid h, ha_kill_requested h)) (map_of (ap_actors b) i) =
      map_option (\<lambda>h. (ha_pid h, ha_kill_requested h)) (map_of (ap_actors a) i)"
  shows "doomed i b"
proof (cases "gone i a")
  case True
  then show ?thesis using gone_mono [OF assms(1)] by (simp add: doomed_def)
next
  case False
  then obtain h where h: "map_of (ap_actors a) i = Some h" using assms(2) by (auto simp: doomed_def split: option.splits)
  with assms(4) obtain h' where h': "map_of (ap_actors b) i = Some h'" "ha_pid h' = ha_pid h"
    "ha_kill_requested h' = ha_kill_requested h" by (cases "map_of (ap_actors b) i") simp_all
  show ?thesis using False assms(2,3) h h' by (simp add: doomed_def subset_iff split: if_splits)
qed

lemma doomed_row:
  assumes "doomed i a" "keeps a b"
    and "\<And>h. map_of (ap_actors a) i = Some h \<Longrightarrow> (if ha_pid h = 0 then ha_kill_requested h
        else ToGroup (ha_pid h) \<in> set (ap_signals a)) \<Longrightarrow> doomed i b"
  shows "doomed i b"
  using assms(1,3) gone_mono [OF assms(2)] by (auto simp: doomed_def split: option.splits)

lemma doomed_kill: "doomed i a \<Longrightarrow> doomed i (kill_actor_process j a)"
  by (erule doomed_row [OF _ keeps_kill])
     (auto simp: doomed_def kill_actor_process_def map_of_hm_modify split: option.splits if_splits)

lemma doomed_on_spawn:
  assumes "doomed i a" "\<not> hm_has (ap_actors a) j"
  shows "doomed i (on_spawn w j name gpus owner p a)"
proof (rule doomed_row [OF assms(1)])
  show "keeps a (on_spawn w j name gpus owner p a)" by (rule keeps_untouched) (simp_all add: on_spawn_def)
qed (use assms(2) in \<open>auto simp: doomed_def on_spawn_def map_of_hm_insert hm_has_def split: if_splits\<close>)

lemma doomed_says:
  assumes "doomed i a" "says_given a m"
  shows "doomed i (daemon_says W req m pl a)"
proof -
  have "doomed i (on_dispatch W w j rid mt p a)" for w j rid mt p
    by (rule doomed_quiet [OF keeps_dispatch assms(1)])
       (auto simp: thread_simps row_simps dispatch_row_def option.map_comp intro!: option.map_cong0)
  moreover have "doomed i (snd (frame_to W w mm r p a))" for w mm r p
    by (rule doomed_quiet [OF keeps_frame assms(1)]) simp_all
  ultimately show ?thesis using assms
    by (auto simp: daemon_says_def says_given_def intro: doomed_kill doomed_on_spawn split: phase.split msg.splits agent_msg.splits)
qed

lemma doomed_forked:
  assumes "threads_wf a" "i \<in> set (starts (ap_spawns a))" "pid \<noteq> 0" "doomed j a"
  shows "doomed j (forked i pid a)"
proof -
  obtain h where h: "map_of (ap_actors a) i = Some h" "ha_pid h = 0" using threads_wf_row [OF assms(1,2)] by blast
  have sig: "ap_signals (forked i pid a) =
      ap_signals a @ (if ha_kill_requested h then [ToGroup pid, ToProcess pid] else [])"
    using h(1) assms(3) by (simp add: forked_def Let_def kill_actor_process_def map_of_hm_modify)
  show ?thesis
  proof (rule doomed_row [OF assms(4) keeps_forked])
    fix g assume "map_of (ap_actors a) j = Some g"
      "if ha_pid g = 0 then ha_kill_requested g else ToGroup (ha_pid g) \<in> set (ap_signals a)"
    then show "doomed j (forked i pid a)" using h assms(3)
      by (cases "j = i") (simp_all add: doomed_def rows_forked sig split: if_splits)
  qed
qed

lemma doomed_threads:
  "doomed i (end_spawn n a) = doomed i a" "doomed i (move_spawn n sp a) = doomed i a"
  "doomed i (a\<lparr>ap_reapers := r\<rparr>) = doomed i a"
  by (simp_all add: doomed_def end_spawn_def move_spawn_def gone_def held_def cong: option.case_cong)

lemma doomed_signals: "doomed i a \<Longrightarrow> doomed i (a\<lparr>ap_signals := ap_signals a @ q\<rparr>)"
  by (auto simp: doomed_def gone_def held_def split: option.splits if_splits)

lemma doomed_removed:
  assumes "doomed i a" "keeps a b" "gone j b" "set (ap_signals a) \<subseteq> set (ap_signals b)"
    and "ap_actors b = hm_remove j (ap_actors a)"
  shows "doomed i b"
proof (cases "i = j")
  case True
  then show ?thesis using assms(3) by (simp add: doomed_def)
next
  case False
  then show ?thesis using assms by (intro doomed_quiet [OF assms(2,1,4)]) (simp add: map_of_hm_remove)
qed

lemma doomed_spawn:
  assumes "threads_wf a" "doomed i a" "spawn_given a ev"
  shows "doomed i (spawn_actor W dir python n ev a)"
proof (cases "n < length (ap_spawns a)")
  case True
  obtain j w sp where t: "ap_spawns a ! n = (j, w, sp)" by (cases "ap_spawns a ! n")
  have st: "j \<in> set (starts (ap_spawns a))" if "sp = Starting pl" for pl
    using True t that nth_split [OF True] by (metis in_set_conv_decomp starts.simps(2) starts_append)
  have failed: "doomed i (spawn_failed W w j err a)" for err
    by (rule doomed_removed [OF assms(2) keeps_spawn_failed gone_spawn_failed])
       (simp_all add: row_simps spawn_failed_def)
  have frame: "doomed i b" if "frame_to W v m req pl a = (ok, b)" for v m req pl ok b
    using doomed_quiet [OF keeps_frame_then [OF that keeps_refl] assms(2)] frame_to_sel [OF that] by simp
  have pub: "doomed i (publish W j v b)" if "doomed i b" for v b
    by (rule doomed_quiet [OF keeps_publish that])
       (auto simp: thread_simps row_simps option.map_comp intro!: option.map_cong0)
  have said: "doomed i (host_says j pid m pl a)" for pid m pl
    by (rule doomed_quiet [OF keeps_host_says assms(2)], simp add: thread_simps)
       (auto simp: host_says_def row_simps map_of_hm_modify option.map_comp
         split: msg.split host_msg.split intro!: option.map_cong0)
  show ?thesis
    using True t assms failed frame said st
    by (cases sp; cases ev) (auto simp: spawn_actor_def Let_def doomed_threads intro!: doomed_signals doomed_forked pub
        split: prod.split)
qed (simp add: spawn_actor_def assms)

lemma doomed_reap:
  assumes "doomed i a"
  shows "doomed i (reap n code sig a)"
proof (cases "n < length (ap_reapers a)")
  case True
  obtain j pid where t: "ap_reapers a ! n = (j, pid)" by fastforce
  have "ap_actors (reap n code sig a) = hm_remove j (ap_actors a)"
    "ap_signals (reap n code sig a) = ap_signals a @ [ToGroup pid]"
    using True t by (simp_all add: reap_def call_send_def)
  then show ?thesis
    by (intro doomed_removed [OF assms keeps_reap gone_reaped [OF True t]]) auto
qed (simp add: reap_def assms)

lemma doomed_step:
  assumes "agent_step ao a b" "threads_wf a" "doomed i a"
  shows "doomed i b"
proof -
  have quiet: "doomed i c \<Longrightarrow> keeps c d \<Longrightarrow> ap_signals d = ap_signals c \<Longrightarrow> ap_actors d = ap_actors c \<Longrightarrow> doomed i d" for c d
    by (rule doomed_quiet) simp_all
  show ?thesis using assms
    by (induction rule: agent_step.induct)
       (auto intro: doomed_says doomed_spawn doomed_reap
          quiet [OF _ keeps_send_part] quiet [OF _ keeps_serve_part] quiet [OF _ keeps_ping]
          quiet [OF _ keeps_daemon_ends] quiet [OF _ keeps_watch] simp: row_simps thread_simps)
qed

interpretation agent: transition_system "\<lambda>a. a = agent_start" "agent_step ao" threads_wf for ao
  by unfold_locales (auto intro: threads_wf_step threads_wf_start)

interpretation kills: transition_system "\<lambda>a. threads_wf a \<and> doomed i a" "agent_step ao"
    "\<lambda>a. threads_wf a \<and> doomed i a" for i ao
  by unfold_locales (auto intro: threads_wf_step doomed_step)

section \<open>Properties of the process\<close>

text \<open>C15: nothing the agent holds for the daemon is lost. Whatever its threads do, in any order, every
  message that a thread handed to \<open>send_daemon\<close>, or that waits in the buffer or in the backlog being
  drained, is afterwards still held, or was written to a socket without an error; messages count
  as often as they occur.\<close>

theorem held_messages_kept:
  assumes "(agent_step ao)\<^sup>*\<^sup>* a b"
  shows "\<exists>fs. ap_sent b = ap_sent a @ fs \<and> mset (held a) \<subseteq># mset (held b) + mset (delivered fs)"
  using kept.inv_reached [of a a, OF refl assms] by (simp add: keeps_def)


text \<open>C19: a kill takes effect, once. After the daemon's kill of an actor the agent has, in every later
  state the process group was signalled, or the process is not forked yet and the kill waits for
  its pid, or the end of the actor was reported; and no signal ever goes to pid 0, which would be
  the agent's own process group.\<close>

theorem kill_is_honoured:
  assumes "(agent_step ao)\<^sup>*\<^sup>* agent_start a" "ap_phase a = Serving w" "map_of (ap_actors a) i = Some h"
    and "(agent_step ao)\<^sup>*\<^sup>* (daemon_says W req (A (ActorKill i)) pl a) b"
  shows "(gone i b \<or> (\<exists>g. map_of (ap_actors b) i = Some g \<and>
      (if ha_pid g = 0 then ha_kill_requested g else ToGroup (ha_pid g) \<in> set (ap_signals b))))
    \<and> ToGroup 0 \<notin> set (ap_signals b) \<and> ToProcess 0 \<notin> set (ap_signals b)"
proof -
  have wf: "threads_wf a" by (rule agent.inv_reached [OF refl assms(1)])
  have "doomed i (daemon_says W req (A (ActorKill i)) pl a)"
    using assms(2,3) by (auto simp: doomed_def daemon_says_def kill_actor_process_def map_of_hm_modify)
  moreover have "threads_wf (daemon_says W req (A (ActorKill i)) pl a)"
    by (rule threads_wf_says [OF wf]) (simp add: says_given_def)
  ultimately have "threads_wf b \<and> doomed i b" using kills.inv_reached [OF _ assms(4)] by blast
  then show ?thesis using threads_wf_signals [of b] by (auto simp: doomed_def split: option.splits)
qed

text \<open>Every row of the agent's table has exactly one thread that will remove it, in every state the
  process reaches: the thread that starts the actor's process, while the row has no pid, or the
  thread that waits for the process with the row's pid. So the fork never finds its row gone.\<close>

theorem every_row_has_its_thread:
  assumes "(agent_step ao)\<^sup>*\<^sup>* agent_start a"
  shows "distinct (starts (ap_spawns a) @ map fst (ap_reapers a))
    \<and> fst ` set (ap_actors a) = set (starts (ap_spawns a)) \<union> fst ` set (ap_reapers a)
    \<and> (\<forall>i pid. (i, pid) \<in> set (ap_reapers a) \<longrightarrow> pid \<noteq> 0 \<and> map_option ha_pid (map_of (ap_actors a) i) = Some pid)"
proof -
  have "threads_wf a" by (rule agent.inv_reached [OF refl assms])
  moreover have "dom (pid_of a) = fst ` set (ap_actors a)"
    by (auto simp: pid_of_def dom_def map_of_eq_None_iff [symmetric] image_iff map_of_eq_None_iff)
  ultimately show ?thesis by (simp add: threads_wf_def pid_of_def)
qed

section \<open>A message buffered too late\<close>

lemma serving_only_appends:
  assumes "agent_step ao a b" "ap_phase a = Serving w"
  shows "\<exists>ms. ap_unsent b = ap_unsent a @ ms"
proof -
  have host: "ap_unsent (host_call W v q c) = ap_unsent c" for W v q c
    by (cases q) (auto simp: host_call_def call_send_def frame_to_sel split: prod.split)
  have "ap_unsent (fold (host_call W v) qs c) = ap_unsent c" for W v qs c
    by (induction qs arbitrary: c) (simp_all add: host)
  then have pub: "ap_unsent (publish W i v c) = ap_unsent c" for W i v c
    by (simp add: publish_def split: option.split)
  have kill: "ap_unsent (kill_actor_process i c) = ap_unsent c" for i c
    by (simp add: kill_actor_process_def split: option.split)
  have disp: "ap_unsent (on_dispatch W w i rid m pl c) = ap_unsent c" for W w i rid m pl c
    by (auto simp: on_dispatch_def Let_def frame_to_sel split: prod.split option.split)
  have forks: "ap_unsent (forked i pid c) = ap_unsent c" for i pid c
    by (simp add: forked_def Let_def kill split: option.split)
  have says: "ap_unsent (host_says i pid m pl c) = ap_unsent c" for i pid m pl c
    by (auto simp: host_says_def call_send_def split: msg.split host_msg.split)
  have spawn: "ap_unsent (spawn_actor W dir python n ev c) = ap_unsent c" for W dir python n ev c
    by (auto simp: spawn_actor_def Let_def end_spawn_def move_spawn_def spawn_failed_def pub forks says frame_to_sel
        split: prod.split spawning.split spawn_event.split)
  show ?thesis using assms
    by (induction rule: agent_step.induct)
       (auto simp: send_part_def serve_part_def daemon_says_def on_spawn_def kill disp daemon_ends_def link_down_def
          ping_def spawn reap_def call_send_def watch_round_def frame_to_sel
        split: sending.split option.split prod.split msg.split agent_msg.split)
qed

text \<open>A message that is buffered while the link is up stays in the buffer as long as the link is up.
  The buffer is drained once, right after the registration. A thread that read the old link and whose
  write fails after that drain buffers its message for the next registration: while the new link
  serves, no step delivers it.\<close>

theorem buffered_while_serving_waits:
  assumes "ap_phase a = Serving w" "(\<lambda>x y. agent_step ao x y \<and> ap_phase y = Serving w)\<^sup>*\<^sup>* a b"
  shows "\<exists>ms. ap_unsent b = ap_unsent a @ ms"
proof -
  have "ap_phase b = Serving w \<and> (\<exists>ms. ap_unsent b = ap_unsent a @ ms)"
    using assms(2)
  proof (induction rule: rtranclp_induct)
    case base
    then show ?case using assms(1) by simp
  next
    case (step c d)
    then obtain ms ns where "ap_unsent c = ap_unsent a @ ms" "ap_unsent d = ap_unsent c @ ns"
      using serving_only_appends by blast
    then show ?case using step.hyps(2) by simp
  qed
  then show ?thesis by blast
qed

end
