(* ===== verification/Refs.thy ===== *)
theory Refs
  imports Steps
begin

text \<open>
  Call references over the steps of a daemon: a reference only resolves or goes, the first
  resolution stands, and an id is never handed out twice.
\<close>

section \<open>References that only resolve or go\<close>

definition refs_kept :: "state \<Rightarrow> state \<Rightarrow> bool" where
  "refs_kept s t \<longleftrightarrow> next_ref t = next_ref s
     \<and> (\<forall>k r'. map_of (refs t) k = Some r' \<longrightarrow> (\<exists>r. map_of (refs s) k = Some r
          \<and> (rf_state r = RefPending \<or> rf_state r' = rf_state r)))"

lemma refs_kept_same: "next_ref t = next_ref s \<Longrightarrow> refs t = refs s \<Longrightarrow> refs_kept s t"
  by (simp add: refs_kept_def)

lemma refs_kept_refl [simp]: "refs_kept s s"
  by (simp add: refs_kept_def)

lemma refs_kept_trans: "refs_kept s t \<Longrightarrow> refs_kept t u \<Longrightarrow> refs_kept s u"
  unfolding refs_kept_def by metis

lemma refs_kept_cong: "next_ref t = next_ref s \<Longrightarrow> refs t = refs s \<Longrightarrow> refs_kept t u = refs_kept s u"
  "next_ref t = next_ref s \<Longrightarrow> refs t = refs s \<Longrightarrow> refs_kept u t = refs_kept u s"
  by (simp_all add: refs_kept_def)

lemma refs_kept_fold: "(\<And>x s. refs_kept s (f x s)) \<Longrightarrow> refs_kept s (fold f xs s)"
  by (induction xs arbitrary: s) (auto intro: refs_kept_trans)

lemma refs_kept_map:
  "(\<And>r. rf_state r = RefPending \<or> rf_state (f r) = rf_state r) \<Longrightarrow> refs_kept s (s\<lparr>refs := hm_map f (refs s)\<rparr>)"
  by (auto simp: refs_kept_def map_of_hm_map)

lemma refs_kept_modify:
  "(\<And>r. rf_state r = RefPending \<or> rf_state (f r) = rf_state r) \<Longrightarrow> refs_kept s (s\<lparr>refs := hm_modify k f (refs s)\<rparr>)"
  by (auto simp: refs_kept_def map_of_hm_modify split: if_splits)

lemma refs_kept_sub:
  "hm_wf (refs s) \<Longrightarrow> next_ref t = next_ref s \<Longrightarrow> refs t = hm_retain Q (refs s) \<Longrightarrow> refs_kept s t"
  unfolding refs_kept_def by (auto simp: map_of_hm_retain hm_wf_def split: option.splits if_splits)

lemma try_place_refs: "refs_kept s (try_place E s)"
  by (rule refs_kept_same) simp_all

lemma mark_actor_dead_refs: "refs_kept s (mark_actor_dead E aid reason s)"
proof -
  have f: "refs_kept t (try_place E (fail_refs aid reason t))" for t
    unfolding fail_refs_def by (rule refs_kept_trans [OF refs_kept_map try_place_refs]) auto
  have "refs_kept s (bury_actor E aid reason a s)" for a
    by (rule refs_kept_same) (simp_all add: bury_actor_def Let_def)
  from refs_kept_trans [OF this f] f show ?thesis
    by (auto simp: mark_actor_dead_def split: option.splits)
qed

lemma kill_actor_refs: "refs_kept s (kill_actor E aid s)"
  by (auto simp: kill_actor_def intro: mark_actor_dead_refs refs_kept_same split: option.splits)

lemma claim_refs: "refs_kept s (snd (claim E client grp name shape s))"
  by (rule refs_kept_same) (auto simp: claim_def Let_def split: option.splits sum.splits)

lemma release_all_refs: "refs_kept s (release_all E client s)"
  unfolding release_all_def
  by (rule refs_kept_fold, rule refs_kept_same) (auto simp: release_def Let_def split: option.splits)

lemma remove_pgs_of_refs: "refs_kept s (remove_pgs_of E client s)"
  unfolding remove_pgs_of_def Let_def
  by (rule refs_kept_trans [OF _ refs_kept_fold], rule refs_kept_same) (simp_all add: refs_kept_same)

lemma reap_begin_refs: "refs_kept s (snd (reap_begin E client grp token s))"
proof -
  have "refs_kept t (remove_pgs_of E client (release_all E client t))" for t
    by (rule refs_kept_trans [OF release_all_refs remove_pgs_of_refs])
  moreover have "refs_kept s (s\<lparr>reap_pending := x\<rparr>)" for x by (rule refs_kept_same) simp_all
  ultimately have "refs_kept s (remove_pgs_of E client (release_all E client (s\<lparr>reap_pending := x\<rparr>)))" for x
    by (rule refs_kept_trans [rotated])
  then show ?thesis
    by (auto simp: reap_begin_def Let_def refs_kept_cong(2) [of "emit_patch _ _ _ _ _"] intro: refs_kept_same)
qed

lemma reap_end_refs: "hm_wf (refs s) \<Longrightarrow> refs_kept s (reap_end E client s)"
  unfolding reap_end_def by (rule refs_kept_sub) simp_all

lemma emit_agent_refs: "refs_kept s (emit_agent E kind grp aid why s)"
  by (rule refs_kept_same) (auto simp: emit_agent_def split: option.splits)

lemma sweep_lifecycle_refs:
  assumes "daemon_inv s"
  shows "refs_kept s (sweep_lifecycle E s)"
proof -
  have warn: "refs_kept s (warn_refs E s)" unfolding warn_refs_def by (rule refs_kept_map) auto
  have pend: "refs_kept t (sweep_pending E t)" for t
    unfolding sweep_pending_def by (rule refs_kept_fold, rule refs_kept_same) (simp_all add: fail_pg_def Let_def)
  have give: "refs_kept t (give_up E a t)" for a t
    unfolding give_up_def Let_def by (rule refs_kept_trans [OF emit_agent_refs refs_kept_fold]) (rule mark_actor_dead_refs)
  have ags: "refs_kept t (sweep_agents E t)" for t
  proof -
    have a: "refs_kept t (t\<lparr>agents := x\<rparr>)" for x by (rule refs_kept_same) simp_all
    have b: "refs_kept u (fold (\<lambda>a. emit_agent E k (g a) (i a) (y a)) xs u)" for u k g i y and xs :: "agent_info list"
      by (rule refs_kept_fold) (rule emit_agent_refs)
    have c: "refs_kept u (fold (give_up E) xs u)" for u xs by (rule refs_kept_fold) (rule give)
    show ?thesis unfolding sweep_agents_def Let_def by (rule refs_kept_trans [OF refs_kept_trans [OF a b] c])
  qed
  have "hm_wf (refs (sweep_agents E (sweep_pending E (warn_refs E s))))"
    using assms by (simp add: daemon_invD warn_refs_inv sweep_pending_inv sweep_agents_inv)
  then have "refs_kept u (sweep_history E u)" if "u = sweep_agents E (sweep_pending E (warn_refs E s))" for u
    using that by (auto simp: sweep_history_def Let_def intro: refs_kept_sub)
  with refs_kept_trans [OF refs_kept_trans [OF warn pend] ags] show ?thesis
    unfolding sweep_lifecycle_def by (blast intro: refs_kept_trans)
qed

lemma fold_shutdown_refs [simp]:
  "refs (fold (\<lambda>x. shutdown (f x)) xs s) = refs s" "next_ref (fold (\<lambda>x. shutdown (f x)) xs s) = next_ref s"
  by (induction xs arbitrary: s) simp_all

lemma head_moved_refs: "refs_kept s (head_moved E s)"
  by (simp add: refs_kept_def head_moved_def Let_def split_def)

lemma elect_refs: "refs_kept s (snd (elect E boot t el s))"
proof -
  have "refs_kept s (take_head E c s)" for c
    unfolding take_head_def Let_def by (rule refs_kept_trans [OF _ head_moved_refs], rule refs_kept_same) simp_all
  then show ?thesis by (auto simp: elect_def Let_def split: option.splits)
qed

section \<open>Connections\<close>

lemma client_hello_refs: "refs_kept s (snd (client_hello E w req peer_ip pr client grp session kind claimed s))"
  by (rule refs_kept_same) (auto simp: client_hello_def Let_def)

lemma create_actor_refs: "refs_kept s (snd (create_actor E aid client name n pid bi env pl s))"
proof -
  have "refs_kept s (s\<lparr>actors := x, counters := c\<rparr>)" for x c by (rule refs_kept_same) simp_all
  then have "refs_kept s (snd (send E w m r p (emit_patch E' k pt why (s\<lparr>actors := x, counters := c\<rparr>))))" for E' w m r p k pt why x c
    by (simp add: refs_kept_def)
  moreover from this have "refs_kept s (mark_actor_dead E'' i y (snd (send E w m r p (emit_patch E' k pt why
      (s\<lparr>actors := x, counters := c\<rparr>)))))" for E'' i y E' w m r p k pt why x c
    by (rule refs_kept_trans) (rule mark_actor_dead_refs)
  ultimately show ?thesis
    by (auto simp: create_actor_def Let_def split_def split: sum.splits option.splits)
qed

lemma pg_ops_refs:
  "refs_kept s (pg_create E pid client bundles strategy clm s)" "refs_kept s (pg_remove E pid s)"
  by (rule refs_kept_same; simp add: pg_create_def pg_remove_def Let_def split: option.splits)+

lemma handle_client_msg_refs:
  assumes "\<forall>aid method. m \<noteq> C (ActorCall aid method)"
  shows "refs_kept s (snd (handle_client_msg E rnd expired client m t pl s))"
  using assms claim_refs [of s] create_actor_refs [of s] kill_actor_refs [of s] pg_ops_refs [of s]
    refs_kept_fold [OF kill_actor_refs, where s = s]
  by (auto simp: handle_client_msg_def Let_def split_def split: msg.splits client_msg.splits agent_msg.splits
      option.splits sum.splits prod.splits)

lemma handle_agent_msg_refs: "refs_kept s (handle_agent_msg E w aid req m pl s)"
proof -
  have "refs_kept s (spawn_result E actor ok err pid s)" for actor ok err pid
  proof -
    let ?s1 = "if pid = 0 then s else s\<lparr>actors := hm_modify actor (\<lambda>a. a\<lparr>ac_pid := Some pid\<rparr>) (actors s)\<rparr>"
    have "refs_kept s ?s1" by (rule refs_kept_same) simp_all
    from refs_kept_trans [OF this mark_actor_dead_refs] show ?thesis
      unfolding spawn_result_def Let_def by (auto intro: refs_kept_same split: option.splits)
  qed
  moreover have "refs_kept s (actor_result rid ok err pl s)" for rid ok err
    unfolding actor_result_def by (rule refs_kept_modify) auto
  moreover have "refs_kept s (actor_exit E actor code sg s)" for actor code sg
    unfolding actor_exit_def by (rule refs_kept_trans [OF _ mark_actor_dead_refs], rule refs_kept_same) simp_all
  moreover have "refs_kept s (service_note E aid name nt s)" for name nt
    by (rule refs_kept_same) (auto simp: service_note_def Let_def split: option.splits)
  ultimately show ?thesis
    by (auto simp: handle_agent_msg_def intro: refs_kept_same split: msg.splits agent_msg.splits)
qed

lemma agent_lost_refs: "refs_kept s (agent_lost E w aid s)"
  by (rule refs_kept_same) (auto simp: agent_lost_def Let_def split: option.splits)

lemma register_peer_refs [simp]:
  "refs (snd (register_peer E p w s)) = refs s" "next_ref (snd (register_peer E p w s)) = next_ref s"
proof -
  have f: "refs (fold (forget_peer E why) ids t) = refs t \<and> next_ref (fold (forget_peer E why) ids t) = next_ref t" for why ids t
    by (induction ids arbitrary: t) (simp_all add: forget_peer_def)
  show "refs (snd (register_peer E p w s)) = refs s" "next_ref (snd (register_peer E p w s)) = next_ref s"
    by (auto simp: register_peer_def Let_def f split: option.splits)
qed

lemma peer_ops_refs:
  "refs_kept s (snd (accept_peer E w req pr p s))" "refs_kept s (snd (hello_reply E w seed m s))"
  "refs_kept s (handle_peer_msg E peer m s)" "refs_kept s (peer_lost E w peer s)"
  "refs_kept s (push_status E s)" "refs_kept s (snd (dial target s))" "refs_kept s (stop_dial target s)"
  "refs_kept s (probe_done E peer local remote r mac s)" "refs_kept s (probe_end peer locals remotes ifaces s)"
  "refs_kept s (snd (island_tick E ti s0 cand s))"
proof -
  show "refs_kept s (push_status E s)"
    unfolding push_status_def by (rule refs_kept_fold, rule refs_kept_same) simp_all
  show "refs_kept s (snd (hello_reply E w seed m s))"
    by (rule refs_kept_same) (auto simp: hello_reply_def Let_def split_def split: msg.splits peer_msg.splits)
  show "refs_kept s (handle_peer_msg E peer m s)"
    by (rule refs_kept_same)
       (auto simp: handle_peer_msg_def deliver_peer_event_def split: msg.splits peer_msg.splits agent_msg.splits)
  show "refs_kept s (peer_lost E w peer s)"
    by (rule refs_kept_same) (auto simp: peer_lost_def Let_def split: option.splits)
  show "refs_kept s (snd (island_tick E ti s0 cand s))"
    by (rule refs_kept_same) (auto simp: island_tick_def commit_fabrics_def Let_def split: option.splits)
qed (rule refs_kept_same; simp add: accept_peer_def dial_def stop_dial_def probe_done_def probe_end_def Let_def)+

lemma sweep_peers_refs: "refs_kept s (sweep_peers E cuts s)"
proof -
  have a: "refs_kept t (fold (\<lambda>i s. case map_of (peers s) i of None \<Rightarrow> s | Some p \<Rightarrow> shutdown (pe_writer p) s) xs t)" for xs t
    by (rule refs_kept_fold, rule refs_kept_same) (auto split: option.splits)
  have b: "refs_kept t (fold (\<lambda>p. shutdown (pe_writer p)) xs (t\<lparr>peers := ps\<rparr>))" for xs t ps
    by (rule refs_kept_same) simp_all
  have c: "refs_kept t (fold (\<lambda>p s. case map_of (peers s) (pe_node_id p) of None \<Rightarrow> s
      | Some q \<Rightarrow> emit_patch E k (f p q) why s) xs t)" for k f why xs t
    by (rule refs_kept_fold, rule refs_kept_same) (auto split: option.splits)
  have d: "refs_kept t (fold (forget_peer E why) ids t)" for why ids t
    by (rule refs_kept_fold, rule refs_kept_same) (simp_all add: forget_peer_def)
  show ?thesis
    unfolding sweep_peers_def Let_def by (rule refs_kept_trans [OF refs_kept_trans [OF refs_kept_trans [OF a b] c] d])
qed

section \<open>New references\<close>

text \<open>The largest number a counter of calls takes before it would wrap.\<close>

definition last_ref :: nat where
  "last_ref = 2 ^ 64 - 1"

text \<open>No call to come has an id in the table.\<close>

definition fresh_refs :: "state \<Rightarrow> bool" where
  "fresh_refs s \<longleftrightarrow> (\<forall>a m. next_ref s \<le> m \<and> m < last_ref \<longrightarrow> \<not> hm_has (refs s) (ref_id_of a m))"

text \<open>A step: a reference in the table resolves at most once or goes, and one that is new has no
  id of a call to come.\<close>

definition refs_step :: "state \<Rightarrow> state \<Rightarrow> bool" where
  "refs_step s t \<longleftrightarrow> next_ref s \<le> next_ref t
     \<and> (\<forall>k r'. map_of (refs t) k = Some r' \<longrightarrow> (case map_of (refs s) k of
          Some r \<Rightarrow> rf_state r = RefPending \<or> rf_state r' = rf_state r
        | None \<Rightarrow> (\<forall>a m. next_ref t \<le> m \<and> m < last_ref \<longrightarrow> k \<noteq> ref_id_of a m)))"

lemma refs_step_kept: "refs_kept s t \<Longrightarrow> refs_step s t"
  by (fastforce simp: refs_kept_def refs_step_def)

lemma refs_step_then_kept:
  assumes "refs_step s t" "refs_kept t u"
  shows "refs_step s u"
  unfolding refs_step_def
proof (intro conjI allI impI)
  show "next_ref s \<le> next_ref u" using assms by (simp add: refs_step_def refs_kept_def)
  fix k r' assume "map_of (refs u) k = Some r'"
  with assms(2) obtain r where "map_of (refs t) k = Some r" "rf_state r = RefPending \<or> rf_state r' = rf_state r"
    "next_ref u = next_ref t" by (auto simp: refs_kept_def)
  with assms(1) show "case map_of (refs s) k of Some r \<Rightarrow> rf_state r = RefPending \<or> rf_state r' = rf_state r
      | None \<Rightarrow> (\<forall>a m. next_ref u \<le> m \<and> m < last_ref \<longrightarrow> k \<noteq> ref_id_of a m)"
    by (fastforce simp: refs_step_def split: option.splits)
qed

lemma refs_step_fresh: "refs_step s t \<Longrightarrow> fresh_refs s \<Longrightarrow> fresh_refs t"
proof -
  assume step: "refs_step s t" and fresh: "fresh_refs s"
  have "map_of (refs t) (ref_id_of a m) = None" if m: "next_ref t \<le> m" "m < last_ref" for a m
  proof (rule ccontr)
    assume "map_of (refs t) (ref_id_of a m) \<noteq> None"
    then obtain r' where r': "map_of (refs t) (ref_id_of a m) = Some r'" by blast
    have "next_ref s \<le> m" using step m by (simp add: refs_step_def)
    then have "map_of (refs s) (ref_id_of a m) = None" using fresh m by (simp add: fresh_refs_def hm_has_def)
    with step r' m show False by (fastforce simp: refs_step_def)
  qed
  then show ?thesis by (simp add: fresh_refs_def hm_has_def)
qed

text \<open>The number in an id reads back.\<close>

lemma ref_id_of_split: "ref_id_of a m = i @ CHR '':'' # n \<Longrightarrow> CHR '':'' \<notin> set n \<Longrightarrow> a = i \<and> show_nat m = n"
proof -
  assume "ref_id_of a m = i @ CHR '':'' # n" "CHR '':'' \<notin> set n"
  then have "rsplit_once (CHR '':'') (i @ CHR '':'' # n) = Some (i, n)"
    "rsplit_once (CHR '':'') (i @ CHR '':'' # n) = Some (a, show_nat m)"
    using colon_not_in_show_nat [of m] by (auto simp: rsplit_once_Some ref_id_of_def)
  then show ?thesis by simp
qed

text \<open>A call takes the counter's number, which is in no id of the table.\<close>

lemma actor_call_refs:
  assumes "fresh_refs s" "next_ref s < last_ref"
  shows "refs_step s (snd (actor_call E client aid method pl s))"
proof -
  let ?t = "snd (actor_call E client aid method pl s)" and ?k = "ref_id_of aid (next_ref s)"
  have n: "u64_add (next_ref s) 1 = next_ref s + 1" using assms(2) by (simp add: u64_add_def last_ref_def)
  have t: "next_ref ?t = next_ref s + 1" "\<exists>r. refs ?t = refs s \<or> refs ?t = hm_insert ?k r (refs s)"
    using n by (auto simp: actor_call_def Let_def split_def new_ref_id_def hold_call_def
        split: option.splits actor_state.splits)
  have none: "map_of (refs s) ?k = None" using assms by (simp add: fresh_refs_def hm_has_def)
  have other: "?k \<noteq> ref_id_of a m" if "next_ref s + 1 \<le> m" for a m
  proof
    assume "?k = ref_id_of a m"
    then have "ref_id_of a m = aid @ CHR '':'' # show_nat (next_ref s)" by (simp add: ref_id_of_def)
    from ref_id_of_split [OF this colon_not_in_show_nat] have "show_nat m = show_nat (next_ref s)" by simp
    then have "read_digits 10 0 (show_nat m) = read_digits 10 0 (show_nat (next_ref s))" by simp
    with that show False by (simp add: read_digits_show_nat)
  qed
  have "case map_of (refs s) k of Some r \<Rightarrow> rf_state r = RefPending \<or> rf_state r' = rf_state r
      | None \<Rightarrow> \<forall>a m. next_ref ?t \<le> m \<and> m < last_ref \<longrightarrow> k \<noteq> ref_id_of a m"
    if k: "map_of (refs ?t) k = Some r'" for k r'
  proof (cases "k = ?k")
    case True
    with none other t(1) show ?thesis by simp
  next
    case False
    with k t(2) have "map_of (refs s) k = Some r'" by (auto simp: map_of_hm_insert)
    then show ?thesis by simp
  qed
  with t(1) show ?thesis by (simp add: refs_step_def)
qed

text \<open>A reported call moves the counter past its own number.\<close>

lemma adopt_ref_refs:
  "next_ref s \<le> next_ref (adopt_ref E aid rid s)"
  "map_of (refs s) k = Some r \<Longrightarrow> map_of (refs (adopt_ref E aid rid s)) k = Some r"
  "map_of (refs s) k = None \<Longrightarrow> map_of (refs (adopt_ref E aid rid s)) k = Some r \<Longrightarrow>
     next_ref (adopt_ref E aid rid s) \<le> m \<Longrightarrow> m < last_ref \<Longrightarrow> k \<noteq> ref_id_of a m"
proof -
  show "next_ref s \<le> next_ref (adopt_ref E aid rid s)"
    by (auto simp: adopt_ref_def split: option.splits)
  show "map_of (refs (adopt_ref E aid rid s)) k = Some r" if "map_of (refs s) k = Some r"
    using that by (auto simp: adopt_ref_def hm_has_def map_of_hm_insert split: option.splits)
  show "k \<noteq> ref_id_of a m" if "map_of (refs s) k = None" "map_of (refs (adopt_ref E aid rid s)) k = Some r"
    "next_ref (adopt_ref E aid rid s) \<le> m" "m < last_ref"
  proof
    assume k: "k = ref_id_of a m"
    from that obtain i n where s: "k = rid" "rsplit_once (CHR '':'') rid = Some (i, n)"
      "next_ref (adopt_ref E aid rid s) = (case parse_u64 n of None \<Rightarrow> next_ref s | Some j \<Rightarrow> max (next_ref s) (u64_add j 1))"
      by (auto simp: adopt_ref_def map_of_hm_insert split: option.splits if_splits)
    then have "ref_id_of a m = i @ CHR '':'' # n" "CHR '':'' \<notin> set n" using k by (auto simp: rsplit_once_Some)
    from ref_id_of_split [OF this] have "parse_u64 n = Some m"
      using parse_uint_show_nat [of m "2 ^ 64 - 1"] that(4) by (auto simp: last_ref_def)
    then have "u64_add m 1 \<le> m" using s(3) that(3) by simp
    then show False using that(4) by (simp add: u64_add_def last_ref_def)
  qed
qed

lemma adopt_refs_step: "refs_step s (adopt_refs E aid rids s)
    \<and> (\<forall>k r. map_of (refs s) k = Some r \<longrightarrow> map_of (refs (adopt_refs E aid rids s)) k = Some r)"
  unfolding adopt_refs_def
proof (induction rids arbitrary: s)
  case (Cons rid rids)
  let ?s = "adopt_ref E aid rid s" and ?t = "fold (adopt_ref E aid) rids (adopt_ref E aid rid s)"
  have IH: "refs_step ?s ?t" "\<And>k r. map_of (refs ?s) k = Some r \<Longrightarrow> map_of (refs ?t) k = Some r" using Cons [of ?s] by auto
  note one = adopt_ref_refs [where s = s and E = E and aid = aid and rid = rid]
  have keep: "map_of (refs ?t) k = Some r" if "map_of (refs s) k = Some r" for k r using one(2) IH(2) that by blast
  have le: "next_ref ?s \<le> next_ref ?t" using IH(1) by (simp add: refs_step_def)
  have "k \<noteq> ref_id_of a m" if "map_of (refs s) k = None" "map_of (refs ?t) k = Some r'" "next_ref ?t \<le> m" "m < last_ref" for k r' a m
  proof (cases "map_of (refs ?s) k")
    case None
    with IH(1) that show ?thesis by (fastforce simp: refs_step_def)
  next
    case (Some r)
    from one(3) [OF that(1) Some _ that(4)] le that(3) show ?thesis by simp
  qed
  with keep one(1) le have "refs_step s ?t" by (fastforce simp: refs_step_def split: option.splits)
  with keep show ?case by simp
qed (simp add: refs_step_kept)

lemma fail_lost_refs:
  assumes "hm_wf (refs s)"
  shows "refs_kept s (fail_lost aid reported s)"
proof -
  let ?f = "\<lambda>r. r\<lparr>rf_state := RefActorDied ''call lost while the agent link was down''\<rparr>"
  define l where "l = map fst (filter (\<lambda>(rid, r). rf_state r = RefPending \<and> of_agent s aid r \<and> rid \<notin> set reported
    \<and> rid \<notin> set (queued_refs s aid)) (refs s))"
  have "map_of (fold (\<lambda>rid. hm_modify rid ?f) xs m) k = (if k \<in> set xs then map_option ?f (map_of m k) else map_of m k)"
    for xs k and m :: "(string, ref_info) table"
    by (induction xs arbitrary: m) (auto simp: map_of_hm_modify option.map_comp comp_def)
  moreover have "rf_state r = RefPending" if "k \<in> set l" "map_of (refs s) k = Some r" for k r
    using that assms by (auto simp: l_def hm_in_get)
  ultimately have "refs_kept s (s\<lparr>refs := fold (\<lambda>rid. hm_modify rid ?f) l (refs s)\<rparr>)"
    by (auto simp: refs_kept_def split: if_splits)
  then show ?thesis by (simp only: fail_lost_def Let_def l_def)
qed

lemma adopt_actors_refs:
  "refs (adopt_actors E aid grp nid resume s) = refs s" "next_ref (adopt_actors E aid grp nid resume s) = next_ref s"
proof -
  have "refs (fold (\<lambda>a s. s\<lparr>actors := hm_insert (ac_id a) a (actors s)\<rparr>) as t) = refs t
      \<and> next_ref (fold (\<lambda>a s. s\<lparr>actors := hm_insert (ac_id a) a (actors s)\<rparr>) as t) = next_ref t" for as and t :: state
    by (induction as arbitrary: t) simp_all
  then show "refs (adopt_actors E aid grp nid resume s) = refs s" "next_ref (adopt_actors E aid grp nid resume s) = next_ref s"
    by (simp_all add: adopt_actors_def Let_def)
qed

lemma register_row_next_ref: "next_ref (register_row E w aid grp node mach ctr pid serv meta s) = next_ref s"
  by (auto simp: register_row_def take_seq_def Let_def split: option.splits)

lemma send_held_refs: "refs_kept s (send_held E w aid s)"
  unfolding send_held_def
  by (rule refs_kept_trans [OF _ refs_kept_fold]) (auto intro: refs_kept_same split: prod.splits)

lemma agent_register_refs:
  assumes "daemon_inv s" "distinct (map g_index (m_gpus mach))" "reports_live s aid (reported_refs resume unacked)"
  shows "refs_step s (agent_register E w req aid grp node mach ctr pid serv resume unacked meta s)"
proof -
  let ?s1 = "register_row E w aid grp node mach ctr pid serv meta s" and ?rids = "reported_refs resume unacked"
  let ?s2 = "adopt_actors E aid grp (snd node) resume ?s1"
  let ?s4 = "bury_missing E aid resume (adopt_refs E aid ?rids ?s2)"
  have "refs_step s (adopt_refs E aid ?rids ?s2)"
    using adopt_refs_step [of ?s2 E aid ?rids]
    by (simp add: refs_step_def adopt_actors_refs register_row_tables register_row_next_ref)
  moreover have "refs_kept t (bury_missing E aid resume t)" for t
    unfolding bury_missing_def by (rule refs_kept_fold) (rule mark_actor_dead_refs)
  ultimately have s4: "refs_step s ?s4" by (rule refs_step_then_kept)
  have "hm_wf (refs ?s4)"
    using agent_register_parts [OF assms] by (simp add: daemon_invD bury_missing_inv)
  from refs_step_then_kept [OF s4 fail_lost_refs [OF this]] have s5: "refs_step s (fail_lost aid ?rids ?s4)" .
  have "refs_kept t (fold (\<lambda>i. post E w (A (ActorKill i)) 0 []) ks (post E w m req [] t))" for ks m t
    by (rule refs_kept_trans [OF _ refs_kept_fold]) (auto intro: refs_kept_same)
  then have "refs_kept t (try_place E (send_held E w aid (fold (\<lambda>i. post E w (A (ActorKill i)) 0 []) ks (post E w m req [] t))))" for ks m t
    by (rule refs_kept_trans [OF _ refs_kept_trans [OF send_held_refs try_place_refs]])
  from refs_step_then_kept [OF s5 this] show ?thesis unfolding agent_register_def Let_def .
qed

lemma agent_hello_refs:
  assumes "daemon_inv s" "distinct (map g_index (m_gpus mach))" "reports_live s aid (reported_refs resume unacked)"
  shows "refs_step s (snd (agent_hello E w req peer_ip pr aid grp claimed mach ctr pid serv resume unacked meta s))"
proof -
  have "refs_step s (post E w m req [] s)" "refs_step s (post E w m req [] (s\<lparr>misfiled_warned := x\<rparr>))" for m x
    by (rule refs_step_kept, rule refs_kept_same; simp)+
  with agent_register_refs [OF assms] show ?thesis
    by (auto simp: agent_hello_def Let_def split: option.splits)
qed

section \<open>Every step\<close>

lemma daemon_step_refs:
  assumes "daemon_step s t" "daemon_inv s" "fresh_refs s" "next_ref s < last_ref"
  shows "refs_step s t"
  using assms
proof (cases rule: daemon_step.cases)
  case (client_msg E rnd expired client m tt pl)
  show ?thesis
  proof (cases "\<exists>aid method. m = C (ActorCall aid method)")
    case True
    then show ?thesis using actor_call_refs [OF assms(3,4)] client_msg
      by (auto simp: handle_client_msg_def Let_def split_def)
  next
    case False
    then show ?thesis using handle_client_msg_refs client_msg by (auto intro: refs_step_kept)
  qed
next
  case (register mach aid resume unacked)
  then show ?thesis using agent_hello_refs [OF assms(2)] by blast
qed (auto intro!: refs_step_kept simp: client_hello_refs kill_actor_refs reap_begin_refs peer_ops_refs sweep_peers_refs
      handle_agent_msg_refs agent_lost_refs elect_refs sweep_lifecycle_refs reap_end_refs daemon_invD
      reap_client_row_def defer_reap_def intro: refs_kept_same)

text \<open>The steps of a daemon whose counter of calls has not reached its last value.\<close>

definition counted_step :: "state \<Rightarrow> state \<Rightarrow> bool" where
  "counted_step s t \<longleftrightarrow> daemon_step s t \<and> next_ref s < last_ref"

lemma new_state_fresh: "fresh_refs ((new_state ip host addr boot)\<lparr>http_port := port\<rparr>)"
  by (simp add: fresh_refs_def new_state_def hm_has_def)

interpretation counted: transition_system booted counted_step "\<lambda>s. daemon_inv s \<and> fresh_refs s"
  by unfold_locales
    (auto simp: booted_def new_state_inv new_state_fresh counted_step_def
      intro: daemon_step_inv refs_step_fresh daemon_step_refs)

section \<open>Properties\<close>

text \<open>C6: the first resolution of a call stands. Once a call has a result or has failed, no step of
  the daemon gives it another outcome: not a result re-sent after an outage, not the death of its
  actor, not a later call. Its row stays as it is until it goes.\<close>

theorem first_resolution_stands:
  assumes "booted s" "counted_step\<^sup>*\<^sup>* s t" "counted_step t u"
    and "map_of (refs t) rid = Some r" "rf_state r \<noteq> RefPending" "map_of (refs u) rid = Some r'"
  shows "rf_state r' = rf_state r"
proof -
  have "daemon_inv t" "fresh_refs t" using counted.inv_reached [OF assms(1,2)] by simp_all
  then have "refs_step t u" using assms(3) daemon_step_refs by (simp add: counted_step_def)
  with assms(4-6) show ?thesis by (fastforce simp: refs_step_def)
qed

text \<open>The id of a new call is in no row. Also after the daemon took over calls that agents
  reported, with numbers it never counted itself, the id it hands out next belongs to no call in
  the table, as long as its counter has not reached the end of its range.\<close>

theorem new_call_id_is_fresh:
  assumes "booted s" "counted_step\<^sup>*\<^sup>* s t" "next_ref t < last_ref"
  shows "\<not> hm_has (refs t) (fst (new_ref_id actor t))"
  using counted.inv_reached [OF assms(1,2)] assms(3) by (simp add: fresh_refs_def new_ref_id_def)

end
