(* ===== verification/AgentCalls.thy ===== *)
theory AgentCalls
  imports AgentProps Refs
begin

text \<open>
  Calls through an agent: an actor's host gets its calls in the order they arrived, and what a
  registration reports decides which calls the daemon keeps. The second half composes the agent
  process with the daemon's \<open>agent_register\<close>.
\<close>

section \<open>The order of calls\<close>

definition call_ref :: "msg \<Rightarrow> string option" where
  "call_ref m = (case m of H (HostCall rid _) \<Rightarrow> Some rid | _ \<Rightarrow> None)"

text \<open>The calls written to a host's socket, a row's host and waiting calls, and all calls of an actor:
  written, then waiting.\<close>

definition calls_to :: "sock \<Rightarrow> agent_proc \<Rightarrow> string list" where
  "calls_to v a = List.map_filter (\<lambda>f. if sf_sock f = v then call_ref (sf_msg f) else None) (ap_sent a)"

definition calls_view :: "agent_proc \<Rightarrow> string \<Rightarrow> (sock option \<times> queued_call list) option" where
  "calls_view a i = map_option (\<lambda>h. (ha_host h, ha_queued_calls h)) (map_of (ap_actors a) i)"

definition calls_of :: "agent_proc \<Rightarrow> string \<Rightarrow> string list option" where
  "calls_of a i = map_option (\<lambda>(host, q). (case host of None \<Rightarrow> [] | Some v \<Rightarrow> calls_to v a) @ map fst q) (calls_view a i)"

definition calls_wf :: "agent_proc \<Rightarrow> bool" where
  "calls_wf a \<longleftrightarrow> distinct (map fst (ap_spawns a))
     \<and> (\<forall>i w sp host q. (i, w, sp) \<in> set (ap_spawns a) \<longrightarrow> (\<forall>pid. sp \<noteq> Relaying pid) \<longrightarrow>
          calls_view a i = Some (host, q) \<longrightarrow> host = None)
     \<and> (\<forall>i v q. calls_view a i = Some (Some v, q) \<longrightarrow> q = [])
     \<and> (\<forall>i j v q r. calls_view a i = Some (Some v, q) \<longrightarrow> calls_view a j = Some (Some v, r) \<longrightarrow> i = j)
     \<and> (\<forall>m pl. (m, pl) \<in> set (held a) \<longrightarrow> call_ref m = None)"

definition calls_grow :: "agent_proc \<Rightarrow> agent_proc \<Rightarrow> bool" where
  "calls_grow a b \<longleftrightarrow> (\<forall>i xs. calls_of a i = Some xs \<longrightarrow> gone i b \<or> (\<exists>ys. calls_of b i = Some (xs @ ys)))"

lemma calls_wfD:
  assumes "calls_wf a"
  shows "distinct (map fst (ap_spawns a))"
    and "(i, w, sp) \<in> set (ap_spawns a) \<Longrightarrow> \<forall>pid. sp \<noteq> Relaying pid \<Longrightarrow> calls_view a i = Some (host, q) \<Longrightarrow> host = None"
    and "calls_view a i = Some (Some v, q) \<Longrightarrow> q = []"
    and "calls_view a i = Some (Some v, q) \<Longrightarrow> calls_view a j = Some (Some v, r) \<Longrightarrow> i = j"
    and "(m, pl) \<in> set (held a) \<Longrightarrow> call_ref m = None"
  using assms unfolding calls_wf_def by blast+

lemma calls_to_frame:
  "frame_to W w m req pl a = (ok, b) \<Longrightarrow> calls_to v b = calls_to v a @ (if w = v then opt_list (call_ref m) else [])"
  by (auto simp: frame_to_def Let_def calls_to_def map_filter_def opt_list_def split: option.split)

lemma calls_to_snd_frame:
  "calls_to v (snd (frame_to W w m req pl a)) = calls_to v a @ (if w = v then opt_list (call_ref m) else [])"
  using calls_to_frame [of W w m req pl a "fst (frame_to W w m req pl a)"] by simp

lemma calls_to_sent: "ap_sent b = ap_sent a \<Longrightarrow> calls_to v b = calls_to v a"
  by (simp add: calls_to_def)

lemma calls_of_same:
  "calls_view b i = calls_view a i \<Longrightarrow> (\<And>v. calls_to v b = calls_to v a) \<Longrightarrow> calls_of b i = calls_of a i"
  by (simp add: calls_of_def cong: option.case_cong)

text \<open>Steps that leave hosts, waiting calls and threads alone, and write no call.\<close>

lemma quiet_calls:
  assumes "calls_wf a" "calls_view b = calls_view a" "ap_spawns b = ap_spawns a" "\<And>v. calls_to v b = calls_to v a"
    and "\<And>m pl. (m, pl) \<in> set (held b) \<Longrightarrow> (m, pl) \<in> set (held a) \<or> call_ref m = None"
  shows "calls_wf b \<and> calls_grow a b"
proof
  show "calls_wf b" using assms calls_wfD(5) [OF assms(1)] unfolding calls_wf_def by metis
  show "calls_grow a b" using calls_of_same [of b _ a] assms(2,4) by (auto simp: calls_grow_def)
qed

lemma calls_grow_refl [simp]: "calls_grow a a"
  by (auto simp: calls_grow_def)

lemma calls_to_updates [simp]:
  "calls_to v (a\<lparr>ap_sends := x1\<rparr>) = calls_to v a" "calls_to v (a\<lparr>ap_unsent := x2\<rparr>) = calls_to v a"
  "calls_to v (a\<lparr>ap_phase := x3\<rparr>) = calls_to v a" "calls_to v (a\<lparr>ap_daemon := x4\<rparr>) = calls_to v a"
  "calls_to v (a\<lparr>ap_actors := x5\<rparr>) = calls_to v a" "calls_to v (a\<lparr>ap_spawns := x6\<rparr>) = calls_to v a"
  "calls_to v (a\<lparr>ap_reapers := x7\<rparr>) = calls_to v a" "calls_to v (a\<lparr>ap_signals := x8\<rparr>) = calls_to v a"
  "calls_to v (a\<lparr>ap_closed := x9\<rparr>) = calls_to v a" "calls_to v (a\<lparr>ap_service_notes := x10\<rparr>) = calls_to v a"
  by (simp_all add: calls_to_def)

lemma set_drop_nth: "set (drop_nth n xs) \<subseteq> set xs"
  using set_take_subset [of n xs] set_drop_subset [of "Suc n" xs] by (auto simp: drop_nth_def)

lemma quiet_send_part:
  assumes "calls_wf a"
  shows "calls_wf (send_part W n a) \<and> calls_grow a (send_part W n a)"
proof (cases "n < length (ap_sends a)")
  case True
  obtain st m pl where f: "ap_sends a ! n = (st, m, pl)" by (cases "ap_sends a ! n")
  then have in_held: "(m, pl) \<in> set (held a)" using nth_mem [OF True] by (force simp: held_def)
  note no_call = calls_wfD(5) [OF assms this]
  have moved: "snd ` set ((ap_sends a)[n := (st', m, pl)]) = snd ` set (ap_sends a)" for st'
    using arg_cong [OF map_snd_move [OF True, of "(st', m, pl)"], of set] f by simp
  have dropped: "(s, x) \<in> set (drop_nth n (ap_sends a)) \<Longrightarrow> x \<in> snd ` set (ap_sends a)" for s x
    using set_drop_nth [of n "ap_sends a"] by (force dest: subsetD)
  show ?thesis
  proof (rule quiet_calls [OF assms])
    show "calls_view (send_part W n a) = calls_view a" by (simp add: calls_view_def fun_eq_iff row_simps)
    show "ap_spawns (send_part W n a) = ap_spawns a" by (simp add: thread_simps)
    show "calls_to v (send_part W n a) = calls_to v a" for v
      using True f no_call
      by (auto simp: send_part_def calls_to_frame opt_list_def split: sending.split option.split prod.split)
    show "(m', pl') \<in> set (held (send_part W n a)) \<Longrightarrow> (m', pl') \<in> set (held a) \<or> call_ref m' = None" for m' pl'
      using True f in_held
      by (cases st) (auto simp: send_part_def held_def frame_to_sel moved dest: dropped
          split: option.splits prod.splits if_splits)
  qed
qed (simp add: send_part_def assms)

lemma quiet_serve_part:
  assumes "calls_wf a"
  shows "calls_wf (serve_part W ao w reply a) \<and> calls_grow a (serve_part W ao w reply a)"
proof (rule quiet_calls [OF assms])
  show "calls_view (serve_part W ao w reply a) = calls_view a" by (simp add: calls_view_def fun_eq_iff row_simps)
  show "ap_spawns (serve_part W ao w reply a) = ap_spawns a" by (simp add: thread_simps)
  show "calls_to v (serve_part W ao w reply a) = calls_to v a" for v
  proof (cases "ap_phase a")
    case (Reported x res una)
    then show ?thesis
      by (auto simp: serve_part_def link_down_def calls_to_frame opt_list_def call_ref_def register_msg_def split: prod.split)
  next
    case (Draining x b)
    show ?thesis
    proof (cases b)
      case (Cons y rest)
      obtain m pl where y: "y = (m, pl)" by fastforce
      have "call_ref m = None" by (rule calls_wfD(5) [OF assms, of m pl]) (simp add: held_def Draining Cons y)
      then show ?thesis using Draining Cons y
        by (auto simp: serve_part_def calls_to_frame opt_list_def split: prod.split)
    qed (auto simp: serve_part_def Draining intro: calls_to_sent)
  qed (auto simp: serve_part_def link_down_def intro: calls_to_sent split: option.split)
  show "(m, pl) \<in> set (held (serve_part W ao w reply a)) \<Longrightarrow> (m, pl) \<in> set (held a) \<or> call_ref m = None" for m pl
    by (auto simp: serve_part_def held_def link_down_def frame_to_sel
        split: phase.splits option.splits prod.splits list.splits if_splits)
qed

lemma view_updates [simp]:
  "calls_view (a\<lparr>ap_sends := x1\<rparr>) = calls_view a" "calls_view (a\<lparr>ap_unsent := x2\<rparr>) = calls_view a"
  "calls_view (a\<lparr>ap_phase := x3\<rparr>) = calls_view a" "calls_view (a\<lparr>ap_daemon := x4\<rparr>) = calls_view a"
  "calls_view (a\<lparr>ap_spawns := x6\<rparr>) = calls_view a" "calls_view (a\<lparr>ap_service_notes := x10\<rparr>) = calls_view a"
  "calls_view (a\<lparr>ap_reapers := x7\<rparr>) = calls_view a" "calls_view (a\<lparr>ap_signals := x8\<rparr>) = calls_view a"
  "calls_view (a\<lparr>ap_closed := x9\<rparr>) = calls_view a"
  by (simp_all add: calls_view_def fun_eq_iff)

lemma quiet_rest:
  assumes "calls_wf a"
  shows "calls_wf (ping W w a) \<and> calls_grow a (ping W w a)"
    and "calls_wf (daemon_ends a) \<and> calls_grow a (daemon_ends a)"
    and "calls_wf (snd (watch_round late bound name st a)) \<and> calls_grow a (snd (watch_round late bound name st a))"
    and "calls_wf (kill_actor_process i a) \<and> calls_grow a (kill_actor_process i a)"
    and "calls_wf (host_says i pid m pl a) \<and> calls_grow a (host_says i pid m pl a)"
    and "call_ref mm = None \<Longrightarrow> calls_wf (snd (frame_to W w mm req pl a)) \<and> calls_grow a (snd (frame_to W w mm req pl a))"
proof -
  show "calls_wf (ping W w a) \<and> calls_grow a (ping W w a)"
    by (rule quiet_calls [OF assms], simp_all add: calls_view_def fun_eq_iff row_simps thread_simps)
       (auto simp: ping_def calls_to_frame call_ref_def opt_list_def held_def frame_to_sel split: prod.splits if_splits)
  show "calls_wf (daemon_ends a) \<and> calls_grow a (daemon_ends a)"
    by (rule quiet_calls [OF assms], simp_all add: calls_view_def fun_eq_iff row_simps thread_simps)
       (auto simp: daemon_ends_def link_down_def held_def split: phase.splits)
  show "calls_wf (snd (watch_round late bound name st a)) \<and> calls_grow a (snd (watch_round late bound name st a))"
    by (rule quiet_calls [OF assms], simp_all add: calls_view_def fun_eq_iff row_simps thread_simps)
       (auto simp: watch_round_def call_send_def call_ref_def held_def split: prod.splits if_splits)
  show "calls_wf (kill_actor_process i a) \<and> calls_grow a (kill_actor_process i a)"
    by (rule quiet_calls [OF assms], simp_all add: calls_view_def fun_eq_iff row_simps thread_simps option.map_comp)
       (auto simp: kill_actor_process_def held_def intro!: option.map_cong0 split: option.splits if_splits)
  show "calls_wf (host_says i pid m pl a) \<and> calls_grow a (host_says i pid m pl a)"
    by (rule quiet_calls [OF assms])
       (auto simp: calls_view_def fun_eq_iff host_says_def call_send_def call_ref_def map_of_hm_modify held_def option.map_comp
         split: msg.splits host_msg.splits intro!: option.map_cong0)
  show "call_ref mm = None \<Longrightarrow> calls_wf (snd (frame_to W w mm req pl a)) \<and> calls_grow a (snd (frame_to W w mm req pl a))"
    by (rule quiet_calls [OF assms]) (simp_all add: calls_view_def fun_eq_iff calls_to_snd_frame opt_list_def held_def)
qed

lemma held_updates [simp]: "held (a\<lparr>ap_actors := x1\<rparr>) = held a" "held (a\<lparr>ap_spawns := x2\<rparr>) = held a"
  "held (a\<lparr>ap_reapers := x3\<rparr>) = held a" "held (a\<lparr>ap_signals := x4\<rparr>) = held a"
  by (simp_all add: held_def)

lemma held_frame [simp]: "held (snd (frame_to W w m req pl a)) = held a"
  by (simp add: held_def)

text \<open>A new row, and a row that is removed with its end reported.\<close>

lemma calls_on_spawn:
  assumes "calls_wf a" "\<not> hm_has (ap_actors a) i" "i \<notin> fst ` set (ap_spawns a)"
  shows "calls_wf (on_spawn w i name gpus owner pl a) \<and> calls_grow a (on_spawn w i name gpus owner pl a)"
proof -
  let ?b = "on_spawn w i name gpus owner pl a"
  have v: "calls_view ?b = (calls_view a)(i \<mapsto> (None, []))" by (auto simp: calls_view_def rows_on_spawn)
  have i: "calls_view a i = None" using assms(2) by (simp add: calls_view_def hm_has_def)
  have b: "ap_spawns ?b = ap_spawns a @ [(i, w, Starting pl)]" "held ?b = held a" "calls_to u ?b = calls_to u a" for u
    by (simp_all add: on_spawn_def held_def)
  have "calls_of ?b j = (if j = i then Some [] else calls_of a j)" for j
    by (simp add: calls_of_def v b cong: option.case_cong)
  then have "calls_grow a ?b" using i by (auto simp: calls_grow_def calls_of_def)
  moreover have "calls_wf ?b" using assms(1,3) unfolding calls_wf_def v b by (auto split: if_splits)
  ultimately show ?thesis by simp
qed

lemma calls_removed:
  assumes "calls_wf a" "calls_view b = (calls_view a)(j := None)" "gone j b"
    and "distinct (map fst (ap_spawns b))" "set (ap_spawns b) \<subseteq> set (ap_spawns a)" "\<And>v. calls_to v b = calls_to v a"
    and "\<And>m pl. (m, pl) \<in> set (held b) \<Longrightarrow> (m, pl) \<in> set (held a) \<or> call_ref m = None"
  shows "calls_wf b \<and> calls_grow a b"
proof
  have "calls_of b i = (if i = j then None else calls_of a i)" for i
    by (simp add: calls_of_def assms(2,6) cong: option.case_cong)
  then show "calls_grow a b" using assms(3) by (auto simp: calls_grow_def)
  show "calls_wf b"
    using assms(4,5) calls_wfD(2-4) [OF assms(1)] assms(7) calls_wfD(5) [OF assms(1)]
    unfolding calls_wf_def assms(2) by (auto split: if_splits) blast+
qed

text \<open>Calls written to a host: one at a time, and those that waited, in their order.\<close>

lemma calls_to_host_call:
  "calls_to u (host_call W v q a) = calls_to u a @ (if u = v then [fst q] else [])"
  by (cases q) (auto simp: host_call_def call_send_def calls_to_frame call_ref_def opt_list_def split: prod.split)

lemma calls_to_published:
  "calls_to u (fold (host_call W v) qs a) = calls_to u a @ (if u = v then map fst qs else [])"
  by (induction qs arbitrary: a) (simp_all add: calls_to_host_call)

lemma held_host_calls:
  "(m, pl) \<in> set (held (fold (host_call W v) qs a)) \<Longrightarrow> (m, pl) \<in> set (held a) \<or> call_ref m = None"
proof (induction qs arbitrary: a)
  case (Cons q qs)
  have "(m, pl) \<in> set (held (host_call W v q a)) \<Longrightarrow> (m, pl) \<in> set (held a) \<or> call_ref m = None"
    by (cases q) (auto simp: host_call_def held_def call_send_def call_ref_def frame_to_sel split: prod.splits if_splits)
  with Cons show ?case by auto
qed simp

lemma calls_dispatch:
  assumes "calls_wf a"
  shows "calls_wf (on_dispatch W w i rid method pl a) \<and> calls_grow a (on_dispatch W w i rid method pl a)
    \<and> (\<forall>xs. calls_of a i = Some xs \<longrightarrow> calls_of (on_dispatch W w i rid method pl a) i = Some (xs @ [rid]))"
proof (cases "calls_view a i")
  case None
  then have "on_dispatch W w i rid method pl a =
      snd (frame_to W w (A (ActorResult rid False (''no such actor '' @ i @ '' on this agent''))) 0 [] a)"
    by (simp add: on_dispatch_def calls_view_def)
  with quiet_rest(6) [OF assms] show ?thesis using None by (simp add: call_ref_def calls_of_def)
next
  case (Some hq)
  obtain host q where hq: "calls_view a i = Some (host, q)" using Some by (cases hq) simp
  then obtain h where h: "map_of (ap_actors a) i = Some h" "ha_host h = host" "ha_queued_calls h = q"
    by (auto simp: calls_view_def)
  let ?b = "on_dispatch W w i rid method pl a"
  have sp: "ap_spawns ?b = ap_spawns a" by (simp add: thread_simps)
  have view: "calls_view ?b = (calls_view a)(i \<mapsto> (host, q @ (if host = None then [(rid, method, pl)] else [])))"
    using h by (auto simp: calls_view_def rows_dispatch dispatch_row_def fun_eq_iff)
  have held: "held ?b = held a" using h
    by (auto simp: on_dispatch_def Let_def held_def frame_to_sel split: option.split prod.split)
  have to: "calls_to u ?b = calls_to u a @ (if host = Some u then [rid] else [])" for u
    using h by (auto simp: on_dispatch_def Let_def calls_to_frame calls_to_snd_frame call_ref_def opt_list_def
        split: option.split prod.split)
  have "calls_wf ?b" using calls_wfD(1) [OF assms] calls_wfD(2-4) [OF assms] calls_wfD(5) [OF assms] hq
    unfolding calls_wf_def view sp held by (auto split: if_splits)
  moreover have i: "calls_of ?b i = map_option (\<lambda>xs. xs @ [rid]) (calls_of a i)"
    using hq calls_wfD(3) [OF assms, of i] by (cases host) (auto simp: calls_of_def view to)
  moreover have "calls_of ?b j = calls_of a j" if "j \<noteq> i" for j
    using that calls_wfD(4) [OF assms, of i _ q j] hq
    by (cases "calls_view a j") (auto simp: calls_of_def view to split: option.split)
  ultimately have "calls_wf ?b" "\<exists>ys. calls_of ?b j = Some (xs @ ys)" "j = i \<Longrightarrow> calls_of ?b j = Some (xs @ [rid])"
    if "calls_of a j = Some xs" for j xs
    using that by (cases "j = i"; simp)+
  with \<open>calls_wf ?b\<close> show ?thesis unfolding calls_grow_def by blast
qed

lemma distinct_drop_nth:
  assumes "distinct (map f xs)"
  shows "distinct (map f (drop_nth n xs))"
proof (cases "n < length xs")
  case True
  then obtain ys zs where "xs = ys @ xs ! n # zs" "n = length ys" by (rule nth_split)
  then obtain x where "xs = ys @ x # zs" "n = length ys" by blast
  with assms show ?thesis by simp
qed (simp add: drop_nth_def assms)

lemma calls_publish:
  assumes "calls_wf a" "ap_spawns a = xs @ (i, w, Forked pid pl) # ys"
    and "\<forall>j q. calls_view a j \<noteq> Some (Some v, q)" "calls_to v a = []"
  shows "calls_wf (move_spawn (length xs) (Relaying pid) (publish W i v a))
    \<and> calls_grow a (move_spawn (length xs) (Relaying pid) (publish W i v a))"
proof (cases "calls_view a i")
  case None
  then have p: "publish W i v a = a" by (simp add: publish_def calls_view_def)
  let ?b = "move_spawn (length xs) (Relaying pid) a"
  have b: "ap_spawns ?b = xs @ (i, w, Relaying pid) # ys" "calls_view ?b = calls_view a" "held ?b = held a"
    "calls_to u ?b = calls_to u a" for u
    using assms(2) by (simp_all add: move_spawn_def)
  have "calls_of ?b j = calls_of a j" for j by (rule calls_of_same) (simp_all add: b)
  then have "calls_grow a ?b" by (simp add: calls_grow_def)
  moreover have "calls_wf ?b" using assms(1,2) unfolding calls_wf_def b by auto
  ultimately show ?thesis by (simp add: p)
next
  case (Some hq)
  obtain host q where hq: "calls_view a i = Some (host, q)" using Some by (cases hq) simp
  with calls_wfD(2) [OF assms(1), of i w "Forked pid pl" host q] assms(2) have host: "host = None" by simp
  obtain h where h: "map_of (ap_actors a) i = Some h" "ha_host h = None" "ha_queued_calls h = q"
    using hq host by (auto simp: calls_view_def)
  let ?b = "move_spawn (length xs) (Relaying pid) (publish W i v a)"
  have b: "ap_spawns ?b = xs @ (i, w, Relaying pid) # ys" "calls_view ?b = (calls_view a)(i \<mapsto> (Some v, []))"
    using assms(2) h by (simp_all add: move_spawn_def thread_simps calls_view_def rows_publish fun_eq_iff)
  have to: "calls_to u ?b = calls_to u a @ (if u = v then map fst q else [])" for u
    using h by (simp add: move_spawn_def publish_def calls_to_published)
  have held: "(m, p) \<in> set (held ?b) \<Longrightarrow> (m, p) \<in> set (held a) \<or> call_ref m = None" for m p
    using h held_host_calls [of m p W v q] by (fastforce simp: move_spawn_def publish_def)
  have "calls_of ?b i = calls_of a i" using hq host assms(4) by (simp add: calls_of_def b to)
  moreover have "calls_of ?b j = calls_of a j" if "j \<noteq> i" for j
    using that assms(3) by (cases "calls_view a j") (auto simp: calls_of_def b to split: option.split)
  ultimately have "calls_grow a ?b" by (metis (no_types) calls_grow_def append_Nil2)
  moreover have "calls_wf ?b"
  proof -
    have d: "distinct (map fst xs)" "distinct (map fst ys)" "i \<notin> fst ` set xs" "i \<notin> fst ` set ys"
      "fst ` set xs \<inter> fst ` set ys = {}"
      using calls_wfD(1) [OF assms(1)] by (auto simp: assms(2))
    have "host' = None" if "(j, w', sp) \<in> set (ap_spawns ?b)" "\<forall>pid. sp \<noteq> Relaying pid" "calls_view ?b j = Some (host', r)"
      for j w' sp host' r
    proof -
      have "j \<noteq> i" "(j, w', sp) \<in> set (ap_spawns a)" using that(1,2) d(3,4) by (auto simp: b assms(2) image_iff)
      with that(2,3) show ?thesis by (auto simp: b intro: calls_wfD(2) [OF assms(1)])
    qed
    moreover have "r = []" if "calls_view ?b j = Some (Some u, r)" for j u r
      using that calls_wfD(3) [OF assms(1)] by (auto simp: b split: if_splits)
    moreover have "j = k" if "calls_view ?b j = Some (Some u, r)" "calls_view ?b k = Some (Some u, t)" for j k u r t
      using that assms(3) calls_wfD(4) [OF assms(1)] by (auto simp: b split: if_splits)
    moreover have "call_ref m = None" if "(m, p) \<in> set (held ?b)" for m p
      using held [OF that] calls_wfD(5) [OF assms(1)] by blast
    moreover have "distinct (map fst (ap_spawns ?b))" using d by (auto simp: b)
    ultimately show ?thesis unfolding calls_wf_def by blast
  qed
  ultimately show ?thesis by simp
qed

lemma calls_end_spawn:
  assumes "calls_wf a"
  shows "calls_wf (end_spawn n a)" "calls_of (end_spawn n a) = calls_of a"
proof -
  have "calls_view (end_spawn n a) = calls_view a" "held (end_spawn n a) = held a" by (simp_all add: end_spawn_def)
  moreover have "set (ap_spawns (end_spawn n a)) \<subseteq> set (ap_spawns a)" by (simp add: end_spawn_def set_drop_nth)
  moreover have "distinct (map fst (ap_spawns (end_spawn n a)))"
    using calls_wfD(1) [OF assms] by (simp add: end_spawn_def distinct_drop_nth)
  ultimately show "calls_wf (end_spawn n a)"
    using calls_wfD(2-4) [OF assms] calls_wfD(5) [OF assms] unfolding calls_wf_def by (simp add: subset_iff) blast
  show "calls_of (end_spawn n a) = calls_of a"
    by (auto simp: end_spawn_def intro!: calls_of_same ext)
qed

lemma calls_grow_end:
  assumes "calls_wf b \<and> calls_grow a b"
  shows "calls_wf (end_spawn n b) \<and> calls_grow a (end_spawn n b)"
  using assms calls_end_spawn [of b n] by (simp add: calls_grow_def)

lemma calls_spawn_failed:
  assumes "calls_wf a"
  shows "calls_wf (spawn_failed W w i err a) \<and> calls_grow a (spawn_failed W w i err a)"
proof (rule calls_removed [OF assms _ gone_spawn_failed])
  show "calls_view (spawn_failed W w i err a) = (calls_view a)(i := None)"
    by (auto simp: calls_view_def row_simps map_of_hm_remove)
  show "calls_to v (spawn_failed W w i err a) = calls_to v a" for v
    by (simp add: spawn_failed_def calls_to_snd_frame call_ref_def opt_list_def)
qed (use calls_wfD(1) [OF assms] in \<open>simp_all add: spawn_failed_def\<close>)

lemma calls_reap:
  assumes "calls_wf a"
  shows "calls_wf (reap n code sig a) \<and> calls_grow a (reap n code sig a)"
proof (cases "n < length (ap_reapers a)")
  case True
  obtain i pid where t: "ap_reapers a ! n = (i, pid)" by fastforce
  show ?thesis
  proof (rule calls_removed [OF assms _ gone_reaped [OF True t]])
    show "calls_view (reap n code sig a) = (calls_view a)(i := None)"
      using True t by (auto simp: calls_view_def reap_def rows_call_send map_of_hm_remove)
    show "(m, pl) \<in> set (held (reap n code sig a)) \<Longrightarrow> (m, pl) \<in> set (held a) \<or> call_ref m = None" for m pl
      using True t by (auto simp: reap_def held_def call_send_def call_ref_def)
  qed (use True t calls_wfD(1) [OF assms] in \<open>simp_all add: reap_def call_send_def\<close>)
qed (simp add: reap_def assms)

lemma calls_fork:
  assumes "calls_wf a" "ap_spawns a = xs @ (i, w, Starting pl) # ys"
  shows "calls_wf (move_spawn (length xs) (Forked pid pl) ((forked i pid a)\<lparr>ap_reapers := r\<rparr>))
    \<and> calls_grow a (move_spawn (length xs) (Forked pid pl) ((forked i pid a)\<lparr>ap_reapers := r\<rparr>))"
proof -
  let ?b = "move_spawn (length xs) (Forked pid pl) ((forked i pid a)\<lparr>ap_reapers := r\<rparr>)"
  have v: "calls_view (forked i pid a) = calls_view a"
    by (auto simp: calls_view_def rows_forked fun_eq_iff option.map_comp intro!: option.map_cong0)
  have h: "held (forked i pid a) = held a" "ap_spawns (forked i pid a) = ap_spawns a" "ap_sent (forked i pid a) = ap_sent a"
    by (simp_all add: forked_def kill_actor_process_def Let_def held_def split: option.split)
  have b: "ap_spawns ?b = xs @ (i, w, Forked pid pl) # ys" "calls_view ?b = calls_view a" "held ?b = held a"
    "calls_to u ?b = calls_to u a" for u
    using assms(2) by (simp_all add: move_spawn_def v h calls_to_def)
  have "calls_of ?b j = calls_of a j" for j by (rule calls_of_same) (simp_all add: b)
  then have "calls_grow a ?b" by (simp add: calls_grow_def)
  moreover have "calls_wf ?b" using assms(1,2) unfolding calls_wf_def b by auto
  ultimately show ?thesis by simp
qed

lemma calls_spawn:
  assumes "calls_wf a" "spawn_given a ev"
  shows "calls_wf (spawn_actor W dir python n ev a) \<and> calls_grow a (spawn_actor W dir python n ev a)"
proof (cases "n < length (ap_spawns a)")
  case True
  then obtain xs ys where r: "ap_spawns a = xs @ ap_spawns a ! n # ys" "n = length xs" by (rule nth_split)
  obtain i w sp where t: "ap_spawns a ! n = (i, w, sp)" by (cases "ap_spawns a ! n")
  have r': "ap_spawns a = xs @ (i, w, sp) # ys" using r t by simp
  have sig: "calls_wf (a\<lparr>ap_signals := q\<rparr>) \<and> calls_grow a (a\<lparr>ap_signals := q\<rparr>)" for q
    by (rule quiet_calls [OF assms(1)]) simp_all
  have greet: "calls_wf (move_spawn n (Relaying pid) (publish W i v b))
      \<and> calls_grow a (move_spawn n (Relaying pid) (publish W i v b))"
    and fail: "calls_wf (end_spawn n b) \<and> calls_grow a (end_spawn n b)"
    if f: "frame_to W v (H (Ctor PROTO)) 0 pl a = (ok, b)" and "ev = Greets v m" "sp = Forked pid pl" for v ok b pl pid m
  proof -
    have q: "calls_wf b \<and> calls_grow a b" using quiet_rest(6) [OF assms(1), of "H (Ctor PROTO)" W v 0 pl] f
      by (simp add: call_ref_def)
    then show "calls_wf (end_spawn n b) \<and> calls_grow a (end_spawn n b)" by (rule calls_grow_end)
    have vb: "calls_view b = calls_view a" using frame_to_sel [OF f] by (simp add: calls_view_def fun_eq_iff)
    have to: "calls_to u b = calls_to u a" for u using calls_to_frame [OF f] by (simp add: call_ref_def opt_list_def)
    have "\<forall>j q. calls_view b j \<noteq> Some (Some v, q)"
      using assms(2) that(2) unfolding vb by (force simp: calls_view_def hosts_of_def in_map_filter dest: map_of_SomeD)
    moreover have "calls_to v b = []"
      using assms(2) that(2) unfolding to by (auto simp: calls_to_def map_filter_def filter_empty_conv)
    moreover have "ap_spawns b = xs @ (i, w, Forked pid pl) # ys" using r' that(3) frame_to_sel [OF f] by simp
    ultimately have p: "calls_wf (move_spawn n (Relaying pid) (publish W i v b))
        \<and> calls_grow b (move_spawn n (Relaying pid) (publish W i v b))" using calls_publish q r(2) by metis
    have "calls_of b = calls_of a" by (rule ext, rule calls_of_same) (simp_all add: vb to)
    with p show "calls_wf (move_spawn n (Relaying pid) (publish W i v b))
        \<and> calls_grow a (move_spawn n (Relaying pid) (publish W i v b))" by (simp add: calls_grow_def)
  qed
  show ?thesis
    using True t assms(1) greet fail calls_fork [OF assms(1), of xs i w _ ys] r' r(2)
      calls_grow_end [OF calls_spawn_failed [OF assms(1)]] calls_grow_end [OF sig]
      calls_grow_end [of a a] quiet_rest(5) [OF assms(1)]
    by (cases sp; cases ev) (simp_all add: spawn_actor_def Let_def split: prod.split)
qed (simp add: spawn_actor_def assms)

lemma calls_says:
  assumes "calls_wf a" "says_given a m"
  shows "calls_wf (daemon_says W req m pl a) \<and> calls_grow a (daemon_says W req m pl a)"
  using assms calls_dispatch [OF assms(1)] quiet_rest(4,6) [OF assms(1)] calls_on_spawn [OF assms(1)]
  by (auto simp: daemon_says_def says_given_def call_ref_def split: phase.split msg.splits agent_msg.splits)

lemma calls_step:
  assumes "agent_step ao a b" "calls_wf a"
  shows "calls_wf b \<and> calls_grow a b"
  using assms
  by (induction rule: agent_step.induct)
     (rule quiet_send_part quiet_serve_part calls_says quiet_rest(1-3) calls_spawn calls_reap; assumption)+

lemma calls_wf_start: "calls_wf agent_start"
  by (simp add: calls_wf_def agent_start_def calls_view_def held_def)

text \<open>The calls of an actor start with \<open>xs\<close>, until its end is reported.\<close>

definition calls_begin :: "string \<Rightarrow> string list \<Rightarrow> agent_proc \<Rightarrow> bool" where
  "calls_begin i xs a \<longleftrightarrow> gone i a \<or> (\<exists>ys. calls_of a i = Some (xs @ ys))"

lemma calls_begin_step:
  assumes "agent_step ao a b" "calls_wf a" "calls_begin i xs a"
  shows "calls_begin i xs b"
proof (cases "gone i a")
  case True
  then show ?thesis using gone_mono [OF agent_step_keeps [OF assms(1)]] by (simp add: calls_begin_def)
next
  case False
  then obtain ys where "calls_of a i = Some (xs @ ys)" using assms(3) by (auto simp: calls_begin_def)
  with calls_step [OF assms(1,2)] have "gone i b \<or> (\<exists>zs. calls_of b i = Some ((xs @ ys) @ zs))"
    unfolding calls_grow_def by blast
  then show ?thesis by (auto simp: calls_begin_def)
qed

interpretation ordered: transition_system "\<lambda>a. a = agent_start" "agent_step ao" calls_wf for ao
  by unfold_locales (auto simp: calls_wf_start calls_step)

interpretation begins: transition_system "\<lambda>a. calls_wf a \<and> calls_begin i xs a" "agent_step ao"
    "\<lambda>a. calls_wf a \<and> calls_begin i xs a" for i xs ao
  by unfold_locales (auto simp: calls_step intro: calls_begin_step)


section \<open>What a registration keeps\<close>

text \<open>A call that is reported keeps its row through a registration, if its actor is reported too.\<close>

lemma row_mark_dead:
  assumes "map_of (refs s) rid = Some r" "rf_actor r = Some i" "j \<noteq> i"
  shows "map_of (refs (mark_actor_dead E j reason s)) rid = Some r"
proof -
  have "map_of (refs (fail_refs j reason t)) rid = Some r" if "refs t = refs s" for t
    using assms that by (simp add: fail_refs_def map_of_hm_map)
  then show ?thesis using assms(1) by (auto simp: mark_actor_dead_def bury_actor_def Let_def split: option.split)
qed

lemma row_mark_all_dead:
  assumes "map_of (refs s) rid = Some r" "rf_actor r = Some i" "i \<notin> set js"
  shows "map_of (refs (fold (\<lambda>j. mark_actor_dead E j reason) js s)) rid = Some r"
  using assms by (induction js arbitrary: s) (auto intro: row_mark_dead [OF _ _ not_sym])

lemma row_bury_missing:
  assumes "map_of (refs s) rid = Some r" "rf_actor r = Some i" "i \<in> r_actor_id ` set resume"
  shows "map_of (refs (bury_missing E aid resume s)) rid = Some r"
proof -
  have "i \<notin> ac_id ` {x. x \<in> S \<and> ac_agent x = aid \<and> \<not> is_dead (ac_state x) \<and> ac_id x \<notin> r_actor_id ` set resume}" for S
    using assms(3) by blast
  then show ?thesis unfolding bury_missing_def by (intro row_mark_all_dead [OF assms(1,2)]) (simp add: conj_commute)
qed

lemma row_modified_all:
  "map_of (fold (\<lambda>rid. hm_modify rid f) xs m) k = (if k \<in> set xs then map_option (f ^^ count_list xs k) (map_of m k) else map_of m k)"
proof (induction xs arbitrary: m)
  case (Cons x xs)
  show ?case
  proof (cases "k \<in> set xs")
    case True
    then show ?thesis by (auto simp: Cons map_of_hm_modify option.map_comp funpow_swap1 comp_def funpow_Suc_right
          simp del: funpow.simps)
  next
    case False
    then show ?thesis by (auto simp: Cons map_of_hm_modify count_list_0_iff)
  qed
qed simp

lemma row_fail_lost:
  assumes "rid \<in> set reported"
  shows "map_of (refs (fail_lost aid reported s)) rid = map_of (refs s) rid"
  using assms by (auto simp: fail_lost_def Let_def row_modified_all)

lemma refs_rest_of_register:
  "refs (send_held E w aid (fold (\<lambda>i. post E w (A (ActorKill i)) 0 []) ks (post E w m req [] t))) = refs t"
proof -
  have kills: "refs (fold (\<lambda>i. post E w (A (ActorKill i)) 0 []) ks u) = refs u" for u
    by (induction ks arbitrary: u) simp_all
  have "refs (fold (\<lambda>(actor, rid, method, pl). post E w (A (ActorDispatch actor rid method)) 0 pl) qs u) = refs u" for qs u
    by (induction qs arbitrary: u) auto
  then show ?thesis by (simp add: send_held_def kills)
qed

lemma register_refs:
  "refs (agent_register E w req aid grp node mach ctr pid serv resume unacked meta s) =
     refs (fail_lost aid (reported_refs resume unacked) (bury_missing E aid resume (adopt_refs E aid
       (reported_refs resume unacked) (adopt_actors E aid grp (snd node) resume
         (register_row E w aid grp node mach ctr pid serv meta s)))))"
  by (simp add: agent_register_def Let_def refs_rest_of_register)

lemma row_adopted:
  assumes "map_of (refs s) rid = Some r"
  shows "map_of (refs (adopt_refs E aid rids (adopt_actors E aid grp nid resume
     (register_row E w aid grp node mach ctr pid serv meta s)))) rid = Some r"
  using adopt_refs_step assms by (simp add: adopt_actors_refs register_row_tables)

lemma resume_ids: "r_actor_id ` set (resume_of a) = fst ` set (ap_actors a)"
  by (force simp: resume_of_def)

lemma in_reported:
  "rid \<in> set (reported_refs (resume_of a) (unacked_of a)) \<longleftrightarrow>
     (\<exists>i h. (i, h) \<in> set (ap_actors a) \<and> rid \<in> set (ha_pending_refs h))
     \<or> Some rid \<in> (\<lambda>(m, pl). result_ref m) ` set (ap_unsent a)"
proof -
  have "set (concat (map r_pending_refs (resume_of a))) = (\<Union>(i, h) \<in> set (ap_actors a). set (ha_pending_refs h))"
    by (auto simp: resume_of_def)
  then show ?thesis by (auto simp: reported_refs_def unacked_of_def in_map_filter)
qed

text \<open>C16: a reconnect loses no call that the agent still works on. When an agent registers with what its
  table and its buffer hold, a call that is pending at the daemon, whose actor is in the agent's
  table, and that is pending in the table or answered in the buffer, has the same row after the
  registration as before: it is neither failed nor replaced, and the buffered result will resolve it.\<close>

theorem reported_call_survives_reconnect:
  assumes "map_of (refs s) rid = Some r" "rf_state r = RefPending" "rf_actor r = Some i" "hm_has (ap_actors a) i"
    and "pending_at i rid a \<or> (A (ActorResult rid ok err), pl) \<in> set (ap_unsent a)"
  shows "map_of (refs (agent_register E w req aid grp node mach ctr pid serv (resume_of a) (unacked_of a) meta s)) rid = Some r"
proof -
  have "rid \<in> set (reported_refs (resume_of a) (unacked_of a))"
    using assms(5) unfolding in_reported
    by (force simp: pending_at_def result_ref_def split: option.splits dest: map_of_SomeD)
  moreover have "i \<in> r_actor_id ` set (resume_of a)" using assms(4) by (simp add: resume_ids hm_has_iff)
  ultimately show ?thesis
    using row_bury_missing [OF row_adopted [OF assms(1)] assms(3)] by (simp add: register_refs row_fail_lost)
qed

section \<open>What a registration fails\<close>

text \<open>A call of the agent that waits nowhere at the daemon stays so up to the point where lost calls
  are failed.\<close>

definition waits_nowhere :: "string \<Rightarrow> string \<Rightarrow> state \<Rightarrow> bool" where
  "waits_nowhere aid rid s \<longleftrightarrow> (\<forall>x \<in> set (hm_values (actors s)). ac_agent x = aid \<longrightarrow> rid \<notin> fst ` set (ac_queued_calls x))"

lemma waits_nowhere_iff: "waits_nowhere aid rid s \<longleftrightarrow> rid \<notin> set (queued_refs s aid)"
  by (auto simp: waits_nowhere_def queued_refs_def)

definition belongs :: "string \<Rightarrow> string \<Rightarrow> state \<Rightarrow> bool" where
  "belongs aid i s \<longleftrightarrow> map_option ac_agent (map_of (actors s) i) = Some aid"

lemma mark_dead_actors:
  "actors (mark_actor_dead E j reason s) = actors s
   \<or> (\<exists>d. actors (mark_actor_dead E j reason s) = hm_modify j (\<lambda>x. x\<lparr>ac_state := d, ac_queued_calls := []\<rparr>) (actors s))"
  by (auto simp: mark_actor_dead_def bury_actor_def fail_refs_def Let_def split: option.split)

lemma mark_dead_keeps:
  assumes "belongs aid i s" "waits_nowhere aid rid s"
  shows "belongs aid i (mark_actor_dead E j reason s) \<and> waits_nowhere aid rid (mark_actor_dead E j reason s)"
  using mark_dead_actors [of E j reason s]
proof
  assume "\<exists>d. actors (mark_actor_dead E j reason s) = hm_modify j (\<lambda>x. x\<lparr>ac_state := d, ac_queued_calls := []\<rparr>) (actors s)"
  then obtain d where d: "actors (mark_actor_dead E j reason s) =
      hm_modify j (\<lambda>x. x\<lparr>ac_state := d, ac_queued_calls := []\<rparr>) (actors s)" by blast
  have "rid \<notin> fst ` set (ac_queued_calls x)"
    if "x \<in> set (hm_values (actors (mark_actor_dead E j reason s)))" "ac_agent x = aid" for x
    using hm_values_modify [OF that(1) [unfolded d]] that(2) assms(2) by (auto simp: waits_nowhere_def)
  then show ?thesis using assms(1) by (auto simp: d belongs_def waits_nowhere_def map_of_hm_modify)
qed (use assms in \<open>simp add: belongs_def waits_nowhere_def\<close>)

lemma bury_missing_keeps:
  assumes "belongs aid i s" "waits_nowhere aid rid s"
  shows "belongs aid i (bury_missing E aid' resume s) \<and> waits_nowhere aid rid (bury_missing E aid' resume s)"
proof -
  have "belongs aid i (fold (\<lambda>j. mark_actor_dead E j reason) js s)
      \<and> waits_nowhere aid rid (fold (\<lambda>j. mark_actor_dead E j reason) js s)" for js reason
    using assms by (induction js arbitrary: s) (auto simp: mark_dead_keeps)
  then show ?thesis by (simp add: bury_missing_def)
qed

lemma adopt_refs_actors: "actors (adopt_refs E aid rids s) = actors s"
proof -
  have "actors (adopt_ref E aid rid t) = actors t" for rid t
    by (auto simp: adopt_ref_def split: option.split)
  then show ?thesis unfolding adopt_refs_def by (induction rids arbitrary: s) simp_all
qed

lemma hm_values_insert: "x \<in> set (hm_values (hm_insert k v m)) \<Longrightarrow> x = v \<or> x \<in> set (hm_values m)"
  by (induction k v m rule: hm_insert.induct) (auto simp: hm_values_def split: if_splits)

lemma adopt_actors_keeps:
  assumes "belongs aid i s" "waits_nowhere aid rid s"
  shows "belongs aid i (adopt_actors E aid' grp nid resume s) \<and> waits_nowhere aid rid (adopt_actors E aid' grp nid resume s)"
proof -
  let ?ins = "\<lambda>a s. s\<lparr>actors := hm_insert (ac_id a) a (actors s)\<rparr>"
  have fold: "belongs aid i (fold ?ins as t) \<and> waits_nowhere aid rid (fold ?ins as t)"
    if "belongs aid i t" "waits_nowhere aid rid t" "\<forall>x \<in> set as. ac_id x \<noteq> i \<and> ac_queued_calls x = []" for as t
    using that
  proof (induction as arbitrary: t)
    case (Cons x as)
    have "belongs aid i (?ins x t)" using Cons.prems by (auto simp: belongs_def map_of_hm_insert)
    moreover have "waits_nowhere aid rid (?ins x t)"
      using Cons.prems(2,3) by (auto simp: waits_nowhere_def dest!: hm_values_insert)
    ultimately show ?case using Cons by simp
  qed simp
  have "hm_has (actors s) i" using assms(1) by (auto simp: belongs_def hm_has_def)
  then have "\<forall>x \<in> set (map (adopted_actor aid' grp nid) (filter (\<lambda>r. \<not> hm_has (actors s) (r_actor_id r)) resume)).
      ac_id x \<noteq> i \<and> ac_queued_calls x = []" by (auto simp: adopted_actor_def)
  with fold assms have b: "belongs aid i (fold ?ins (map (adopted_actor aid' grp nid)
      (filter (\<lambda>r. \<not> hm_has (actors s) (r_actor_id r)) resume)) s) \<and> waits_nowhere aid rid (fold ?ins
      (map (adopted_actor aid' grp nid) (filter (\<lambda>r. \<not> hm_has (actors s) (r_actor_id r)) resume)) s)" by blast
  moreover have "actors (adopt_actors E aid' grp nid resume s) = actors (fold ?ins (map (adopted_actor aid' grp nid)
      (filter (\<lambda>r. \<not> hm_has (actors s) (r_actor_id r)) resume)) s)" by (simp add: adopt_actors_def Let_def)
  ultimately show ?thesis by (simp add: belongs_def waits_nowhere_def)
qed

lemma row_lost:
  assumes "map_of (refs s) rid = Some r" "rf_state r = RefPending" "rf_actor r = Some i"
    and "belongs aid i s" "waits_nowhere aid rid s" "rid \<notin> set reported"
  shows "\<exists>r'. map_of (refs (fail_lost aid reported s)) rid = Some r'
    \<and> rf_state r' = RefActorDied ''call lost while the agent link was down''"
proof -
  let ?f = "\<lambda>r. r\<lparr>rf_state := RefActorDied ''call lost while the agent link was down''\<rparr>"
  define l where "l = map fst (filter (\<lambda>(rid, r). rf_state r = RefPending \<and> of_agent s aid r \<and> rid \<notin> set reported
    \<and> rid \<notin> set (queued_refs s aid)) (refs s))"
  have "of_agent s aid r" using assms(3,4) by (auto simp: of_agent_def belongs_def)
  then have l: "rid \<in> set l"
    using assms(2,6) assms(5) [unfolded waits_nowhere_iff] map_of_SomeD [OF assms(1)] by (force simp: l_def)
  then obtain n where "count_list l rid = Suc n" by (cases "count_list l rid") (simp_all add: count_list_0_iff)
  with l assms(1) have "map_of (fold (\<lambda>rid. hm_modify rid ?f) l (refs s)) rid = Some ((?f ^^ Suc n) r)"
    by (simp only: row_modified_all if_True option.map)
  moreover have "refs (fail_lost aid reported s) = fold (\<lambda>rid. hm_modify rid ?f) l (refs s)"
    by (simp add: fail_lost_def l_def)
  ultimately show ?thesis by simp
qed


end
