(* ===== verification/Announce.thy ===== *)
theory Announce
  imports Mesh
begin

text \<open>
  Announcements (\<open>rust/mentatd/src/announce.rs\<close>): the interface patterns and which addresses a
  daemon announces, the datagram it broadcasts, and what a listener accepts. The interfaces of
  the box, the JSON text and the keyed hash are parameters.
\<close>

section \<open>Patterns\<close>

record spec =
  sp_pat :: string
  sp_tags :: "string list"

definition parse_entry :: "string \<Rightarrow> spec" where
  "parse_entry e =
     (let (name, tags) = (case split_once (CHR ''='') e of Some p \<Rightarrow> p | None \<Rightarrow> (e, []))
      in \<lparr>sp_pat = trim name, sp_tags = filter (\<lambda>t. t \<noteq> []) (map trim (split_on (CHR ''+'') tags))\<rparr>)"

definition parse_spec :: "string \<Rightarrow> spec list" where
  "parse_spec s = map parse_entry (filter (\<lambda>e. e \<noteq> []) (map trim (split_on (CHR '','') s)))"

text \<open>\<open>str::chars\<close> on valid UTF-8: the code points.\<close>

definition cont_bits :: "char \<Rightarrow> nat" where
  "cont_bits c = of_char c mod 64"

function chars_of :: "string \<Rightarrow> nat list" where
  "chars_of s =
     (case s of
        [] \<Rightarrow> []
      | c # t \<Rightarrow>
          (let b = of_char c :: nat;
               k = (if b < 192 then 0 else if b < 224 then 1 else if b < 240 then 2 else 3);
               lead = (if k = 0 then b else if k = 1 then b mod 32 else if k = 2 then b mod 16 else b mod 8)
           in foldl (\<lambda>acc d. acc * 64 + cont_bits d) lead (take k t) # chars_of (drop k t)))"
  by pat_completeness auto
termination by (relation "measure length") (auto simp: less_Suc_eq_le)

declare chars_of.simps [simp del]

abbreviation star_char :: nat where "star_char \<equiv> 42"
abbreviation any_char :: nat where "any_char \<equiv> 63"

text \<open>The loop of \<open>glob_match\<close>, over the positions it keeps.\<close>

function glob_loop :: "nat list \<Rightarrow> nat list \<Rightarrow> nat \<Rightarrow> nat \<Rightarrow> nat option \<Rightarrow> nat \<Rightarrow> bool" where
  "glob_loop p n pp np star resume =
     (if np < length n then
        (if pp < length p \<and> (p ! pp = any_char \<or> p ! pp = n ! np)
         then glob_loop p n (pp + 1) (np + 1) star resume
         else if pp < length p \<and> p ! pp = star_char then glob_loop p n (pp + 1) np (Some pp) np
         else (case star of
             Some s \<Rightarrow> glob_loop p n (s + 1) (resume + 1) star (resume + 1)
           | None \<Rightarrow> False))
      else (\<forall>c \<in> set (drop pp p). c = star_char))"
  by pat_completeness auto
termination
  by (relation "measures [\<lambda>(p, n, pp, np, star, resume). if resume \<le> np then 0 else 1,
      \<lambda>(p, n, pp, np, star, resume). length n - resume,
      \<lambda>(p, n, pp, np, star, resume). (length n - np) + (length p - pp)]") auto

declare glob_loop.simps [simp del]

definition glob_match :: "string \<Rightarrow> string \<Rightarrow> bool" where
  "glob_match pat name = glob_loop (chars_of pat) (chars_of name) 0 0 None 0"

definition match_spec :: "spec list \<Rightarrow> string \<Rightarrow> (nat \<times> string list) option" where
  "match_spec sp name = map_option (\<lambda>i. (i, sp_tags (sp ! i))) (position (\<lambda>x. glob_match (sp_pat x) name) sp)"

section \<open>The addresses of this box\<close>

text \<open>An interface with an IPv4 address, as the operating system lists it.\<close>

record interface =
  if_name :: string
  if_up :: bool
  if_loopback :: bool
  if_broadcast :: bool
  if_addr :: "string option"
  if_bcast :: "string option"

definition is_bridge :: "string \<Rightarrow> bool" where
  "is_bridge name \<longleftrightarrow> (\<exists>p \<in> set [''docker'', ''veth'', ''br-'', ''virbr'']. starts_with p name)"

definition select_iface :: "spec list \<Rightarrow> interface \<Rightarrow> (nat \<times> interface \<times> string list) option" where
  "select_iface sp i =
     (if \<not> if_up i \<or> if_loopback i then None
      else if sp = [] then (if is_bridge (if_name i) then None else Some (0, i, []))
      else map_option (\<lambda>(r, tags). (r, i, tags)) (match_spec sp (if_name i)))"

definition selected_ifaces :: "string \<Rightarrow> interface list \<Rightarrow> (interface \<times> string list) list" where
  "selected_ifaces var ifaces =
     map snd (sort_key fst (List.map_filter (select_iface (parse_spec var)) ifaces))"

definition is_ipv4 :: "string \<Rightarrow> bool" where
  "is_ipv4 a = (case parse_ip a of Some (V4 _) \<Rightarrow> True | _ \<Rightarrow> False)"

definition announced_override :: "string \<Rightarrow> (string \<times> string list) list option" where
  "announced_override raw =
     (let ok = filter (\<lambda>x. is_ipv4 (sp_pat x)) (parse_spec raw)
      in if ok = [] then None else Some (map (\<lambda>x. (sp_pat x, sp_tags x)) ok))"

definition broadcast_targets :: "string \<Rightarrow> interface list \<Rightarrow> nat \<Rightarrow> string list" where
  "broadcast_targets var ifaces port = map (\<lambda>b. host_port b port)
     (List.map_filter if_bcast (filter if_broadcast (map fst (selected_ifaces var ifaces))))"

definition all_local_addrs :: "interface list \<Rightarrow> string list" where
  "all_local_addrs ifaces = List.map_filter if_addr (filter if_up ifaces)"

definition local_addrs :: "string \<Rightarrow> string \<Rightarrow> interface list \<Rightarrow> string list" where
  "local_addrs raw var ifaces = (case announced_override raw of
     Some o1 \<Rightarrow> map fst o1
   | None \<Rightarrow> List.map_filter (\<lambda>(i, _). if_addr i) (selected_ifaces var ifaces))"

definition local_addr_ifaces :: "string \<Rightarrow> string \<Rightarrow> interface list \<Rightarrow> str_map" where
  "local_addr_ifaces raw var ifaces = (case announced_override raw of
     Some _ \<Rightarrow> []
   | None \<Rightarrow> bt_of_list (List.map_filter (\<lambda>(i, _). map_option (\<lambda>a. (a, if_name i)) (if_addr i))
       (selected_ifaces var ifaces)))"

definition local_addr_tags :: "string \<Rightarrow> string \<Rightarrow> interface list \<Rightarrow> (string, string list) table" where
  "local_addr_tags raw var ifaces = (case announced_override raw of
     Some o1 \<Rightarrow> bt_of_list (filter (\<lambda>(_, t). t \<noteq> []) o1)
   | None \<Rightarrow> bt_of_list (List.map_filter (\<lambda>(i, t). map_option (\<lambda>a. (a, t)) (if_addr i))
       (filter (\<lambda>(_, t). t \<noteq> []) (selected_ifaces var ifaces))))"

section \<open>The datagram\<close>

definition MAX_DATAGRAM :: nat where
  "MAX_DATAGRAM = 1400"

definition announcement :: "env \<Rightarrow> state \<Rightarrow> string \<Rightarrow> nat \<Rightarrow> nat \<Rightarrow> json" where
  "announcement E s universe sq now_s = jobj [
     (''proto'', JStr PROTO), (''node_id'', JStr (node_id s)), (''control'', JStr (control_addr s)),
     (''http'', JStr (host_port (node_ip s) (http_port s))), (''universe'', JStr universe),
     (''addrs'', jstrs (e_local_addrs E)), (''addr_tags'', jtags (e_local_tags E)),
     (''boot_id'', JStr (boot_id s)), (''seq'', jnat sq), (''t'', jnat now_s)]"

text \<open>One round of \<open>run\<close>: the datagram to send, unless it is too long.\<close>

definition announce_round ::
  "(payload \<Rightarrow> payload \<Rightarrow> payload) \<Rightarrow> (json \<Rightarrow> string) \<Rightarrow> env \<Rightarrow> state \<Rightarrow> string \<Rightarrow> nat \<Rightarrow> nat \<Rightarrow> payload
    \<Rightarrow> string option" where
  "announce_round hmac to_string E s universe sq now_s key =
     (let p = sign hmac to_string (announcement E s universe sq now_s) key
      in if MAX_DATAGRAM < length p then None else Some p)"

section \<open>Listening\<close>

type_synonym seen = "(string, string \<times> nat) table"

text \<open>What a listener does with one datagram: the task ends in a panic, it is dropped, or its
  control address is dialled.\<close>

datatype heard = Panics | Dropped | Dials string

definition text_of :: "json \<Rightarrow> string \<Rightarrow> string" where
  "text_of v k = (case as_str (jget v k) of None \<Rightarrow> [] | Some t \<Rightarrow> t)"

definition replayed :: "seen \<Rightarrow> string \<Rightarrow> string \<Rightarrow> nat \<Rightarrow> bool" where
  "replayed seen node boot sq = (case map_of seen node of
     None \<Rightarrow> False | Some (b, q) \<Rightarrow> b = boot \<and> sq \<le> q)"

text \<open>An announcement whose signature held, and whose version and clock pass.\<close>

definition hear_signed :: "json \<Rightarrow> state \<Rightarrow> seen \<Rightarrow> heard \<times> seen" where
  "hear_signed v s seen =
     (let node = text_of v ''node_id''; boot = text_of v ''boot_id'';
          sq = (case as_u64 (jget v ''seq'') of None \<Rightarrow> 0 | Some n \<Rightarrow> n)
      in if node = [] \<or> boot = [] \<or> node = node_id s then (Dropped, seen)
         else if replayed seen node boot sq then (Dropped, seen)
         else (let seen' = hm_insert node (boot, sq) seen; control = text_of v ''control''
               in if control = [] \<or> peer_alive s node then (Dropped, seen') else (Dials control, seen')))"

definition listen_step ::
  "(payload \<Rightarrow> payload \<Rightarrow> payload) \<Rightarrow> (json \<Rightarrow> string) \<Rightarrow> (string \<Rightarrow> json option) \<Rightarrow> payload \<Rightarrow> string
    \<Rightarrow> rat \<Rightarrow> string \<Rightarrow> state \<Rightarrow> seen \<Rightarrow> heard \<times> seen" where
  "listen_step hmac to_string from_slice key universe now_s raw s seen =
     (if MAX_DATAGRAM < length raw \<or> claimed_universe from_slice raw \<noteq> universe then (Dropped, seen)
      else (case verify hmac to_string from_slice raw key of
          None \<Rightarrow> (Panics, seen)
        | Some None \<Rightarrow> (Dropped, seen)
        | Some (Some v) \<Rightarrow>
            (if \<not> major_matches (text_of v ''proto'') then (Dropped, seen)
             else (case as_u64 (jget v ''t'') of
                 None \<Rightarrow> (Dropped, seen)
               | Some t \<Rightarrow>
                   (if \<not> fresh (of_nat (f64_of_nat t)) now_s then (Dropped, seen)
                    else hear_signed v s seen)))))"

section \<open>Lemmas: the pattern loop\<close>

text \<open>What a pattern means: \<open>*\<close> any run, \<open>?\<close> one character, anything else itself.\<close>

fun fnmatch :: "nat list \<Rightarrow> nat list \<Rightarrow> bool" where
  "fnmatch [] n \<longleftrightarrow> n = []"
| "fnmatch (c # p) n \<longleftrightarrow>
     (if c = star_char then fnmatch p n \<or> (case n of [] \<Rightarrow> False | _ # n' \<Rightarrow> fnmatch (c # p) n')
      else (case n of [] \<Rightarrow> False | d # n' \<Rightarrow> (c = any_char \<or> c = d) \<and> fnmatch p n'))"

lemma fnmatch_stars: "fnmatch p [] \<longleftrightarrow> (\<forall>c \<in> set p. c = star_char)"
  by (induction p) auto

lemma fnmatch_star_drop: "fnmatch (star_char # p) n \<longleftrightarrow> (\<exists>k \<le> length n. fnmatch p (drop k n))"
proof (induction n)
  case (Cons d n)
  have "(\<exists>k \<le> length (d # n). fnmatch p (drop k (d # n))) \<longleftrightarrow>
      fnmatch p (d # n) \<or> (\<exists>k \<le> length n. fnmatch p (drop k n))" (is "?l \<longleftrightarrow> ?r")
  proof
    assume ?l
    then obtain k where "k \<le> length (d # n)" "fnmatch p (drop k (d # n))" by blast
    then show ?r by (cases k) auto
  next
    assume ?r
    then show ?l by (auto intro: exI [of _ 0] exI [of _ "Suc _"])
  qed
  with Cons show ?case by simp
qed simp

text \<open>A match of a segment with no star before a star consumes the segment's length.\<close>

lemma fnmatch_segment:
  "star_char \<notin> set seg \<Longrightarrow> fnmatch (seg @ star_char # p) n \<Longrightarrow>
     \<exists>j. length seg \<le> j \<and> j \<le> length n \<and> fnmatch p (drop j n)"
proof (induction seg arbitrary: n)
  case Nil
  then show ?case by (auto simp: fnmatch_star_drop simp del: fnmatch.simps)
next
  case (Cons c seg)
  then obtain d n' where n: "n = d # n'" "fnmatch (seg @ star_char # p) n'"
    by (auto split: list.splits)
  with Cons obtain j where "length seg \<le> j" "j \<le> length n'" "fnmatch p (drop j n')" by auto
  with n(1) show ?case by (intro exI [of _ "Suc j"]) auto
qed

text \<open>Where the loop stands: the segment of the pattern since the last star has no star and has
  consumed as many characters as it is long.\<close>

definition glob_inv :: "nat list \<Rightarrow> nat list \<Rightarrow> nat \<Rightarrow> nat \<Rightarrow> nat option \<Rightarrow> nat \<Rightarrow> bool" where
  "glob_inv p n i j star resume \<longleftrightarrow> i \<le> length p \<and> j \<le> length n \<and>
     (case star of None \<Rightarrow> True
      | Some s \<Rightarrow> s < i \<and> resume \<le> j \<and> j - resume = i - (s + 1) \<and> star_char \<notin> set (take (i - (s + 1)) (drop (s + 1) p)))"

text \<open>What is still open: the rest of the pattern here, or the last star taking more.\<close>

definition glob_open :: "nat list \<Rightarrow> nat list \<Rightarrow> nat \<Rightarrow> nat \<Rightarrow> nat option \<Rightarrow> nat \<Rightarrow> bool" where
  "glob_open p n i j star resume \<longleftrightarrow> fnmatch (drop i p) (drop j n) \<or>
     (case star of None \<Rightarrow> False
      | Some s \<Rightarrow> \<exists>k. resume < k \<and> k \<le> length n \<and> fnmatch (drop (s + 1) p) (drop k n))"

lemma glob_old_star:
  assumes inv: "glob_inv p n i j (Some s) resume" and i: "i < length p" "p ! i = star_char"
    and k: "resume < k" "k \<le> length n" "fnmatch (drop (s + 1) p) (drop k n)"
  shows "\<exists>m. j \<le> m \<and> m \<le> length n \<and> fnmatch (drop (i + 1) p) (drop m n)"
proof -
  let ?seg = "take (i - (s + 1)) (drop (s + 1) p)"
  have len: "length ?seg = i - (s + 1)" "s < i" "star_char \<notin> set ?seg" "resume \<le> j" "j - resume = i - (s + 1)"
    using inv i by (auto simp: glob_inv_def)
  have "drop (s + 1) p = ?seg @ drop (i - (s + 1)) (drop (s + 1) p)"
    by (rule append_take_drop_id [symmetric])
  also have "drop (i - (s + 1)) (drop (s + 1) p) = drop i p" using len by simp
  also have "drop i p = star_char # drop (i + 1) p" using i by (metis Cons_nth_drop_Suc Suc_eq_plus1)
  finally have "fnmatch (?seg @ star_char # drop (i + 1) p) (drop k n)" using k(3) by metis
  from fnmatch_segment [OF len(3) this] obtain q where
    "length ?seg \<le> q" "q \<le> length (drop k n)" "fnmatch (drop (i + 1) p) (drop q (drop k n))" by blast
  with len k show ?thesis by (intro exI [of _ "k + q"]) (auto simp: add.commute)
qed

lemma glob_take_star:
  assumes inv: "glob_inv p n i j star resume" and i: "i < length p" "p ! i = star_char" and j: "j < length n"
  shows "glob_inv p n (i + 1) j (Some i) j" "glob_open p n i j star resume \<longleftrightarrow> glob_open p n (i + 1) j (Some i) j"
proof -
  show "glob_inv p n (i + 1) j (Some i) j" using inv i by (simp add: glob_inv_def)
  have here: "fnmatch (drop i p) (drop j n) \<longleftrightarrow> (\<exists>m. j \<le> m \<and> m \<le> length n \<and> fnmatch (drop (i + 1) p) (drop m n))"
  proof -
    have "drop i p = star_char # drop (i + 1) p" using i by (metis Cons_nth_drop_Suc Suc_eq_plus1)
    then have "fnmatch (drop i p) (drop j n) \<longleftrightarrow> (\<exists>k \<le> length (drop j n). fnmatch (drop (i + 1) p) (drop k (drop j n)))"
      by (simp add: fnmatch_star_drop del: fnmatch.simps)
    also have "\<dots> \<longleftrightarrow> (\<exists>m. j \<le> m \<and> m \<le> length n \<and> fnmatch (drop (i + 1) p) (drop m n))" (is "?l \<longleftrightarrow> ?r")
    proof
      assume ?l
      then obtain k where "k \<le> length n - j" "fnmatch (drop (i + 1) p) (drop (k + j) n)" by auto
      with j show ?r by (intro exI [of _ "k + j"]) auto
    next
      assume ?r
      then obtain m where "j \<le> m" "m \<le> length n" "fnmatch (drop (i + 1) p) (drop m n)" by blast
      then show ?l by (intro exI [of _ "m - j"]) auto
    qed
    finally show ?thesis .
  qed
  moreover have "(\<exists>m. j \<le> m \<and> m \<le> length n \<and> fnmatch (drop (i + 1) p) (drop m n)) \<longleftrightarrow> glob_open p n (i + 1) j (Some i) j"
    using j by (auto simp: glob_open_def le_less)
  moreover have "\<exists>m. j \<le> m \<and> m \<le> length n \<and> fnmatch (drop (i + 1) p) (drop m n)"
    if "star = Some s" "resume < k" "k \<le> length n" "fnmatch (drop (s + 1) p) (drop k n)" for s k
    using glob_old_star [of p n i j s resume k] inv i that by blast
  ultimately show "glob_open p n i j star resume \<longleftrightarrow> glob_open p n (i + 1) j (Some i) j"
    by (auto simp: glob_open_def split: option.splits)
qed

lemma fnmatch_needs: "star_char \<notin> set seg \<Longrightarrow> fnmatch (seg @ q) n \<Longrightarrow> length seg \<le> length n"
  by (induction seg arbitrary: n) (auto split: list.splits)

lemma glob_exhausted:
  assumes "glob_inv p n i (length n) (Some s) resume" "resume < k" "k \<le> length n"
  shows "\<not> fnmatch (drop (s + 1) p) (drop k n)"
proof
  let ?seg = "take (i - (s + 1)) (drop (s + 1) p)"
  assume "fnmatch (drop (s + 1) p) (drop k n)"
  then have "fnmatch (?seg @ drop (i - (s + 1)) (drop (s + 1) p)) (drop k n)" by (metis append_take_drop_id)
  moreover have "star_char \<notin> set ?seg" "length ?seg = length n - resume"
    using assms(1) by (auto simp: glob_inv_def)
  ultimately show False using fnmatch_needs [of ?seg _ "drop k n"] assms(2,3) by fastforce
qed

lemma glob_consume:
  assumes inv: "glob_inv p n i j star resume" and j: "j < length n" and ns: "star_char \<notin> set n"
    and i: "i < length p" "p ! i = any_char \<or> p ! i = n ! j"
  shows "glob_inv p n (i + 1) (j + 1) star resume"
    "glob_open p n (i + 1) (j + 1) star resume \<longleftrightarrow> glob_open p n i j star resume"
proof -
  have "n ! j \<in> set n" using j by simp
  with i ns have c: "p ! i \<noteq> star_char" by auto
  have d: "drop i p = p ! i # drop (i + 1) p" "drop j n = n ! j # drop (j + 1) n"
    using i j by (metis Cons_nth_drop_Suc Suc_eq_plus1)+
  show "glob_open p n (i + 1) (j + 1) star resume \<longleftrightarrow> glob_open p n i j star resume"
    using c d i(2) by (simp add: glob_open_def)
  have "take (i + 1 - (s + 1)) (drop (s + 1) p) = take (i - (s + 1)) (drop (s + 1) p) @ [p ! i]" if "s < i" for s
  proof -
    have "i + 1 - (s + 1) = Suc (i - (s + 1))" "drop (s + 1) p ! (i - (s + 1)) = p ! i"
      "i - (s + 1) < length (drop (s + 1) p)" using that i by auto
    then show ?thesis by (metis take_Suc_conv_app_nth)
  qed
  then show "glob_inv p n (i + 1) (j + 1) star resume"
    using inv i j c by (auto simp: glob_inv_def split: option.splits)
qed

lemma glob_mismatch:
  assumes "j < length n" "\<not> (i < length p \<and> (p ! i = any_char \<or> p ! i = n ! j))" "\<not> (i < length p \<and> p ! i = star_char)"
  shows "\<not> fnmatch (drop i p) (drop j n)"
proof (cases "i < length p")
  case True
  then have "drop i p = p ! i # drop (i + 1) p" "drop j n = n ! j # drop (j + 1) n"
    using assms(1) by (metis Cons_nth_drop_Suc Suc_eq_plus1)+
  with True assms show ?thesis by simp
qed (use assms in simp)

lemma glob_retry:
  assumes "glob_inv p n i j (Some s) resume" "j < length n" "\<not> fnmatch (drop i p) (drop j n)"
  shows "glob_inv p n (s + 1) (resume + 1) (Some s) (resume + 1)"
    "glob_open p n (s + 1) (resume + 1) (Some s) (resume + 1) \<longleftrightarrow> glob_open p n i j (Some s) resume"
proof -
  show "glob_inv p n (s + 1) (resume + 1) (Some s) (resume + 1)"
    using assms(1,2) by (auto simp: glob_inv_def)
  have "resume + 1 \<le> length n" using assms(1,2) by (auto simp: glob_inv_def)
  then have "(\<exists>k. resume < k \<and> k \<le> length n \<and> Q k) \<longleftrightarrow> Q (resume + 1) \<or> (\<exists>k. resume + 1 < k \<and> k \<le> length n \<and> Q k)" for Q
    by (metis Suc_eq_plus1 Suc_lessI lessI less_trans Suc_lessD)
  with assms(3) show "glob_open p n (s + 1) (resume + 1) (Some s) (resume + 1) \<longleftrightarrow> glob_open p n i j (Some s) resume"
    by (simp add: glob_open_def)
qed

lemma glob_loop_open:
  assumes "glob_inv p n i j star resume" "star_char \<notin> set n"
  shows "glob_loop p n i j star resume \<longleftrightarrow> glob_open p n i j star resume"
  using assms
proof (induction p n i j star resume rule: glob_loop.induct)
  case (1 p n i j star resume)
  note step = glob_loop.simps [of p n i j star resume] and inv = "1.prems"(1) and ns = "1.prems"(2)
  consider (over) "\<not> j < length n"
    | (eat) "j < length n" "i < length p \<and> (p ! i = any_char \<or> p ! i = n ! j)"
    | (wild) "j < length n" "\<not> (i < length p \<and> (p ! i = any_char \<or> p ! i = n ! j))" "i < length p" "p ! i = star_char"
    | (miss) "j < length n" "\<not> (i < length p \<and> (p ! i = any_char \<or> p ! i = n ! j))" "\<not> (i < length p \<and> p ! i = star_char)"
    by blast
  then show ?case
  proof cases
    case over
    then have j: "j = length n" using inv by (simp add: glob_inv_def)
    with glob_exhausted [of p n i _ resume] inv step show ?thesis
      by (auto simp: glob_open_def fnmatch_stars split: option.splits)
  next
    case eat
    then have i: "i < length p" "p ! i = any_char \<or> p ! i = n ! j" by auto
    with glob_consume [OF inv eat(1) ns i] "1.IH"(1) [OF eat] ns step eat(1) show ?thesis by simp
  next
    case wild
    with glob_take_star [OF inv wild(3,4,1)] "1.IH"(2) ns step show ?thesis by simp
  next
    case miss
    note no = glob_mismatch [OF miss]
    show ?thesis
    proof (cases star)
      case None
      with step miss no show ?thesis by (auto simp: glob_open_def)
    next
      case (Some s)
      then have "glob_loop p n i j star resume = glob_loop p n (s + 1) (resume + 1) (Some s) (resume + 1)"
        unfolding step using miss by (simp only: if_True if_False simp_thms option.case)
      with Some glob_retry [of p n i j s resume] inv miss no "1.IH"(3) ns show ?thesis by simp
    qed
  qed
qed

section \<open>Properties of announcements\<close>

text \<open>C36: an interface pattern means what \<open>glob_match\<close> documents: \<open>*\<close> any run of characters,
  \<open>?\<close> exactly one, and every other character itself, over the whole name. The loop backtracks only
  to its last star; for every name without a literal star it gives the same answer as trying every
  run for every star, and it ends for every pattern and name.\<close>

theorem glob_match_fnmatch:
  assumes "star_char \<notin> set (chars_of name)"
  shows "glob_match pat name \<longleftrightarrow> fnmatch (chars_of pat) (chars_of name)"
  using glob_loop_open [of "chars_of pat" "chars_of name" 0 0 None 0] assms
  by (simp add: glob_match_def glob_inv_def glob_open_def)

theorem glob_match_fnmatch_witness:
  "star_char \<notin> set (chars_of ''enp1s0f0np0'')
    \<and> (glob_match ''en*f*np?'' ''enp1s0f0np0'' \<longleftrightarrow> fnmatch (chars_of ''en*f*np?'') (chars_of ''enp1s0f0np0''))
    \<and> glob_match ''en*f*np?'' ''enp1s0f0np0''"
proof -
  have n: "star_char \<notin> set (chars_of ''enp1s0f0np0'')" by code_simp
  moreover have "fnmatch (chars_of ''en*f*np?'') (chars_of ''enp1s0f0np0'')" by code_simp
  ultimately show ?thesis using glob_match_fnmatch [of "''enp1s0f0np0''" "''en*f*np?''"] by simp
qed

text \<open>A literal star in a name is the exception. The loop compares a pattern's \<open>*\<close> with the
  name's character before it treats it as a wildcard, so the pattern \<open>*\<close>, which is documented to
  match any run, does not match the name \<open>*a\<close>.\<close>

theorem glob_match_star_name: "\<not> glob_match ''*'' ''*a'' \<and> fnmatch (chars_of ''*'') (chars_of ''*a'')"
  by code_simp

text \<open>A listener over a sequence of announcements, each with the state it is heard in.\<close>

definition hear_all :: "(json \<times> state) list \<Rightarrow> seen \<Rightarrow> seen" where
  "hear_all vs seen = fold (\<lambda>(v, s) seen. snd (hear_signed v s seen)) vs seen"

definition seq_of :: "json \<Rightarrow> nat" where
  "seq_of v = (case as_u64 (jget v ''seq'') of None \<Rightarrow> 0 | Some n \<Rightarrow> n)"

lemma hear_signed_seen:
  assumes "map_of seen node = Some (boot, q)" "hm_wf seen"
    and "text_of v ''node_id'' = node \<longrightarrow> text_of v ''boot_id'' = boot"
  shows "\<exists>q' \<ge> q. map_of (snd (hear_signed v s seen)) node = Some (boot, q')"
  using assms by (auto simp: hear_signed_def Let_def replayed_def map_of_hm_insert)

lemma hear_signed_wf: "hm_wf seen \<Longrightarrow> hm_wf (snd (hear_signed v s seen))"
  by (auto simp: hear_signed_def Let_def intro: hm_wf_insert)

lemma hear_all_seen:
  assumes "map_of seen node = Some (boot, q)" "hm_wf seen"
    and "\<forall>(v, s) \<in> set vs. text_of v ''node_id'' = node \<longrightarrow> text_of v ''boot_id'' = boot"
  shows "\<exists>q' \<ge> q. map_of (hear_all vs seen) node = Some (boot, q')"
  using assms
proof (induction vs arbitrary: seen q)
  case (Cons x vs)
  obtain v s where x: "x = (v, s)" by (cases x)
  with Cons.prems hear_signed_seen [of seen node boot q v s] obtain q1 where
    "q \<le> q1" "map_of (snd (hear_signed v s seen)) node = Some (boot, q1)" by auto
  moreover from this Cons.IH [of "snd (hear_signed v s seen)" q1] hear_signed_wf Cons.prems
  obtain q2 where "q1 \<le> q2" "map_of (hear_all vs (snd (hear_signed v s seen))) node = Some (boot, q2)" by auto
  ultimately show ?case using x by (auto simp: hear_all_def intro: exI [of _ q2])
qed (auto simp: hear_all_def)

text \<open>Within one boot an announcement is acted on once. After an announcement was dialled, the
  same datagram heard again is dropped, whatever was heard in between, as long as none of it came
  from that node under another boot id.\<close>

theorem announcement_not_replayed:
  assumes "hm_wf seen" "fst (hear_signed v s0 seen) = Dials c"
    and "\<forall>(u, s) \<in> set vs. text_of u ''node_id'' = text_of v ''node_id'' \<longrightarrow> text_of u ''boot_id'' = text_of v ''boot_id''"
  shows "fst (hear_signed v s1 (hear_all vs (snd (hear_signed v s0 seen)))) = Dropped"
proof -
  let ?n = "text_of v ''node_id''" and ?b = "text_of v ''boot_id''" and ?s = "snd (hear_signed v s0 seen)"
  have "map_of ?s ?n = Some (?b, seq_of v)"
    using assms(1,2) by (auto simp: hear_signed_def Let_def seq_of_def map_of_hm_insert split: if_splits)
  from hear_all_seen [OF this hear_signed_wf [OF assms(1)] assms(3)]
  obtain q where "seq_of v \<le> q" "map_of (hear_all vs ?s) ?n = Some (?b, q)" by blast
  then have "replayed (hear_all vs ?s) ?n ?b (seq_of v)" by (simp add: replayed_def)
  then show ?thesis by (simp add: hear_signed_def [of v s1] Let_def seq_of_def)
qed

theorem announcement_not_replayed_witness:
  "let v = jobj [(''node_id'', JStr ''n''), (''boot_id'', JStr ''b''), (''seq'', jnat 7), (''control'', JStr ''10.0.0.1:6380'')];
       s = new_state ''10.0.0.9'' ''host'' ''10.0.0.9:6380'' ''boot''
   in fst (hear_signed v s []) = Dials ''10.0.0.1:6380''
      \<and> fst (hear_signed v s (hear_all [] (snd (hear_signed v s [])))) = Dropped"
proof -
  let ?v = "jobj [(''node_id'', JStr ''n''), (''boot_id'', JStr ''b''), (''seq'', jnat 7), (''control'', JStr ''10.0.0.1:6380'')]"
  let ?s = "new_state ''10.0.0.9'' ''host'' ''10.0.0.9:6380'' ''boot''"
  have "length (node_id ?s) \<noteq> 1" by (simp add: new_state_def node_id_for_def Let_def)
  then have "node_id ?s \<noteq> ''n''" by auto
  then have d: "fst (hear_signed ?v ?s []) = Dials ''10.0.0.1:6380''"
    by (simp add: hear_signed_def Let_def text_of_def jget_jobj replayed_def peer_alive_def new_state_def)
  with announcement_not_replayed [of "[]" ?v ?s "''10.0.0.1:6380''" "[]" ?s] show ?thesis
    by (simp add: hm_wf_def)
qed

end
