(* ===== verification/DaemonProps.thy ===== *)
theory DaemonProps
  imports Refs
begin

text \<open>
  What the operations of the daemon do, one by one: claims shared and refused, sessions of a
  group, reaps that come too late, waits that end, rows that history keeps, and node ids that
  read back.
\<close>

section \<open>Claims\<close>

lemma claim_granted:
  assumes "claim E client grp name shape s = (Inr (gen, view), s')"
  shows "\<not> is_blank name \<and> head_node_id s' = node_id s' \<and> (\<exists>c. map_of (claims s') (grp, name) = Some c
    \<and> cm_shape c = canonical shape \<and> cm_generation c = gen \<and> cm_view c = view \<and> client \<in> set (cm_holders c))"
  using assms
  by (auto simp: claim_def Let_def map_of_hm_modify map_of_bt_insert_gen split: if_splits option.splits sum.splits)

text \<open>A claim is solved once and shared. After a claim was granted, every client of the group
  that asks for the same name and shape gets the same generation and the same view, without the
  solver running again, and holds the claim beside the first; a client that asks for the name
  with a shape that differs after canonical form is refused and changes nothing.\<close>

theorem claim_solved_once:
  assumes "claim E client grp name shape s = (Inr (gen, view), s')"
  shows "fst (claim E2 other grp name shape s') = Inr (gen, view)
    \<and> (\<exists>c. map_of (claims (snd (claim E2 other grp name shape s'))) (grp, name) = Some c
         \<and> client \<in> set (cm_holders c) \<and> other \<in> set (cm_holders c))
    \<and> (canonical shape2 \<noteq> canonical shape \<longrightarrow>
         (\<exists>why. claim E2 other grp name shape2 s' = (Inl (msg_refused ''shape_conflict'' why), s')))"
proof -
  from claim_granted [OF assms] obtain c where c: "\<not> is_blank name" "head_node_id s' = node_id s'"
    "map_of (claims s') (grp, name) = Some c" "cm_shape c = canonical shape" "cm_generation c = gen" "cm_view c = view"
    "client \<in> set (cm_holders c)" by blast
  then show ?thesis by (auto simp: claim_def map_of_hm_modify)
qed

section \<open>Sessions\<close>

definition one_session :: "state \<Rightarrow> bool" where
  "one_session s \<longleftrightarrow> (\<forall>c \<in> set (hm_values (clients s)). \<forall>d \<in> set (hm_values (clients s)).
     cl_has_session c \<and> cl_has_session d \<and> cl_group c = cl_group d \<longrightarrow> cl_id c = cl_id d)"

lemma client_hello_clients:
  assumes "keyed cl_id (clients s)"
  shows "clients (snd (client_hello E w req peer_ip pr client grp session kind claimed s)) = clients s
    \<or> (\<exists>c. clients (snd (client_hello E w req peer_ip pr client grp session kind claimed s)) = hm_insert client c (clients s)
        \<and> cl_id c = client \<and> cl_group c = grp
        \<and> cl_has_session c = (session \<or> (case map_of (clients s) client of None \<Rightarrow> False | Some o1 \<Rightarrow> cl_has_session o1))
        \<and> \<not> (session \<and> has_other_session s grp client))"
proof -
  have "cl_id c = client" if "map_of (clients s) client = Some c" for c
    using keyed_key [OF assms map_of_SomeD [OF that]] .
  then show ?thesis by (auto simp: client_hello_def Let_def split: option.splits)
qed

text \<open>One driver session per group. A hello that opens a session for a group in which another
  client has one is refused, and every other hello keeps at most one session per group, unless it
  is a hello without a session, under the id of a client that has one, for another group.\<close>

theorem hello_keeps_one_session:
  assumes "keyed cl_id (clients s)" "one_session s"
    and "session \<or> (\<forall>c. map_of (clients s) client = Some c \<and> cl_has_session c \<longrightarrow> cl_group c = grp)"
  shows "one_session (snd (client_hello E w req peer_ip pr client grp session kind claimed s))"
proof -
  let ?t = "snd (client_hello E w req peer_ip pr client grp session kind claimed s)"
  from client_hello_clients [OF assms(1)] consider "clients ?t = clients s" | c where
    "clients ?t = hm_insert client c (clients s)" "cl_id c = client" "cl_group c = grp"
    "cl_has_session c = (session \<or> (case map_of (clients s) client of None \<Rightarrow> False | Some o1 \<Rightarrow> cl_has_session o1))"
    "\<not> (session \<and> has_other_session s grp client)" by blast
  then show ?thesis
  proof cases
    case 2
    have old: "d = c \<or> (d \<in> set (hm_values (clients s)) \<and> cl_id d \<noteq> client)" if "d \<in> set (hm_values (clients ?t))" for d
      using that 2(1) keyed_wf [OF assms(1)] keyed_key [OF assms(1)] by (auto simp: set_hm_values in_hm_insert split: if_splits)
    have alone: "\<not> (cl_has_session d \<and> cl_group d = grp)"
      if "cl_has_session c" "d \<in> set (hm_values (clients s))" "cl_id d \<noteq> client" for d
    proof (cases session)
      case True
      with 2(5) that show ?thesis by (auto simp: has_other_session_def)
    next
      case False
      with that(1) 2(4) obtain o1 where o1: "map_of (clients s) client = Some o1" "cl_has_session o1" by (auto split: option.splits)
      from assms(3) False o1 have g: "cl_group o1 = grp" by simp
      have m: "(client, o1) \<in> set (clients s)" using o1(1) by (rule map_of_SomeD)
      have "o1 \<in> set (hm_values (clients s))" using m by (force simp: set_hm_values)
      moreover have "cl_id o1 = client" using keyed_key [OF assms(1) m] .
      moreover note g o1(2) that(2,3) assms(2) [unfolded one_session_def]
      ultimately show ?thesis by metis
    qed
    have "cl_id d = cl_id e" if de: "d \<in> set (hm_values (clients ?t))" "e \<in> set (hm_values (clients ?t))"
      "cl_has_session d" "cl_has_session e" "cl_group d = cl_group e" for d e
    proof -
      consider "d = c" "e = c" | "d = c" "e \<in> set (hm_values (clients s))" "cl_id e \<noteq> client"
        | "e = c" "d \<in> set (hm_values (clients s))" "cl_id d \<noteq> client"
        | "d \<in> set (hm_values (clients s))" "e \<in> set (hm_values (clients s))"
        using old [OF de(1)] old [OF de(2)] by blast
      then show ?thesis
      proof cases
        case 2 with alone de \<open>cl_group c = grp\<close> show ?thesis by metis
      next
        case 3 with alone de \<open>cl_group c = grp\<close> show ?thesis by metis
      next
        case 4 with de assms(2) show ?thesis unfolding one_session_def by blast
      qed simp
    qed
    then show ?thesis unfolding one_session_def by blast
  next
    case 1
    show ?thesis using assms(2) unfolding one_session_def 1 .
  qed
qed

text \<open>The exception. A second connection of a client that has a session, without a session
  and for another group, moves the session's row to that group without the check for a session
  there: two sessions of one group.\<close>

theorem hello_moves_a_session:
  assumes "map_of (clients s) client = Some c" "cl_has_session c" "major_matches pr"
    and "d \<in> set (hm_values (clients s))" "cl_has_session d" "cl_group d = grp" "cl_id d \<noteq> client"
    and "keyed cl_id (clients s)"
  shows "\<not> one_session (snd (client_hello E w req peer_ip pr client grp False kind claimed s))"
proof -
  let ?t = "snd (client_hello E w req peer_ip pr client grp False kind claimed s)"
  have c: "cl_id c = client" using keyed_key [OF assms(8) map_of_SomeD [OF assms(1)]] .
  let ?c = "c\<lparr>cl_group := grp\<rparr>"
  have t: "clients ?t = hm_insert client ?c (clients s)"
    using assms(1-3) by (simp add: client_hello_def Let_def)
  have "?c \<in> set (hm_values (clients ?t))"
    using keyed_wf [OF assms(8)] unfolding t set_hm_values by (auto simp: in_hm_insert)
  moreover have "d \<in> set (hm_values (clients ?t))"
    using assms(4,7) keyed_wf [OF assms(8)] keyed_key [OF assms(8)] unfolding t set_hm_values by (auto simp: in_hm_insert)
  moreover have "cl_has_session ?c" "cl_group ?c = grp" "cl_id ?c = client" using assms(2) c by simp_all
  ultimately show ?thesis using assms(5-7) unfolding one_session_def by metis
qed

section \<open>Reaps that come too late\<close>

text \<open>A reap whose time is past takes nothing. When the timer of an earlier disconnect fires
  after a later one, or when the driver has opened its session again, none of its actors, groups,
  claims or calls goes: the state is as it was, up to the note that a reap was pending.\<close>

theorem late_reap_takes_nothing:
  "(map_of (reap_pending s) client \<noteq> Some k \<longrightarrow> reap_client_resources E client grp (Some k) s = s)
    \<and> (map_of (clients s) client = Some c \<and> cl_has_session c \<longrightarrow>
        reap_client_resources E client grp token s
          \<in> {s, s\<lparr>reap_pending := hm_remove client (reap_pending s)\<rparr>})"
  by (auto simp: reap_client_resources_def reap_begin_def split: option.splits)

section \<open>Waiting\<close>

lemma wait_round_Some:
  assumes "wait_round E rids num expired s = Some ready"
  shows "\<exists>k. ready = take k (filter (ref_ready E s) rids)" "length ready \<le> num"
    "\<not> expired \<Longrightarrow> length ready = min num (length rids)"
proof -
  let ?r = "filter (ref_ready E s) rids"
  have le: "length ?r \<le> length rids" by simp
  from assms consider (full) "min num (length rids) \<le> length ?r" "ready = take num ?r"
    | (part) "length ?r < min num (length rids)" "expired" "ready = take (length ?r) ?r"
  proof (cases "min num (length rids) \<le> length ?r")
    case True
    with assms have "ready = take num ?r" by (auto simp: wait_round_def Let_def split: if_splits)
    with True show ?thesis by (rule full)
  next
    case False
    then have n: "length ?r \<le> num" "\<not> min num (length rids) \<le> length ?r" by simp_all
    with assms have "expired" "ready = ?r" by (simp_all only: wait_round_def Let_def if_False split: if_splits) simp_all
    moreover have "length ?r < min num (length rids)" using False by linarith
    ultimately show ?thesis by (intro part) simp_all
  qed
  note parts = this
  show "\<exists>k. ready = take k ?r" using parts by cases blast+
  show "length ready \<le> num" using parts by cases simp_all
  show "length ready = min num (length rids)" if "\<not> expired" using parts
  proof cases
    case full
    then have "length ready = min (length ?r) num" by simp
    with full(1) le show ?thesis by linarith
  qed (use that in simp)
qed

lemma do_wait_ends: "w \<in> set ws \<Longrightarrow> fst (snd w) \<Longrightarrow> \<exists>ready. do_wait rids num ws = Some (R (RefWaitOk ready))"
proof (induction ws)
  case (Cons v ws)
  obtain E x s where v: "v = (E, x, s)" by (cases v) auto
  show ?case
  proof (cases "wait_round E rids num x s")
    case None
    then have "\<not> x" by (auto simp: wait_round_def Let_def split: if_splits)
    with Cons v None show ?thesis by auto
  qed (simp add: v)
qed simp

text \<open>C35: a wait answers with what was asked. What \<open>ref_wait\<close> returns are refs it was given, in the
  order given, each of them ready, and at most as many as asked for; before the deadline it is
  exactly as many, or all when there are fewer. And it returns: at the latest when it wakes up
  after its deadline.\<close>

theorem wait_answers:
  "(wait_round E rids num expired s = Some ready \<longrightarrow>
      subseq ready rids \<and> length ready \<le> num \<and> (\<forall>r \<in> set ready. ref_ready E s r)
      \<and> (\<not> expired \<longrightarrow> length ready = min num (length rids)))
    \<and> ((\<exists>w \<in> set ws. fst (snd w)) \<longrightarrow> (\<exists>got. do_wait rids num ws = Some (R (RefWaitOk got))))"
proof -
  have sub: "subseq (take k (filter Q xs)) xs" for k Q and xs :: "string list"
    by (rule subseq_order.order_trans [OF prefix_imp_subseq [OF take_is_prefix] subseq_filter_left])
  have "subseq ready rids \<and> length ready \<le> num \<and> (\<forall>r \<in> set ready. ref_ready E s r)
      \<and> (\<not> expired \<longrightarrow> length ready = min num (length rids))" if r: "wait_round E rids num expired s = Some ready"
  proof -
    note w = wait_round_Some [OF r]
    obtain k where k: "ready = take k (filter (ref_ready E s) rids)" using w(1) by blast
    have "ref_ready E s x" if "x \<in> set ready" for x using in_set_takeD [of x k] that k by fastforce
    with w(2,3) sub [of k "ref_ready E s" rids] k show ?thesis by blast
  qed
  with do_wait_ends show ?thesis by blast
qed

section \<open>History\<close>

text \<open>History keeps what is still wanted. The sweep of old rows never drops an actor that is
  alive, or whose driver is connected, nor a result of a call of such an actor.\<close>

theorem sweep_history_keeps:
  assumes "daemon_inv s" "map_of (actors s) i = Some a" "\<not> is_dead (ac_state a) \<or> hm_has (clients s) (ac_owner a)"
  shows "map_of (actors (sweep_history E s)) i = Some a
    \<and> (map_of (refs s) rid = Some r \<and> rf_actor r = Some i \<longrightarrow> map_of (refs (sweep_history E s)) rid = Some r)"
proof -
  have "i \<notin> set (gone_actors E s)"
  proof
    assume "i \<in> set (gone_actors E s)"
    then obtain x where x: "x \<in> set (hm_values (actors s))" "ac_id x = i" "\<not> hm_has (clients s) (ac_owner x)"
      "case ac_state x of Dead _ t \<Rightarrow> aged E t | _ \<Rightarrow> False"
      by (auto simp: gone_actors_def)
    then have "x = a" using keyed_lookup [OF daemon_invD(2) [OF assms(1)], of x] assms(2) by simp
    with x assms(3) show False by (cases "ac_state a") (auto simp: is_dead_def)
  qed
  then have ac: "map_of (fold hm_remove (gone_actors E s) (actors s)) i = Some a"
    using assms(2) by (simp add: map_of_fold_hm_remove)
  have "map_of (hm_retain (\<lambda>_ r. case rf_actor r of None \<Rightarrow> True
      | Some a \<Rightarrow> hm_has (fold hm_remove (gone_actors E s) (actors s)) a) (refs s)) rid = Some r"
    if "map_of (refs s) rid = Some r" "rf_actor r = Some i"
    using that ac daemon_invD(9) [OF assms(1)] by (simp add: map_of_hm_retain hm_wf_def hm_has_def)
  with ac assms(2) show ?thesis by (simp add: sweep_history_def Let_def)
qed

section \<open>GPUs in the status\<close>

text \<open>C37: the subtraction of the status page does not wrap. The free GPUs of a group never exceed
  the GPUs it has, so the used GPUs a snapshot reports and the free ones add up to the total.\<close>

theorem gpus_used_exact:
  assumes "agents_wf s"
  shows "gpus_free s g \<le> gpus_total s g
    \<and> as_u64 (jget (group_json s g) ''gpus_used'') = Some (gpus_total s g - gpus_free s g)"
proof -
  have "length (free_gpus_of s (ag_id a)) \<le> length (m_gpus (ag_machine a))" if "a \<in> set (group_agents s g)" for a
    using that agents_wf_lookup [OF assms, of a] free_gpus_of_length [of s "ag_id a" a] by (simp add: group_agents_def)
  then have "gpus_free s g \<le> gpus_total s g"
    unfolding gpus_free_def gpus_total_def by (rule sum_list_mono)
  then show ?thesis by (simp add: jget_group_used)
qed

end
