(* ===== verification/Examples.thy ===== *)
theory Examples
  imports Announce DaemonProps
begin

text \<open>
  A small deployment, and the properties at concrete inputs: a cluster of two boxes joined by a
  cable, one agent with two GPUs on each, and a driver. Each theorem here applies a property of
  the development to it, so that its hypotheses are seen to hold together.
\<close>

section \<open>Islands\<close>

text \<open>Two boxes with a cable, and a third tagged port that answers nobody.\<close>

definition cabled :: fabric_view where
  "cabled = \<lparr>v_rdma = [(''n1'', [''10.1.0.1'']), (''n2'', [''10.1.0.2'']), (''n3'', [''10.1.0.3''])],
     v_ok_pairs = [(''10.1.0.1'', ''10.1.0.2'')]\<rparr>"

definition cable_island :: island where
  "cable_island = \<lparr>i_nodes = [''n1'', ''n2''], i_addr = [(''n1'', ''10.1.0.1''), (''n2'', ''10.1.0.2'')]\<rparr>"

lemma islands_cabled: "fst (islands cabled) = [cable_island]"
  by code_simp

theorem islands_sound_witness:
  "cable_island \<in> set (fst (islands cabled)) \<and> 2 \<le> length (i_nodes cable_island)
    \<and> linked cabled ''10.1.0.1'' ''10.1.0.2''"
  using islands_sound [of cable_island cabled] by (simp add: islands_cabled) (simp add: cable_island_def)

theorem islands_complete_witness:
  "closed_clique cabled {(''n1'', ''10.1.0.1''), (''n2'', ''10.1.0.2'')}
    \<and> (\<exists>i \<in> set (fst (islands cabled)). set (i_addr i) = {(''n1'', ''10.1.0.1''), (''n2'', ''10.1.0.2'')})"
proof -
  have c: "closed_clique cabled {(''n1'', ''10.1.0.1''), (''n2'', ''10.1.0.2'')}" by code_simp
  have "2 \<le> card {(''n1'', ''10.1.0.1''), (''n2'', ''10.1.0.2'')}" by simp
  with c islands_complete [OF c] show ?thesis by blast
qed

section \<open>Claims\<close>

text \<open>Three nodes in a row of cables, with two GPUs each.\<close>

definition fabric_port :: "string \<Rightarrow> net_port" where
  "fabric_port a = \<lparr>po_addr = a, po_iface = Some ''eth1'', po_tags = [''rdma'']\<rparr>"

definition row :: topo where
  "row = \<lparr>t_islands = [\<lparr>i_nodes = [''n1'', ''n2''], i_addr = [(''n1'', ''a1''), (''n2'', ''a2'')]\<rparr>],
     t_ports = [(''n1'', [fabric_port ''a1'']), (''n2'', [fabric_port ''a2'', fabric_port ''b2'']), (''n3'', [fabric_port ''b3''])],
     t_links = [((''a1'', ''a2''), 3), ((''b2'', ''b3''), 4)], t_forwarded = [],
     t_free_gpus = [(''n1'', 2), (''n2'', 2), (''n3'', 2)], t_hosts = [], t_vendors = []\<rparr>"

definition line_of_three :: request where
  "line_of_three = \<lparr>rq_sets = [\<lparr>sr_name = ''tp'', sr_bundles = [1, 1, 2], sr_link = Rdma, sr_layout = Line,
     sr_vendor = []\<rparr>], rq_between = []\<rparr>"

definition two_sets :: request where
  "two_sets = \<lparr>rq_sets = [\<lparr>sr_name = ''decode'', sr_bundles = [1], sr_link = Any, sr_layout = Mesh, sr_vendor = []\<rparr>,
       \<lparr>sr_name = ''prefill'', sr_bundles = [1, 1], sr_link = Rdma, sr_layout = Mesh, sr_vendor = []\<rparr>],
     rq_between = [\<lparr>br_from = ''prefill'', br_to = ''decode'', br_link = Any\<rparr>]\<rparr>"

lemma row_wf: "topo_wf row"
  by code_simp

lemma two_sets_ok: "check_request two_sets = None"
  by code_simp

lemma line_ok: "check_request line_of_three = None"
  by code_simp

lemma two_sets_search: "search row two_sets (solve_order two_sets) [] []
    = (True, [(''decode'', [''n3'']), (''prefill'', [''n1'', ''n2''])], [''n1'', ''n2'', ''n3''])"
  by code_simp

theorem search_refines_reference_witness:
  "search row two_sets (solve_order two_sets) [] []
      = (True, [(''decode'', [''n3'']), (''prefill'', [''n1'', ''n2''])], [''n1'', ''n2'', ''n3''])
    \<and> solvable row two_sets (solve_order two_sets) [] []"
  using search_refines_reference [OF row_wf two_sets_ok two_sets_search] two_sets_search by simp


definition solved_two_sets :: solution where
  "solved_two_sets = projr (solve row two_sets)"

lemma solve_two_sets: "solve row two_sets = Inr solved_two_sets"
  by code_simp

theorem solve_sound_witness:
  "solve row two_sets = Inr solved_two_sets
    \<and> (\<exists>ms. map_of (so_sets solved_two_sets) ''prefill'' = Some ms
        \<and> set_ok row \<lparr>sr_name = ''prefill'', sr_bundles = [1, 1], sr_link = Rdma, sr_layout = Mesh, sr_vendor = []\<rparr>
            (map me_node ms))"
proof -
  let ?st = "\<lparr>sr_name = ''prefill'', sr_bundles = [1, 1], sr_link = Rdma, sr_layout = Mesh, sr_vendor = []\<rparr>"
  have "?st \<in> set (rq_sets two_sets)" by (simp add: two_sets_def)
  with solve_sound [OF row_wf solve_two_sets] have "\<exists>ms. map_of (so_sets solved_two_sets) (sr_name ?st) = Some ms
      \<and> set_ok row ?st (map me_node ms)" by blast
  then show ?thesis by (simp add: solve_two_sets)
qed

lemma line_search: "search row line_of_three (solve_order line_of_three) [] []
    = (True, [(''tp'', [''n1'', ''n2'', ''n3''])], [''n1'', ''n2'', ''n3''])"
  by code_simp

theorem solved_members_have_cables_witness:
  "search row line_of_three (solve_order line_of_three) [] []
      = (True, [(''tp'', [''n1'', ''n2'', ''n3''])], [''n1'', ''n2'', ''n3''])
    \<and> (\<exists>prv nxt. neighbours row (hd (rq_sets line_of_three)) [''n1'', ''n2'', ''n3''] 1 = Inr (prv, nxt))"
  using solved_members_have_cables [OF row_wf line_ok line_search, of "hd (rq_sets line_of_three)" "[''n1'', ''n2'', ''n3'']" 1]
    line_search by (simp add: line_of_three_def)

definition shape_of :: json where
  "shape_of = JObj [(''sets'', JArr [JObj [(''bundles'', JArr [JNum (Float 1), JNum (PosInt 2)]),
     (''layout'', JStr ''ring''), (''link'', JStr ''rdma''), (''name'', JStr ''tp'')]])]"

definition shape_request :: request where
  "shape_request = \<lparr>rq_sets = [\<lparr>sr_name = ''tp'', sr_bundles = [1, 2], sr_link = Rdma, sr_layout = Ring, sr_vendor = []\<rparr>],
     rq_between = []\<rparr>"

lemma shape_parsed: "parse shape_of = Inr shape_request"
  by (simp add: shape_of_def shape_request_def parse_def parse_set_def parse_bundles_def jget_def as_array_def as_str_def
      as_f64_def num_f64_def whole_def f64_of_nat_def link_parse_def layout_parse_def str_or_def)

lemma shape_doubles: "doubles shape_of"
  by (simp add: shape_of_def whole_def f64_of_nat_def)

theorem parse_canonical_witness:
  "doubles shape_of \<and> canonical shape_of \<noteq> shape_of \<and> parse shape_of = Inr shape_request
    \<and> parse (canonical shape_of) = Inr shape_request"
proof -
  have "\<forall>st \<in> set (rq_sets shape_request). sr_bundles st \<noteq> []" by (simp add: shape_request_def)
  with parse_canonical [OF shape_doubles shape_parsed] have "parse (canonical shape_of) = Inr shape_request" by blast
  moreover have "canonical shape_of \<noteq> shape_of"
    by (simp add: shape_of_def canonical_def canon_num_def num_f64_def whole_def two64_def jnat_def)
  ultimately show ?thesis using shape_doubles shape_parsed by blast
qed


section \<open>Placement\<close>

text \<open>The settings of the small deployment, and an environment in which every write succeeds.\<close>

definition small_cfg :: cfg where
  "small_cfg = \<lparr>pg_pending_timeout_ms = 60, agent_degraded_after_ms = 3, agent_dead_after_ms = 6, history_keep_ms = 20,
     peer_stale_after_ms = 3, peer_dead_after_ms = 6, election_hold_down_ms = 5, election_boot_wait_ms = 9,
     probe_interval_ms = 5, probe_timeout_ms = 2, island_placement = True, island_hold_down_ms = 5,
     host_connect_timeout_ms = 6, slow_call_warn_ms = 9, agent_ping_interval_ms = 2, peer_status_interval_ms = 2,
     tcp_dead_after_ms = 7, session_reap_grace_ms = 4\<rparr>"

definition quiet :: env where
  "quiet = \<lparr>e_now = 10, e_cfg = small_cfg, e_local_addrs = [], e_local_tags = [], e_local_ifaces = [], e_local_macs = [],
     e_all_local_addrs = [], e_send_err = (\<lambda>_ _. None), e_sub_ok = (\<lambda>_. True), e_debug = (\<lambda>_. [])\<rparr>"

definition two_gpus :: machine where
  "two_gpus = \<lparr>m_memory = 8, m_cpus = 4, m_gpus = [
     \<lparr>g_index = 0, g_vendor = ''v'', g_name = ''g'', g_memory = 1, g_uma = False\<rparr>,
     \<lparr>g_index = 1, g_vendor = ''v'', g_name = ''g'', g_memory = 1, g_uma = False\<rparr>]\<rparr>"

definition agent_on :: "string \<Rightarrow> string \<Rightarrow> nat \<Rightarrow> agent_info" where
  "agent_on aid node sq = \<lparr>ag_id = aid, ag_group = ''g'', ag_node_id = node, ag_node_ip = node, ag_machine = two_gpus,
     ag_container = [], ag_pid = 1, ag_services = [], ag_meta = [], ag_writer = sq, ag_alive = True, ag_lost_at_ms = None,
     ag_degraded = False, ag_gone_since_ms = None, ag_seq = sq\<rparr>"

definition driver_row :: client_info where
  "driver_row = \<lparr>cl_id = ''drv'', cl_group = ''g'', cl_kind = ''driver'', cl_node_id = ''n2'', cl_has_session = True\<rparr>"

definition empty_box :: state where
  "empty_box = (new_state ''10.0.0.1'' ''box'' [] ''b'')\<lparr>node_id := ''n1'', head_node_id := ''n1''\<rparr>"

definition lab :: state where
  "lab = empty_box\<lparr>
     agents := [(''x'', agent_on ''x'' ''n1'' 1), (''y'', agent_on ''y'' ''n2'' 2)],
     clients := [(''drv'', driver_row)],
     fabrics := \<lparr>fb_islands = [cable_island], fb_tagged = [''n1'', ''n2'']\<rparr>,
     pgs := [(''p:1'', new_pg quiet ''p:1'' ''g'' ''drv'' [2, 1] [] [])]\<rparr>"

lemma lab_inv: "place_inv lab"
  by code_simp

definition waiting :: pg_info where
  "waiting = new_pg quiet ''p:1'' ''g'' ''drv'' [2, 1] [] []"

definition found :: "bundle_assignment option list" where
  "found = [Some \<lparr>ba_agent = ''y'', ba_node_id = ''n2'', ba_gpu_ids = [0, 1], ba_env = []\<rparr>,
     Some \<lparr>ba_agent = ''x'', ba_node_id = ''n1'', ba_gpu_ids = [0], ba_env = []\<rparr>]"

lemma lab_pgs: "pgs lab = [(''p:1'', waiting)]"
  by (simp add: lab_def waiting_def)

lemma lab_found: "place_pg quiet lab waiting = Inr (Some cable_island, found)"
  by code_simp

lemma lab_placed: "pgs (try_place quiet lab) = [(''p:1'', waiting\<lparr>pg_assignment := found, pg_state := Created,
    pg_island := Some cable_island, pg_pending_reason := None\<rparr>)]"
  using lab_found
  by (simp add: try_place_def place_one_def lab_pgs hm_values_def hm_modify_def Let_def waiting_def new_pg_def)

theorem try_place_exclusive_witness:
  "place_inv lab \<and> place_inv (try_place quiet lab) \<and> distinct (reserved (try_place quiet lab))
    \<and> reserved (try_place quiet lab) = [(''y'', 0), (''y'', 1), (''x'', 0)]"
proof -
  have "reserved (try_place quiet lab) = [(''y'', 0), (''y'', 1), (''x'', 0)]"
    by (simp add: reserved_def live_pgs_def lab_placed hm_values_def pairs_def somes_def found_def map_filter_def)
  with try_place_exclusive [OF lab_inv, of quiet] lab_inv show ?thesis by blast
qed

theorem try_place_all_or_nothing_witness:
  "\<exists>pg'. map_of (pgs (try_place quiet lab)) ''p:1'' = Some pg' \<and> pg_state pg' = Created \<and> placed_whole lab waiting pg'"
proof -
  obtain pg' where pg': "map_of (pgs (try_place quiet lab)) ''p:1'' = Some pg'" "pg_state pg' = Created"
    by (simp add: lab_placed)
  have "pg_state waiting = Pending" by (simp add: waiting_def new_pg_def)
  with try_place_all_or_nothing [OF lab_inv pg'(1)] pg' show ?thesis by (auto simp: lab_pgs)
qed


theorem orient_rank_zero_witness:
  "orient Ring ''n2'' [(''n1'', JNull, JNull), (''n2'', JNull, JNull), (''n3'', JNull, JNull)]
      = Some [(''n2'', JNull, JNull), (''n3'', JNull, JNull), (''n1'', JNull, JNull)]
    \<and> fst (hd [(''n2'', JNull, JNull), (''n3'', JNull, JNull), (''n1'', JNull, JNull)]) = ''n2''"
proof -
  have o: "orient Ring ''n2'' [(''n1'', JNull, JNull), (''n2'', JNull, JNull), (''n3'', JNull, JNull)]
      = Some [(''n2'', JNull, JNull), (''n3'', JNull, JNull), (''n1'', JNull, JNull)]" by code_simp
  with orient_rank_zero [OF o] show ?thesis by simp
qed


section \<open>The mesh\<close>

definition hello_of :: "string \<Rightarrow> bool \<Rightarrow> peer_ident" where
  "hello_of nid outbound = \<lparr>pi_node_id = nid, pi_outbound = outbound, pi_node_ip = nid, pi_link_ip = nid, pi_addrs = [],
     pi_addr_tags = [], pi_addr_ifaces = [], pi_control_port = 1, pi_http_port = 2\<rparr>"

definition box_of :: "string \<Rightarrow> string \<Rightarrow> state" where
  "box_of nid head = empty_box\<lparr>node_id := nid, head_node_id := head\<rparr>"

definition peer_at :: "string \<Rightarrow> string \<Rightarrow> nat \<Rightarrow> peer_info" where
  "peer_at nid head seen = (peer_row_of quiet (hello_of nid True) 7 None)\<lparr>pe_last_seen_ms := seen,
     pe_last_status := JObj [(''head_node_id'', JStr head)]\<rparr>"

text \<open>Both ends of two links dialled at once: the daemon with the lower id keeps the one it dialled.\<close>

theorem both_ends_keep_one_link_witness:
  "\<exists>ra rb. map_of (peers (snd (register_peer quiet (hello_of ''n2'' False) 12
        (snd (register_peer quiet (hello_of ''n2'' True) 11 (box_of ''n1'' []))))))  ''n2'' = Some ra
    \<and> map_of (peers (snd (register_peer quiet (hello_of ''n1'' True) 22
        (snd (register_peer quiet (hello_of ''n1'' False) 21 (box_of ''n2'' [])))))) ''n1'' = Some rb
    \<and> pe_outbound ra \<and> \<not> pe_outbound rb \<and> pe_writer ra = 11 \<and> pe_writer rb = 21"
proof -
  have b: "node_id (box_of n h) = n" "peers (box_of n h) = []" for n h
    by (simp_all add: box_of_def empty_box_def new_state_def)
  then have "\<not> peer_alive (box_of n h) m" for n h m by (simp add: peer_alive_def)
  moreover have "''n1'' < ''n2''" by code_simp
  moreover have "pi_node_id (hello_of n o1) = n" "pi_outbound (hello_of n o1) = o1" for n o1 by (simp_all add: hello_of_def)
  ultimately show ?thesis
    using both_ends_keep_one_link [of "box_of ''n1'' []" "''n1''" "box_of ''n2'' []" "''n2''" "hello_of ''n2'' True"
      "hello_of ''n2'' False" "hello_of ''n1'' False" "hello_of ''n1'' True" quiet 12 quiet 11 quiet 22 quiet 21] b(1)
    by (fastforce simp: not_less_iff_gr_or_eq)
qed

definition follower :: state where
  "follower = (box_of ''n2'' ''n3'')\<lparr>peers := [(''n1'', peer_at ''n1'' ''n1'' 9), (''n3'', peer_at ''n3'' ''n3'' 2)]\<rparr>"

lemma follower_wf: "peers_wf follower"
  by code_simp

theorem head_candidate_alive_witness: "peers_wf follower \<and> node_alive follower (head_candidate follower)"
  using head_candidate_alive [OF follower_wf] follower_wf by simp

theorem live_head_left_only_for_lower_witness:
  "head_node_id follower = ''n3'' \<and> node_alive follower ''n3'' \<and> head_candidate follower \<le> ''n3''"
proof -
  have h: "head_node_id follower = ''n3''" by (simp add: follower_def box_of_def)
  have "node_alive follower ''n3''" by code_simp
  with live_head_left_only_for_lower [of follower] show ?thesis by (simp add: h)
qed

definition pair_of_daemons :: "string \<Rightarrow> state" where
  "pair_of_daemons i = (let j = (if i = ''n1'' then ''n2'' else ''n1'')
     in (box_of i ''n2'')\<lparr>peers := [(j, peer_at j ''n2'' 9)]\<rparr>)"

theorem agreeing_views_elect_one_head_witness:
  "agreeing pair_of_daemons {''n1'', ''n2''}
    \<and> head_candidate (pair_of_daemons ''n1'') = head_candidate (pair_of_daemons ''n2'')"
proof -
  have "agreeing pair_of_daemons {''n1'', ''n2''}"
    by (auto simp: agreeing_def pair_of_daemons_def box_of_def peer_alive_def live_peers_def published_head_def
        peer_at_def peer_row_of_def hello_of_def peers_wf_def hm_wf_def hm_values_def jget_def as_str_def Let_def split: if_splits)
  with agreeing_views_elect_one_head [OF this] show ?thesis by simp
qed

theorem head_changes_after_hold_down_witness:
  "\<exists>el' s'. elect quiet 0 20 \<lparr>el_heard = True, el_candidate = Some (''n1'', 14)\<rparr> follower = (el', s')
    \<and> head_node_id s' = ''n1'' \<and> election_hold_down_ms (e_cfg quiet) \<le> 20 - 14"
proof -
  have c: "head_candidate follower = ''n1''" by code_simp
  have h: "head_node_id follower = ''n3''" by (simp add: follower_def box_of_def)
  have nobody: "agents follower = []" "clients follower = []"
    by (simp_all add: follower_def box_of_def empty_box_def new_state_def)
  obtain el' s' where e: "elect quiet 0 20 \<lparr>el_heard = True, el_candidate = Some (''n1'', 14)\<rparr> follower = (el', s')"
    by (cases "elect quiet 0 20 \<lparr>el_heard = True, el_candidate = Some (''n1'', 14)\<rparr> follower") auto
  then have s': "head_node_id s' = ''n1''"
    by (auto simp: elect_def Let_def c h nobody take_head_def head_moved_def quiet_def small_cfg_def)
  with head_changes_after_hold_down [OF e] h e show ?thesis by auto
qed

theorem sweep_keeps_heard_peers_witness:
  "(\<exists>q. map_of (peers (sweep_peers quiet [] follower)) ''n1'' = Some q \<and> pe_alive q)
    \<and> \<not> peer_alive (sweep_peers quiet [] follower) ''n3''"
proof -
  have "map_of (peers follower) ''n1'' = Some (peer_at ''n1'' ''n1'' 9)"
    "map_of (peers follower) ''n3'' = Some (peer_at ''n3'' ''n3'' 2)" by (simp_all add: follower_def)
  moreover have "pe_alive (peer_at i h n)" "silent_ms quiet (peer_at i h n) = 10 - n" for i h n
    by (simp_all add: peer_at_def peer_row_of_def silent_ms_def quiet_def)
  moreover have "peer_dead_after_ms (e_cfg quiet) = 6" by (simp add: quiet_def small_cfg_def)
  ultimately show ?thesis
    using sweep_keeps_heard_peers [OF follower_wf, of "''n1''" "peer_at ''n1'' ''n1'' 9" quiet "[]"]
      sweep_keeps_heard_peers [OF follower_wf, of "''n3''" "peer_at ''n3'' ''n3'' 2" quiet "[]"] by auto
qed


section \<open>The daemon\<close>

definition line_shape :: json where
  "line_shape = JObj [(''sets'', JArr [JObj [(''bundles'', JArr [jnat 1]), (''link'', JStr ''ip''), (''name'', JStr ''tp'')]])]"

text \<open>A claim of one node, and a second client that asks for it.\<close>

definition claiming :: state where
  "claiming = lab\<lparr>claims := [((''g'', ''tp''), \<lparr>cm_shape = canonical line_shape, cm_view = JNull, cm_generation = 3,
     cm_holders = [''drv'']\<rparr>)]\<rparr>"

lemma claiming_claim: "claim quiet ''c2'' ''g'' ''tp'' line_shape claiming = (Inr (3, JNull),
    claiming\<lparr>claims := [((''g'', ''tp''), \<lparr>cm_shape = canonical line_shape, cm_view = JNull, cm_generation = 3,
      cm_holders = [''c2'', ''drv'']\<rparr>)]\<rparr>)"
proof -
  have "\<not> is_blank ''tp''" by code_simp
  moreover have "bs_insert ''c2'' [''drv''] = [''c2'', ''drv'']" by code_simp
  moreover have "head_node_id claiming = node_id claiming" by (simp add: claiming_def lab_def empty_box_def)
  ultimately show ?thesis by (simp add: claim_def claiming_def hm_modify_def)
qed

theorem claim_solved_once_witness:
  "fst (claim quiet ''c2'' ''g'' ''tp'' line_shape claiming) = Inr (3, JNull)
    \<and> fst (claim quiet ''c3'' ''g'' ''tp'' line_shape (snd (claim quiet ''c2'' ''g'' ''tp'' line_shape claiming))) = Inr (3, JNull)
    \<and> (\<exists>why. claim quiet ''c3'' ''g'' ''tp'' JNull (snd (claim quiet ''c2'' ''g'' ''tp'' line_shape claiming))
         = (Inl (msg_refused ''shape_conflict'' why), snd (claim quiet ''c2'' ''g'' ''tp'' line_shape claiming)))"
proof -
  have "canonical JNull \<noteq> canonical line_shape" by (simp add: canonical_def line_shape_def)
  with claim_solved_once [OF claiming_claim, of quiet "''c3''" JNull] show ?thesis by (simp only: claiming_claim fst_conv snd_conv) blast
qed

definition second_driver :: client_info where
  "second_driver = driver_row\<lparr>cl_id := ''d2'', cl_group := ''h''\<rparr>"

definition two_drivers :: state where
  "two_drivers = lab\<lparr>clients := [(''drv'', driver_row), (''d2'', second_driver)]\<rparr>"

lemma two_drivers_keyed: "keyed cl_id (clients two_drivers)"
  by (simp add: two_drivers_def second_driver_def driver_row_def keyed_def hm_wf_def)

lemma two_drivers_one: "one_session two_drivers"
  by (auto simp: one_session_def two_drivers_def second_driver_def driver_row_def hm_values_def)

theorem hello_keeps_one_session_witness:
  "one_session (snd (client_hello quiet 5 1 ''n3'' PROTO ''d3'' ''i'' True ''driver'' [] two_drivers))"
  by (rule hello_keeps_one_session [OF two_drivers_keyed two_drivers_one]) simp

theorem hello_moves_a_session_witness:
  "one_session two_drivers
    \<and> \<not> one_session (snd (client_hello quiet 5 1 ''n3'' PROTO ''d2'' ''g'' False ''driver'' [] two_drivers))"
proof -
  have "map_of (clients two_drivers) ''d2'' = Some second_driver" "driver_row \<in> set (hm_values (clients two_drivers))"
    by (simp_all add: two_drivers_def hm_values_def)
  moreover have "cl_has_session second_driver" "cl_has_session driver_row" "cl_group driver_row = ''g''" "cl_id driver_row \<noteq> ''d2''"
    by (simp_all add: second_driver_def driver_row_def)
  moreover have "major_matches PROTO" by code_simp
  ultimately show ?thesis using hello_moves_a_session two_drivers_keyed two_drivers_one by blast
qed

theorem late_reap_takes_nothing_witness:
  "map_of (reap_pending lab) ''drv'' \<noteq> Some 1 \<and> reap_client_resources quiet ''drv'' ''g'' (Some 1) lab = lab
    \<and> reap_client_resources quiet ''drv'' ''g'' None lab
      \<in> {lab, lab\<lparr>reap_pending := hm_remove ''drv'' (reap_pending lab)\<rparr>}"
proof -
  have "map_of (reap_pending lab) ''drv'' \<noteq> Some 1" "map_of (clients lab) ''drv'' = Some driver_row"
    by (simp_all add: lab_def empty_box_def new_state_def)
  moreover have "cl_has_session driver_row" by (simp add: driver_row_def)
  ultimately show ?thesis using late_reap_takes_nothing by blast
qed

text \<open>A running actor, a call of it that has a result and one that waits, and a dead actor.\<close>

definition rank :: actor_info where
  "rank = \<lparr>ac_id = ''a:1'', ac_name = ''r0'', ac_group = ''g'', ac_agent = ''x'', ac_node_id = ''n1'', ac_gpu_ids = [0],
     ac_owner = ''drv'', ac_state = Running, ac_pid = Some 9, ac_queued_calls = []\<rparr>"

definition call_of :: "ref_state \<Rightarrow> ref_info" where
  "call_of rs = \<lparr>rf_state = rs, rf_actor = Some ''a:1'', rf_owner = ''drv'', rf_method = ''m'', rf_created_ms = 1,
     rf_warned = False\<rparr>"

definition busy :: state where
  "busy = lab\<lparr>actors := [(''a:1'', rank), (''a:2'', rank\<lparr>ac_id := ''a:2'', ac_state := Dead ''gone'' 2\<rparr>)],
     refs := [(''a:1:1'', call_of (RefReady True [])), (''a:1:2'', call_of RefPending)]\<rparr>"

theorem wait_answers_witness:
  "wait_round quiet [''a:1:1'', ''a:1:2''] 1 False busy = Some [''a:1:1'']
    \<and> length [''a:1:1''] = min 1 (length [''a:1:1'', ''a:1:2''])
    \<and> (\<exists>got. do_wait [''a:1:2''] 1 [(quiet, False, busy), (quiet, True, busy)] = Some (R (RefWaitOk got)))"
proof -
  have w: "wait_round quiet [''a:1:1'', ''a:1:2''] 1 False busy = Some [''a:1:1'']"
    by (simp add: wait_round_def ref_ready_def resolve_ref_def starts_with_def busy_def call_of_def)
  have e: "\<exists>w \<in> set [(quiet, False, busy), (quiet, True, busy)]. fst (snd w)" by simp
  show ?thesis
    using wait_answers [of quiet "[''a:1:1'', ''a:1:2'']" 1 False busy "[''a:1:1'']" "[]"]
      wait_answers [of quiet "[''a:1:2'']" 1 False busy "[]" "[(quiet, False, busy), (quiet, True, busy)]"] w e by blast
qed

lemma busy_inv: "daemon_inv busy"
proof -
  have "place_inv busy" by code_simp
  moreover have "peers busy = []" "claims busy = []" by (simp_all add: busy_def lab_def empty_box_def new_state_def)
  ultimately show ?thesis
    by (auto simp: daemon_inv_def keyed_def claims_held_def hosted_def calls_live_def peers_wf_def live_actor_def is_dead_def
        hm_wf_def bt_wf_def hm_has_def busy_def lab_def rank_def call_of_def driver_row_def)
qed

theorem sweep_history_keeps_witness:
  "map_of (actors (sweep_history quiet busy)) ''a:1'' = Some rank
    \<and> map_of (refs (sweep_history quiet busy)) ''a:1:2'' = Some (call_of RefPending)"
  using sweep_history_keeps [OF busy_inv, of "''a:1''" rank quiet "''a:1:2''" "call_of RefPending"]
  by (simp add: busy_def rank_def is_dead_def call_of_def)

theorem gpus_used_exact_witness:
  "gpus_total lab ''g'' = 4 \<and> as_u64 (jget (group_json lab ''g'') ''gpus_used'') = Some (4 - gpus_free lab ''g'')"
proof -
  have "agents_wf lab" using lab_inv by (simp add: place_inv_def)
  moreover have "gpus_total lab ''g'' = 4" by code_simp
  ultimately show ?thesis using gpus_used_exact [of lab "''g''"] by simp
qed

theorem resumed_call_of_a_dead_actor_witness:
  "resolve_ref (adopt_ref quiet ''x'' ''a:2:7'' busy) ''a:2:7'' = ResPending
    \<and> resolve_ref (handle_agent_msg quiet 3 ''x'' 0 (A (ActorExit ''a:2'' (Some 0) None)) []
        (adopt_ref quiet ''x'' ''a:2:7'' busy)) ''a:2:7'' = ResPending"
  using resumed_call_of_a_dead_actor [of busy "''a:2''" "rank\<lparr>ac_id := ''a:2'', ac_state := Dead ''gone'' 2\<rparr>" "''x''" "''7''"
      quiet quiet 3 0 "Some 0" None "[]"]
  by (simp add: busy_def rank_def hm_wf_def is_dead_def hm_has_def starts_with_def)


section \<open>Reachable states\<close>

text \<open>A daemon that starts, and an agent that comes back to it with a running actor and a call.\<close>

definition fresh_box :: state where
  "fresh_box = new_state ''10.0.0.1'' ''box'' [] ''b''"

definition resumed :: resume_actor where
  "resumed = \<lparr>r_actor_id = ''a:1'', r_name = ''r0'', r_gpu_ids = [0], r_pid = 9, r_owner = ''drv'',
     r_pending_refs = [''a:1:5'']\<rparr>"

definition after_register :: state where
  "after_register = snd (agent_hello quiet 3 1 ''10.0.0.2'' PROTO ''x'' ''g'' [] two_gpus [] 1 [] [resumed] [] [] fresh_box)"

lemma fresh_booted: "booted fresh_box"
proof -
  have "fresh_box = (new_state ''10.0.0.1'' ''box'' [] ''b'')\<lparr>http_port := 0\<rparr>" by (simp add: fresh_box_def new_state_def)
  then show ?thesis unfolding booted_def by blast
qed

lemma fresh_step: "daemon_step fresh_box after_register"
proof -
  have "distinct (map g_index (m_gpus two_gpus))" by (simp add: two_gpus_def)
  moreover have "reports_live fresh_box ''x'' (reported_refs [resumed] [])"
    by (simp add: reports_live_def fresh_box_def new_state_def split: option.splits)
  ultimately show ?thesis unfolding after_register_def by (rule daemon_step.register)
qed

definition resumed_call :: ref_info where
  "resumed_call = \<lparr>rf_state = RefPending, rf_actor = Some ''a:1'', rf_owner = ''drv'', rf_method = [], rf_created_ms = 10,
     rf_warned = False\<rparr>"

lemma resumed_call_counted:
  "map_of (refs after_register) ''a:1:5'' = Some resumed_call \<and> next_ref after_register = 6"
proof -
  let ?node = "agent_node quiet fresh_box ''10.0.0.2'' []"
  have p: "major_matches PROTO" by code_simp
  have r: "rsplit_once (CHR '':'') ''a:1:5'' = Some (''a:1'', ''5'')" by code_simp
  have m: "misfiled_node quiet fresh_box i n = None" for i n
    by (simp add: misfiled_node_def misfiled_def quiet_def fresh_box_def new_state_def hm_values_def)
  have n: "parse_uint 18446744073709551615 10 ''5'' = Some 5" by (simp add: parse_uint_def to_digit_def)
  have b: "agents fresh_box = []" "actors fresh_box = []" "refs fresh_box = []" "next_ref fresh_box = 1" "e_now quiet = 10"
    by (simp_all add: fresh_box_def new_state_def quiet_def)
  define s1 where "s1 = register_row quiet 3 ''x'' ''g'' ?node two_gpus [] 1 [] (fst (bounded [])) fresh_box"
  have s1: "actors s1 = []" "refs s1 = []" "next_ref s1 = 1" by (simp_all add: s1_def register_row_def take_seq_def Let_def b)
  define s2 where "s2 = adopt_actors quiet ''x'' ''g'' (snd ?node) [resumed] s1"
  have s2: "actors s2 = [(''a:1'', adopted_actor ''x'' ''g'' (snd ?node) resumed)]" "refs s2 = []" "next_ref s2 = 1"
    by (simp_all add: s2_def adopt_actors_def Let_def s1 hm_has_def resumed_def adopted_actor_def)
  define s3 where "s3 = adopt_refs quiet ''x'' (reported_refs [resumed] []) s2"
  have s3: "actors s3 = actors s2" "refs s3 = [(''a:1:5'', resumed_call)]" "next_ref s3 = 6"
    by (simp_all add: s3_def adopt_refs_def reported_refs_def adopt_ref_def r n u64_add_def s2 hm_has_def resumed_def adopted_actor_def
        resumed_call_def b)
  have s4: "bury_missing quiet ''x'' [resumed] s3 = s3"
    by (simp add: bury_missing_def s3 s2 hm_values_def adopted_actor_def)
  have s5: "refs (fail_lost ''x'' (reported_refs [resumed] []) s3) = refs s3"
    "next_ref (fail_lost ''x'' (reported_refs [resumed] []) s3) = next_ref s3"
    by (simp_all add: fail_lost_def Let_def s3 reported_refs_def resumed_def)
  have a: "actors (fail_lost ''x'' (reported_refs [resumed] []) s3) = [(''a:1'', adopted_actor ''x'' ''g'' (snd ?node) resumed)]"
    by (simp add: fail_lost_def Let_def s3 s2)
  have k: "resume_kills s1 [resumed] = []" by (simp add: resume_kills_def s1)
  have t: "after_register = agent_register quiet 3 1 ''x'' ''g'' ?node two_gpus [] 1 [] [resumed] [] (fst (bounded [])) fresh_box"
    by (simp add: after_register_def agent_hello_def p m Let_def)
  have "refs after_register = refs s3" "next_ref after_register = next_ref s3"
    unfolding t agent_register_def Let_def s1_def [symmetric] s2_def [symmetric] s3_def [symmetric] s4 k
    using s5 by (simp_all add: send_held_def held_calls_def a hm_values_def adopted_actor_def)
  then show ?thesis by (simp add: s3)
qed

lemmas resumed_call_kept = resumed_call_counted [THEN conjunct1]
  and resumed_count = resumed_call_counted [THEN conjunct2]

theorem no_gpu_reserved_twice_witness:
  "booted fresh_box \<and> daemon_step\<^sup>*\<^sup>* fresh_box after_register \<and> distinct (reserved after_register)"
  using no_gpu_reserved_twice [OF fresh_booted r_into_rtranclp [of daemon_step, OF fresh_step]] fresh_booted fresh_step by blast

theorem no_call_waits_on_a_dead_actor_witness:
  "map_of (refs after_register) ''a:1:5'' = Some resumed_call
    \<and> (\<exists>i a. rf_actor resumed_call = Some i \<and> map_of (actors after_register) i = Some a \<and> \<not> is_dead (ac_state a))"
proof -
  have "rf_state resumed_call = RefPending" by (simp add: resumed_call_def)
  with no_call_waits_on_a_dead_actor [OF fresh_booted r_into_rtranclp [of daemon_step, OF fresh_step] resumed_call_kept]
  show ?thesis using resumed_call_kept by blast
qed

theorem no_claim_or_actor_left_behind_witness:
  "\<exists>a. map_of (actors after_register) ''a:1'' = Some a \<and> hm_has (agents after_register) (ac_agent a)"
proof -
  have "rf_state resumed_call = RefPending" by (simp add: resumed_call_def)
  moreover have "daemon_inv after_register"
    using daemon.inv_reached [OF fresh_booted r_into_rtranclp [of daemon_step, OF fresh_step]] .
  ultimately have "live_actor after_register ''a:1''"
    using calls_liveD [OF daemon_invD(6) map_of_SomeD [OF resumed_call_kept]] by (auto simp: resumed_call_def)
  then obtain a where "map_of (actors after_register) ''a:1'' = Some a" by (auto simp: live_actor_def split: option.splits)
  with no_claim_or_actor_left_behind [OF fresh_booted r_into_rtranclp [of daemon_step, OF fresh_step]] show ?thesis by blast
qed

lemma fresh_counted: "counted_step fresh_box after_register"
  using fresh_step by (simp add: counted_step_def fresh_box_def new_state_def last_ref_def)

text \<open>The result of the resumed call, and the exit of the actor after it.\<close>

definition after_result :: state where
  "after_result = handle_agent_msg quiet 3 ''x'' 0 (A (ActorResult ''a:1:5'' True [])) [42] after_register"

definition exited :: state where
  "exited = handle_agent_msg quiet 3 ''x'' 0 (A (ActorExit ''a:1'' (Some 0) None)) [] after_result"

lemma after_result_call: "map_of (refs after_result) ''a:1:5'' = Some (resumed_call\<lparr>rf_state := RefReady True [42]\<rparr>)"
  using resumed_call_kept
  by (simp add: after_result_def handle_agent_msg_def actor_result_def map_of_hm_modify resumed_call_def)

lemma exited_call: "\<exists>r'. map_of (refs exited) ''a:1:5'' = Some r'"
  by (simp add: exited_def handle_agent_msg_def actor_exit_def mark_actor_dead_def fail_refs_def bury_actor_def Let_def
      map_of_hm_map after_result_call split: option.splits)

lemma after_counted: "counted_step after_register after_result" "counted_step after_result exited"
proof -
  have "next_ref after_result = 6" by (simp add: after_result_def handle_agent_msg_def actor_result_def resumed_count)
  then show "counted_step after_register after_result" "counted_step after_result exited"
    by (simp_all add: counted_step_def resumed_count last_ref_def)
      (simp_all only: after_result_def exited_def daemon_step.agent_msg)
qed

theorem first_resolution_stands_witness:
  "\<exists>r'. map_of (refs exited) ''a:1:5'' = Some r' \<and> rf_state r' = RefReady True [42]"
proof -
  obtain r' where r': "map_of (refs exited) ''a:1:5'' = Some r'" using exited_call by blast
  have "counted_step\<^sup>*\<^sup>* fresh_box after_result" using fresh_counted after_counted(1) by (meson converse_rtranclp_into_rtranclp r_into_rtranclp)
  with first_resolution_stands [OF fresh_booted this after_counted(2) after_result_call _ r'] r' show ?thesis by simp
qed

theorem new_call_id_is_fresh_witness:
  "counted_step\<^sup>*\<^sup>* fresh_box after_register \<and> fst (new_ref_id ''a:1'' after_register) = ''a:1:6''
    \<and> \<not> hm_has (refs after_register) ''a:1:6''"
proof -
  have "char_of (54::nat) = CHR ''6''" by code_simp
  then have i: "fst (new_ref_id ''a:1'' after_register) = ''a:1:6''"
    by (simp add: new_ref_id_def ref_id_of_def resumed_count show_nat.simps digit_char_def)
  have "next_ref after_register < last_ref" by (simp add: resumed_count last_ref_def)
  with new_call_id_is_fresh [OF fresh_booted r_into_rtranclp [of counted_step, OF fresh_counted] this, of "''a:1''"] i fresh_counted
  show ?thesis by auto
qed

end
