(* ===== verification/AgentExamples.thy ===== *)
theory AgentExamples
  imports AgentCalls Examples
begin

text \<open>
  A run of an agent: it registers, starts an actor, gets a call, loses its link, and the actor
  answers while the link is down. The properties of the agent process are applied along it.
\<close>

definition writes_ok :: writes where
  "writes_ok w n \<longleftrightarrow> True"

definition gpu_box :: agent_opts where
  "gpu_box = \<lparr>ao_id = ''x'', ao_group = ''g'', ao_node_ip = ''1.1.1.1'', ao_container = ''c'', ao_pid = 5,
     ao_machine = \<lparr>m_memory = 0, m_cpus = 1, m_gpus = []\<rparr>, ao_services = [], ao_meta = []\<rparr>"

abbreviation (input) serve :: "sock \<Rightarrow> msg option \<Rightarrow> agent_proc \<Rightarrow> agent_proc" where
  "serve w reply a \<equiv> serve_part writes_ok gpu_box w reply a"

abbreviation (input) hears :: "msg \<Rightarrow> payload \<Rightarrow> agent_proc \<Rightarrow> agent_proc" where
  "hears m pl a \<equiv> daemon_says writes_ok 0 m pl a"

abbreviation (input) actor_does :: "spawn_event \<Rightarrow> agent_proc \<Rightarrow> agent_proc" where
  "actor_does ev a \<equiv> spawn_actor writes_ok ''/s'' ''python3'' 0 ev a"

definition greeting :: "msg option" where
  "greeting = Some (A (AgentRegisterOk PROTO ''n''))"

text \<open>The link on socket 7; the actor's process and its host on socket 9; the call.\<close>

definition linked_up :: agent_proc where
  "linked_up = serve 7 None (serve 7 None (serve 7 greeting (serve 7 None (serve 7 None (serve 7 None
     (serve 7 None agent_start))))))"

definition hosting :: agent_proc where
  "hosting = actor_does (Greets 9 (H (HostHello PROTO))) (actor_does (Forks 42)
     (hears (A (ActorSpawn ''a:1'' ''w0'' [] [0] ''c1'')) [] linked_up))"

definition called :: agent_proc where
  "called = hears (A (ActorDispatch ''a:1'' ''a:1:2'' ''f'')) [1] hosting"

text \<open>The link ends, the actor answers, and its thread has read that there is no link.\<close>

definition answering :: agent_proc where
  "answering = send_part writes_ok 0 (actor_does (Says (H (HostResult ''a:1:2'' True)) [2]) (daemon_ends called))"

lemma run_more:
  assumes "(agent_step ao)\<^sup>*\<^sup>* a b"
  shows "(agent_step ao)\<^sup>*\<^sup>* a (serve_part W ao w reply b)"
    and "says_given b m \<Longrightarrow> (agent_step ao)\<^sup>*\<^sup>* a (daemon_says W req m pl b)"
    and "spawn_given b ev \<Longrightarrow> (agent_step ao)\<^sup>*\<^sup>* a (spawn_actor W dir python n ev b)"
    and "(agent_step ao)\<^sup>*\<^sup>* a (daemon_ends b)" "(agent_step ao)\<^sup>*\<^sup>* a (send_part W n b)"
  by (rule rtranclp.rtrancl_into_rtrancl [OF assms], rule agent_step.intros, assumption?)+

lemma run_up: "(agent_step gpu_box)\<^sup>*\<^sup>* agent_start linked_up"
  unfolding linked_up_def by (intro run_more(1) rtranclp.rtrancl_refl)

lemma up_spawns: "says_given linked_up (A (ActorSpawn ''a:1'' ''w0'' [] [0] ''c1''))"
  by code_simp

lemma up_forks: "spawn_given (hears (A (ActorSpawn ''a:1'' ''w0'' [] [0] ''c1'')) [] linked_up) (Forks 42)"
  by code_simp

definition forked_actor :: agent_proc where
  "forked_actor = actor_does (Forks 42) (hears (A (ActorSpawn ''a:1'' ''w0'' [] [0] ''c1'')) [] linked_up)"

lemma up_greets: "spawn_given forked_actor (Greets 9 (H (HostHello PROTO)))"
proof -
  have "9 \<notin> set (map sf_sock (ap_sent forked_actor))" "map (ha_host \<circ> snd) (ap_actors forked_actor) = [None]" by code_simp+
  then show ?thesis by (force simp: hosts_of_def)
qed

lemma run_hosting: "(agent_step gpu_box)\<^sup>*\<^sup>* agent_start hosting"
  unfolding hosting_def
  using run_more(3) [OF run_more(3) [OF run_more(2) [OF run_up up_spawns] up_forks]] up_greets
  by (simp add: forked_actor_def)

lemma hosting_row: "ap_phase hosting = Serving 7" "hm_has (ap_actors hosting) ''a:1''" "calls_of hosting ''a:1'' = Some []"
  by code_simp+

lemma run_answering: "(agent_step gpu_box)\<^sup>*\<^sup>* called answering"
  unfolding answering_def by (intro run_more rtranclp.rtrancl_refl) simp

section \<open>The properties along the run\<close>

text \<open>The result is buffered, and the next link on socket 8 delivers it.\<close>

definition relinked :: "agent_proc \<Rightarrow> agent_proc" where
  "relinked a = serve 8 None (serve 8 None (serve 8 None (serve 8 greeting (serve 8 None (serve 8 None (serve 8 None
     (serve 8 None a)))))))"

definition recovered :: agent_proc where
  "recovered = relinked (send_part writes_ok 0 (send_part writes_ok 0 answering))"

lemma run_relinked: "(agent_step gpu_box)\<^sup>*\<^sup>* a b \<Longrightarrow> (agent_step gpu_box)\<^sup>*\<^sup>* a (relinked b)"
  unfolding relinked_def by (intro run_more(1))

theorem held_messages_kept_witness:
  "held answering = [(A (ActorResult ''a:1:2'' True []), [2])] \<and> held recovered = []
    \<and> (\<exists>fs. ap_sent recovered = ap_sent answering @ fs
         \<and> mset (held answering) \<subseteq># mset (held recovered) + mset (delivered fs))"
proof -
  have "(agent_step gpu_box)\<^sup>*\<^sup>* answering recovered"
    unfolding recovered_def by (intro run_relinked run_more(5) rtranclp.rtrancl_refl)
  moreover have "held answering = [(A (ActorResult ''a:1:2'' True []), [2])]" "held recovered = []" by code_simp+
  ultimately show ?thesis using held_messages_kept [of gpu_box answering recovered] by blast
qed


theorem kill_is_honoured_witness:
  "(gone ''a:1'' (hears (A (ActorKill ''a:1'')) [] hosting)
    \<or> (\<exists>g. map_of (ap_actors (hears (A (ActorKill ''a:1'')) [] hosting)) ''a:1'' = Some g \<and>
        (if ha_pid g = 0 then ha_kill_requested g else ToGroup (ha_pid g) \<in> set (ap_signals (hears (A (ActorKill ''a:1'')) [] hosting)))))
    \<and> ap_signals (hears (A (ActorKill ''a:1'')) [] hosting) = [ToGroup 42, ToProcess 42]"
proof -
  obtain h where h: "map_of (ap_actors hosting) ''a:1'' = Some h" using hosting_row(2) by (auto simp: hm_has_def)
  have "ap_signals (hears (A (ActorKill ''a:1'')) [] hosting) = [ToGroup 42, ToProcess 42]" by code_simp
  with kill_is_honoured [OF run_hosting hosting_row(1) h rtranclp.rtrancl_refl] show ?thesis by blast
qed

text \<open>The thread that answers has read that there is no link; the agent is linked again before it buffers.\<close>

definition stuck :: agent_proc where
  "stuck = send_part writes_ok 0 (send_part writes_ok 0 (relinked answering))"

theorem buffered_while_serving_waits_witness:
  "(agent_step gpu_box)\<^sup>*\<^sup>* agent_start stuck \<and> ap_phase stuck = Serving 8
    \<and> ap_unsent stuck = [(A (ActorResult ''a:1:2'' True []), [2])]
    \<and> (\<exists>ms. ap_unsent (ping writes_ok 8 stuck) = ap_unsent stuck @ ms)"
proof -
  have "(agent_step gpu_box)\<^sup>*\<^sup>* agent_start called"
    unfolding called_def by (rule run_more(2) [OF run_hosting]) (simp add: says_given_def)
  then have "(agent_step gpu_box)\<^sup>*\<^sup>* agent_start answering" using run_answering by (rule rtranclp_trans)
  then have r: "(agent_step gpu_box)\<^sup>*\<^sup>* agent_start stuck" unfolding stuck_def by (intro run_more(5) run_relinked)
  have p: "ap_phase stuck = Serving 8" "ap_unsent stuck = [(A (ActorResult ''a:1:2'' True []), [2])]" by code_simp+
  have "ap_phase (ping writes_ok 8 stuck) = Serving 8" by code_simp
  then have "agent_step gpu_box stuck (ping writes_ok 8 stuck) \<and> ap_phase (ping writes_ok 8 stuck) = Serving 8"
    by (simp add: agent_step.pings)
  then show ?thesis using r p buffered_while_serving_waits [OF p(1), of gpu_box "ping writes_ok 8 stuck"] by blast
qed


section \<open>The daemon's side\<close>

text \<open>The daemon of \<open>busy\<close> waits for the call \<open>a:1:2\<close> of the agent \<open>x\<close>.\<close>

lemma busy_call: "map_of (refs busy) ''a:1:2'' = Some (call_of RefPending)" "rf_actor (call_of RefPending) = Some ''a:1''"
  "rf_state (call_of RefPending) = RefPending" "belongs ''x'' ''a:1'' busy" "waits_nowhere ''x'' ''a:1:2'' busy"
  by (simp_all add: busy_def call_of_def belongs_def waits_nowhere_def rank_def hm_values_def)

definition registers :: "agent_proc \<Rightarrow> state" where
  "registers a = agent_register quiet 3 1 ''x'' ''g'' (''1.1.1.1'', ''n1'') two_gpus ''c'' 5 [] (resume_of a) (unacked_of a) [] busy"

theorem reported_call_survives_reconnect_witness:
  "pending_at ''a:1'' ''a:1:2'' called \<and> map_of (refs (registers called)) ''a:1:2'' = Some (call_of RefPending)"
proof -
  have c: "hm_has (ap_actors called) ''a:1''" "pending_at ''a:1'' ''a:1:2'' called" by code_simp+
  from reported_call_survives_reconnect [OF busy_call(1,3,2) c(1) disjI1 [OF c(2)]] c(2)
  show ?thesis unfolding registers_def by blast
qed


end
