(* ===== verification/ServeNet.thy ===== *)
theory ServeNet
  imports Meta Ip "HOL-Library.Word"
begin

text \<open>
  Networks and the allowlist of the gateway (\<open>rust/mentatd-serve/src/net.rs\<close>). A network is an
  address masked to a prefix, held in 128 bits for both families.
\<close>

unbundle bit_operations_syntax

section \<open>Networks\<close>

type_synonym u128 = "128 word"

record net =
  n_net :: u128
  n_mask :: u128
  n_v6 :: bool

definition is_v6 :: "ip_addr \<Rightarrow> bool" where
  "is_v6 a = (case a of V4 _ \<Rightarrow> False | V6 _ \<Rightarrow> True)"

definition width_of :: "ip_addr \<Rightarrow> nat" where
  "width_of a = (if is_v6 a then 128 else 32)"

text \<open>\<open>u32::from\<close> of four bytes, \<open>u128::from\<close> of eight groups, most significant first.\<close>

definition addr_nat :: "ip_addr \<Rightarrow> nat" where
  "addr_nat a = (case a of V4 os \<Rightarrow> foldl (\<lambda>n b. n * 256 + b) 0 os | V6 gs \<Rightarrow> foldl (\<lambda>n g. n * 65536 + g) 0 gs)"

definition key :: "ip_addr \<Rightarrow> u128" where
  "key a = of_nat (addr_nat a)"

definition net_new :: "ip_addr \<Rightarrow> nat \<Rightarrow> net" where
  "net_new a bits =
     (let width = width_of a; b = min bits width;
          m = (if b = 0 then 0 else push_bit (width - b) (drop_bit (128 - b) (NOT 0)))
      in \<lparr>n_net = key a AND m, n_mask = m, n_v6 = is_v6 a\<rparr>)"

definition net_masked :: "ip_addr \<Rightarrow> ip_addr \<Rightarrow> net" where
  "net_masked a m = \<lparr>n_net = key a AND key m, n_mask = key m, n_v6 = is_v6 a\<rparr>"

definition net_contains :: "net \<Rightarrow> ip_addr \<Rightarrow> bool" where
  "net_contains n a \<longleftrightarrow> n_v6 n = is_v6 a \<and> key a AND n_mask n = n_net n"

text \<open>\<open>from_str\<close> and \<open>Display\<close>.\<close>

abbreviation parse_u32 :: "string \<Rightarrow> nat option" where
  "parse_u32 s \<equiv> parse_uint (2 ^ 32 - 1) 10 s"

definition parse_net :: "string \<Rightarrow> net option" where
  "parse_net s =
     (let (addr, bits) = (case split_once (CHR ''/'') s of Some (a, b) \<Rightarrow> (a, Some (trim b)) | None \<Rightarrow> (s, None))
      in if (case bits of Some b \<Rightarrow> parse_u32 b = None | None \<Rightarrow> False) then None
         else (case parse_ip (trim addr) of
             None \<Rightarrow> None
           | Some a \<Rightarrow>
               (let n = (case bits of None \<Rightarrow> width_of a | Some b \<Rightarrow> the (parse_u32 b))
                in if width_of a < n then None else Some (net_new a n))))"

fun bytes_be :: "nat \<Rightarrow> nat \<Rightarrow> nat list" where
  "bytes_be 0 n = []"
| "bytes_be (Suc k) n = bytes_be k (n div 256) @ [n mod 256]"

definition count_ones :: "u128 \<Rightarrow> nat" where
  "count_ones w = length (filter (bit w) [0..<128])"

definition show_net :: "net \<Rightarrow> string" where
  "show_net n =
     (if n_v6 n then show_v6 (bytes_be 16 (unat (n_net n)))
      else (let os = bytes_be 4 (unat (n_net n) mod 2 ^ 32) in show_ipv4 (os ! 0) (os ! 1) (os ! 2) (os ! 3)))
     @ ''/'' @ show_nat (count_ones (n_mask n))"

text \<open>\<open>local_nets\<close>: the interfaces' addresses and masks, of one family each.\<close>

definition local_nets :: "(ip_addr option \<times> ip_addr option) list \<Rightarrow> net list" where
  "local_nets ifaces = List.map_filter (\<lambda>(addr, mask). case (addr, mask) of
     (Some a, Some m) \<Rightarrow> if is_v6 a = is_v6 m then Some (net_masked a m) else None
   | _ \<Rightarrow> None) ifaces"

definition on_local_net :: "string \<Rightarrow> net list \<Rightarrow> bool" where
  "on_local_net addr local = (case parse_ip addr of None \<Rightarrow> False | Some ip \<Rightarrow> \<exists>n \<in> set local. net_contains n ip)"

section \<open>The allowlist\<close>

record allow =
  al_local :: bool
  al_nets :: "net list"
  al_prefixes :: "string list"

definition allow_entry :: "string \<Rightarrow> allow \<Rightarrow> allow" where
  "allow_entry e al =
     (if to_ascii_lowercase e = ''local'' then al\<lparr>al_local := True\<rparr>
      else (case parse_net e of
          Some n \<Rightarrow> al\<lparr>al_nets := al_nets al @ [n]\<rparr>
        | None \<Rightarrow> al\<lparr>al_prefixes := al_prefixes al @ [e]\<rparr>))"

definition allow_parse :: "string \<Rightarrow> allow" where
  "allow_parse s = fold allow_entry (filter (\<lambda>e. e \<noteq> []) (map trim (split_on (CHR '','') s)))
     \<lparr>al_local = False, al_nets = [], al_prefixes = []\<rparr>"

definition permits :: "allow \<Rightarrow> string \<Rightarrow> net list \<Rightarrow> bool" where
  "permits al addr local \<longleftrightarrow>
     (\<exists>p \<in> set (al_prefixes al). starts_with p addr) \<or>
     (case parse_ip addr of
        None \<Rightarrow> False
      | Some ip \<Rightarrow> (\<exists>n \<in> set (al_nets al). net_contains n ip)
          \<or> (al_local al \<and> (\<exists>n \<in> set local. net_contains n ip)))"

definition permits_now :: "allow \<Rightarrow> string \<Rightarrow> net list \<Rightarrow> bool" where
  "permits_now al addr nets = permits al addr (if al_local al then nets else [])"

definition show_allow :: "allow \<Rightarrow> string" where
  "show_allow al = join '','' ((if al_local al then [''local''] else []) @ map show_net (al_nets al)
     @ map (\<lambda>p. ''prefix:'' @ p) (al_prefixes al))"

section \<open>A prefix is a range\<close>

definition addr_wf :: "ip_addr \<Rightarrow> bool" where
  "addr_wf a \<longleftrightarrow> (case a of V4 os \<Rightarrow> length os = 4 \<and> (\<forall>x \<in> set os. x < 256)
     | V6 gs \<Rightarrow> length gs = 8 \<and> (\<forall>x \<in> set gs. x < 65536))"

lemma foldl_digits_bound:
  fixes n :: nat
  assumes "\<forall>x \<in> set xs. x < B" "n < B ^ k"
  shows "foldl (\<lambda>n b. n * B + b) n xs < B ^ (k + length xs)"
  using assms
proof (induction xs arbitrary: n k)
  case (Cons x xs)
  have "Suc n * B \<le> B ^ k * B" using Cons.prems(2) by (intro mult_le_mono1) simp
  moreover have "x < B" using Cons.prems(1) by simp
  ultimately have "n * B + x < B ^ Suc k" by (simp add: mult.commute)
  with Cons.IH [of "n * B + x" "Suc k"] Cons.prems(1) show ?case by simp
qed simp

lemma addr_nat_bound:
  assumes "addr_wf a"
  shows "addr_nat a < 2 ^ width_of a"
proof (cases a)
  case (V4 os)
  then show ?thesis using assms foldl_digits_bound [of os 256 0 0]
    by (simp add: addr_wf_def addr_nat_def width_of_def is_v6_def)
next
  case (V6 gs)
  then show ?thesis using assms foldl_digits_bound [of gs 65536 0 0]
    by (simp add: addr_wf_def addr_nat_def width_of_def is_v6_def)
qed

lemma width_of_le: "width_of a \<le> 128"
  by (simp add: width_of_def)

lemma unat_key:
  assumes "addr_wf a"
  shows "unat (key a) = addr_nat a"
proof -
  have "addr_nat a < 2 ^ 128"
    using addr_nat_bound [OF assms] width_of_le [of a] by (meson one_le_numeral order_less_le_trans power_increasing)
  then show ?thesis by (simp add: key_def unat_of_nat take_bit_nat_eq_self)
qed

lemma bit_key_width: "addr_wf a \<Longrightarrow> bit (key a) i \<Longrightarrow> i < width_of a"
proof (rule ccontr)
  assume wf: "addr_wf a" and b: "bit (key a) i" "\<not> i < width_of a"
  have "addr_nat a < 2 ^ i"
    using addr_nat_bound [OF wf] b(2) by (meson not_less one_le_numeral order_less_le_trans power_increasing)
  moreover have "bit (addr_nat a) i" using b(1) by (simp add: key_def bit_simps)
  ultimately show False by (simp add: bit_iff_odd)
qed

lemma bit_net_mask:
  assumes "0 < b" "b \<le> width" "width \<le> 128"
  shows "bit (push_bit (width - b) (drop_bit (128 - b) (NOT 0)) :: u128) i \<longleftrightarrow> width - b \<le> i \<and> i < width"
  using assms by (auto simp: bit_simps)

text \<open>Membership bit by bit.\<close>

lemma and_mask_eq_iff:
  fixes x y m :: u128
  shows "x AND m = y AND m \<longleftrightarrow> (\<forall>i < 128. bit m i \<longrightarrow> bit x i = bit y i)"
  by (auto simp: bit_eq_iff bit_simps)

lemma contains_new_bits:
  assumes "bits \<le> width_of a" "is_v6 a = is_v6 b"
  shows "net_contains (net_new a bits) b \<longleftrightarrow>
    (\<forall>i. width_of a - bits \<le> i \<longrightarrow> i < width_of a \<longrightarrow> bit (key a) i = bit (key b) i)"
proof (cases "bits = 0")
  case True
  then show ?thesis using assms by (simp add: net_contains_def net_new_def Let_def)
next
  case False
  let ?m = "push_bit (width_of a - bits) (drop_bit (128 - bits) (NOT 0)) :: u128"
  have m: "bit ?m i \<longleftrightarrow> width_of a - bits \<le> i \<and> i < width_of a" for i
    using False assms(1) by (intro bit_net_mask) (simp_all add: width_of_le)
  have "net_contains (net_new a bits) b \<longleftrightarrow> key b AND ?m = key a AND ?m"
    using False assms by (simp add: net_contains_def net_new_def Let_def)
  also have "\<dots> \<longleftrightarrow> (\<forall>i < 128. bit ?m i \<longrightarrow> bit (key b) i = bit (key a) i)" by (rule and_mask_eq_iff)
  finally show ?thesis unfolding m using width_of_le [of a] by (meson order_less_le_trans)
qed

lemma addr_div_eq_bits:
  assumes "addr_wf a" "addr_wf b"
  shows "addr_nat a div 2 ^ k = addr_nat b div 2 ^ k \<longleftrightarrow> (\<forall>i. k \<le> i \<longrightarrow> bit (key a) i = bit (key b) i)"
proof -
  have "addr_nat a div 2 ^ k = addr_nat b div 2 ^ k \<longleftrightarrow> drop_bit k (key a) = drop_bit k (key b)"
    by (simp add: word_unat_eq_iff unat_drop_bit_eq unat_key assms flip: drop_bit_eq_div)
  also have "\<dots> \<longleftrightarrow> (\<forall>i. bit (key a) (k + i) = bit (key b) (k + i))"
  proof -
    have "i < 128" if "bit (key x) (k + i)" for x i using bit_imp_le_length [OF that] by simp
    then show ?thesis by (auto simp: bit_eq_iff bit_simps)
  qed
  also have "\<dots> \<longleftrightarrow> (\<forall>i. k \<le> i \<longrightarrow> bit (key a) i = bit (key b) i)"
    by (metis le_add1 le_add_diff_inverse)
  finally show ?thesis .
qed

text \<open>A network of the allowlist is exactly the addresses of its family that share the prefix. For
  any address and any prefix length of its family, the masks of 128 bits admit an address when the
  two agree in their leading bits, as numbers, and never one of the other family; the edge lengths,
  where the mask is all ones or empty, included.\<close>

theorem contains_iff_prefix:
  assumes "addr_wf a" "addr_wf b" "bits \<le> width_of a"
  shows "net_contains (net_new a bits) b \<longleftrightarrow> is_v6 a = is_v6 b
    \<and> addr_nat a div 2 ^ (width_of a - bits) = addr_nat b div 2 ^ (width_of a - bits)"
proof (cases "is_v6 a = is_v6 b")
  case True
  then have w: "width_of a = width_of b" by (simp add: width_of_def)
  have "(\<forall>i. width_of a - bits \<le> i \<longrightarrow> bit (key a) i = bit (key b) i) \<longleftrightarrow>
      (\<forall>i. width_of a - bits \<le> i \<longrightarrow> i < width_of a \<longrightarrow> bit (key a) i = bit (key b) i)"
    using bit_key_width [OF assms(1)] bit_key_width [OF assms(2)] w by metis
  with True contains_new_bits [OF assms(3) True] addr_div_eq_bits [OF assms(1,2)] show ?thesis by simp
qed (simp add: net_contains_def net_new_def Let_def)

end
