(* ===== verification/ServeView.thy ===== *)
theory ServeView
  imports ServeNet Json "HOL-Library.Option_ord"
begin

text \<open>
  What the gateway knows and routes (\<open>rust/mentatd-serve/src/main.rs\<close>): the daemons' snapshots, the
  groups and endpoints they announce, which groups may serve, and the tables of models built from
  them. Instants and durations are milliseconds; an operation reads the clock once (\<open>now\<close>), and
  the networks of the box once (\<open>local\<close>). The maps of the state are hash maps, so their order is
  arbitrary.
\<close>

section \<open>State\<close>

record serve_cfg =
  sc_daemons :: "string list"
  sc_port :: nat
  sc_announce_port :: nat
  sc_poll_interval :: nat
  sc_probe_interval :: nat
  sc_probe_timeout :: nat
  sc_probe_fresh :: nat
  sc_probe_promote :: nat
  sc_serving_timeout :: nat
  sc_model_wait :: nat
  sc_sse_keepalive :: nat
  sc_mcp_timeout :: nat
  sc_tools_ttl :: nat
  sc_model_ttl :: nat
  sc_allowed_sources :: allow
  sc_discover_peers :: bool

record daemon_view =
  dv_status :: "json option"
  dv_seen :: "nat option"
  dv_error :: "string option"
  dv_node_id :: "string option"
  dv_seed :: bool

definition empty_view :: "bool \<Rightarrow> daemon_view" where
  "empty_view seed = \<lparr>dv_status = None, dv_seen = None, dv_error = None, dv_node_id = None, dv_seed = seed\<rparr>"

record node_watch =
  nw_addr :: string
  nw_alternates :: "string list"

record probe_result =
  pr_ok :: bool
  pr_models :: "json list"
  pr_seen :: nat
  pr_error :: "string option"
  pr_selected :: "string option"
  pr_promoted_at :: nat

record liveness =
  lv_ok_at :: nat
  lv_told :: bool

type_synonym tools_report = "string + json list"

record serve =
  sv_cfg :: serve_cfg
  sv_started :: nat
  sv_verify :: bool
  sv_daemons :: "(string, daemon_view) table"
  sv_watched :: "string list"
  sv_nodes :: "(string, node_watch) table"
  sv_probes :: "(string, probe_result) table"
  sv_tools :: "(string, nat \<times> tools_report) table"
  sv_tools_fetching :: "string list"
  sv_live :: "(string, liveness) table"

record endpoint =
  ep_candidates :: "string list"
  ep_announced :: string
  ep_note :: "string option"

definition ep_best :: "endpoint \<Rightarrow> string option" where
  "ep_best e = (case ep_candidates e of [] \<Rightarrow> None | c # _ \<Rightarrow> Some c)"

record group_entry =
  ge_group :: string
  ge_daemon :: string
  ge_agents_alive :: nat
  ge_running :: nat
  ge_openai :: "endpoint option"
  ge_mcp :: "endpoint option"
  ge_provider :: string
  ge_placed :: bool

section \<open>Addresses of nodes\<close>

definition str_of :: "json \<Rightarrow> string" where
  "str_of v = (case as_str v of None \<Rightarrow> [] | Some s \<Rightarrow> s)"

definition flag_of :: "json \<Rightarrow> bool" where
  "flag_of v = (case as_bool v of None \<Rightarrow> False | Some b \<Rightarrow> b)"

definition record_addrs :: "string list \<Rightarrow> string list \<Rightarrow> (string, string list) table \<Rightarrow> (string, string list) table" where
  "record_addrs ids addrs out =
     (if addrs = [] then out
      else fold (\<lambda>i out. case map_of out i of
          Some prev \<Rightarrow> if length addrs \<le> length prev then out else hm_insert i addrs out
        | None \<Rightarrow> hm_insert i addrs out) (filter (\<lambda>i. i \<noteq> []) ids) out)"

definition collect_node_addrs :: "json \<Rightarrow> (string, string list) table \<Rightarrow> (string, string list) table" where
  "collect_node_addrs snap out =
     (let own = str_list (jget snap ''addrs''); own_ip = str_of (jget snap ''node_ip'');
          out1 = record_addrs (own_ip # own) (if own = [] then [own_ip] else own) out
      in fold (\<lambda>(_, p) out.
           let addrs = str_list (jget p ''addrs''); ip = str_of (jget p ''node_ip'')
           in record_addrs (ip # str_of (jget p ''link_ip'') # addrs) (if addrs = [] then [ip] else addrs) out)
         (entries (jget snap ''peers'')) out1)"

section \<open>Endpoints\<close>

text \<open>The first of each value; \<open>sort_key\<close> is stable, as \<open>sort_by_key\<close> is.\<close>

definition keep_first :: "'a list \<Rightarrow> 'a list" where
  "keep_first xs = rev (remdups (rev xs))"

definition reachable_hosts :: "string list \<Rightarrow> allow \<Rightarrow> net list \<Rightarrow> string list" where
  "reachable_hosts hosts allowed local =
     sort_key (\<lambda>h. \<not> on_local_net h local)
       (keep_first (filter (\<lambda>h. h \<noteq> [] \<and> permits allowed h local) hosts))"

definition url_of :: "string \<Rightarrow> nat \<Rightarrow> string \<Rightarrow> string" where
  "url_of host port pth = ''http://'' @ host @ '':'' @ show_nat port @ pth"

definition endpoint_of :: "json \<Rightarrow> string \<Rightarrow> (string, string list) table \<Rightarrow> allow \<Rightarrow> net list \<Rightarrow> endpoint option" where
  "endpoint_of agent svc nodes allowed local =
     (let entry = jget (jget agent ''services'') svc;
          note = (case as_str (jget entry ''note'') of None \<Rightarrow> None | Some n \<Rightarrow> if n = [] then None else Some n);
          pth = str_of (jget entry ''path''); host = str_of (jget entry ''host'')
      in case as_u64 (jget entry ''port'') of
           None \<Rightarrow> None
         | Some port \<Rightarrow>
             (if host \<noteq> [] then
                Some \<lparr>ep_candidates = [url_of host port pth], ep_announced = url_of host port pth, ep_note = note\<rparr>
              else (let node_ip = str_of (jget agent ''node_ip'');
                        hosts = (case map_of nodes node_ip of Some hs \<Rightarrow> hs | None \<Rightarrow> [node_ip])
                    in Some \<lparr>ep_candidates = map (\<lambda>h. url_of h port pth) (reachable_hosts hosts allowed local),
                         ep_announced = ''port '' @ show_nat port @ pth @ '' on node '' @ node_ip, ep_note = note\<rparr>)))"

text \<open>\<open>min_by\<close> gives the first of several least elements; an endpoint without a candidate has no best
  one, and \<open>None\<close> is below every \<open>Some\<close>.\<close>

definition min_first :: "('a \<Rightarrow> 'k::linorder) \<Rightarrow> 'a list \<Rightarrow> 'a option" where
  "min_first f xs = (if xs = [] then None else Some (arg_min_list f xs))"

definition best_openai :: "(endpoint \<times> string) list \<Rightarrow> endpoint option \<times> string" where
  "best_openai announced = (case min_first (\<lambda>(e, _). ep_best e) announced of
     Some (e, provider) \<Rightarrow> (Some e, provider) | None \<Rightarrow> (None, []))"

section \<open>Groups\<close>

definition alive_agents :: "json \<Rightarrow> json list" where
  "alive_agents g = filter (\<lambda>a. flag_of (jget a ''alive'')) (map snd (entries (jget g ''agents'')))"

definition group_entry_of :: "string \<Rightarrow> string \<Rightarrow> json \<Rightarrow> (string, string list) table \<Rightarrow> allow \<Rightarrow> net list \<Rightarrow> group_entry" where
  "group_entry_of addr name g nodes allowed local =
     (let agents = alive_agents g;
          actors = entries (jget g ''actors'');
          running = length (filter (\<lambda>(_, a). as_str (jget a ''state'') = Some ''running'') actors);
          resolve = (\<lambda>a svc. endpoint_of a svc nodes allowed local);
          (openai, provider) = best_openai (List.map_filter (\<lambda>a. map_option (\<lambda>e.
            (e, str_of (jget (jget (jget a ''services'') ''openai'') ''provider''))) (resolve a ''openai'')) agents);
          mcp = map_option snd (min_first (\<lambda>(api, m). (api, ep_best m)) (List.map_filter (\<lambda>a. map_option (\<lambda>m.
            (jget (jget a ''services'') ''openai'' = JNull, m)) (resolve a ''mcp'')) agents))
      in \<lparr>ge_group = name, ge_daemon = addr, ge_agents_alive = length agents, ge_running = running, ge_openai = openai,
          ge_mcp = mcp, ge_provider = provider, ge_placed = (actors \<noteq> [])\<rparr>)"

text \<open>Which of two entries for one group stays: more running actors, then more agents, then the lower
  daemon.\<close>

definition replaces :: "group_entry \<Rightarrow> group_entry \<Rightarrow> bool" where
  "replaces e prev \<longleftrightarrow>
     ge_running prev < ge_running e \<or> (ge_running prev = ge_running e \<and> ge_agents_alive prev < ge_agents_alive e)
     \<or> (ge_running e = ge_running prev \<and> ge_agents_alive e = ge_agents_alive prev \<and> ge_daemon e < ge_daemon prev)"

definition put_entry :: "group_entry \<Rightarrow> (string, group_entry) table \<Rightarrow> (string, group_entry) table" where
  "put_entry e out = (case map_of out (ge_group e) of
     None \<Rightarrow> bt_insert (ge_group e) e out
   | Some prev \<Rightarrow> if replaces e prev then bt_insert (ge_group e) e out else out)"

definition fresh_view :: "serve \<Rightarrow> nat \<Rightarrow> daemon_view \<Rightarrow> bool" where
  "fresh_view sv now v = (case dv_seen v of None \<Rightarrow> False | Some t \<Rightarrow> now - t \<le> sc_poll_interval (sv_cfg sv) * 3)"

definition known_nodes :: "serve \<Rightarrow> (string, string list) table" where
  "known_nodes sv = fold (\<lambda>v out. case dv_status v of Some snap \<Rightarrow> collect_node_addrs snap out | None \<Rightarrow> out)
     (hm_values (sv_daemons sv)) []"

definition announced_entries :: "serve \<Rightarrow> nat \<Rightarrow> net list \<Rightarrow> group_entry list" where
  "announced_entries sv now local = concat (map (\<lambda>(addr, v).
     case (if fresh_view sv now v then dv_status v else None) of
       None \<Rightarrow> []
     | Some snap \<Rightarrow> map (\<lambda>(name, g). group_entry_of addr name g (known_nodes sv) (sc_allowed_sources (sv_cfg sv)) local)
         (entries (jget snap ''groups''))) (sv_daemons sv))"

definition announced_groups :: "serve \<Rightarrow> nat \<Rightarrow> net list \<Rightarrow> (string, group_entry) table" where
  "announced_groups sv now local = fold put_entry (announced_entries sv now local) []"

section \<open>Serving clocks\<close>

definition new_liveness :: "nat \<Rightarrow> liveness" where
  "new_liveness now = \<lparr>lv_ok_at = now, lv_told = False\<rparr>"

definition lv_retired :: "nat \<Rightarrow> nat \<Rightarrow> liveness \<Rightarrow> bool" where
  "lv_retired now ttl l \<longleftrightarrow> ttl < now - lv_ok_at l"

definition lv_round :: "nat \<Rightarrow> bool \<Rightarrow> nat \<Rightarrow> liveness \<Rightarrow> bool \<times> liveness" where
  "lv_round now ok ttl l =
     (if ok then (False, new_liveness now)
      else if lv_told l \<or> \<not> lv_retired now ttl l then (False, l)
      else (True, l\<lparr>lv_told := True\<rparr>))"

definition group_table :: "serve \<Rightarrow> nat \<Rightarrow> net list \<Rightarrow> (string, group_entry) table" where
  "group_table sv now local = filter (\<lambda>(name, _). case map_of (sv_live sv) name of
     Some l \<Rightarrow> \<not> lv_retired now (sc_model_ttl (sv_cfg sv)) l | None \<Rightarrow> True) (announced_groups sv now local)"

section \<open>Health and routes\<close>

definition health_of :: "serve \<Rightarrow> nat \<Rightarrow> group_entry \<Rightarrow> string + json list" where
  "health_of sv now e =
     (case ge_openai e of
        None \<Rightarrow> Inl ''no announced OpenAI endpoint''
      | Some ep \<Rightarrow>
          (if ep_candidates ep = []
           then Inl (''announced '' @ ep_announced ep @ '', and no address of that node passes ALLOWED_SOURCES'')
           else if ge_placed e \<and> ge_running e = 0 then Inl ''no running actors''
           else (case map_of (sv_probes sv) (ge_group e) of
               None \<Rightarrow> Inl ''not probed yet''
             | Some p \<Rightarrow>
                 (if \<not> pr_ok p then
                    Inl (''endpoint probe failed: '' @ (case pr_error p of Some x \<Rightarrow> x | None \<Rightarrow> ''unknown'') @
                      (case ep_note ep of Some n \<Rightarrow> '' (agent reports: '' @ n @ '')'' | None \<Rightarrow> []))
                  else if sc_probe_fresh (sv_cfg sv) < now - pr_seen p then Inl ''endpoint probe stale''
                  else Inr (pr_models p)))))"

definition in_service :: "serve \<Rightarrow> nat \<Rightarrow> group_entry \<Rightarrow> string + unit" where
  "in_service sv now e =
     (if ge_openai e = None \<and> ge_mcp e \<noteq> None then
        (if ge_agents_alive e = 0 then Inl ''no alive agent announces its MCP server'' else Inr ())
      else (case health_of sv now e of Inl why \<Rightarrow> Inl why | Inr _ \<Rightarrow> Inr ()))"

definition endpoint_url :: "serve \<Rightarrow> group_entry \<Rightarrow> string option" where
  "endpoint_url sv e =
     (case ge_openai e of
        None \<Rightarrow> None
      | Some ep \<Rightarrow>
          (case map_of (sv_probes sv) (ge_group e) of
             Some p \<Rightarrow> (case pr_selected p of Some u \<Rightarrow> Some u | None \<Rightarrow> ep_best ep)
           | None \<Rightarrow> ep_best ep))"

definition model_ids :: "json list \<Rightarrow> string list" where
  "model_ids ms = List.map_filter (\<lambda>m. as_str (jget m ''id'')) ms"

definition or_insert :: "'k::linorder \<Rightarrow> 'v \<Rightarrow> ('k, 'v) table \<Rightarrow> ('k, 'v) table" where
  "or_insert k v m = (if map_of m k = None then bt_insert k v m else m)"

definition model_table :: "serve \<Rightarrow> nat \<Rightarrow> net list \<Rightarrow> (string, string \<times> string) table" where
  "model_table sv now local =
     fold (\<lambda>(_, e) out. case health_of sv now e of
         Inl _ \<Rightarrow> out
       | Inr models \<Rightarrow> fold (\<lambda>m. or_insert m (ge_group e, case endpoint_url sv e of Some u \<Rightarrow> u | None \<Rightarrow> [])) (model_ids models) out)
     (group_table sv now local) []"

definition listed_model :: "json \<Rightarrow> string \<Rightarrow> json" where
  "listed_model m grp = (case m of JObj o1 \<Rightarrow> JObj (bt_insert ''owned_by'' (JStr grp) o1) | _ \<Rightarrow> m)"

definition model_rows :: "serve \<Rightarrow> nat \<Rightarrow> net list \<Rightarrow> (string, json) table" where
  "model_rows sv now local =
     fold (\<lambda>(_, e) out. case health_of sv now e of
         Inl _ \<Rightarrow> out
       | Inr models \<Rightarrow> fold (\<lambda>m out. case as_str (jget m ''id'') of
             None \<Rightarrow> out | Some i \<Rightarrow> or_insert i (listed_model m (ge_group e)) out) models out)
     (group_table sv now local) []"

definition model_objects :: "serve \<Rightarrow> nat \<Rightarrow> net list \<Rightarrow> json list" where
  "model_objects sv now local = map snd (model_rows sv now local)"

definition not_ready :: "serve \<Rightarrow> nat \<Rightarrow> net list \<Rightarrow> str_map" where
  "not_ready sv now local = fold (\<lambda>(_, e) out. case health_of sv now e of
       Inl why \<Rightarrow> bt_insert (ge_group e) why out | Inr _ \<Rightarrow> out) (group_table sv now local) []"


section \<open>Retirement\<close>

text \<open>One round of the prober judges every announced group; the second component is what is logged.\<close>

definition age_group :: "serve \<Rightarrow> nat \<Rightarrow> string \<times> group_entry \<Rightarrow> (string, liveness) table \<times> (string \<times> string) list
    \<Rightarrow> (string, liveness) table \<times> (string \<times> string) list" where
  "age_group sv now row1 acc =
     (case row1 of (name, e) \<Rightarrow> case acc of (live, retired) \<Rightarrow>
       (let l = (case map_of live name of Some l \<Rightarrow> l | None \<Rightarrow> new_liveness now); ttl = sc_model_ttl (sv_cfg sv)
        in case in_service sv now e of
             Inr _ \<Rightarrow> (hm_insert name (snd (lv_round now True ttl l)) live, retired)
           | Inl why \<Rightarrow> (let (fell, l') = lv_round now False ttl l
               in (hm_insert name l' live, if fell then retired @ [(name, why)] else retired))))"

definition age_groups :: "serve \<Rightarrow> nat \<Rightarrow> (string, group_entry) table \<Rightarrow> serve \<times> (string \<times> string) list" where
  "age_groups sv now announced =
     (let (live, retired) = fold (age_group sv now) announced (hm_retain (\<lambda>name _. hm_has announced name) (sv_live sv), [])
      in (sv\<lparr>sv_live := live\<rparr>, retired))"

section \<open>The status page\<close>

definition daemon_status :: "serve \<Rightarrow> nat \<Rightarrow> daemon_view \<Rightarrow> json" where
  "daemon_status sv now v = jobj
     [(''connected'', JBool (dv_status v \<noteq> None)),
      (''age_s'', jopt (\<lambda>t. jnat ((now - t) div 1000)) (dv_seen v)),
      (''error'', jopt JStr (dv_error v)),
      (''node_id'', jopt JStr (dv_node_id v)),
      (''seed'', JBool (dv_seed v)),
      (''alternates'', jopt jstrs (Option.bind (dv_node_id v) (\<lambda>i. map_option nw_alternates (map_of (sv_nodes sv) i))))]"

definition group_status :: "serve \<Rightarrow> nat \<Rightarrow> group_entry \<Rightarrow> json" where
  "group_status sv now e = (let health = health_of sv now e in jobj
     [(''daemon'', JStr (ge_daemon e)),
      (''agents_alive'', jnat (ge_agents_alive e)),
      (''actors_running'', jnat (ge_running e)),
      (''openai'', jopt JStr (endpoint_url sv e)),
      (''openai_candidates'', jopt (\<lambda>x. jstrs (ep_candidates x)) (ge_openai e)),
      (''openai_note'', jopt JStr (Option.bind (ge_openai e) ep_note)),
      (''provider'', JStr (ge_provider e)),
      (''mcp'', jopt JStr (Option.bind (ge_mcp e) ep_best)),
      (''healthy'', JBool (\<not> isl health)),
      (''models'', (case health of Inr ms \<Rightarrow> jstrs (model_ids ms) | Inl _ \<Rightarrow> JNull)),
      (''why_not'', (case health of Inr _ \<Rightarrow> JNull | Inl why \<Rightarrow> JStr why))])"

definition status_view :: "serve \<Rightarrow> nat \<Rightarrow> net list \<Rightarrow> json" where
  "status_view sv now local = jobj
     [(''uptime_s'', jnat ((now - sv_started sv) div 1000)),
      (''verify'', JBool (sv_verify sv)),
      (''daemons'', jobj (map (\<lambda>(addr, v). (addr, daemon_status sv now v)) (sv_daemons sv))),
      (''groups'', jobj (map (\<lambda>(_, e). (ge_group e, group_status sv now e)) (group_table sv now local))),
      (''models'', jobj (map (\<lambda>(m, g, url). (m, jobj [(''group'', JStr g), (''url'', JStr url)])) (model_table sv now local)))]"

end
