(* ===== verification/ServeWatch.thy ===== *)
theory ServeWatch
  imports ServeView Announce
begin

text \<open>
  How the gateway keeps its view current (\<open>rust/mentatd-serve/src/main.rs\<close>): a task per watched daemon
  that polls its status and folds its events into the snapshot, the listener for announcements, and
  the prober that settles which address serves a group. A reply to an HTTP GET is a JSON value or the
  reason there is none; it is an argument of the operations, as are the clock and the box's networks.
  A task starts another one by \<open>ensure_watched\<close>, whose second result is the new task's arguments.
\<close>

section \<open>Patches\<close>

text \<open>\<open>Value::get\<close>.\<close>

definition jfield :: "json \<Rightarrow> string \<Rightarrow> json option" where
  "jfield v k = (case v of JObj o1 \<Rightarrow> map_of o1 k | _ \<Rightarrow> None)"

text \<open>The path leads through objects, which are made where they are missing. \<open>None\<close> is the result
  false; the caller throws the changed value away then.\<close>

fun patch_keys :: "string list \<Rightarrow> json option \<Rightarrow> json \<Rightarrow> json option" where
  "patch_keys [] val doc = None"
| "patch_keys [leaf] val doc = (case doc of
     JObj o1 \<Rightarrow> Some (JObj (case val of Some v \<Rightarrow> bt_insert leaf v o1 | None \<Rightarrow> hm_remove leaf o1))
   | _ \<Rightarrow> None)"
| "patch_keys (k # k2 # ks) val doc = (case doc of
     JObj o1 \<Rightarrow> map_option (\<lambda>c. JObj (bt_insert k c o1))
       (patch_keys (k2 # ks) val (case map_of o1 k of Some c \<Rightarrow> c | None \<Rightarrow> JObj []))
   | _ \<Rightarrow> None)"

definition patch_at :: "json \<Rightarrow> json list \<Rightarrow> json option \<Rightarrow> json option" where
  "patch_at doc pth val =
     (let keys = List.map_filter as_str pth
      in if length keys \<noteq> length pth then None else patch_keys keys val doc)"

definition apply_patch :: "json \<Rightarrow> json \<Rightarrow> json option" where
  "apply_patch snap event =
     (case as_array (jget event ''patch'') of
        None \<Rightarrow> None
      | Some patch \<Rightarrow> fold (\<lambda>entry staged. Option.bind staged (\<lambda>v.
          case as_array (jget entry ''at'') of None \<Rightarrow> None | Some pth \<Rightarrow> patch_at v pth (jfield entry ''value''))) patch (Some snap))"

section \<open>Events\<close>

datatype applied = AppliedYes | Skip | Resync

definition anchored_seq :: "serve \<Rightarrow> string \<Rightarrow> nat option" where
  "anchored_seq sv addr = Option.bind (map_of (sv_daemons sv) addr) (\<lambda>v. Option.bind (dv_status v) (\<lambda>s. as_u64 (jget s ''seq'')))"

definition apply_frame :: "nat \<Rightarrow> string \<Rightarrow> string option \<Rightarrow> json \<Rightarrow> serve \<Rightarrow> nat option \<Rightarrow> applied \<times> serve \<times> nat option" where
  "apply_frame now addr node ev sv last_seq =
     (case map_of (sv_daemons sv) addr of
        None \<Rightarrow> (Skip, sv, last_seq)
      | Some view \<Rightarrow>
          (if as_str (jget ev ''type'') = Some ''snapshot'' then
             (AppliedYes, sv\<lparr>sv_daemons := hm_insert addr (view\<lparr>dv_status := Some (jget ev ''data''), dv_seen := Some now,
                dv_error := None\<rparr>) (sv_daemons sv)\<rparr>, as_u64 (jget ev ''seq''))
           else if as_str (jget ev ''node'') \<noteq> node then (Skip, sv, last_seq)
           else (case (as_u64 (jget ev ''seq''), last_seq) of
               (None, _) \<Rightarrow> (Resync, sv, last_seq)
             | (Some sq, None) \<Rightarrow> (Resync, sv, last_seq)
             | (Some sq, Some prev) \<Rightarrow>
                 (if sq = u64_add prev 1 then
                    (case Option.bind (dv_status view) (\<lambda>snap. apply_patch snap ev) of
                       None \<Rightarrow> (Resync, sv, last_seq)
                     | Some snap \<Rightarrow> (AppliedYes, sv\<lparr>sv_daemons := hm_insert addr (view\<lparr>dv_status := Some snap,
                         dv_seen := Some now\<rparr>) (sv_daemons sv)\<rparr>, Some sq))
                  else if sq \<le> prev then (Skip, sv, last_seq)
                  else (Resync, sv, last_seq)))))"

section \<open>Which addresses are watched\<close>

type_synonym spawn = "string \<times> string list"

definition ensure_watched :: "string \<Rightarrow> string list \<Rightarrow> serve \<Rightarrow> serve \<times> spawn list" where
  "ensure_watched addr others sv =
     (if (\<exists>w \<in> set (hm_values (sv_nodes sv)). addr \<in> set (nw_alternates w)) then (sv, [])
      else if addr \<in> set (sv_watched sv) then (sv, [])
      else (sv\<lparr>sv_watched := addr # sv_watched sv\<rparr>, [(addr, others)]))"

definition drop_watch :: "string \<Rightarrow> serve \<Rightarrow> serve" where
  "drop_watch addr sv = sv\<lparr>sv_daemons := hm_remove addr (sv_daemons sv), sv_watched := filter (\<lambda>a. a \<noteq> addr) (sv_watched sv)\<rparr>"

definition move_watch :: "string \<Rightarrow> string \<Rightarrow> string \<Rightarrow> serve \<Rightarrow> serve" where
  "move_watch nid from to sv = sv\<lparr>
     sv_nodes := hm_modify nid (\<lambda>w. w\<lparr>nw_addr := to, nw_alternates := bs_insert from (bs_remove to (nw_alternates w))\<rparr>) (sv_nodes sv),
     sv_daemons := hm_remove from (sv_daemons sv),
     sv_watched := List.insert to (filter (\<lambda>a. a \<noteq> from) (sv_watched sv))\<rparr>"

definition claim_node :: "nat \<Rightarrow> string \<Rightarrow> string \<Rightarrow> serve \<Rightarrow> bool \<times> serve" where
  "claim_node now nid addr sv =
     (case map_of (sv_nodes sv) nid of
        None \<Rightarrow> (True, sv\<lparr>sv_nodes := hm_insert nid \<lparr>nw_addr = addr, nw_alternates = []\<rparr> (sv_nodes sv)\<rparr>)
      | Some w \<Rightarrow>
          (if nw_addr w = addr then (True, sv)
           else if (case map_of (sv_daemons sv) (nw_addr w) of Some v \<Rightarrow> fresh_view sv now v | None \<Rightarrow> False) then
             (False, sv\<lparr>sv_nodes := hm_insert nid (w\<lparr>nw_alternates := bs_insert addr (nw_alternates w)\<rparr>) (sv_nodes sv)\<rparr>)
           else (True, drop_watch (nw_addr w) (sv\<lparr>sv_nodes := hm_insert nid
             \<lparr>nw_addr = addr, nw_alternates = bs_insert (nw_addr w) (bs_remove addr (nw_alternates w))\<rparr> (sv_nodes sv)\<rparr>))))"

definition published_alive :: "nat \<Rightarrow> string option \<Rightarrow> string \<Rightarrow> serve \<Rightarrow> bool" where
  "published_alive now node addr sv =
     (let host = (case rsplit_once (CHR '':'') addr of Some (h, _) \<Rightarrow> h | None \<Rightarrow> addr)
      in \<exists>v \<in> set (hm_values (sv_daemons sv)). fresh_view sv now v \<and> (case dv_status v of
           None \<Rightarrow> False
         | Some snap \<Rightarrow> \<exists>(nid, p) \<in> set (entries (jget snap ''peers'')). flag_of (jget p ''alive'')
             \<and> (Some nid = node \<or> as_str (jget p ''node_ip'') = Some host \<or> as_str (jget p ''link_ip'') = Some host
                \<or> host \<in> set (str_list (jget p ''addrs'')))))"

section \<open>The addresses of a peer\<close>

definition announce_address :: "string list \<Rightarrow> string \<Rightarrow> allow \<Rightarrow> net list \<Rightarrow> string" where
  "announce_address ranked src_ip allowed local =
     (case List.find (\<lambda>a. on_local_net a local) (filter (\<lambda>a. permits allowed a local) ranked) of
        Some a \<Rightarrow> a | None \<Rightarrow> src_ip)"

definition is_lo :: "string \<Rightarrow> bool" where
  "is_lo c \<longleftrightarrow> starts_with ''127.'' c \<or> c = ''::1''"

definition peer_addresses :: "json \<Rightarrow> net list \<Rightarrow> string option \<times> string list" where
  "peer_addresses p local =
     (let one = (\<lambda>v. case as_str v of Some s \<Rightarrow> [s] | None \<Rightarrow> []);
          cands = sort_key is_lo (keep_first (filter (\<lambda>s. s \<noteq> [])
            (one (jget p ''link_ip'') @ str_list (jget p ''addrs'') @ one (jget p ''node_ip''))));
          best = (case List.find (\<lambda>c. on_local_net c local \<and> \<not> is_lo c) cands of
              Some c \<Rightarrow> Some c
            | None \<Rightarrow> (case List.find (\<lambda>c. \<not> is_lo c) cands of
                Some c \<Rightarrow> Some c
              | None \<Rightarrow> (case cands of [] \<Rightarrow> None | c # _ \<Rightarrow> Some c)))
      in (best, cands))"

definition with_port :: "string \<Rightarrow> string \<Rightarrow> string" where
  "with_port port a = a @ '':'' @ port"

section \<open>One status read\<close>

text \<open>What a snapshot says of one peer: another address of a watched node, or a node to watch.\<close>

definition learn_peer :: "net list \<Rightarrow> string \<times> json \<Rightarrow> serve \<times> spawn list \<Rightarrow> serve \<times> spawn list" where
  "learn_peer local peer acc =
     (case peer of (nid, p) \<Rightarrow> case acc of (sv, sps) \<Rightarrow>
       (case as_u64 (jget p ''http_port'') of
          None \<Rightarrow> (sv, sps)
        | Some port \<Rightarrow>
            (if port = 0 \<or> \<not> flag_of (jget p ''alive'') then (sv, sps)
             else (let (best, all) = peer_addresses p local; addrs = map (with_port (show_nat port)) all
                   in case map_of (sv_nodes sv) nid of
                        Some w \<Rightarrow> (sv\<lparr>sv_nodes := hm_insert nid
                          (fold (\<lambda>a w. if a = nw_addr w then w else w\<lparr>nw_alternates := bs_insert a (nw_alternates w)\<rparr>) addrs w) (sv_nodes sv)\<rparr>, sps)
                      | None \<Rightarrow> (case best of
                            None \<Rightarrow> (sv, sps)
                          | Some ip \<Rightarrow> (let (sv', sp) = ensure_watched (with_port (show_nat port) ip) addrs sv in (sv', sps @ sp)))))))"

definition poll_status :: "nat \<Rightarrow> net list \<Rightarrow> string \<Rightarrow> string + json \<Rightarrow> serve \<Rightarrow> string option \<times> serve \<times> spawn list" where
  "poll_status now local addr reply sv =
     (case reply of
        Inr snap \<Rightarrow>
          (let node_id = as_str (jget snap ''node_id'');
               (sv1, sps) = (if sc_discover_peers (sv_cfg sv) then fold (learn_peer local) (entries (jget snap ''peers'')) (sv, []) else (sv, []));
               seed = (case map_of (sv_daemons sv1) addr of Some v \<Rightarrow> dv_seed v | None \<Rightarrow> False)
           in (node_id, sv1\<lparr>sv_daemons := hm_insert addr \<lparr>dv_status = Some snap, dv_seen = Some now, dv_error = None,
                 dv_node_id = node_id, dv_seed = seed\<rparr> (sv_daemons sv1)\<rparr>, sps))
      | Inl e \<Rightarrow> (None, sv\<lparr>sv_daemons := hm_modify addr (\<lambda>v. v\<lparr>dv_error := Some e\<rparr>) (sv_daemons sv)\<rparr>, []))"

text \<open>The alternates of a node in order, loopback last, until one replies as that node.\<close>

fun try_each :: "nat \<Rightarrow> net list \<Rightarrow> (string \<Rightarrow> string + json) \<Rightarrow> string \<Rightarrow> string list \<Rightarrow> serve \<Rightarrow> string option \<times> serve \<times> spawn list" where
  "try_each now local http nid [] sv = (None, sv, [])"
| "try_each now local http nid (alt # alts) sv =
     (case poll_status now local alt (http alt) sv of (got, sv1, sps) \<Rightarrow>
        if got = Some nid then (Some alt, sv1, sps)
        else (case try_each now local http nid alts sv1 of (r, sv2, sps2) \<Rightarrow> (r, sv2, sps @ sps2)))"

definition try_alternates :: "nat \<Rightarrow> net list \<Rightarrow> (string \<Rightarrow> string + json) \<Rightarrow> string \<Rightarrow> string \<Rightarrow> serve
    \<Rightarrow> string option \<times> serve \<times> spawn list" where
  "try_alternates now local http nid current sv =
     (let alts = (case map_of (sv_nodes sv) nid of Some w \<Rightarrow> filter (\<lambda>a. a \<noteq> current) (nw_alternates w) | None \<Rightarrow> [])
      in try_each now local http nid (sort_key (\<lambda>a. starts_with ''127.'' a \<or> starts_with ''::1'' a) alts) sv)"

section \<open>A watch\<close>

text \<open>The local variables of \<open>watch_daemon\<close>; \<open>wt_stream\<close> is the number of the last event and the time of the
  last full read, while an event stream is open. A watch that ends is \<open>None\<close>.\<close>

record watch =
  wt_addr :: string
  wt_seed :: bool
  wt_node :: "string option"
  wt_failing :: "nat option"
  wt_untried :: "string list"
  wt_stream :: "(nat option \<times> nat) option"

definition start_watch :: "string \<Rightarrow> string list \<Rightarrow> serve \<Rightarrow> serve \<times> watch" where
  "start_watch addr others sv =
     (let seed = addr \<in> set (sc_daemons (sv_cfg sv))
      in (sv\<lparr>sv_daemons := (if hm_has (sv_daemons sv) addr then sv_daemons sv else hm_insert addr (empty_view seed) (sv_daemons sv))\<rparr>,
          \<lparr>wt_addr = addr, wt_seed = seed, wt_node = None, wt_failing = None, wt_untried = filter (\<lambda>o1. o1 \<noteq> addr) others, wt_stream = None\<rparr>))"

text \<open>The poll named the node.\<close>

definition watch_answered :: "nat \<Rightarrow> string \<Rightarrow> watch \<Rightarrow> serve \<Rightarrow> serve \<times> watch option" where
  "watch_answered now nid w sv =
     (if wt_node w = Some nid then (sv, Some (w\<lparr>wt_failing := None\<rparr>))
      else (case claim_node now nid (wt_addr w) sv of
          (False, sv1) \<Rightarrow> (drop_watch (wt_addr w) sv1, None)
        | (True, sv1) \<Rightarrow>
            (sv1\<lparr>sv_nodes := hm_modify nid (\<lambda>x. x\<lparr>nw_alternates := fold bs_insert (wt_untried w) (nw_alternates x)\<rparr>) (sv_nodes sv1)\<rparr>,
             Some (w\<lparr>wt_failing := None, wt_node := Some nid, wt_untried := (if hm_has (sv_nodes sv1) nid then [] else wt_untried w)\<rparr>))))"

text \<open>The attempt to open the event stream that follows.\<close>

definition watch_connected :: "nat \<Rightarrow> string option \<Rightarrow> watch \<Rightarrow> serve \<Rightarrow> serve \<times> watch" where
  "watch_connected now failed w sv =
     (case failed of
        None \<Rightarrow> (sv, w\<lparr>wt_stream := Some (None, now)\<rparr>)
      | Some e \<Rightarrow>
          (let v = (case map_of (sv_daemons sv) (wt_addr w) of Some v \<Rightarrow> v | None \<Rightarrow> empty_view (wt_seed w))
           in (sv\<lparr>sv_daemons := hm_insert (wt_addr w) (v\<lparr>dv_error := Some (''/events: '' @ e)\<rparr>) (sv_daemons sv)\<rparr>, w)))"

text \<open>The poll got no answer: before the node is known the other addresses are tried in turn, after that
  its alternates; then the watch may be given up.\<close>

definition watch_silent :: "nat \<Rightarrow> net list \<Rightarrow> (string \<Rightarrow> string + json) \<Rightarrow> watch \<Rightarrow> serve \<Rightarrow> serve \<times> watch option \<times> spawn list" where
  "watch_silent now local http w sv =
     (let since = (case wt_failing w of Some t \<Rightarrow> t | None \<Rightarrow> now); w1 = w\<lparr>wt_failing := Some since\<rparr>;
          give_up = (\<lambda>sv sps. if \<not> wt_seed w \<and> sc_model_ttl (sv_cfg sv) < now - since \<and> \<not> published_alive now (wt_node w) (wt_addr w) sv
            then ((let sv1 = drop_watch (wt_addr w) sv
                   in case wt_node w of Some nid \<Rightarrow> sv1\<lparr>sv_nodes := hm_remove nid (sv_nodes sv1)\<rparr> | None \<Rightarrow> sv1), None, sps)
            else (sv, Some w1, sps))
      in case wt_node w of
           None \<Rightarrow>
             (case wt_untried w of
                a # rest \<Rightarrow>
                  (let sv1 = drop_watch (wt_addr w) sv
                   in (sv1\<lparr>sv_watched := List.insert a (sv_watched sv1), sv_daemons := hm_insert a (empty_view (wt_seed w)) (sv_daemons sv1)\<rparr>,
                       Some (w1\<lparr>wt_addr := a, wt_untried := rest @ [wt_addr w]\<rparr>), []))
              | [] \<Rightarrow> give_up sv [])
         | Some nid \<Rightarrow>
             (case try_alternates now local http nid (wt_addr w) sv of
                (Some a, sv1, sps) \<Rightarrow> (move_watch nid (wt_addr w) a sv1, Some (w\<lparr>wt_addr := a, wt_failing := None\<rparr>), sps)
              | (None, sv1, sps) \<Rightarrow> give_up sv1 sps))"

text \<open>The top of the loop, with what each address would reply.\<close>

definition watch_poll :: "nat \<Rightarrow> net list \<Rightarrow> (string \<Rightarrow> string + json) \<Rightarrow> watch \<Rightarrow> serve \<Rightarrow> serve \<times> watch option \<times> spawn list" where
  "watch_poll now local http w sv =
     (case poll_status now local (wt_addr w) (http (wt_addr w)) sv of
        (Some nid, sv1, sps) \<Rightarrow> (case watch_answered now nid w sv1 of (sv2, w2) \<Rightarrow> (sv2, w2, sps))
      | (None, sv1, sps) \<Rightarrow> (case watch_silent now local http w sv1 of (sv2, w2, sps2) \<Rightarrow> (sv2, w2, sps @ sps2)))"

text \<open>Inside the stream: the periodic read, which also follows a frame that could not be applied, and one
  frame. A stream that ends is closed.\<close>

definition stream_poll :: "nat \<Rightarrow> net list \<Rightarrow> string + json \<Rightarrow> watch \<Rightarrow> serve \<Rightarrow> serve \<times> watch \<times> spawn list" where
  "stream_poll now local reply w sv =
     (case poll_status now local (wt_addr w) reply sv of
        (None, sv1, sps) \<Rightarrow> (sv1, w\<lparr>wt_stream := None\<rparr>, sps)
      | (Some _, sv1, sps) \<Rightarrow> (sv1, w\<lparr>wt_stream := Some (anchored_seq sv1 (wt_addr w), now)\<rparr>, sps))"

definition stream_frame :: "nat \<Rightarrow> net list \<Rightarrow> string + json \<Rightarrow> json option \<Rightarrow> watch \<Rightarrow> serve \<Rightarrow> serve \<times> watch \<times> spawn list" where
  "stream_frame now local reply frame w sv =
     (case (wt_stream w, frame) of
        (Some (last_seq, last_full), Some ev) \<Rightarrow>
          (case apply_frame now (wt_addr w) (wt_node w) ev sv last_seq of
             (Resync, sv1, sq) \<Rightarrow> stream_poll now local reply w sv1
           | (_, sv1, sq) \<Rightarrow> (sv1, w\<lparr>wt_stream := Some (sq, last_full)\<rparr>, []))
      | _ \<Rightarrow> (sv, w, []))"

definition stream_lost :: "watch \<Rightarrow> watch" where
  "stream_lost w = w\<lparr>wt_stream := None\<rparr>"

section \<open>Announcements\<close>

definition hear_node :: "net list \<Rightarrow> json \<Rightarrow> string \<Rightarrow> string \<Rightarrow> serve \<Rightarrow> serve \<times> spawn list" where
  "hear_node local v src_ip port sv =
     (let ranked = str_list (jget v ''addrs'');
          nid = text_of v ''node_id'';
          allowed = sc_allowed_sources (sv_cfg sv);
          target = with_port port (announce_address ranked src_ip allowed local)
      in case (if nid = [] then None else map_of (sv_nodes sv) nid) of
           Some w \<Rightarrow> (if nw_addr w = target then (sv, [])
             else (sv\<lparr>sv_nodes := hm_insert nid (w\<lparr>nw_alternates := bs_insert target (nw_alternates w)\<rparr>) (sv_nodes sv)\<rparr>, []))
         | None \<Rightarrow> ensure_watched target (map (with_port port) (filter (\<lambda>a. permits allowed a local) ranked) @ [with_port port src_ip]) sv)"

definition hear_serve :: "net list \<Rightarrow> json \<Rightarrow> string \<Rightarrow> serve \<Rightarrow> seen \<Rightarrow> serve \<times> spawn list \<times> seen" where
  "hear_serve local v src_ip sv seen =
     (let node = text_of v ''node_id''; boot = text_of v ''boot_id'';
          sq = (case as_u64 (jget v ''seq'') of None \<Rightarrow> 0 | Some n \<Rightarrow> n)
      in if node = [] \<or> boot = [] \<or> replayed seen node boot sq then (sv, [], seen)
         else (let seen' = hm_insert node (boot, sq) seen
               in case Option.bind (as_str (jget v ''http'')) (rsplit_once (CHR '':'')) of
                    None \<Rightarrow> (sv, [], seen')
                  | Some (_, port) \<Rightarrow>
                      (if parse_u16 port = None \<or> parse_u16 port = Some 0 then (sv, [], seen')
                       else if \<not> permits (sc_allowed_sources (sv_cfg sv)) src_ip local then (sv, [], seen')
                       else (let (sv', sps) = hear_node local v src_ip port sv in (sv', sps, seen')))))"

text \<open>One datagram; \<open>None\<close> is the panic of the verifier.\<close>

definition udp_step ::
  "(payload \<Rightarrow> payload \<Rightarrow> payload) \<Rightarrow> (json \<Rightarrow> string) \<Rightarrow> (string \<Rightarrow> json option) \<Rightarrow> payload \<Rightarrow> string
    \<Rightarrow> rat \<Rightarrow> net list \<Rightarrow> string \<Rightarrow> string \<Rightarrow> serve \<Rightarrow> seen \<Rightarrow> (serve \<times> spawn list \<times> seen) option" where
  "udp_step hmac to_string from_slice skey universe now_s local raw src_ip sv seen =
     (if 1401 \<le> length raw \<or> claimed_universe from_slice raw \<noteq> universe then Some (sv, [], seen)
      else (case verify hmac to_string from_slice raw skey of
          None \<Rightarrow> None
        | Some None \<Rightarrow> Some (sv, [], seen)
        | Some (Some v) \<Rightarrow>
            (if \<not> major_matches (text_of v ''proto'') then Some (sv, [], seen)
             else (case as_u64 (jget v ''t'') of
                 None \<Rightarrow> Some (sv, [], seen)
               | Some t \<Rightarrow>
                   (if \<not> fresh (of_nat (f64_of_nat t)) now_s then Some (sv, [], seen)
                    else Some (hear_serve local v src_ip sv seen))))))"

section \<open>The prober\<close>

definition trim_slashes :: "string \<Rightarrow> string" where
  "trim_slashes s = rev (dropWhile (\<lambda>c. c = CHR ''/'') (rev s))"

definition probe_order :: "string list \<Rightarrow> string option \<Rightarrow> bool \<Rightarrow> string list" where
  "probe_order cands sticky promote =
     (case (case sticky of Some s \<Rightarrow> if s \<in> set cands \<and> \<not> promote then Some s else None | None \<Rightarrow> None) of
        Some s \<Rightarrow> s # remove1 s cands
      | None \<Rightarrow> cands)"

fun probe_each :: "(string \<Rightarrow> string + json) \<Rightarrow> string list \<Rightarrow> string list \<Rightarrow> string + string \<times> json list" where
  "probe_each http [] errors = Inl (join ''; '' errors)"
| "probe_each http (base # bases) errors =
     (case http (trim_slashes base @ ''/models'') of
        Inr v \<Rightarrow> Inr (base, filter (\<lambda>m. as_str (jget m ''id'') \<noteq> None) (elems (jget v ''data'')))
      | Inl e \<Rightarrow> probe_each http bases (errors @ [base @ '': '' @ e]))"

definition probe_candidates :: "(string \<Rightarrow> string + json) \<Rightarrow> string list \<Rightarrow> string option \<Rightarrow> bool
    \<Rightarrow> bool \<times> (string + string \<times> json list)" where
  "probe_candidates http cands sticky promote =
     (let order = probe_order cands sticky promote; top1 = (\<lambda>xs. case xs of [] \<Rightarrow> None | x # _ \<Rightarrow> Some x)
      in (top1 order = top1 cands, probe_each http order []))"

text \<open>A round: the results of groups that are gone are dropped, each group is probed with the choice it had,
  and the results land one by one.\<close>

definition probe_begin :: "(string, group_entry) table \<Rightarrow> serve \<Rightarrow> serve" where
  "probe_begin tbl sv = sv\<lparr>sv_probes := hm_retain (\<lambda>k _. case map_of tbl k of Some e \<Rightarrow> ge_openai e \<noteq> None | None \<Rightarrow> False) (sv_probes sv)\<rparr>"

definition probe_jobs :: "nat \<Rightarrow> (string, group_entry) table \<Rightarrow> serve \<Rightarrow> (string \<times> string list \<times> string option \<times> bool) list" where
  "probe_jobs now tbl sv = List.map_filter (\<lambda>(_, e). case ge_openai e of
     None \<Rightarrow> None
   | Some ep \<Rightarrow> if ep_candidates ep = [] then None
       else Some (case map_of (sv_probes sv) (ge_group e) of
           Some p \<Rightarrow> (ge_group e, ep_candidates ep, pr_selected p, sc_probe_promote (sv_cfg sv) \<le> now - pr_promoted_at p)
         | None \<Rightarrow> (ge_group e, ep_candidates ep, None, True))) tbl"

definition probe_land :: "nat \<Rightarrow> string \<Rightarrow> bool \<times> (string + string \<times> json list) \<Rightarrow> serve \<Rightarrow> serve" where
  "probe_land now grp res sv =
     (case res of (tried_top, r) \<Rightarrow>
       (let was_promoted = (case map_of (sv_probes sv) grp of Some p \<Rightarrow> pr_promoted_at p | None \<Rightarrow> now);
            promoted = (if tried_top then now else was_promoted);
            pr = (case r of
                Inr (url, models) \<Rightarrow> \<lparr>pr_ok = True, pr_models = (if models = [] then [jobj [(''id'', JStr grp)]] else models), pr_seen = now,
                  pr_error = None, pr_selected = Some url, pr_promoted_at = promoted\<rparr>
              | Inl e \<Rightarrow> \<lparr>pr_ok = False, pr_models = [], pr_seen = now, pr_error = Some e, pr_selected = None, pr_promoted_at = promoted\<rparr>)
        in sv\<lparr>sv_probes := hm_insert grp pr (sv_probes sv)\<rparr>))"

definition prober_round :: "nat \<Rightarrow> net list \<Rightarrow> (string \<Rightarrow> string + json) \<Rightarrow> serve \<Rightarrow> serve \<times> (string \<times> string) list" where
  "prober_round now local http sv =
     (let tbl = announced_groups sv now local; sv1 = probe_begin tbl sv;
          sv2 = fold (\<lambda>(grp, cands, sticky, promote). probe_land now grp (probe_candidates http cands sticky promote)) (probe_jobs now tbl sv1) sv1
      in age_groups sv2 now tbl)"

end
