(* ===== verification/ServeRoutes.thy ===== *)
theory ServeRoutes
  imports ServeView
begin

text \<open>
  What the gateway routes is what it lists, and both follow from the snapshots: which daemon's view
  of a group stands, which addresses an endpoint may have, which group serves a model, and when a
  group that cannot serve leaves the tables.
\<close>

section \<open>First writer wins\<close>

lemma bt_wf_or_insert: "bt_wf m \<Longrightarrow> bt_wf (or_insert k v m)"
  by (simp add: or_insert_def bt_wf_insert)

lemma map_of_or_insert: "map_of (or_insert k v m) j = (case map_of m j of Some x \<Rightarrow> Some x | None \<Rightarrow> if j = k then Some v else None)"
  by (auto simp: or_insert_def map_of_bt_insert_gen split: option.split)

definition or_insert_all :: "('k::linorder \<times> 'v) list \<Rightarrow> ('k, 'v) table \<Rightarrow> ('k, 'v) table" where
  "or_insert_all kvs m = fold (\<lambda>(k, v). or_insert k v) kvs m"

lemma or_insert_all_append: "or_insert_all (xs @ ys) m = or_insert_all ys (or_insert_all xs m)"
  by (simp add: or_insert_all_def)

lemma bt_wf_or_insert_all: "bt_wf m \<Longrightarrow> bt_wf (or_insert_all kvs m)"
  unfolding or_insert_all_def by (induction kvs arbitrary: m) (auto simp: bt_wf_or_insert)

lemma map_of_or_insert_all: "map_of (or_insert_all kvs m) j = (case map_of m j of Some x \<Rightarrow> Some x | None \<Rightarrow> map_of kvs j)"
  unfolding or_insert_all_def
  by (induction kvs arbitrary: m) (auto simp: map_of_or_insert split: option.splits)

lemma fold_or_insert_all: "fold (\<lambda>x. or_insert_all (f x)) xs m = or_insert_all (concat (map f xs)) m"
  by (induction xs arbitrary: m) (simp_all add: or_insert_all_append, simp add: or_insert_all_def)

text \<open>Two tables in key order with the same keys have the same key list.\<close>

lemma bt_wf_keys_unique:
  assumes "bt_wf m" "bt_wf n" "\<And>k. map_of m k = None \<longleftrightarrow> map_of n k = None"
  shows "map fst m = map fst n"
proof -
  have "set (map fst m) = set (map fst n)" using assms(3) by (auto simp: map_of_eq_None_iff)
  moreover have "sorted (map fst m) \<and> distinct (map fst m)" "sorted (map fst n) \<and> distinct (map fst n)"
    using assms(1,2) unfolding bt_wf_def by (simp_all add: strict_sorted_iff)
  ultimately show ?thesis by (intro sorted_distinct_set_unique) simp_all
qed

section \<open>The table of groups\<close>

lemma bt_wf_put_entry: "bt_wf m \<Longrightarrow> bt_wf (put_entry e m)"
  by (auto simp: put_entry_def bt_wf_insert split: option.split)

lemma map_of_put_entry: "map_of (put_entry e m) g = (if g = ge_group e
    then Some (case map_of m g of None \<Rightarrow> e | Some prev \<Rightarrow> if replaces e prev then e else prev) else map_of m g)"
  by (auto simp: put_entry_def map_of_bt_insert_gen split: option.split)

lemma bt_wf_fold_put: "bt_wf m \<Longrightarrow> bt_wf (fold put_entry es m)"
  by (induction es arbitrary: m) (simp_all add: bt_wf_put_entry)

lemma bt_wf_announced: "bt_wf (announced_groups sv now local)"
  by (simp add: announced_groups_def bt_wf_fold_put)

lemma bt_wf_group_table: "bt_wf (group_table sv now local)"
  by (simp add: group_table_def bt_wf_filter bt_wf_announced)

definition named :: "(string, group_entry) table \<Rightarrow> bool" where
  "named m \<longleftrightarrow> (\<forall>(g, e) \<in> set m. ge_group e = g)"

lemma named_fold_put: "bt_wf m \<Longrightarrow> named m \<Longrightarrow> named (fold put_entry es m)"
proof (induction es arbitrary: m)
  case (Cons e es)
  have "named (put_entry e m)"
    unfolding named_def
  proof (clarify)
    fix g x assume "(g, x) \<in> set (put_entry e m)"
    then have "map_of (put_entry e m) g = Some x"
      using bt_wf_distinct [OF bt_wf_put_entry [OF Cons.prems(1)]] by simp
    then show "ge_group x = g" using Cons.prems(2) map_of_SomeD
      by (fastforce simp: map_of_put_entry named_def split: if_splits option.splits)
  qed
  with Cons show ?case by (simp add: bt_wf_put_entry)
qed simp

lemma named_group_table: "named (group_table sv now local)"
  using named_fold_put [of "[]" "announced_entries sv now local"]
  by (auto simp: named_def group_table_def announced_groups_def)

lemma group_table_in: "map_of (group_table sv now local) g = Some e \<longleftrightarrow> (g, e) \<in> set (group_table sv now local)"
  using bt_wf_distinct [OF bt_wf_group_table] by simp

section \<open>Models and their routes\<close>

definition offers :: "serve \<Rightarrow> nat \<Rightarrow> (string, group_entry) table \<Rightarrow> (string \<times> json \<times> group_entry) list" where
  "offers sv now tbl = concat (map (\<lambda>(_, e). case health_of sv now e of
     Inl _ \<Rightarrow> []
   | Inr models \<Rightarrow> List.map_filter (\<lambda>m. map_option (\<lambda>i. (i, m, e)) (as_str (jget m ''id''))) models) tbl)"

definition route_of :: "serve \<Rightarrow> group_entry \<Rightarrow> string \<times> string" where
  "route_of sv e = (ge_group e, case endpoint_url sv e of Some u \<Rightarrow> u | None \<Rightarrow> [])"

lemma map_filter_map_option: "map g (List.map_filter f xs) = List.map_filter (\<lambda>x. map_option g (f x)) xs"
  by (induction xs) (auto simp: List.map_filter_def)

lemma model_table_offers:
  "model_table sv now local = or_insert_all (map (\<lambda>(i, _, e). (i, route_of sv e)) (offers sv now (group_table sv now local))) []"
proof -
  have one: "(case health_of sv now e of Inl _ \<Rightarrow> out
       | Inr models \<Rightarrow> fold (\<lambda>m. or_insert m (ge_group e, case endpoint_url sv e of Some u \<Rightarrow> u | None \<Rightarrow> [])) (model_ids models) out)
     = or_insert_all (map (\<lambda>(i, _, e). (i, route_of sv e)) (case health_of sv now e of Inl _ \<Rightarrow> []
       | Inr models \<Rightarrow> List.map_filter (\<lambda>m. map_option (\<lambda>i. (i, m, e)) (as_str (jget m ''id''))) models)) out" for e out
  proof (cases "health_of sv now e")
    case (Inr ms)
    have "fold (\<lambda>m. or_insert m (route_of sv e)) (model_ids ms) out = or_insert_all (map (\<lambda>i. (i, route_of sv e)) (model_ids ms)) out"
      by (simp add: or_insert_all_def fold_map comp_def)
    with Inr show ?thesis by (simp add: model_ids_def map_filter_map_option option.map_comp comp_def route_of_def)
  qed (simp add: or_insert_all_def)
  show ?thesis unfolding model_table_def offers_def map_concat map_map
    by (subst fold_or_insert_all [symmetric]) (simp add: one comp_def split_def)
qed

lemma model_rows_offers:
  "model_rows sv now local = or_insert_all (map (\<lambda>(i, m, e). (i, listed_model m (ge_group e))) (offers sv now (group_table sv now local))) []"
proof -
  have rows: "fold (\<lambda>m out. case as_str (jget m ''id'') of None \<Rightarrow> out | Some i \<Rightarrow> or_insert i (f m) out) ms out
     = or_insert_all (List.map_filter (\<lambda>m. map_option (\<lambda>i. (i, f m)) (as_str (jget m ''id''))) ms) out" for f ms out
    by (induction ms arbitrary: out) (auto simp: or_insert_all_def List.map_filter_def split: option.split)
  have one: "(case health_of sv now e of Inl _ \<Rightarrow> out
       | Inr models \<Rightarrow> fold (\<lambda>m out. case as_str (jget m ''id'') of
             None \<Rightarrow> out | Some i \<Rightarrow> or_insert i (listed_model m (ge_group e)) out) models out)
     = or_insert_all (map (\<lambda>(i, m, e). (i, listed_model m (ge_group e))) (case health_of sv now e of Inl _ \<Rightarrow> []
       | Inr models \<Rightarrow> List.map_filter (\<lambda>m. map_option (\<lambda>i. (i, m, e)) (as_str (jget m ''id''))) models)) out" for e out
    by (cases "health_of sv now e") (simp_all add: rows map_filter_map_option option.map_comp comp_def, simp add: or_insert_all_def)
  show ?thesis unfolding model_rows_def offers_def map_concat map_map
    by (subst fold_or_insert_all [symmetric]) (simp add: one comp_def split_def)
qed

lemma map_of_concat_first:
  assumes "bt_wf tbl"
  shows "map_of (concat (map (\<lambda>(_, e). f e) tbl)) j = Some v \<longleftrightarrow>
    (\<exists>g e. (g, e) \<in> set tbl \<and> map_of (f e) j = Some v \<and> (\<forall>g' e'. (g', e') \<in> set tbl \<longrightarrow> g' < g \<longrightarrow> map_of (f e') j = None))"
  using assms
proof (induction tbl)
  case (Cons x tbl)
  obtain g e where x: "x = (g, e)" by (cases x)
  have wf: "bt_wf tbl" and low: "\<And>g' e'. (g', e') \<in> set tbl \<Longrightarrow> g < g'"
    using Cons.prems by (auto simp: bt_wf_def x)
  show ?case
  proof (cases "map_of (f e) j")
    case None
    then have "map_of (concat (map (\<lambda>(_, e). f e) (x # tbl))) j = Some v \<longleftrightarrow>
        map_of (concat (map (\<lambda>(_, e). f e) tbl)) j = Some v"
      by (simp add: x map_add_def split: option.split)
    then show ?thesis unfolding Cons.IH [OF wf] using None by (auto simp: x)
  next
    case (Some w)
    have "(\<exists>h d. (h, d) \<in> set (x # tbl) \<and> map_of (f d) j = Some v \<and>
        (\<forall>g' e'. (g', e') \<in> set (x # tbl) \<longrightarrow> g' < h \<longrightarrow> map_of (f e') j = None)) \<longleftrightarrow> w = v"
      using Some low by (fastforce simp: x)
    then show ?thesis using Some by (simp add: x map_add_def)
  qed
qed simp

lemma map_of_map_value: "map_of (map (\<lambda>(i, m, e). (i, F m e)) xs) j = map_option (\<lambda>(m, e). F m e) (map_of xs j)"
  by (induction xs) auto

text \<open>The group of the table that may serve a model.\<close>

definition serves :: "serve \<Rightarrow> nat \<Rightarrow> group_entry \<Rightarrow> string \<Rightarrow> bool" where
  "serves sv now e m = (case health_of sv now e of Inl _ \<Rightarrow> False | Inr models \<Rightarrow> m \<in> set (model_ids models))"

definition entry_of_group :: "serve \<Rightarrow> nat \<Rightarrow> group_entry \<Rightarrow> string \<Rightarrow> json option" where
  "entry_of_group sv now e m = (case health_of sv now e of Inl _ \<Rightarrow> None
     | Inr models \<Rightarrow> List.find (\<lambda>x. as_str (jget x ''id'') = Some m) models)"

lemma map_of_offer:
  "map_of (case health_of sv now e of Inl _ \<Rightarrow> []
     | Inr models \<Rightarrow> List.map_filter (\<lambda>m. map_option (\<lambda>i. (i, m, e)) (as_str (jget m ''id''))) models) j
   = map_option (\<lambda>m. (m, e)) (entry_of_group sv now e j)"
proof (cases "health_of sv now e")
  case (Inr ms)
  have "map_of (List.map_filter (\<lambda>m. map_option (\<lambda>i. (i, m, e)) (as_str (jget m ''id''))) ms) j
     = map_option (\<lambda>m. (m, e)) (List.find (\<lambda>x. as_str (jget x ''id'') = Some j) ms)"
    by (induction ms) (auto simp: List.map_filter_def)
  with Inr show ?thesis by (simp add: entry_of_group_def)
qed (simp add: entry_of_group_def)

lemma serves_entry: "serves sv now e m \<longleftrightarrow> entry_of_group sv now e m \<noteq> None"
  by (cases "health_of sv now e")
     (simp_all add: serves_def entry_of_group_def model_ids_def in_map_filter find_None_iff image_iff Bex_def eq_commute [of "Some m"])

lemma map_of_offers:
  "map_of (offers sv now (group_table sv now local)) m = Some (x, e) \<longleftrightarrow>
     map_of (group_table sv now local) (ge_group e) = Some e \<and> entry_of_group sv now e m = Some x
     \<and> (\<forall>g' e'. map_of (group_table sv now local) g' = Some e' \<longrightarrow> g' < ge_group e \<longrightarrow> \<not> serves sv now e' m)"
proof -
  let ?t = "group_table sv now local"
  have named: "ge_group e = g" if "map_of ?t g = Some e" for g e
    using that named_group_table [of sv now local] by (auto simp: group_table_in named_def)
  have "map_of (offers sv now ?t) m = Some (x, e) \<longleftrightarrow> (\<exists>g d. map_of ?t g = Some d
      \<and> map_option (\<lambda>x. (x, d)) (entry_of_group sv now d m) = Some (x, e)
      \<and> (\<forall>g' e'. map_of ?t g' = Some e' \<longrightarrow> g' < g \<longrightarrow> \<not> serves sv now e' m))"
    unfolding offers_def by (subst map_of_concat_first [OF bt_wf_group_table])
      (simp add: map_of_offer group_table_in serves_entry)
  also have "\<dots> \<longleftrightarrow> (\<exists>g. map_of ?t g = Some e \<and> entry_of_group sv now e m = Some x
      \<and> (\<forall>g' e'. map_of ?t g' = Some e' \<longrightarrow> g' < g \<longrightarrow> \<not> serves sv now e' m))"
    by auto
  finally show ?thesis using named by blast
qed

text \<open>C32: the listing and the routes agree, and both are determined by the table of groups. A model is
  routed to the first group, in the order of the names, that is in the table, is healthy and whose
  endpoint lists the model, at the URL the prober settled on; the listing names exactly the routed
  models, and the entry under a name is the one of the group it is routed to, with that group as its
  owner.\<close>

theorem listing_matches_routes:
  "(map_of (model_table sv now local) m = Some (g, url) \<longleftrightarrow>
      (\<exists>e. map_of (group_table sv now local) g = Some e \<and> serves sv now e m \<and> url = snd (route_of sv e)
         \<and> (\<forall>g' e'. map_of (group_table sv now local) g' = Some e' \<and> serves sv now e' m \<longrightarrow> g \<le> g')))
   \<and> (map_of (model_rows sv now local) m = Some v \<longleftrightarrow>
      (\<exists>g url e x. map_of (model_table sv now local) m = Some (g, url) \<and> map_of (group_table sv now local) g = Some e
         \<and> entry_of_group sv now e m = Some x \<and> v = listed_model x g))
   \<and> map fst (model_rows sv now local) = map fst (model_table sv now local)"
proof (intro conjI)
  let ?o = "map_of (offers sv now (group_table sv now local)) m"
  have named: "ge_group e = g" if "map_of (group_table sv now local) g = Some e" for g e
    using that named_group_table [of sv now local] by (auto simp: group_table_in named_def)
  have t: "map_of (model_table sv now local) j = map_option (\<lambda>(x, e). route_of sv e) (map_of (offers sv now (group_table sv now local)) j)"
    and r: "map_of (model_rows sv now local) j = map_option (\<lambda>(x, e). listed_model x (ge_group e)) (map_of (offers sv now (group_table sv now local)) j)" for j
    by (simp_all add: model_table_offers model_rows_offers map_of_or_insert_all map_of_map_value)
  show tab: "map_of (model_table sv now local) m = Some (g, url) \<longleftrightarrow>
      (\<exists>e. map_of (group_table sv now local) g = Some e \<and> serves sv now e m \<and> url = snd (route_of sv e)
         \<and> (\<forall>g' e'. map_of (group_table sv now local) g' = Some e' \<and> serves sv now e' m \<longrightarrow> g \<le> g'))" for g url
  proof -
    have "map_of (model_table sv now local) m = Some (g, url) \<longleftrightarrow> (\<exists>x e. ?o = Some (x, e) \<and> route_of sv e = (g, url))"
      unfolding t by auto
    also have "\<dots> \<longleftrightarrow> (\<exists>e. map_of (group_table sv now local) g = Some e \<and> serves sv now e m \<and> url = snd (route_of sv e)
         \<and> (\<forall>g' e'. map_of (group_table sv now local) g' = Some e' \<and> serves sv now e' m \<longrightarrow> g \<le> g'))"
    proof -
      have "(\<exists>x e. ?o = Some (x, e) \<and> route_of sv e = (g, url)) \<longleftrightarrow> (\<exists>e. map_of (group_table sv now local) (ge_group e) = Some e
          \<and> serves sv now e m \<and> (\<forall>g' e'. map_of (group_table sv now local) g' = Some e' \<longrightarrow> g' < ge_group e \<longrightarrow> \<not> serves sv now e' m)
          \<and> ge_group e = g \<and> url = snd (route_of sv e))"
        unfolding map_of_offers serves_entry by (auto simp: route_of_def)
      also have "\<dots> \<longleftrightarrow> (\<exists>e. map_of (group_table sv now local) g = Some e \<and> serves sv now e m
          \<and> (\<forall>g' e'. map_of (group_table sv now local) g' = Some e' \<longrightarrow> g' < g \<longrightarrow> \<not> serves sv now e' m)
          \<and> url = snd (route_of sv e))"
        using named by blast
      moreover have "(\<forall>g' e'. map_of (group_table sv now local) g' = Some e' \<longrightarrow> g' < g \<longrightarrow> \<not> serves sv now e' m)
          \<longleftrightarrow> (\<forall>g' e'. map_of (group_table sv now local) g' = Some e' \<and> serves sv now e' m \<longrightarrow> g \<le> g')"
        by (meson leD leI)
      ultimately show ?thesis by blast
    qed
    finally show ?thesis .
  qed
  show "map_of (model_rows sv now local) m = Some v \<longleftrightarrow>
      (\<exists>g url e x. map_of (model_table sv now local) m = Some (g, url) \<and> map_of (group_table sv now local) g = Some e
         \<and> entry_of_group sv now e m = Some x \<and> v = listed_model x g)"
  proof
    assume "map_of (model_rows sv now local) m = Some v"
    then obtain x e where o: "?o = Some (x, e)" "v = listed_model x (ge_group e)" unfolding r by auto
    then show "\<exists>g url e x. map_of (model_table sv now local) m = Some (g, url) \<and> map_of (group_table sv now local) g = Some e
         \<and> entry_of_group sv now e m = Some x \<and> v = listed_model x g"
      unfolding t by (auto simp: route_of_def map_of_offers)
  next
    assume "\<exists>g url e x. map_of (model_table sv now local) m = Some (g, url) \<and> map_of (group_table sv now local) g = Some e
         \<and> entry_of_group sv now e m = Some x \<and> v = listed_model x g"
    then show "map_of (model_rows sv now local) m = Some v"
      unfolding r t by (fastforce simp: route_of_def map_of_offers)
  qed
  show "map fst (model_rows sv now local) = map fst (model_table sv now local)"
    by (rule bt_wf_keys_unique) (simp_all add: t r, simp_all add: model_table_offers model_rows_offers bt_wf_or_insert_all)
qed

section \<open>Which daemon's view of a group stands\<close>

text \<open>\<open>replaces\<close> is a strict order; entries of one group from different daemons are always comparable.\<close>

definition rank_of :: "group_entry \<Rightarrow> nat \<times> nat" where
  "rank_of e = (ge_running e, ge_agents_alive e)"

lemma replaces_rank: "replaces e p \<longleftrightarrow> rank_of p < rank_of e \<or> (rank_of e = rank_of p \<and> ge_daemon e < ge_daemon p)"
  by (auto simp: replaces_def rank_of_def less_prod_def)

lemma replaces_trans: "replaces a b \<Longrightarrow> replaces b c \<Longrightarrow> replaces a c"
  unfolding replaces_rank by (metis less_trans)

lemma replaces_irrefl: "\<not> replaces a a"
  by (simp add: replaces_rank)

lemma replaces_total: "ge_daemon a \<noteq> ge_daemon b \<Longrightarrow> replaces a b \<or> replaces b a"
  unfolding replaces_rank by (metis linorder_neqE)

definition top_of :: "group_entry set \<Rightarrow> string \<Rightarrow> group_entry \<Rightarrow> bool" where
  "top_of es g e \<longleftrightarrow> e \<in> es \<and> ge_group e = g \<and> (\<forall>x \<in> es. ge_group x = g \<longrightarrow> x = e \<or> replaces e x)"

definition one_per_daemon :: "group_entry set \<Rightarrow> bool" where
  "one_per_daemon es \<longleftrightarrow> (\<forall>x \<in> es. \<forall>y \<in> es. ge_group x = ge_group y \<longrightarrow> ge_daemon x = ge_daemon y \<longrightarrow> x = y)"

lemma top_of_unique: "top_of es g e \<Longrightarrow> top_of es g d \<Longrightarrow> e = d"
  unfolding top_of_def by (metis replaces_trans replaces_irrefl)

definition tops :: "group_entry set \<Rightarrow> (string, group_entry) table \<Rightarrow> bool" where
  "tops es m \<longleftrightarrow> (\<forall>g. case map_of m g of Some e \<Rightarrow> top_of es g e | None \<Rightarrow> \<forall>x \<in> es. ge_group x \<noteq> g)"

lemma tops_put:
  assumes one: "one_per_daemon (insert x es)" and m: "tops es m"
  shows "tops (insert x es) (put_entry x m)"
  unfolding tops_def
proof
  fix g
  show "case map_of (put_entry x m) g of Some e \<Rightarrow> top_of (insert x es) g e | None \<Rightarrow> \<forall>y \<in> insert x es. ge_group y \<noteq> g"
  proof (cases "ge_group x = g")
    case False
    then show ?thesis using m [unfolded tops_def, rule_format, of g]
      by (auto simp: map_of_put_entry top_of_def split: option.splits)
  next
    case True
    show ?thesis
    proof (cases "map_of m g")
      case None
      then show ?thesis using True m [unfolded tops_def, rule_format, of g] by (auto simp: map_of_put_entry top_of_def)
    next
      case (Some p)
      then have p: "top_of es g p" using m [unfolded tops_def, rule_format, of g] by simp
      have cmp: "x = p \<or> replaces x p \<or> replaces p x"
        using replaces_total [of x p] one p True unfolding one_per_daemon_def top_of_def by (metis insert_iff)
      have "top_of (insert x es) g (if replaces x p then x else p)"
        using p cmp True unfolding top_of_def by (auto intro: replaces_trans)
      then show ?thesis using True Some by (simp add: map_of_put_entry)
    qed
  qed
qed

lemma tops_fold: "one_per_daemon (es \<union> set xs) \<Longrightarrow> tops es m \<Longrightarrow> tops (es \<union> set xs) (fold put_entry xs m)"
proof (induction xs arbitrary: es m)
  case (Cons x xs)
  have "one_per_daemon (insert x es)" using Cons.prems(1) by (auto simp: one_per_daemon_def)
  then have "tops (insert x es) (put_entry x m)" using Cons.prems(2) by (rule tops_put)
  with Cons.IH [of "insert x es"] Cons.prems(1) show ?case by (simp add: insert_commute)
qed simp

text \<open>A snapshot's \<open>groups\<close> is an object, so it has each name once.\<close>

definition views_wf :: "serve \<Rightarrow> bool" where
  "views_wf sv \<longleftrightarrow> hm_wf (sv_daemons sv)
     \<and> (\<forall>(_, v) \<in> set (sv_daemons sv). case dv_status v of None \<Rightarrow> True | Some snap \<Rightarrow> distinct (map fst (entries (jget snap ''groups''))))"

lemma group_entry_of_name [simp]: "ge_group (group_entry_of addr name g nodes allowed local) = name"
    "ge_daemon (group_entry_of addr name g nodes allowed local) = addr"
  by (simp_all add: group_entry_of_def Let_def split: prod.split)

lemma in_announced_entries:
  "e \<in> set (announced_entries sv now local) \<longleftrightarrow> (\<exists>addr v snap name g. (addr, v) \<in> set (sv_daemons sv) \<and> fresh_view sv now v
     \<and> dv_status v = Some snap \<and> (name, g) \<in> set (entries (jget snap ''groups''))
     \<and> e = group_entry_of addr name g (known_nodes sv) (sc_allowed_sources (sv_cfg sv)) local)"
proof -
  have row_in: "x \<in> set (case (if fr then st else None) of None \<Rightarrow> [] | Some s \<Rightarrow> F s) \<longleftrightarrow> fr \<and> (\<exists>s. st = Some s \<and> x \<in> set (F s))"
    for x :: group_entry and fr st and F :: "json \<Rightarrow> group_entry list"
    by (cases st) simp_all
  show ?thesis by (force simp: announced_entries_def row_in)
qed

lemma announced_one_per_daemon:
  assumes "views_wf sv"
  shows "one_per_daemon (set (announced_entries sv now local))"
  unfolding one_per_daemon_def
proof (intro ballI impI)
  fix x y assume "x \<in> set (announced_entries sv now local)" "y \<in> set (announced_entries sv now local)"
    and same: "ge_group x = ge_group y" "ge_daemon x = ge_daemon y"
  then obtain addr v snap name g w snap' g' where
      x: "(addr, v) \<in> set (sv_daemons sv)" "dv_status v = Some snap" "(name, g) \<in> set (entries (jget snap ''groups''))"
      "x = group_entry_of addr name g (known_nodes sv) (sc_allowed_sources (sv_cfg sv)) local"
    and y: "(addr, w) \<in> set (sv_daemons sv)" "dv_status w = Some snap'" "(name, g') \<in> set (entries (jget snap' ''groups''))"
      "y = group_entry_of addr name g' (known_nodes sv) (sc_allowed_sources (sv_cfg sv)) local"
    unfolding in_announced_entries by auto
  have "w = v" using assms x(1) y(1) by (auto simp: views_wf_def hm_wf_def dest: eq_key_imp_eq_value)
  moreover have "distinct (map fst (entries (jget snap ''groups'')))" using assms x(1,2) by (auto simp: views_wf_def)
  ultimately show "x = y" using x y by (auto dest: eq_key_imp_eq_value)
qed

text \<open>Where the snapshots of several daemons describe a group, the entry that stands is the one with
  more running actors, then more live agents, then the lower address, whatever the order of the walk
  over the hash map of daemons; a group some fresh snapshot describes is always in the table.\<close>

theorem announced_groups_best:
  assumes "views_wf sv"
  shows "(map_of (announced_groups sv now local) g = Some e \<longleftrightarrow> top_of (set (announced_entries sv now local)) g e)
    \<and> ((\<exists>e. map_of (announced_groups sv now local) g = Some e) \<longleftrightarrow> g \<in> ge_group ` set (announced_entries sv now local))"
proof -
  let ?es = "set (announced_entries sv now local)"
  have "tops ({} \<union> ?es) (announced_groups sv now local)"
    unfolding announced_groups_def
    by (rule tops_fold) (simp_all add: announced_one_per_daemon [OF assms], simp add: tops_def)
  then have "case map_of (announced_groups sv now local) g of Some e \<Rightarrow> top_of ?es g e | None \<Rightarrow> \<forall>x \<in> ?es. ge_group x \<noteq> g"
    by (simp add: tops_def)
  then show ?thesis by (auto split: option.splits intro: top_of_unique simp: top_of_def)
qed

section \<open>Candidate addresses\<close>

lemma set_keep_first [simp]: "set (keep_first xs) = set xs"
  by (simp add: keep_first_def)

lemma distinct_keep_first [simp]: "distinct (keep_first xs)"
  by (simp add: keep_first_def)

lemma keep_first_filter: "keep_first (filter ok xs) = filter ok (keep_first xs)"
  by (simp add: keep_first_def rev_filter remdups_filter)

lemma set_reachable_hosts: "set (reachable_hosts hosts allowed local) = {h \<in> set hosts. h \<noteq> [] \<and> permits allowed h local}"
  by (auto simp: reachable_hosts_def)

lemma distinct_reachable_hosts: "distinct (reachable_hosts hosts allowed local)"
  by (simp add: reachable_hosts_def)

lemma url_of_inj: "url_of h p q = url_of h' p q \<longleftrightarrow> h = h'"
  by (simp add: url_of_def)


lemma sort_key_bool: "sort_key (f :: 'a \<Rightarrow> bool) xs = filter (\<lambda>x. \<not> f x) xs @ filter f xs"
proof (induction xs)
  case (Cons x xs)
  have before: "insort_key f x (ys @ zs) = ys @ insort_key f x zs" if "f x" "\<forall>y \<in> set ys. \<not> f y" for ys zs
    using that by (induction ys) auto
  have at_end: "insort_key f x zs = x # zs" if "\<forall>z \<in> set zs. f z \<or> \<not> f x" for zs
    using that by (cases zs) auto
  show ?case
  proof (cases "f x")
    case True
    with Cons show ?thesis by (simp add: before at_end)
  next
    case False
    then have "insort_key f x ys = x # ys" for ys by (cases ys) auto
    with False Cons show ?thesis by simp
  qed
qed simp

text \<open>For a service announced by its port, the addresses the gateway may connect to are exactly the
  addresses known for the announcing node that pass the allowlist, each once: first those on a
  network of this box and then the others, both in the order of the node's own ranking.\<close>

theorem port_candidates_gated:
  assumes "endpoint_of agent svc nodes allowed local = Some ep"
    and "as_u64 (jget (jget (jget agent ''services'') svc) ''port'') = Some port"
    and "str_of (jget (jget (jget agent ''services'') svc) ''host'') = []"
  shows "\<exists>hosts. (case map_of nodes (str_of (jget agent ''node_ip'')) of Some hs \<Rightarrow> hosts = keep_first hs
        | None \<Rightarrow> hosts = [str_of (jget agent ''node_ip'')])
      \<and> ep_candidates ep = map (\<lambda>h. url_of h port (str_of (jget (jget (jget agent ''services'') svc) ''path'')))
          (filter (\<lambda>h. h \<noteq> [] \<and> permits allowed h local \<and> on_local_net h local) hosts
           @ filter (\<lambda>h. h \<noteq> [] \<and> permits allowed h local \<and> \<not> on_local_net h local) hosts)
      \<and> distinct (ep_candidates ep)"
proof -
  define hs where "hs = (case map_of nodes (str_of (jget agent ''node_ip'')) of Some hs \<Rightarrow> hs | None \<Rightarrow> [str_of (jget agent ''node_ip'')])"
  let ?u = "\<lambda>h. url_of h port (str_of (jget (jget (jget agent ''services'') svc) ''path''))"
  have ep: "ep_candidates ep = map ?u (reachable_hosts hs allowed local)"
    using assms by (auto simp: endpoint_of_def Let_def hs_def)
  have "reachable_hosts hs allowed local = filter (\<lambda>h. h \<noteq> [] \<and> permits allowed h local \<and> on_local_net h local) (keep_first hs)
      @ filter (\<lambda>h. h \<noteq> [] \<and> permits allowed h local \<and> \<not> on_local_net h local) (keep_first hs)"
    by (simp add: reachable_hosts_def sort_key_bool keep_first_filter conj_ac)
  moreover have "distinct (ep_candidates ep)"
    unfolding ep by (simp add: distinct_map distinct_reachable_hosts inj_on_def url_of_inj)
  ultimately show ?thesis using ep
    by (intro exI [of _ "keep_first hs"]) (auto simp: hs_def keep_first_def split: option.split)
qed

text \<open>An announcement no address of which may be used hides the others of its group. The candidates are
  compared as options, in which the missing one is least, so a live agent that announces the OpenAI
  service on a node without an allowed address makes the group unroutable, also where another agent
  of the group announces an endpoint that can be reached.\<close>

theorem unreachable_endpoint_wins:
  assumes "a \<in> set (alive_agents g)" "endpoint_of a ''openai'' nodes allowed local = Some d" "ep_candidates d = []"
  shows "\<exists>shown. health_of sv now (group_entry_of addr name g nodes allowed local)
    = Inl (''announced '' @ shown @ '', and no address of that node passes ALLOWED_SOURCES'')"
proof -
  let ?prov = "\<lambda>a. str_of (jget (jget (jget a ''services'') ''openai'') ''provider'')"
  let ?as = "List.map_filter (\<lambda>a. map_option (\<lambda>e. (e, ?prov a)) (endpoint_of a ''openai'' nodes allowed local)) (alive_agents g)"
  have in_as: "(d, ?prov a) \<in> set ?as" using assms(1,2) by (force simp: in_map_filter)
  then have ne: "?as \<noteq> []" by auto
  let ?m = "arg_min_list (\<lambda>(e, _). ep_best e) ?as"
  have "(\<lambda>(e, _). ep_best e) ?m = Min ((\<lambda>(e, _). ep_best e) ` set ?as)" by (rule f_arg_min_list_f [OF ne])
  also have "\<dots> \<le> ep_best d" using in_as by (intro Min_le) force+
  also have "\<dots> = None" using assms(3) by (simp add: ep_best_def)
  finally have "ep_best (fst ?m) = None" by (simp add: split_def less_eq_option_None_is_None)
  then have none: "ep_candidates (fst ?m) = []" by (simp add: ep_best_def split: list.splits)
  have "ge_openai (group_entry_of addr name g nodes allowed local) = Some (fst ?m)"
    using ne by (simp add: group_entry_of_def best_openai_def min_first_def Let_def split: prod.split)
  with none show ?thesis by (auto simp: health_of_def)
qed


section \<open>Retirement\<close>

lemma age_group_live: "fst (age_group sv now (name, e) (live, retired)) = hm_insert name
    (snd (lv_round now (\<not> isl (in_service sv now e)) (sc_model_ttl (sv_cfg sv)) (case map_of live name of Some l \<Rightarrow> l | None \<Rightarrow> new_liveness now))) live"
  by (auto simp: age_group_def Let_def split: sum.split prod.split)

lemma age_fold_live:
  assumes "distinct (map fst tbl)"
  shows "map_of (fst (fold (age_group sv now) tbl (live, retired))) g = (case map_of tbl g of
      None \<Rightarrow> map_of live g
    | Some e \<Rightarrow> Some (snd (lv_round now (\<not> isl (in_service sv now e)) (sc_model_ttl (sv_cfg sv))
        (case map_of live g of Some l \<Rightarrow> l | None \<Rightarrow> new_liveness now))))"
  using assms
proof (induction tbl arbitrary: live retired)
  case (Cons x tbl)
  obtain name e where x: "x = (name, e)" by (cases x)
  obtain live' retired' where acc: "age_group sv now x (live, retired) = (live', retired')" by (cases "age_group sv now x (live, retired)")
  have l: "live' = fst (age_group sv now (name, e) (live, retired))" using acc x by simp
  have none: "map_of tbl name = None" and d: "distinct (map fst tbl)"
    using Cons.prems by (simp_all add: x map_of_eq_None_iff)
  have "fold (age_group sv now) (x # tbl) (live, retired) = fold (age_group sv now) tbl (live', retired')" by (simp add: acc)
  then have "map_of (fst (fold (age_group sv now) (x # tbl) (live, retired))) g = (case map_of tbl g of None \<Rightarrow> map_of live' g
    | Some e \<Rightarrow> Some (snd (lv_round now (\<not> isl (in_service sv now e)) (sc_model_ttl (sv_cfg sv))
        (case map_of live' g of Some l \<Rightarrow> l | None \<Rightarrow> new_liveness now))))"
    using Cons.IH [OF d] by simp
  then show ?case
  proof (cases "g = name")
    case True
    with \<open>map_of (fst (fold _ (x # tbl) _)) g = _\<close> none show ?thesis by (simp add: x l age_group_live map_of_hm_insert)
  next
    case False
    then have "map_of live' g = map_of live g" by (simp add: l age_group_live map_of_hm_insert)
    with False \<open>map_of (fst (fold _ (x # tbl) _)) g = _\<close> show ?thesis by (cases "map_of tbl g") (simp_all add: x)
  qed
qed simp

lemma age_groups_live:
  assumes "distinct (map fst tbl)"
  shows "map_of (sv_live (fst (age_groups sv now tbl))) g = map_option (\<lambda>e.
      snd (lv_round now (\<not> isl (in_service sv now e)) (sc_model_ttl (sv_cfg sv))
        (case map_of (sv_live sv) g of Some l \<Rightarrow> l | None \<Rightarrow> new_liveness now))) (map_of tbl g)"
proof -
  have "sv_live (fst (age_groups sv now tbl)) = fst (fold (age_group sv now) tbl (hm_retain (\<lambda>name _. hm_has tbl name) (sv_live sv), []))"
    by (simp add: age_groups_def split: prod.split)
  moreover have "map_of (hm_retain (\<lambda>name _. hm_has tbl name) (sv_live sv)) g = (if hm_has tbl g then map_of (sv_live sv) g else None)"
    by (rule map_of_hm_retain_key)
  ultimately show ?thesis
    by (auto simp: age_fold_live [OF assms] hm_has_def split: option.split)
qed

text \<open>
  Rounds of the prober. Between two rounds the rest of the gateway may change anything but the
  clocks; a round is the state it starts in, its time and the groups announced then.
\<close>

type_synonym age_round = "serve \<times> nat \<times> (string, group_entry) table"

definition run_round :: "age_round \<Rightarrow> (string, liveness) table \<Rightarrow> (string, liveness) table" where
  "run_round r live = (case r of (sv, now, tbl) \<Rightarrow> sv_live (fst (age_groups (sv\<lparr>sv_live := live\<rparr>) now tbl)))"

definition served_at :: "string \<Rightarrow> age_round \<Rightarrow> bool" where
  "served_at g r = (case r of (sv, now, tbl) \<Rightarrow> case map_of tbl g of Some e \<Rightarrow> \<not> isl (in_service sv now e) | None \<Rightarrow> False)"

definition announced_at :: "string \<Rightarrow> age_round \<Rightarrow> bool" where
  "announced_at g r = (case r of (_, _, tbl) \<Rightarrow> hm_has tbl g)"

abbreviation round_time :: "age_round \<Rightarrow> nat" where
  "round_time r \<equiv> fst (snd r)"

definition rounds_wf :: "age_round list \<Rightarrow> bool" where
  "rounds_wf rs \<longleftrightarrow> sorted (map round_time rs) \<and> (\<forall>(_, _, tbl) \<in> set rs. distinct (map fst tbl))"

lemma health_live [simp]: "health_of (sv\<lparr>sv_live := l\<rparr>) now e = health_of sv now e"
  by (cases "ge_openai e"; cases "map_of (sv_probes sv) (ge_group e)") (simp_all add: health_of_def)

lemma in_service_live [simp]: "in_service (sv\<lparr>sv_live := l\<rparr>) now e = in_service sv now e"
  by (simp add: in_service_def)

lemma run_round_live:
  assumes "distinct (map fst (snd (snd r)))"
  shows "map_of (run_round r live) g = (if \<not> announced_at g r then None
    else Some (snd (lv_round (round_time r) (served_at g r) (sc_model_ttl (sv_cfg (fst r)))
      (case map_of live g of Some l \<Rightarrow> l | None \<Rightarrow> new_liveness (round_time r)))))"
proof -
  obtain sv now tbl where r: "r = (sv, now, tbl)" by (cases r)
  with assms show ?thesis
    by (cases "map_of tbl g"; cases "map_of live g") (simp_all add: run_round_def age_groups_live announced_at_def served_at_def hm_has_def)
qed

lemma lv_round_ok_at: "lv_ok_at (snd (lv_round now ok ttl l)) = (if ok then now else lv_ok_at l)"
  by (simp add: lv_round_def new_liveness_def)

text \<open>The clock of a group stands at the last round it served in since it was last announced anew, or at
  the round that saw it first.\<close>

fun clock_of :: "string \<Rightarrow> age_round list \<Rightarrow> nat option" where
  "clock_of g [] = None"
| "clock_of g (r # rs) = (if \<not> announced_at g r then None else if served_at g r then Some (round_time r)
     else (case clock_of g rs of None \<Rightarrow> Some (round_time r) | Some t \<Rightarrow> Some t))"

lemma run_rounds_clock:
  assumes "\<forall>(_, _, tbl) \<in> set rs. distinct (map fst tbl)"
  shows "map_option lv_ok_at (map_of (fold run_round rs []) g) = clock_of g (rev rs)"
  using assms
proof (induction rs rule: rev_induct)
  case (snoc r rs)
  have d: "distinct (map fst (snd (snd r)))" using snoc.prems by auto
  have "map_option lv_ok_at (map_of (fold run_round rs []) g) = clock_of g (rev rs)" using snoc by simp
  then show ?case
    by (auto simp: run_round_live [OF d] lv_round_ok_at new_liveness_def split: option.split)
qed simp

lemma clock_served: "sorted (rev (map round_time rs)) \<Longrightarrow> served_at g r \<Longrightarrow> r \<in> set rs \<Longrightarrow> clock_of g rs = Some t \<Longrightarrow> round_time r \<le> t"
proof (induction rs)
  case (Cons x rs)
  have le: "\<forall>y \<in> set rs. round_time y \<le> round_time x" using Cons.prems(1) by (auto simp: sorted_append)
  have s: "sorted (rev (map round_time rs))" using Cons.prems(1) by (simp add: sorted_append)
  show ?case
  proof (cases "served_at g x")
    case True
    then show ?thesis using Cons.prems le by (auto split: if_splits)
  next
    case False
    then have r: "r \<in> set rs" using Cons.prems by auto
    with False Cons s le show ?thesis by (auto split: if_splits option.splits)
  qed
qed simp

lemma clock_is_a_round: "clock_of g rs = Some t \<Longrightarrow> \<exists>r \<in> set rs. t = round_time r"
  by (induction rs) (auto split: if_splits option.splits)

lemma clock_unserved:
  assumes "sorted (rev (map round_time (bad @ pre)))" "bad \<noteq> []" "\<forall>r \<in> set bad. announced_at g r \<and> \<not> served_at g r"
  shows "\<exists>t. clock_of g (bad @ pre) = Some t \<and> t \<le> round_time (last bad)"
  using assms
proof (induction bad)
  case (Cons x bad)
  show ?case
  proof (cases "bad = []")
    case True
    have "t \<le> round_time x" if "clock_of g pre = Some t" for t
      using clock_is_a_round [OF that] Cons.prems(1) True by (auto simp: sorted_append)
    then show ?thesis using Cons.prems(3) True by (auto split: option.split)
  next
    case False
    then have "\<exists>t. clock_of g (bad @ pre) = Some t \<and> t \<le> round_time (last bad)"
      using Cons by (auto simp: sorted_append)
    then show ?thesis using Cons.prems(3) False by auto
  qed
qed simp

text \<open>C33: a group is hidden when it could not serve for the whole of \<open>model_ttl\<close>, and not before. For any
  rounds of the prober in order of time, a group that is announced now and served in a round within
  the last \<open>model_ttl\<close> is in the table; and one that the last rounds all saw announced and unable to
  serve, the first of them longer ago than \<open>model_ttl\<close>, is not, whether it ever served before or not.\<close>

theorem group_hidden_after_ttl:
  assumes "rounds_wf (pre @ bad)" "sv_live sv = fold run_round (pre @ bad) []"
    and "map_of (announced_groups sv now local) g = Some e"
  shows "((\<exists>r \<in> set (pre @ bad). served_at g r \<and> now \<le> round_time r + sc_model_ttl (sv_cfg sv))
      \<longrightarrow> map_of (group_table sv now local) g = Some e)
    \<and> (bad \<noteq> [] \<and> (\<forall>r \<in> set bad. announced_at g r \<and> \<not> served_at g r) \<and> round_time (hd bad) + sc_model_ttl (sv_cfg sv) < now
      \<longrightarrow> map_of (group_table sv now local) g = None)"
proof -
  have d: "\<forall>(_, _, tbl) \<in> set (pre @ bad). distinct (map fst tbl)" and srt: "sorted (map round_time (pre @ bad))"
    using assms(1) by (auto simp: rounds_wf_def)
  have clock: "map_option lv_ok_at (map_of (sv_live sv) g) = clock_of g (rev (pre @ bad))"
    unfolding assms(2) using run_rounds_clock [OF d] .
  let ?keep = "\<lambda>name. case map_of (sv_live sv) name of Some l \<Rightarrow> \<not> lv_retired now (sc_model_ttl (sv_cfg sv)) l | None \<Rightarrow> True"
  have tab: "map_of (group_table sv now local) g = (if ?keep g then Some e else None)"
    using map_of_hm_retain_key [of ?keep "announced_groups sv now local" g] assms(3) by (simp add: hm_retain_def group_table_def)
  show ?thesis
  proof (intro conjI impI)
    assume "\<exists>r \<in> set (pre @ bad). served_at g r \<and> now \<le> round_time r + sc_model_ttl (sv_cfg sv)"
    then obtain r where r: "r \<in> set (pre @ bad)" "served_at g r" "now \<le> round_time r + sc_model_ttl (sv_cfg sv)" by blast
    have "round_time r \<le> lv_ok_at l" if "map_of (sv_live sv) g = Some l" for l
      using clock_served [of "rev (pre @ bad)" g r "lv_ok_at l"] srt r(1,2) clock that by (auto simp: rev_map [symmetric])
    then have "?keep g" using r(3) by (fastforce simp: lv_retired_def split: option.split)
    then show "map_of (group_table sv now local) g = Some e" using tab by simp
  next
    assume b: "bad \<noteq> [] \<and> (\<forall>r \<in> set bad. announced_at g r \<and> \<not> served_at g r) \<and> round_time (hd bad) + sc_model_ttl (sv_cfg sv) < now"
    then have "\<exists>t. clock_of g (rev bad @ rev pre) = Some t \<and> t \<le> round_time (last (rev bad))"
      using srt by (intro clock_unserved) (simp_all add: rev_map [symmetric])
    then have "\<not> ?keep g" using b clock by (auto simp: last_rev lv_retired_def split: option.splits)
    then show "map_of (group_table sv now local) g = None" using tab by simp
  qed
qed

end
