(* ===== verification/Http.thy ===== *)
theory Http
  imports Status "HOL-Library.Word"
begin

text \<open>
  The daemon's HTTP side port (\<open>rust/mentatd/src/http.rs\<close>): requests, the metrics page, the first frame
  of an event stream, WebSocket text frames, and SHA-1 and base64 for the handshake. A socket is the
  bytes it delivers before it ends; bytes are numbers below 256 where the code computes with them.
\<close>

unbundle bit_operations_syntax

section \<open>Text from bytes\<close>

text \<open>\<open>String::from_utf8_lossy\<close>: how many bytes the next character or malformed sequence has, and whether it is
  well formed; a malformed one becomes the replacement character.\<close>

definition in_range :: "nat \<Rightarrow> nat \<Rightarrow> string \<Rightarrow> nat \<Rightarrow> bool" where
  "in_range lo hi s i \<longleftrightarrow> i < length s \<and> lo \<le> of_char (s ! i) \<and> of_char (s ! i) \<le> hi"

definition utf8_next :: "string \<Rightarrow> nat \<times> bool" where
  "utf8_next s =
     (let b = of_char (s ! 0) :: nat;
          second = (if b = 224 then in_range 160 191 s 1 else if b = 237 then in_range 128 159 s 1
            else if b = 240 then in_range 144 191 s 1 else if b = 244 then in_range 128 143 s 1 else in_range 128 191 s 1)
      in if b < 128 then (1, True)
         else if 194 \<le> b \<and> b \<le> 223 then (if second then (2, True) else (1, False))
         else if 224 \<le> b \<and> b \<le> 239 then
           (if \<not> second then (1, False) else if \<not> in_range 128 191 s 2 then (2, False) else (3, True))
         else if 240 \<le> b \<and> b \<le> 244 then
           (if \<not> second then (1, False) else if \<not> in_range 128 191 s 2 then (2, False)
            else if \<not> in_range 128 191 s 3 then (3, False) else (4, True))
         else (1, False))"

lemma utf8_next_pos: "0 < fst (utf8_next s)"
  by (auto simp: utf8_next_def Let_def)

function utf8_lossy :: "string \<Rightarrow> string" where
  "utf8_lossy s = (if s = [] then [] else
     (case utf8_next s of (n, ok) \<Rightarrow> (if ok then take n s else map char_of [239, 191, 189 :: nat]) @ utf8_lossy (drop n s)))"
  by pat_completeness auto
termination utf8_lossy
proof (relation "measure length")
  fix s :: string and n ok
  assume h: "s \<noteq> []" "(n, ok) = utf8_next s"
  then have "0 < n" using utf8_next_pos [of s] by (metis fst_conv)
  with h(1) show "(drop n s, s) \<in> measure length" by (cases s) auto
qed simp

declare utf8_lossy.simps [simp del]

section \<open>Requests\<close>

definition crlf :: string where
  "crlf = [CHR 0x0D, CHR 0x0A]"

definition ends_with :: "string \<Rightarrow> string \<Rightarrow> bool" where
  "ends_with p s \<longleftrightarrow> starts_with (rev p) (rev s)"

text \<open>The bytes up to the empty line, read one by one.\<close>

fun read_head :: "string \<Rightarrow> string \<Rightarrow> string option" where
  "read_head buf rest = (if ends_with (crlf @ crlf) buf then Some buf
     else if 16 * 1024 < length buf then None
     else (case rest of [] \<Rightarrow> None | c # cs \<Rightarrow> read_head (buf @ [c]) cs))"

definition read_request :: "string \<Rightarrow> (string \<times> str_map) option" where
  "read_request input =
     (case read_head [] input of
        None \<Rightarrow> None
      | Some buf \<Rightarrow>
          (case lines_of (utf8_lossy buf) of
             [] \<Rightarrow> None
           | request_line # lines \<Rightarrow>
               (case words_of [] request_line of
                  m # pth # _ \<Rightarrow> if m \<noteq> ''GET'' then None
                    else Some (pth, fold (\<lambda>line hs. case split_once (CHR '':'') line of
                      Some (k, v) \<Rightarrow> hm_insert (to_ascii_lowercase (trim k)) (trim v) hs | None \<Rightarrow> hs) lines [])
                | _ \<Rightarrow> None)))"

definition respond :: "nat \<Rightarrow> string \<Rightarrow> string \<Rightarrow> string" where
  "respond code ctype body =
     ''HTTP/1.1 '' @ show_nat code @ '' '' @ (if code = 200 then ''OK'' else if code = 400 then ''Bad Request'' else ''Not Found'') @ crlf
     @ ''Content-Type: '' @ ctype @ crlf @ ''Content-Length: '' @ show_nat (length body) @ crlf @ ''Connection: close'' @ crlf @ crlf @ body"

section \<open>Metrics\<close>

definition label :: "string \<Rightarrow> string" where
  "label g = ''{group='' @ [CHR 0x22] @ g @ [CHR 0x22]"

definition quoted :: "string \<Rightarrow> string" where
  "quoted v = [CHR 0x22] @ v @ [CHR 0x22]"

definition gpu_vendors :: "agent_info list \<Rightarrow> string list" where
  "gpu_vendors alive = sort_dedup (concat (map (\<lambda>a. map g_vendor (m_gpus (ag_machine a))) alive))"

text \<open>Total, used and memory of one vendor's devices over the live agents of a group.\<close>

definition vendor_sums :: "state \<Rightarrow> agent_info list \<Rightarrow> string \<Rightarrow> nat \<times> nat \<times> nat" where
  "vendor_sums s alive v =
     fold (\<lambda>a acc. fold (\<lambda>d (ds, used, bytes).
         (ds + 1, if g_index d \<in> set (free_gpus_of s (ag_id a)) then used else used + 1, u64_add bytes (g_memory d)))
       (filter (\<lambda>d. g_vendor d = v) (m_gpus (ag_machine a))) acc) alive (0, 0, 0)"

definition vendor_lines :: "state \<Rightarrow> string \<Rightarrow> agent_info list \<Rightarrow> string \<Rightarrow> string" where
  "vendor_lines s g alive v =
     (case vendor_sums s alive v of (ds, used, bytes) \<Rightarrow>
        concat (map (\<lambda>(name, n). name @ label g @ '',vendor='' @ quoted v @ ''} '' @ show_nat n @ nl)
          [(''mentat_gpus_total'', ds), (''mentat_gpus_used'', used), (''mentat_gpu_memory_bytes'', bytes)]))"

definition group_lines :: "state \<Rightarrow> string \<Rightarrow> string" where
  "group_lines s g =
     (let alive = filter (\<lambda>a. ag_alive a \<and> ag_group a = g) (hm_values (agents s))
      in ''mentat_agents'' @ label g @ ''} '' @ show_nat (length alive) @ nl
         @ ''mentat_memory_bytes'' @ label g @ ''} '' @ show_nat (fold (\<lambda>a n. u64_add n (m_memory (ag_machine a))) alive 0) @ nl
         @ concat (map (vendor_lines s g alive) (gpu_vendors alive)))"

definition actor_lines :: "state \<Rightarrow> string \<Rightarrow> string" where
  "actor_lines s g =
     (let count = (\<lambda>ok. length (filter (\<lambda>a. ac_group a = g \<and> ok (ac_state a)) (hm_values (actors s))))
      in concat (map (\<lambda>(st, n). ''mentat_actors'' @ label g @ '',state='' @ quoted st @ ''} '' @ show_nat n @ nl)
           [(''spawning'', count (\<lambda>x. x = Spawning)), (''running'', count (\<lambda>x. x = Running)), (''dead'', count is_dead)]))"

definition type_line :: "string \<Rightarrow> string \<Rightarrow> string" where
  "type_line name kind = ''# TYPE '' @ name @ '' '' @ kind @ nl"

definition plain_metric :: "string \<Rightarrow> string \<Rightarrow> nat \<Rightarrow> string" where
  "plain_metric name kind n = type_line name kind @ name @ '' '' @ show_nat n @ nl"

definition metrics :: "string \<Rightarrow> state \<Rightarrow> string" where
  "metrics version s =
     (let groups = sort_dedup (map ag_group (hm_values (agents s))); ct = counters s
      in type_line ''mentat_build_info'' ''gauge'' @ ''mentat_build_info{version='' @ quoted version @ ''} 1'' @ nl
         @ concat (map (\<lambda>n. type_line n ''gauge'')
             [''mentat_agents'', ''mentat_gpus_total'', ''mentat_gpus_used'', ''mentat_gpu_memory_bytes'', ''mentat_memory_bytes''])
         @ concat (map (group_lines s) groups)
         @ type_line ''mentat_actors'' ''gauge'' @ concat (map (actor_lines s) groups)
         @ plain_metric ''mentat_actors_spawned_total'' ''counter'' (ct_actors_spawned ct)
         @ type_line ''mentat_actor_exits_total'' ''counter''
         @ concat (map (\<lambda>(kind, n). ''mentat_actor_exits_total{kind='' @ quoted kind @ ''} '' @ show_nat n @ nl)
             [(''clean'', ct_actor_exits_clean ct), (''signal'', ct_actor_exits_signal ct), (''error'', ct_actor_exits_error ct)])
         @ plain_metric ''mentat_relayed_total'' ''counter'' (ct_relayed ct)
         @ plain_metric ''mentat_calls_total'' ''counter'' (ct_calls_total ct)
         @ plain_metric ''mentat_clients_total'' ''counter'' (ct_clients_total ct)
         @ plain_metric ''mentat_agents_registered_total'' ''counter'' (ct_agents_registered ct)
         @ plain_metric ''mentat_event_subscribers'' ''gauge'' (length (event_subs s))
         @ plain_metric ''mentat_peers'' ''gauge'' (length (filter pe_alive (hm_values (peers s))))
         @ plain_metric ''mentat_is_head'' ''gauge'' (if head_node_id s = node_id s then 1 else 0)
         @ plain_metric ''mentat_head_generation'' ''counter'' (head_generation s))"

section \<open>WebSocket\<close>

definition be_bytes :: "nat \<Rightarrow> nat \<Rightarrow> nat list" where
  "be_bytes k n = map (\<lambda>i. n div 256 ^ (k - 1 - i) mod 256) [0..<k]"

definition ws_frame :: "nat list \<Rightarrow> nat list" where
  "ws_frame bs = [0x81] @
     (let n = length bs in if n < 126 then [n] else if n \<le> 0xFFFF then 126 # be_bytes 2 n else 127 # be_bytes 8 n) @ bs"

definition ws_ping :: "nat list" where
  "ws_ping = [0x89, 0x00]"

text \<open>A subscriber gets the snapshot and every event after it: both under one hold of the lock.\<close>

definition subscribe :: "env \<Rightarrow> nat \<Rightarrow> state \<Rightarrow> state \<times> json" where
  "subscribe E tx s = (s\<lparr>event_subs := event_subs s @ [tx]\<rparr>,
     jobj [(''type'', JStr ''snapshot''), (''seq'', jnat (next_event_seq s - 1)), (''data'', snapshot E s None)])"

section \<open>The handshake\<close>

type_synonym u32 = "32 word"

definition rotl :: "nat \<Rightarrow> u32 \<Rightarrow> u32" where
  "rotl n w = push_bit n w OR drop_bit (32 - n) w"

definition sha1_pad :: "nat list \<Rightarrow> nat list" where
  "sha1_pad data = data @ [0x80] @ replicate ((119 - length data mod 64) mod 64) 0 @ be_bytes 8 (length data * 8)"

definition word_be :: "nat list \<Rightarrow> u32" where
  "word_be bs = of_nat (foldl (\<lambda>n b. n * 256 + b) 0 bs)"

fun sha1_extend :: "nat \<Rightarrow> u32 list \<Rightarrow> u32 list" where
  "sha1_extend 0 w = w"
| "sha1_extend (Suc k) w = (let i = length w
     in sha1_extend k (w @ [rotl 1 (w ! (i - 3) XOR w ! (i - 8) XOR w ! (i - 14) XOR w ! (i - 16))]))"

type_synonym chain = "u32 \<times> u32 \<times> u32 \<times> u32 \<times> u32"

definition sha1_round :: "nat \<times> u32 \<Rightarrow> chain \<Rightarrow> chain" where
  "sha1_round iw h =
     (case iw of (i, wi) \<Rightarrow> case h of (a, b, c, d, e) \<Rightarrow>
       (let (f, k) = (if i < 20 then ((b AND c) OR (NOT b AND d), 0x5A827999)
              else if i < 40 then (b XOR c XOR d, 0x6ED9EBA1)
              else if i < 60 then ((b AND c) OR (b AND d) OR (c AND d), 0x8F1BBCDC)
              else (b XOR c XOR d, 0xCA62C1D6))
        in (rotl 5 a + f + e + k + wi, a, rotl 30 b, c, d)))"

definition sha1_chunk :: "nat list \<Rightarrow> chain \<Rightarrow> chain" where
  "sha1_chunk chunk h =
     (case h of (h0, h1, h2, h3, h4) \<Rightarrow>
       (case fold sha1_round (enumerate 0 (sha1_extend 64 (map word_be (chunks 4 chunk)))) h of
          (a, b, c, d, e) \<Rightarrow> (h0 + a, h1 + b, h2 + c, h3 + d, h4 + e)))"

definition sha1 :: "nat list \<Rightarrow> nat list" where
  "sha1 data =
     (case fold sha1_chunk (chunks 64 (sha1_pad data)) (0x67452301, 0xEFCDAB89, 0x98BADCFE, 0x10325476, 0xC3D2E1F0) of
        (a, b, c, d, e) \<Rightarrow> concat (map (\<lambda>w. be_bytes 4 (unat w)) [a, b, c, d, e]))"

definition b64_alphabet :: string where
  "b64_alphabet = ''ABCDEFGHIJKLMNOPQRSTUVWXYZabcdefghijklmnopqrstuvwxyz0123456789+/''"

definition b64_chunk :: "nat list \<Rightarrow> string" where
  "b64_chunk ch =
     (let at1 = (\<lambda>i. if i < length ch then ch ! i else 0);
          n = at1 0 * 2 ^ 16 + at1 1 * 2 ^ 8 + at1 2
      in [b64_alphabet ! (n div 2 ^ 18 mod 64), b64_alphabet ! (n div 2 ^ 12 mod 64),
          if 1 < length ch then b64_alphabet ! (n div 2 ^ 6 mod 64) else CHR ''='',
          if 2 < length ch then b64_alphabet ! (n mod 64) else CHR ''=''])"

definition base64 :: "nat list \<Rightarrow> string" where
  "base64 data = concat (map b64_chunk (chunks 3 data))"

definition accept_key :: "string \<Rightarrow> string" where
  "accept_key k = base64 (sha1 (map of_char (k @ ''258EAFA5-E914-47DA-95CA-C5AB0DC85B11'')))"

definition switching :: "string \<Rightarrow> string" where
  "switching accept = ''HTTP/1.1 101 Switching Protocols'' @ crlf @ ''Upgrade: websocket'' @ crlf @ ''Connection: Upgrade'' @ crlf
     @ ''Sec-WebSocket-Accept: '' @ accept @ crlf @ crlf"

section \<open>Replies\<close>

text \<open>What the connection is answered: nothing, a whole reply, or the start of an event stream. \<open>shown\<close> is the
  text of a JSON value.\<close>

datatype reply = Hangup | Reply string | EventStream string

definition handle :: "(json \<Rightarrow> string) \<Rightarrow> string \<Rightarrow> env \<Rightarrow> string \<Rightarrow> state \<Rightarrow> reply" where
  "handle shown version E input s =
     (case read_request input of
        None \<Rightarrow> Hangup
      | Some (pth, headers) \<Rightarrow>
          (let pieces = split_on (CHR ''?'') pth; path_only = hd pieces; query = (case pieces of _ # q # _ \<Rightarrow> q | _ \<Rightarrow> [])
           in if path_only = ''/healthz'' then Reply (respond 200 ''text/plain'' (''ok'' @ nl))
              else if path_only = ''/metrics'' then Reply (respond 200 ''text/plain; version=0.0.4'' (metrics version s))
              else if path_only = ''/status'' then
                (let kvs = List.map_filter (strip_prefix ''group='') (split_on (CHR ''&'') query)
                 in Reply (respond 200 ''application/json'' (shown (snapshot E s (case kvs of [] \<Rightarrow> None | g # _ \<Rightarrow> Some g)))))
              else if path_only = ''/events'' then
                (if (case map_of headers ''upgrade'' of Some v \<Rightarrow> contains_str ''websocket'' (to_ascii_lowercase v) | None \<Rightarrow> False)
                 then (case map_of headers ''sec-websocket-key'' of None \<Rightarrow> Hangup | Some k \<Rightarrow> EventStream (switching (accept_key k)))
                 else Reply (respond 400 ''text/plain'' (''/events is a WebSocket endpoint'' @ nl)))
              else Reply (respond 404 ''text/plain'' (''not found'' @ nl))))"

end
