(* ===== verification/ServeWs.thy ===== *)
theory ServeWs
  imports Http
begin

text \<open>
  The gateway's reader of a daemon's event stream (\<open>rust/mentatd-serve/src/ws.rs\<close>), against the frames the
  daemon writes (\<open>Http\<close>). A read of the socket gives some bytes, an error, or nothing before the
  deadline; no bytes is the end of the stream.
\<close>

section \<open>Frames\<close>

definition MAX_WS_FRAME :: nat where
  "MAX_WS_FRAME = 64 * 1024 * 1024"

definition from_be :: "nat list \<Rightarrow> nat" where
  "from_be bs = foldl (\<lambda>n b. n * 256 + b) 0 bs"

text \<open>One frame off the front of the buffer: its opcode, its payload and what is left.\<close>

definition try_parse :: "nat list \<Rightarrow> string + (nat \<times> nat list \<times> nat list) option" where
  "try_parse b =
     (if length b < 2 then Inr None
      else if 128 \<le> b ! 1 then Inl ''masked server frame''
      else (let len7 = b ! 1 mod 128
            in if len7 = 126 \<and> length b < 4 \<or> len7 = 127 \<and> length b < 10 then Inr None
               else (let (len, off) = (if len7 = 126 then (from_be (take 2 (drop 2 b)), 4)
                        else if len7 = 127 then (from_be (take 8 (drop 2 b)), 10) else (len7, 2))
                     in if MAX_WS_FRAME < len then Inl (''frame of '' @ show_nat len @ '' bytes'')
                        else if length b < off + len then Inr None
                        else Inr (Some (b ! 0 mod 16, take len (drop off b), drop (off + len) b)))))"

lemma try_parse_shorter: "try_parse b = Inr (Some (op, pl, rest)) \<Longrightarrow> length rest < length b"
  by (auto simp: try_parse_def Let_def split: if_splits)

text \<open>Frames other than text and close are passed over.\<close>

function parse_loop :: "nat list \<Rightarrow> (string + string option) \<times> nat list" where
  "parse_loop buf =
     (case try_parse buf of
        Inl e \<Rightarrow> (Inl e, buf)
      | Inr None \<Rightarrow> (Inr None, buf)
      | Inr (Some (op, pl, rest)) \<Rightarrow>
          (if op = 1 then (Inr (Some (utf8_lossy (map char_of pl))), rest)
           else if op = 8 then (Inl ''daemon closed the websocket'', rest)
           else parse_loop rest))"
  by pat_completeness auto
termination parse_loop
  by (relation "measure length") (auto dest: try_parse_shorter simp: eq_commute)

declare parse_loop.simps [simp del]

datatype read_event = ReadBytes "nat list" | ReadFailed string | ReadTimeout

datatype next_result = NextText string | NextTick | NextError string

fun es_next :: "nat list \<Rightarrow> read_event list \<Rightarrow> next_result \<times> nat list \<times> read_event list" where
  "es_next buf reads =
     (case parse_loop buf of
        (Inl e, b) \<Rightarrow> (NextError e, b, reads)
      | (Inr (Some t), b) \<Rightarrow> (NextText t, b, reads)
      | (Inr None, b) \<Rightarrow>
          (case reads of
             [] \<Rightarrow> (NextTick, b, [])
           | ReadTimeout # rs \<Rightarrow> (NextTick, b, rs)
           | ReadFailed e # rs \<Rightarrow> (NextError e, b, rs)
           | ReadBytes bs # rs \<Rightarrow> if bs = [] then (NextError ''websocket EOF'', b, rs) else es_next (b @ bs) rs))"

declare es_next.simps [simp del]

section \<open>The handshake\<close>

fun find_sub :: "'a list \<Rightarrow> 'a list \<Rightarrow> nat option" where
  "find_sub [] needle = (if needle = [] then Some 0 else None)"
| "find_sub (x # xs) needle = (if take (length needle) (x # xs) = needle then Some 0 else map_option Suc (find_sub xs needle))"

definition upgrade_request :: "string \<Rightarrow> string" where
  "upgrade_request addr = ''GET /events HTTP/1.1'' @ crlf @ ''Host: '' @ addr @ crlf @ ''Upgrade: websocket'' @ crlf
     @ ''Connection: Upgrade'' @ crlf @ ''Sec-WebSocket-Key: dGhlIHNhbXBsZSBub25jZQ=='' @ crlf @ ''Sec-WebSocket-Version: 13'' @ crlf @ crlf"

text \<open>The reply to the request: the bytes after it are the start of the stream.\<close>

fun shake_hands :: "string \<Rightarrow> read_event list \<Rightarrow> string + (string \<times> read_event list)" where
  "shake_hands buf reads =
     (case find_sub buf (crlf @ crlf) of
        Some pos \<Rightarrow>
          (let status_line = (case lines_of (utf8_lossy (take pos buf)) of [] \<Rightarrow> [] | l # _ \<Rightarrow> l)
           in if contains_str '' 101'' status_line then Inr (drop (pos + 4) buf, reads)
              else Inl (''handshake refused: '' @ status_line))
      | None \<Rightarrow>
          (if 64 * 1024 < length buf then Inl ''handshake response over 64 KiB''
           else (case reads of
               [] \<Rightarrow> Inl ''handshake timeout''
             | ReadTimeout # _ \<Rightarrow> Inl ''handshake timeout''
             | ReadFailed e # _ \<Rightarrow> Inl e
             | ReadBytes bs # rs \<Rightarrow> if bs = [] then Inl ''EOF in handshake'' else shake_hands (buf @ map char_of bs) rs)))"

declare shake_hands.simps [simp del]

section \<open>The pretend network of the tests\<close>

text \<open>\<open>testnet::mapped\<close> (\<open>rust/mentatd-serve/src/testnet.rs\<close>); \<open>load\<close> reads the file, whose value is the argument.\<close>

definition net_of_file :: "json \<Rightarrow> (str_map \<times> string list) option" where
  "net_of_file v = (case as_object (jget v ''addrs'') of
     None \<Rightarrow> None
   | Some o1 \<Rightarrow> Some (bt_of_list (List.map_filter (\<lambda>(k, r). map_option (Pair k) (as_str r)) o1), str_list (jget v ''down'')))"

definition mapped :: "(str_map \<times> string list) option \<Rightarrow> string \<Rightarrow> string" where
  "mapped net addr =
     (case net of
        None \<Rightarrow> addr
      | Some (hosts, down) \<Rightarrow>
          (case rsplit_once (CHR '':'') addr of
             None \<Rightarrow> addr
           | Some (host, port) \<Rightarrow>
               (if host \<in> set down then ''127.0.0.1:1''
                else (case map_of hosts host of
                    None \<Rightarrow> addr
                  | Some r \<Rightarrow> (case rsplit_once (CHR '':'') r of Some (h, _) \<Rightarrow> h | None \<Rightarrow> r) @ '':'' @ port))))"

section \<open>Malformed text\<close>

lemma in_range_cont: "in_range lo hi s i \<longleftrightarrow> i < length s \<and> cont lo hi (s ! i)"
  by (simp add: in_range_def cont_def)

lemma utf8_valid_step:
  assumes "valid_utf8 (c # s)"
  shows "\<exists>n. utf8_next (c # s) = (n, True) \<and> valid_utf8 (drop n (c # s))"
proof -
  let ?b = "of_char c :: nat"
  note defs = utf8_next_def in_range_cont Let_def
  note step = assms [unfolded valid_utf8.simps(2) [of c s] Let_def]
  note valid_utf8.simps [simp del]
  consider "?b < 128" | "194 \<le> ?b" "?b \<le> 223" | "224 \<le> ?b" "?b \<le> 239" | "240 \<le> ?b" "?b \<le> 244"
    using step by (auto split: if_splits list.splits)
  then show ?thesis
  proof cases
    case 1
    then show ?thesis using step by (intro exI [of _ 1]) (simp add: defs)
  next
    case 2
    then obtain c1 s1 where "s = c1 # s1" "cont 128 191 c1" "valid_utf8 s1" using step by (auto split: list.splits)
    with 2 show ?thesis by (intro exI [of _ 2]) (simp add: defs)
  next
    case 3
    then obtain c1 c2 s2 where s: "s = c1 # c2 # s2" "cont (if ?b = 224 then 160 else 128) (if ?b = 237 then 159 else 191) c1"
      "cont 128 191 c2" "valid_utf8 s2" using step by (auto split: list.splits)
    then have "utf8_next (c # s) = (3, True)" using 3 by (cases "?b = 224"; cases "?b = 237") (simp_all add: defs)
    with s show ?thesis by (intro exI [of _ 3]) simp
  next
    case 4
    then obtain c1 c2 c3 s3 where s: "s = c1 # c2 # c3 # s3" "cont (if ?b = 240 then 144 else 128) (if ?b = 244 then 143 else 191) c1"
      "cont 128 191 c2" "cont 128 191 c3" "valid_utf8 s3" using step by (auto split: list.splits)
    then have "utf8_next (c # s) = (4, True)" using 4 by (cases "?b = 240"; cases "?b = 244") (simp_all add: defs)
    with s show ?thesis by (intro exI [of _ 4]) simp
  qed
qed

lemma utf8_lossy_valid: "valid_utf8 s \<Longrightarrow> utf8_lossy s = s"
proof (induction s rule: utf8_lossy.induct)
  case (1 s)
  show ?case
  proof (cases s)
    case (Cons c t)
    then obtain n where n: "utf8_next s = (n, True)" "valid_utf8 (drop n s)" using utf8_valid_step 1(2) by blast
    with 1(1) [OF _ n(1) [symmetric]] Cons show ?thesis by (subst utf8_lossy.simps) simp
  qed (simp add: utf8_lossy.simps)
qed

section \<open>Frames read back\<close>

lemma length_be_bytes [simp]: "length (be_bytes k n) = k"
  by (simp add: be_bytes_def)

lemma from_be_append: "from_be (xs @ [x]) = from_be xs * 256 + x"
  by (simp add: from_be_def)

lemma be_bytes_Suc: "be_bytes (Suc k) n = be_bytes k (n div 256) @ [n mod 256]"
proof -
  have "n div 256 ^ (k - i) mod 256 = n div 256 div 256 ^ (k - 1 - i) mod 256" if "i < k" for i
  proof -
    have "k - i = Suc (k - 1 - i)" using that by simp
    then show ?thesis by (simp add: div_mult2_eq)
  qed
  then show ?thesis by (simp add: be_bytes_def)
qed

lemma from_be_bytes: "n < 256 ^ k \<Longrightarrow> from_be (be_bytes k n) = n"
proof (induction k arbitrary: n)
  case 0
  then show ?case by (simp add: from_be_def be_bytes_def)
next
  case (Suc k)
  then have "n div 256 < 256 ^ k" by (simp add: less_mult_imp_div_less mult.commute)
  then show ?case by (simp add: be_bytes_Suc from_be_append Suc.IH)
qed

definition ws_header :: "nat \<Rightarrow> nat list" where
  "ws_header n = 0x81 # (if n < 126 then [n] else if n \<le> 0xFFFF then 126 # be_bytes 2 n else 127 # be_bytes 8 n)"

lemma ws_frame_header: "ws_frame bs = ws_header (length bs) @ bs"
  by (simp add: ws_frame_def ws_header_def Let_def)

lemma try_parse_header:
  assumes "n \<le> MAX_WS_FRAME"
  shows "try_parse (ws_header n @ b) = (if length b < n then Inr None else Inr (Some (1, take n b, drop n b)))"
proof -
  have 8: "n < 256 ^ 8" using assms by (simp add: MAX_WS_FRAME_def)
  consider "n < 126" | "126 \<le> n" "n \<le> 0xFFFF" | "0xFFFF < n" by linarith
  then show ?thesis
  proof cases
    case 1
    with assms show ?thesis by (simp add: try_parse_def ws_header_def)
  next
    case 2
    then have "from_be (be_bytes 2 n) = n" by (intro from_be_bytes) simp
    moreover have "drop (4 + n) (129 # 126 # be_bytes 2 n @ b) = drop n (drop 4 (129 # 126 # be_bytes 2 n @ b))"
      unfolding drop_drop by (simp only: add.commute)
    ultimately show ?thesis using 2 assms by (simp add: try_parse_def ws_header_def)
  next
    case 3
    then have "from_be (be_bytes 8 n) = n" using 8 by (intro from_be_bytes)
    moreover have "drop (10 + n) (129 # 127 # be_bytes 8 n @ b) = drop n (drop 10 (129 # 127 # be_bytes 8 n @ b))"
      unfolding drop_drop by (simp only: add.commute)
    ultimately show ?thesis using 3 assms by (simp add: try_parse_def ws_header_def)
  qed
qed

lemma try_parse_short:
  assumes "m < length (ws_header n)"
  shows "try_parse (take m (ws_header n)) = Inr None"
proof (cases "m < 2")
  case False
  then obtain k where k: "m = Suc (Suc k)" by (metis add_2_eq_Suc le_Suc_ex not_less)
  with assms show ?thesis by (auto simp: try_parse_def ws_header_def Let_def split: if_splits)
qed (simp add: try_parse_def min_less_iff_disj)

text \<open>What the daemon writes: texts and, while nothing happens, pings.\<close>

definition wire_item :: "string option \<Rightarrow> nat list" where
  "wire_item x = (case x of Some t \<Rightarrow> ws_frame (map of_char t) | None \<Rightarrow> ws_ping)"

definition sendable :: "string option \<Rightarrow> bool" where
  "sendable x = (case x of Some t \<Rightarrow> valid_utf8 t \<and> length t \<le> MAX_WS_FRAME | None \<Rightarrow> True)"

lemma try_parse_item:
  assumes "sendable x"
  shows "try_parse (wire_item x @ rest) = Inr (Some (case x of Some t \<Rightarrow> (1, map of_char t, rest) | None \<Rightarrow> (9, [], rest)))"
proof (cases x)
  case (Some t)
  then show ?thesis using assms try_parse_header [of "length t" "map of_char t @ rest"]
    by (simp add: wire_item_def sendable_def ws_frame_header)
qed (simp add: wire_item_def ws_ping_def try_parse_def MAX_WS_FRAME_def)

lemma try_parse_part:
  assumes "sendable x" "m < length (wire_item x)"
  shows "try_parse (take m (wire_item x)) = Inr None"
proof (cases x)
  case None
  with assms(2) show ?thesis by (cases m) (auto simp: wire_item_def ws_ping_def try_parse_def)
next
  case (Some t)
  let ?h = "ws_header (length t)"
  show ?thesis
  proof (cases "m < length ?h")
    case True
    then show ?thesis using try_parse_short [OF True] Some by (simp add: wire_item_def ws_frame_header)
  next
    case False
    then have "take m (wire_item x) = ?h @ take (m - length ?h) (map of_char t)"
      using Some by (simp add: wire_item_def ws_frame_header)
    moreover have "length (take (m - length ?h) (map of_char t) :: nat list) < length t"
      using False assms(2) Some by (simp add: wire_item_def ws_frame_header)
    ultimately show ?thesis using assms(1) Some try_parse_header [of "length t"] by (simp add: sendable_def)
  qed
qed

lemma wire_item_ne: "wire_item x \<noteq> []"
  by (simp add: wire_item_def ws_frame_def ws_ping_def split: option.split)

text \<open>The bytes of the items split in the buffer and what is still to come.\<close>

lemma es_next_text:
  assumes "sendable (Some t)"
  shows "es_next (wire_item (Some t) @ rest) reads = (NextText t, rest, reads)"
proof -
  have "map char_of (map of_char t :: nat list) = t" by (simp add: comp_def)
  then have "parse_loop (wire_item (Some t) @ rest) = (Inr (Some t), rest)"
    using assms by (subst parse_loop.simps) (simp add: try_parse_item utf8_lossy_valid sendable_def)
  then show ?thesis by (subst es_next.simps) simp
qed

lemma es_next_ping: "es_next (wire_item None @ rest) reads = es_next rest reads"
proof -
  have "parse_loop (wire_item None @ rest) = parse_loop rest"
    by (subst parse_loop.simps) (simp add: try_parse_item sendable_def)
  then show ?thesis by (subst (1 2) es_next.simps) simp
qed

lemma es_next_part:
  assumes "sendable x" "m < length (wire_item x)" "bs \<noteq> []"
  shows "es_next (take m (wire_item x)) (ReadBytes bs # reads) = es_next (take m (wire_item x) @ bs) reads"
  by (subst es_next.simps) (simp add: parse_loop.simps try_parse_part assms)

definition first_text :: "string option list \<Rightarrow> (string \<times> string option list) option" where
  "first_text xs = (case dropWhile (\<lambda>x. x = None) xs of Some t # ys \<Rightarrow> Some (t, ys) | _ \<Rightarrow> None)"

text \<open>C22: the event stream carries the daemon's texts. Whatever texts the daemon writes, with pings in
  between, and however the network cuts the bytes, each read of the gateway gives the next text,
  whole and unchanged, and leaves exactly the bytes of the rest for the reads after it; when no text
  is left it reports that nothing came.\<close>

theorem event_stream_reads_back:
  assumes "\<forall>x \<in> set items. sendable x" "[] \<notin> set got" "buf @ concat got = concat (map wire_item items)"
  shows "case first_text items of
      Some (t, later) \<Rightarrow> \<exists>buf' got'. es_next buf (map ReadBytes got) = (NextText t, buf', map ReadBytes got')
        \<and> [] \<notin> set got' \<and> buf' @ concat got' = concat (map wire_item later)
    | None \<Rightarrow> es_next buf (map ReadBytes got) = (NextTick, [], [])"
  using assms
proof (induction "length (buf @ concat got) + length got" arbitrary: buf got items rule: less_induct)
  case less
  show ?case
  proof (cases items)
    case Nil
    then have "buf = [] \<and> got = []" using less.prems by (cases got) auto
    then show ?thesis using Nil by (subst es_next.simps) (simp add: first_text_def parse_loop.simps try_parse_def)
  next
    case (Cons x xs)
    let ?w = "wire_item x"
    have ok: "sendable x" using less.prems(1) Cons by simp
    have all: "buf @ concat got = ?w @ concat (map wire_item xs)" using less.prems(3) Cons by simp
    show ?thesis
    proof (cases "length ?w \<le> length buf")
      case True
      then obtain rest where buf: "buf = ?w @ rest" using all by (metis append_eq_append_conv_if append_take_drop_id)
      then have rest: "rest @ concat got = concat (map wire_item xs)" using all by simp
      show ?thesis
      proof (cases x)
        case (Some t)
        then show ?thesis using Cons buf rest ok less.prems(2) by (auto simp: first_text_def es_next_text)
      next
        case None
        have n: "length (rest @ concat got) + length got < length (buf @ concat got) + length got"
          using buf wire_item_ne [of x] by (cases ?w) auto
        have e: "es_next buf (map ReadBytes got) = es_next rest (map ReadBytes got)" using buf None by (simp add: es_next_ping)
        have f: "first_text items = first_text xs" using Cons None by (simp add: first_text_def)
        show ?thesis unfolding e f
          by (rule less.hyps [OF n _ less.prems(2) rest]) (use less.prems(1) Cons in simp)
      qed
    next
      case False
      then have part: "buf = take (length buf) ?w" using all
        by (metis append_eq_append_conv_if less_imp_le_nat not_le)
      then obtain c cs where ch: "got = c # cs" using all False by (cases got) auto
      have n: "length ((buf @ c) @ concat cs) + length cs < length (buf @ concat got) + length got" using ch by simp
      have c: "(buf @ c) @ concat cs = concat (map wire_item items)" "[] \<notin> set cs" using less.prems ch by auto
      have e: "es_next buf (map ReadBytes got) = es_next (buf @ c) (map ReadBytes cs)"
        using es_next_part [of x "length buf" c "map ReadBytes cs"] ok False part ch less.prems(2) by (auto simp: not_le)
      show ?thesis unfolding e by (rule less.hyps [OF n less.prems(1) c(2,1)])
    qed
  qed
qed

end
