(* ===== verification/WatchProps.thy ===== *)
theory WatchProps
  imports ServeWatch ServeRoutes ServeWs "HOL-Library.Sublist"
begin

text \<open>
  The gateway's view follows the daemon's events; what it may connect to; which address serves a
  group; and what becomes of a watch.
\<close>

section \<open>Paths\<close>

fun jpath :: "json \<Rightarrow> string list \<Rightarrow> json option" where
  "jpath v [] = Some v"
| "jpath v (k # ks) = Option.bind (jfield v k) (\<lambda>c. jpath c ks)"

lemma jfield_bt_insert: "jfield (JObj (bt_insert k c o1)) j = (if j = k then Some c else jfield (JObj o1) j)"
  by (simp add: jfield_def map_of_bt_insert_gen)

lemma jfield_hm_remove: "jfield (JObj (hm_remove k o1)) j = (if j = k then None else jfield (JObj o1) j)"
  by (simp add: jfield_def map_of_hm_remove)

lemma jpath_empty: "jpath (JObj []) ks = (if ks = [] then Some (JObj []) else None)"
  by (cases ks) (simp_all add: jfield_def)

text \<open>What is found along a path after a patch: below its path the new value, beside it what was there.\<close>

lemma jpath_below:
  "patch_keys ks val v = Some v' \<Longrightarrow> jpath v' (ks @ rest) = Option.bind val (\<lambda>x. jpath x rest)"
proof (induction ks val v arbitrary: v' rule: patch_keys.induct)
  case (2 leaf val v)
  then show ?case by (auto simp: jfield_bt_insert jfield_hm_remove split: json.splits option.splits)
next
  case (3 k k2 ks val v)
  then obtain o1 c where v: "v = JObj o1" "v' = JObj (bt_insert k c o1)"
    "patch_keys (k2 # ks) val (case map_of o1 k of Some c \<Rightarrow> c | None \<Rightarrow> JObj []) = Some c"
    by (auto split: json.splits)
  with 3 show ?case by (simp add: jfield_bt_insert)
qed simp

lemma jpath_beside:
  assumes "patch_keys ks val v = Some v'" "\<not> prefix ks qs" "\<not> prefix qs ks"
  shows "jpath v' qs = jpath v qs"
  using assms
proof (induction ks val v arbitrary: v' qs rule: patch_keys.induct)
  case (2 leaf val v)
  then show ?case by (cases qs) (auto simp: jfield_bt_insert jfield_hm_remove split: json.splits option.splits)
next
  case (3 k k2 ks val v)
  then obtain o1 c where v: "v = JObj o1" "v' = JObj (bt_insert k c o1)"
    and c: "patch_keys (k2 # ks) val (case map_of o1 k of Some c \<Rightarrow> c | None \<Rightarrow> JObj []) = Some c"
    by (auto split: json.splits)
  obtain j js where qs: "qs = j # js" using 3(4) by (cases qs) auto
  show ?case
  proof (cases "j = k")
    case True
    then have n: "\<not> prefix (k2 # ks) js" "\<not> prefix js (k2 # ks)" using 3(3,4) qs by auto
    then have "js \<noteq> []" by auto
    with 3(1) [OF v(1) c n] v True qs show ?thesis
      by (auto simp: jfield_def map_of_bt_insert_gen jpath_empty split: option.splits)
  qed (simp add: v qs jfield_bt_insert)
qed simp

text \<open>A patch can be stored exactly when no value on the way is something else than an object.\<close>

lemma patch_keys_ok:
  "patch_keys ks val v \<noteq> None \<longleftrightarrow> ks \<noteq> [] \<and> (\<forall>n < length ks. case jpath v (take n ks) of None \<Rightarrow> True | Some (JObj _) \<Rightarrow> True | Some _ \<Rightarrow> False)"
proof (induction ks val v rule: patch_keys.induct)
  case (3 k k2 ks val v)
  have split: "(\<forall>n < length (k # k2 # ks). Q n) \<longleftrightarrow> Q 0 \<and> (\<forall>n < length (k2 # ks). Q (Suc n))" for Q
    by (auto simp: less_Suc_eq_0_disj)
  show ?case
  proof (cases v)
    case (JObj o1)
    let ?d = "case map_of o1 k of Some c \<Rightarrow> c | None \<Rightarrow> JObj []"
    have "(case jpath v (take (Suc n) (k # k2 # ks)) of None \<Rightarrow> True | Some (JObj _) \<Rightarrow> True | Some _ \<Rightarrow> False)
        = (case jpath ?d (take n (k2 # ks)) of None \<Rightarrow> True | Some (JObj _) \<Rightarrow> True | Some _ \<Rightarrow> False)" for n
      by (cases "map_of o1 k"; cases n) (simp_all add: JObj jfield_def)
    then show ?thesis unfolding split using 3 [OF JObj] by (simp add: JObj)
  qed (auto simp: split)
qed (auto split: json.splits option.splits)

section \<open>The events of a daemon\<close>

definition patched :: "patch list \<Rightarrow> json \<Rightarrow> json option" where
  "patched ps v = fold (\<lambda>p acc. Option.bind acc (patch_keys (pt_at p) (pt_value p))) ps (Some v)"

lemma fold_bind_None: "fold (\<lambda>p acc. Option.bind acc (f p)) ps None = None"
  by (induction ps) simp_all

lemma patched_append: "patched (ps @ qs) v = Option.bind (patched ps v) (patched qs)"
  by (cases "patched ps v") (simp_all add: patched_def fold_bind_None)

text \<open>The event \<open>emit_patch\<close> adds to the stream.\<close>

definition event_of :: "nat \<Rightarrow> string \<Rightarrow> string \<Rightarrow> patch list \<Rightarrow> string \<Rightarrow> nat \<Rightarrow> json" where
  "event_of now node kind ps why sq = jobj ([(''type'', JStr kind), (''seq'', jnat sq), (''ts_ms'', jnat now), (''node'', JStr node)]
     @ entries (jobj ((''patch'', JArr (map patch_json ps)) # (if why = [] then [] else [(''why'', JStr why)]))))"

lemma emit_patch_event:
  "events (emit_patch E kind ps why s) = events s @ [event_of (e_now E) (node_id s) kind ps why (next_event_seq s)]"
  "next_event_seq (emit_patch E kind ps why s) = u64_add (next_event_seq s) 1"
proof -
  have "events (notify_peers E data qs t) = events t \<and> next_event_seq (notify_peers E data qs t) = next_event_seq t" for data qs t
    using notify_peers_sent [of E data qs t] by auto
  then show "events (emit_patch E kind ps why s) = events s @ [event_of (e_now E) (node_id s) kind ps why (next_event_seq s)]"
    "next_event_seq (emit_patch E kind ps why s) = u64_add (next_event_seq s) 1"
    by (simp_all add: emit_patch_def emit_def Let_def event_of_def)
qed

lemma jget_event:
  "jget (event_of now node kind ps why sq) ''seq'' = jnat sq" "jget (event_of now node kind ps why sq) ''node'' = JStr node"
  "jget (event_of now node kind ps why sq) ''type'' = JStr kind" "jget (event_of now node kind ps why sq) ''patch'' = JArr (map patch_json ps)"
  by (cases "why = []"; simp add: event_of_def jget_jobj; simp add: jobj_def bt_extend_def)+

lemma patch_json_read: "as_array (jget (patch_json p) ''at'') = Some (map JStr (pt_at p))" "jfield (patch_json p) ''value'' = pt_value p"
  by (cases "pt_value p"; simp add: patch_json_def jobj_def bt_extend_def jget_def jfield_def jstrs_def as_array_def)+

lemma map_filter_JStr: "List.map_filter as_str (map JStr ks) = ks"
  by (induction ks) (simp_all add: List.map_filter_def)

lemma apply_event: "apply_patch v (event_of now node kind ps why sq) = patched ps v"
proof -
  have "(case as_array (jget (patch_json p) ''at'') of None \<Rightarrow> None | Some pth \<Rightarrow> patch_at u pth (jfield (patch_json p) ''value''))
      = patch_keys (pt_at p) (pt_value p) u" for p u
    by (simp add: patch_json_read patch_at_def map_filter_JStr)
  then show ?thesis by (simp add: apply_patch_def jget_event as_array_def patched_def fold_map comp_def)
qed

text \<open>A daemon's run of events, each with its clock, kind, patches and reason, after event number \<open>q\<close>.\<close>

type_synonym emission = "nat \<times> string \<times> patch list \<times> string"

definition emitted :: "string \<Rightarrow> nat \<Rightarrow> emission list \<Rightarrow> json list" where
  "emitted node q ems = map (\<lambda>(i, now, kind, ps, why). event_of now node kind ps why (q + i)) (enumerate 1 ems)"

definition patches_of :: "emission \<Rightarrow> patch list" where
  "patches_of em = fst (snd (snd em))"

definition emit_run :: "env list \<Rightarrow> (string \<times> patch list \<times> string) list \<Rightarrow> state \<Rightarrow> state" where
  "emit_run Es ems s = fold (\<lambda>(E, kind, ps, why). emit_patch E kind ps why) (zip Es ems) s"

lemma enumerate_Suc_Cons: "enumerate n (x # xs) = (n, x) # enumerate (Suc n) xs"
  by simp

lemma emitted_Cons: "emitted node q (em # ems) = (case em of (now, kind, ps, why) \<Rightarrow> event_of now node kind ps why (q + 1)) # emitted node (q + 1) ems"
proof -
  have "map (\<lambda>(i, now, kind, ps, why). event_of now node kind ps why (q + i)) (enumerate (Suc n) ems)
      = map (\<lambda>(i, now, kind, ps, why). event_of now node kind ps why (q + 1 + i)) (enumerate n ems)" for n
    by (induction ems arbitrary: n) auto
  then show ?thesis by (simp add: emitted_def split: prod.split)
qed

lemma emit_run_events:
  assumes "length Es = length ems" "next_event_seq s = q + 1" "q + length ems < 2 ^ 64 - 1"
  shows "events (emit_run Es ems s) = events s @ emitted (node_id s) q (map (\<lambda>(E, em). (e_now E, em)) (zip Es ems))"
  using assms
proof (induction Es ems arbitrary: s q rule: list_induct2)
  case Nil
  then show ?case by (simp add: emit_run_def emitted_def)
next
  case (Cons E Es em ems)
  obtain kind ps why where em: "em = (kind, ps, why)" by (cases em)
  let ?s = "emit_patch E kind ps why s"
  have "next_event_seq ?s = (q + 1) + 1" using Cons.prems by (simp add: emit_patch_event u64_add_small)
  from Cons.IH [OF this] Cons.prems show ?case
    by (simp add: emit_run_def em emitted_Cons emit_patch_event)
qed

section \<open>The view follows the events\<close>

text \<open>Frames as they arrive, each with the time, folded into the view.\<close>

definition deliver :: "string \<Rightarrow> string \<Rightarrow> (nat \<times> json) list \<Rightarrow> serve \<times> nat option \<Rightarrow> serve \<times> nat option" where
  "deliver addr node frames acc = fold (\<lambda>(now, ev) (sv, sq). snd (apply_frame now addr (Some node) ev sv sq)) frames acc"

lemma deliver_Nil [simp]: "deliver addr node [] acc = acc"
  by (simp add: deliver_def)

lemma deliver_Cons [simp]:
  "deliver addr node ((now, ev) # frames) (sv, sq) = deliver addr node frames (snd (apply_frame now addr (Some node) ev sv sq))"
  by (simp add: deliver_def)

definition displays :: "serve \<Rightarrow> string \<Rightarrow> json \<Rightarrow> bool" where
  "displays sv addr v \<longleftrightarrow> (\<exists>view. map_of (sv_daemons sv) addr = Some view \<and> dv_status view = Some v)"

definition foreign :: "string \<Rightarrow> json \<Rightarrow> bool" where
  "foreign node ev \<longleftrightarrow> as_str (jget ev ''node'') \<noteq> Some node \<and> as_str (jget ev ''type'') \<noteq> Some ''snapshot''"

definition kinds_ok :: "emission list \<Rightarrow> bool" where
  "kinds_ok ems \<longleftrightarrow> (\<forall>em \<in> set ems. fst (snd em) \<noteq> ''snapshot'')"

lemma frame_foreign: "foreign node ev \<Longrightarrow> snd (apply_frame now addr (Some node) ev sv sq) = (sv, sq)"
  by (auto simp: apply_frame_def foreign_def split: option.split)

lemma frame_event:
  assumes "map_of (sv_daemons sv) addr = Some view" "dv_status view = Some v" "kind \<noteq> ''snapshot''" "sq < 2 ^ 64 - 1"
  shows "snd (apply_frame now addr (Some node) (event_of t node kind ps why n) sv (Some sq)) =
    (if n = sq + 1 then (case patched ps v of None \<Rightarrow> (sv, Some sq)
        | Some w \<Rightarrow> (sv\<lparr>sv_daemons := hm_insert addr (view\<lparr>dv_status := Some w, dv_seen := Some now\<rparr>) (sv_daemons sv)\<rparr>, Some n))
     else (sv, Some sq))"
  using assms
  by (simp add: apply_frame_def jget_event apply_event as_u64_def jnat_def u64_add_small split: option.split)

lemma frame_subscribe:
  assumes "map_of (sv_daemons sv) addr = Some view"
  shows "apply_frame now addr node (snd (subscribe E tx s)) sv sq = (AppliedYes, sv\<lparr>sv_daemons := hm_insert addr
    (view\<lparr>dv_status := Some (snapshot E s None), dv_seen := Some now, dv_error := None\<rparr>) (sv_daemons sv)\<rparr>, Some (next_event_seq s - 1))"
proof -
  let ?f = "snd (subscribe E tx s)"
  have "jget ?f ''type'' = JStr ''snapshot''" "jget ?f ''seq'' = jnat (next_event_seq s - 1)" "jget ?f ''data'' = snapshot E s None"
    by (simp_all add: subscribe_def jget_jobj)
  with assms show ?thesis by (simp add: apply_frame_def as_u64_def jnat_def)
qed

lemma nth_emitted: "i < length ems \<Longrightarrow> emitted node q ems ! i = (case ems ! i of (t, kind, ps, why) \<Rightarrow> event_of t node kind ps why (q + i + 1))"
  by (simp add: emitted_def nth_enumerate_eq split: prod.split)

lemma length_emitted [simp]: "length (emitted node q ems) = length ems"
  by (simp add: emitted_def)

text \<open>Any frames, in any order, lost or repeated: the view is the snapshot with the events up to the one it
  says it is at.\<close>

definition at_event :: "string \<Rightarrow> json \<Rightarrow> nat \<Rightarrow> emission list \<Rightarrow> nat \<Rightarrow> serve \<times> nat option \<Rightarrow> bool" where
  "at_event addr v0 q ems k acc \<longleftrightarrow> k \<le> length ems \<and> snd acc = Some (q + k)
     \<and> (\<exists>v. patched (concat (map patches_of (take k ems))) v0 = Some v \<and> displays (fst acc) addr v)"

lemma at_event_step:
  assumes "at_event addr v0 q ems k (sv, sq)" "q + length ems < 2 ^ 64 - 1" "kinds_ok ems"
    and "foreign node ev \<or> ev \<in> set (emitted node q ems)"
  shows "\<exists>k' \<ge> k. at_event addr v0 q ems k' (snd (apply_frame now addr (Some node) ev sv sq))"
proof (cases "foreign node ev")
  case True
  then show ?thesis using assms(1) by (auto simp: frame_foreign)
next
  case False
  then obtain i where i: "i < length ems" "ev = emitted node q ems ! i" using assms(4) by (auto simp: in_set_conv_nth)
  obtain t kind ps why where em: "ems ! i = (t, kind, ps, why)" by (cases "ems ! i")
  have ev: "ev = event_of t node kind ps why (q + i + 1)" using i em by (simp add: nth_emitted)
  have kind: "kind \<noteq> ''snapshot''" using assms(3) i(1) em by (force simp: kinds_ok_def dest: nth_mem)
  from assms(1) obtain v view where v: "k \<le> length ems" "sq = Some (q + k)" "patched (concat (map patches_of (take k ems))) v0 = Some v"
    "map_of (sv_daemons sv) addr = Some view" "dv_status view = Some v"
    by (auto simp: at_event_def displays_def)
  have b: "q + k < 2 ^ 64 - 1" using v(1) assms(2) by simp
  note fr = frame_event [OF v(4,5) kind b, of now node t ps why "q + i + 1"]
  show ?thesis
  proof (cases "i = k \<and> patched ps v \<noteq> None")
    case True
    then obtain w where w: "patched ps v = Some w" by auto
    have "take (Suc k) ems = take k ems @ [ems ! k]" using True i(1) by (simp add: take_Suc_conv_app_nth)
    then have "patched (concat (map patches_of (take (Suc k) ems))) v0 = Some w"
      using v(3) w em True by (simp add: patched_append patches_of_def)
    then have "at_event addr v0 q ems (Suc k) (snd (apply_frame now addr (Some node) ev sv sq))"
      using fr w True i(1) by (simp add: at_event_def ev v(2) displays_def map_of_hm_insert)
    then show ?thesis using le_SucI by blast
  next
    case False
    then have "snd (apply_frame now addr (Some node) ev sv sq) = (sv, sq)"
      using fr by (auto simp: ev v(2) split: option.splits)
    then show ?thesis using assms(1) by auto
  qed
qed

lemma at_event_deliver:
  assumes "at_event addr v0 q ems k acc" "q + length ems < 2 ^ 64 - 1" "kinds_ok ems"
    and "\<forall>(now, ev) \<in> set frames. foreign node ev \<or> ev \<in> set (emitted node q ems)"
  shows "\<exists>k'. at_event addr v0 q ems k' (deliver addr node frames acc)"
  using assms(1,4)
proof (induction frames arbitrary: k acc)
  case (Cons f frames)
  obtain now ev where f: "f = (now, ev)" by (cases f)
  obtain sv sq where acc: "acc = (sv, sq)" by (cases acc)
  from at_event_step [OF Cons.prems(1) [unfolded acc] assms(2,3)] Cons.prems(2) f
  obtain k' where "at_event addr v0 q ems k' (snd (apply_frame now addr (Some node) ev sv sq))" by fastforce
  from Cons.IH [OF this] Cons.prems(2) show ?case by (simp add: f acc)
qed auto

text \<open>Every event in order, with those of other nodes in between: the view is the whole run.\<close>

lemma deliver_all:
  assumes "displays sv addr v" "patched (concat (map patches_of ems)) v = Some w" "q + length ems < 2 ^ 64 - 1" "kinds_ok ems"
    and "filter (\<lambda>ev. \<not> foreign node ev) (map snd frames) = emitted node q ems"
  shows "\<exists>sv'. deliver addr node frames (sv, Some q) = (sv', Some (q + length ems)) \<and> displays sv' addr w"
  using assms
proof (induction frames arbitrary: sv v q ems)
  case Nil
  then have "ems = []" by (metis length_emitted list.size(3) filter.simps(1) length_0_conv list.map(1))
  with Nil show ?case by (simp add: patched_def)
next
  case (Cons f frames)
  obtain now ev where f: "f = (now, ev)" by (cases f)
  show ?case
  proof (cases "foreign node ev")
    case True
    with Cons f show ?thesis by (simp add: frame_foreign)
  next
    case False
    then obtain em ems' where ems: "ems = em # ems'" using Cons.prems(5) f by (cases ems) (auto simp: emitted_def)
    obtain t kind ps why where em: "em = (t, kind, ps, why)" by (cases em)
    from Cons.prems(5) False f ems em have ev: "ev = event_of t node kind ps why (q + 1)"
      and rest: "filter (\<lambda>ev. \<not> foreign node ev) (map snd frames) = emitted node (q + 1) ems'" by (auto simp: emitted_Cons)
    from Cons.prems(2) ems em obtain u where u: "patched ps v = Some u" "patched (concat (map patches_of ems')) u = Some w"
      by (auto simp: patches_of_def [of "(t, kind, ps, why)"] patched_append bind_eq_Some_conv)
    from Cons.prems(1) obtain view where view: "map_of (sv_daemons sv) addr = Some view" "dv_status view = Some v" by (auto simp: displays_def)
    have kind: "kind \<noteq> ''snapshot''" "kinds_ok ems'" "q < 2 ^ 64 - 1" "q + 1 + length ems' < 2 ^ 64 - 1"
      using Cons.prems(3,4) ems em by (auto simp: kinds_ok_def)
    let ?sv = "sv\<lparr>sv_daemons := hm_insert addr (view\<lparr>dv_status := Some u, dv_seen := Some now\<rparr>) (sv_daemons sv)\<rparr>"
    have "snd (apply_frame now addr (Some node) ev sv (Some q)) = (?sv, Some (q + 1))"
      using frame_event [OF view kind(1,3), of now node t ps why "q + 1"] u by (simp add: ev)
    moreover have "displays ?sv addr u" by (simp add: displays_def map_of_hm_insert)
    ultimately show ?thesis using Cons.IH [OF _ u(2) kind(4,2) rest] f ems by simp
  qed
qed


end
