(* ===== verification/ServeExamples.thy ===== *)
theory ServeExamples
  imports WatchProps
begin

text \<open>
  The gateway on concrete snapshots: two daemons, the groups they describe, and what the gateway
  routes and lists.
\<close>

section \<open>Snapshots\<close>

definition box_cfg :: serve_cfg where
  "box_cfg = \<lparr>sc_daemons = [''a:80''], sc_port = 81, sc_announce_port = 0, sc_poll_interval = 5, sc_probe_interval = 5,
     sc_probe_timeout = 1, sc_probe_fresh = 60, sc_probe_promote = 60, sc_serving_timeout = 1, sc_model_wait = 0,
     sc_sse_keepalive = 10, sc_mcp_timeout = 1, sc_tools_ttl = 10, sc_model_ttl = 5,
     sc_allowed_sources = \<lparr>al_local = False, al_nets = [], al_prefixes = [''10.'']\<rparr>, sc_discover_peers = True\<rparr>"

definition openai_agent :: "string \<Rightarrow> json" where
  "openai_agent ip = jobj [(''alive'', JBool True), (''node_ip'', JStr ip),
     (''services'', jobj [(''openai'', jobj [(''port'', jnat 80), (''path'', JStr ''/v1'')])])]"

definition group_of_agents :: "(string \<times> json) list \<Rightarrow> string list \<Rightarrow> json" where
  "group_of_agents ags acs = jobj [(''agents'', jobj ags),
     (''actors'', jobj (map (\<lambda>a. (a, jobj [(''state'', JStr ''running'')])) acs))]"

definition snap_of :: "(string \<times> json) list \<Rightarrow> json" where
  "snap_of groups = jobj [(''node_ip'', JStr ''10.0.0.1''), (''groups'', jobj groups)]"

definition view_of :: "json \<Rightarrow> daemon_view" where
  "view_of snap = (empty_view True)\<lparr>dv_status := Some snap, dv_seen := Some 10\<rparr>"

definition probed :: "string \<Rightarrow> probe_result" where
  "probed m = \<lparr>pr_ok = True, pr_models = [jobj [(''id'', JStr m), (''root'', JStr ''r'')]], pr_seen = 10, pr_error = None,
     pr_selected = Some ''http://10.0.0.1:80/v1'', pr_promoted_at = 10\<rparr>"

definition gateway :: serve where
  "gateway = \<lparr>sv_cfg = box_cfg, sv_started = 0, sv_verify = False,
     sv_daemons = [(''b:80'', view_of (snap_of [(''g'', group_of_agents [(''1'', openai_agent ''10.0.0.1'')] [])])),
       (''a:80'', view_of (snap_of [(''g'', group_of_agents [(''1'', openai_agent ''10.0.0.1'')] [''x''])]))],
     sv_watched = [''a:80'', ''b:80''], sv_nodes = [], sv_probes = [(''g'', probed ''m'')], sv_tools = [], sv_tools_fetching = [],
     sv_live = []\<rparr>"

lemmas gateway_defs = gateway_def probed_def view_of_def snap_of_def group_of_agents_def openai_agent_def box_cfg_def

section \<open>Networks\<close>

theorem contains_iff_prefix_witness:
  "net_contains (net_new (V4 [10, 0, 0, 0]) 8) (V4 [10, 1, 2, 3]) \<and> \<not> net_contains (net_new (V4 [10, 0, 0, 0]) 8) (V4 [11, 1, 2, 3])
    \<and> \<not> net_contains (net_new (V4 [10, 0, 0, 0]) 0) (V6 [0, 0, 0, 0, 0, 0, 0, 1])"
  using contains_iff_prefix [of "V4 [10, 0, 0, 0]" "V4 [10, 1, 2, 3]" 8] contains_iff_prefix [of "V4 [10, 0, 0, 0]" "V4 [11, 1, 2, 3]" 8]
    contains_iff_prefix [of "V4 [10, 0, 0, 0]" "V6 [0, 0, 0, 0, 0, 0, 0, 1]" 0]
  by (simp add: addr_wf_def width_of_def is_v6_def addr_nat_def)

section \<open>Routes\<close>

lemma gateway_route: "map_of (model_table gateway 20 []) ''m'' = Some (''g'', ''http://10.0.0.1:80/v1'')"
  by code_simp

theorem listing_matches_routes_witness:
  "\<exists>e x. map_of (group_table gateway 20 []) ''g'' = Some e \<and> serves gateway 20 e ''m'' \<and> entry_of_group gateway 20 e ''m'' = Some x
    \<and> map_of (model_rows gateway 20 []) ''m'' = Some (listed_model x ''g'')
    \<and> map fst (model_rows gateway 20 []) = [''m'']"
proof -
  note all = listing_matches_routes [of gateway 20 "[]" "''m''" "''g''" "''http://10.0.0.1:80/v1''"]
  from all gateway_route obtain e where e: "map_of (group_table gateway 20 []) ''g'' = Some e" "serves gateway 20 e ''m''" by blast
  then obtain x where x: "entry_of_group gateway 20 e ''m'' = Some x" by (auto simp: serves_entry)
  have "map_of (model_rows gateway 20 []) ''m'' = Some (listed_model x ''g'')"
    using all gateway_route e(1) x by blast
  moreover have "map fst (model_table gateway 20 []) = [''m'']" by code_simp
  ultimately show ?thesis using e x all by auto
qed

theorem announced_groups_best_witness:
  "\<exists>e. map_of (announced_groups gateway 20 []) ''g'' = Some e \<and> top_of (set (announced_entries gateway 20 [])) ''g'' e \<and> ge_daemon e = ''a:80''"
proof -
  have "views_wf gateway" by code_simp
  note best = announced_groups_best [OF this, of 20 "[]" "''g''"]
  have "map_option ge_daemon (map_of (announced_groups gateway 20 []) ''g'') = Some ''a:80''" by code_simp
  then obtain e where "map_of (announced_groups gateway 20 []) ''g'' = Some e" "ge_daemon e = ''a:80''" by auto
  with best show ?thesis by blast
qed

definition known_addrs :: "(string, string list) table" where
  "known_addrs = [(''10.0.0.1'', [''192.168.0.1'', ''10.0.0.1'', ''10.0.0.1''])]"

theorem port_candidates_gated_witness:
  "\<exists>ep. endpoint_of (openai_agent ''10.0.0.1'') ''openai'' known_addrs (sc_allowed_sources box_cfg) [] = Some ep
    \<and> ep_candidates ep = [''http://10.0.0.1:80/v1''] \<and> distinct (ep_candidates ep)"
proof -
  have "map_option ep_candidates (endpoint_of (openai_agent ''10.0.0.1'') ''openai'' known_addrs (sc_allowed_sources box_cfg) [])
      = Some [''http://10.0.0.1:80/v1'']" by code_simp
  then obtain ep where ep: "endpoint_of (openai_agent ''10.0.0.1'') ''openai'' known_addrs (sc_allowed_sources box_cfg) [] = Some ep"
    "ep_candidates ep = [''http://10.0.0.1:80/v1'']" by auto
  have "as_u64 (jget (jget (jget (openai_agent ''10.0.0.1'') ''services'') ''openai'') ''port'') = Some 80"
    "str_of (jget (jget (jget (openai_agent ''10.0.0.1'') ''services'') ''openai'') ''host'') = []" by code_simp+
  with port_candidates_gated [OF ep(1)] ep show ?thesis by blast
qed

definition two_announce :: json where
  "two_announce = group_of_agents [(''1'', openai_agent ''10.0.0.1''), (''2'', openai_agent ''192.168.0.9'')] []"

theorem unreachable_endpoint_wins_witness:
  "(\<exists>shown. health_of gateway 20 (group_entry_of ''a:80'' ''g'' two_announce [] (sc_allowed_sources box_cfg) [])
      = Inl (''announced '' @ shown @ '', and no address of that node passes ALLOWED_SOURCES''))
    \<and> \<not> isl (health_of gateway 20 (group_entry_of ''a:80'' ''g'' (group_of_agents [(''1'', openai_agent ''10.0.0.1'')] []) []
        (sc_allowed_sources box_cfg) []))"
proof -
  have a: "openai_agent ''192.168.0.9'' \<in> set (alive_agents two_announce)" by code_simp
  have "map_option ep_candidates (endpoint_of (openai_agent ''192.168.0.9'') ''openai'' [] (sc_allowed_sources box_cfg) []) = Some []" by code_simp
  then obtain d where d: "endpoint_of (openai_agent ''192.168.0.9'') ''openai'' [] (sc_allowed_sources box_cfg) [] = Some d" "ep_candidates d = []"
    by auto
  have "\<not> isl (health_of gateway 20 (group_entry_of ''a:80'' ''g'' (group_of_agents [(''1'', openai_agent ''10.0.0.1'')] []) []
        (sc_allowed_sources box_cfg) []))" by code_simp
  with unreachable_endpoint_wins [OF a d] show ?thesis by blast
qed

section \<open>Retirement\<close>

definition serving_round :: age_round where
  "serving_round = (gateway, 12, announced_groups gateway 12 [])"

definition failing_round :: age_round where
  "failing_round = (gateway\<lparr>sv_probes := []\<rparr>, 14, announced_groups gateway 14 [])"

lemma rounds_ok: "rounds_wf ([serving_round] @ [failing_round])" "served_at ''g'' serving_round" "announced_at ''g'' failing_round"
    "\<not> served_at ''g'' failing_round"
  by code_simp+

theorem group_hidden_after_ttl_witness:
  "map_of (announced_groups gateway 16 []) ''g'' \<noteq> None \<and> map_of (announced_groups gateway 20 []) ''g'' \<noteq> None
    \<and> map_of (group_table (gateway\<lparr>sv_live := fold run_round [serving_round, failing_round] []\<rparr>) 16 []) ''g'' \<noteq> None
    \<and> map_of (group_table (gateway\<lparr>sv_live := fold run_round [serving_round, failing_round] []\<rparr>) 20 []) ''g'' = None"
proof -
  let ?gw = "gateway\<lparr>sv_live := fold run_round [serving_round, failing_round] []\<rparr>"
  have ne: "map_of (announced_groups gateway 16 []) ''g'' \<noteq> None" "map_of (announced_groups gateway 20 []) ''g'' \<noteq> None" by code_simp+
  have "map_of (announced_groups ?gw 16 []) ''g'' \<noteq> None" "map_of (announced_groups ?gw 20 []) ''g'' \<noteq> None" by code_simp+
  then obtain e d where e: "map_of (announced_groups ?gw 16 []) ''g'' = Some e" and d: "map_of (announced_groups ?gw 20 []) ''g'' = Some d"
    by auto
  have t: "sc_model_ttl (sv_cfg ?gw) = 5" "round_time serving_round = 12" "round_time failing_round = 14"
    by (simp_all add: gateway_def box_cfg_def serving_round_def failing_round_def)
  have "map_of (group_table ?gw 16 []) ''g'' = Some e"
    using group_hidden_after_ttl [OF rounds_ok(1), of ?gw 16 "[]" "''g''" e] rounds_ok(2) e t by simp
  moreover have "map_of (group_table ?gw 20 []) ''g'' = None"
    using group_hidden_after_ttl [OF rounds_ok(1), of ?gw 20 "[]" "''g''" d] rounds_ok(3,4) d t by simp
  ultimately show ?thesis using ne by simp
qed

end
