(* ===== verification/WatchLife.thy ===== *)
theory WatchLife
  imports WatchProps
begin

text \<open>
  What the gateway connects to: the addresses it watches after an announcement, the endpoint it
  settles on, the routes that follow from a probe, and what becomes of a watch.
\<close>

section \<open>Announcements\<close>

definition reaches_allowed :: "allow \<Rightarrow> net list \<Rightarrow> string \<Rightarrow> string \<Rightarrow> bool" where
  "reaches_allowed al local port a \<longleftrightarrow> (\<exists>ip. a = with_port port ip \<and> permits al ip local)"

lemma announce_address_ok:
  "announce_address ranked src al local = src
    \<or> announce_address ranked src al local \<in> set ranked \<and> permits al (announce_address ranked src al local) local
      \<and> on_local_net (announce_address ranked src al local) local"
  by (auto simp: announce_address_def split: option.split dest!: find_Some_in)

lemma announce_address_allowed: "permits al src local \<Longrightarrow> permits al (announce_address ranked src al local) local"
  using announce_address_ok [of ranked src al local] by auto

lemma ensure_watched_cases:
  "ensure_watched a others sv = (sv, []) \<or> ensure_watched a others sv = (sv\<lparr>sv_watched := a # sv_watched sv\<rparr>, [(a, others)])"
  by (simp add: ensure_watched_def)

text \<open>C24: an announcement never makes the gateway connect to an address the allowlist does not admit. Whatever
  a signed datagram says, every address of a watch it starts, the first one and those to fall back
  to, and every address it adds to a watched node, is an allowed one with the announced port; and the
  rest of the gateway's state is as it was.\<close>

theorem announced_addresses_allowed:
  assumes "hear_serve local v src_ip sv seen = (sv', sps, seen')"
  shows "\<exists>port. (\<forall>(a, others) \<in> set sps. \<forall>x \<in> set (a # others). reaches_allowed (sc_allowed_sources (sv_cfg sv)) local port x)
    \<and> (\<forall>a \<in> set (sv_watched sv') - set (sv_watched sv). reaches_allowed (sc_allowed_sources (sv_cfg sv)) local port a)
    \<and> (\<forall>nid w'. map_of (sv_nodes sv') nid = Some w' \<longrightarrow> (\<exists>w. map_of (sv_nodes sv) nid = Some w \<and> nw_addr w' = nw_addr w
        \<and> (\<forall>a \<in> set (nw_alternates w') - set (nw_alternates w). reaches_allowed (sc_allowed_sources (sv_cfg sv)) local port a)))
    \<and> sv' = sv\<lparr>sv_watched := sv_watched sv', sv_nodes := sv_nodes sv'\<rparr>"
proof (cases "sv' = sv \<and> sps = []")
  case False
  then obtain port where allowed: "permits (sc_allowed_sources (sv_cfg sv)) src_ip local"
    and hn: "hear_node local v src_ip port sv = (sv', sps)"
    using assms by (auto simp: hear_serve_def Let_def split: if_splits option.splits prod.splits)
  let ?al = "sc_allowed_sources (sv_cfg sv)" and ?ranked = "str_list (jget v ''addrs'')" and ?nid = "text_of v ''node_id''"
  let ?t = "with_port port (announce_address ?ranked src_ip ?al local)"
  let ?others = "map (with_port port) (filter (\<lambda>a. permits ?al a local) ?ranked) @ [with_port port src_ip]"
  have t: "reaches_allowed ?al local port ?t" using announce_address_allowed [OF allowed] by (auto simp: reaches_allowed_def)
  have others: "\<forall>x \<in> set ?others. reaches_allowed ?al local port x" using allowed by (auto simp: reaches_allowed_def)
  show ?thesis
  proof (cases "if ?nid = [] then None else map_of (sv_nodes sv) ?nid")
    case None
    then have "ensure_watched ?t ?others sv = (sv', sps)" using hn by (simp add: hear_node_def Let_def split: if_splits)
    then have "sv' = sv\<lparr>sv_watched := ?t # sv_watched sv\<rparr> \<and> sps = [(?t, ?others)]"
      using ensure_watched_cases [of ?t ?others sv] False by auto
    then show ?thesis using t others by (intro exI [of _ port]) auto
  next
    case (Some w)
    then have "sv' = sv\<lparr>sv_nodes := hm_insert ?nid (w\<lparr>nw_alternates := bs_insert ?t (nw_alternates w)\<rparr>) (sv_nodes sv)\<rparr> \<and> sps = []"
      using hn False by (auto simp: hear_node_def Let_def split: if_splits)
    then show ?thesis using t Some by (intro exI [of _ port]) (auto simp: map_of_hm_insert split: if_splits)
  qed
qed auto

section \<open>The choice of an address\<close>

definition models_reply :: "(string \<Rightarrow> string + json) \<Rightarrow> string \<Rightarrow> string + json" where
  "models_reply http c = http (trim_slashes c @ ''/models'')"

definition named_models :: "json \<Rightarrow> json list" where
  "named_models v = filter (\<lambda>m. as_str (jget m ''id'') \<noteq> None) (elems (jget v ''data''))"

abbreviation answers :: "(string \<Rightarrow> string + json) \<Rightarrow> string \<Rightarrow> bool" where
  "answers http c \<equiv> \<not> isl (models_reply http c)"

lemma probe_each_find:
  "probe_each http bases errs = (case List.find (answers http) bases of
     Some b \<Rightarrow> Inr (b, named_models (projr (models_reply http b)))
   | None \<Rightarrow> Inl (join ''; '' (errs @ map (\<lambda>b. b @ '': '' @ projl (models_reply http b)) bases)))"
  by (induction bases arbitrary: errs) (auto simp: models_reply_def named_models_def split: sum.split option.split)

lemma find_remove1: "\<not> ok s \<Longrightarrow> List.find ok (remove1 s xs) = List.find ok xs"
  by (induction xs) auto

text \<open>In an ordinary round the address that serves the group is asked first; else the highest ranked that
  replies is taken.\<close>

definition chosen :: "(string \<Rightarrow> string + json) \<Rightarrow> string list \<Rightarrow> string option \<Rightarrow> bool \<Rightarrow> string option" where
  "chosen http cands sticky promote = (case sticky of
     Some s \<Rightarrow> if s \<in> set cands \<and> \<not> promote \<and> answers http s then Some s else List.find (answers http) cands
   | None \<Rightarrow> List.find (answers http) cands)"

lemma probe_choice:
  "snd (probe_candidates http cands sticky promote) = (case chosen http cands sticky promote of
     Some url \<Rightarrow> Inr (url, named_models (projr (models_reply http url)))
   | None \<Rightarrow> Inl (join ''; '' (map (\<lambda>b. b @ '': '' @ projl (models_reply http b)) (probe_order cands sticky promote))))"
proof (cases "\<exists>s. sticky = Some s \<and> s \<in> set cands \<and> \<not> promote")
  case True
  then obtain s where s: "sticky = Some s" "s \<in> set cands" "\<not> promote" by blast
  then show ?thesis
    by (cases "answers http s") (simp_all add: chosen_def probe_candidates_def probe_order_def probe_each_find find_remove1 split: option.split)
next
  case False
  then have "probe_order cands sticky promote = cands" by (auto simp: probe_order_def split: option.split)
  then show ?thesis using False by (auto simp: chosen_def probe_candidates_def probe_each_find split: option.split)
qed

lemma chosen_answers: "chosen http cands sticky promote = Some url \<Longrightarrow> url \<in> set cands \<and> answers http url"
  by (auto simp: chosen_def dest: find_Some_in split: option.splits if_splits)

lemma chosen_some: "c \<in> set cands \<Longrightarrow> answers http c \<Longrightarrow> \<exists>url. chosen http cands sticky promote = Some url"
  using find_None_iff [of "answers http" cands] by (auto simp: chosen_def split: option.split)

text \<open>The promotion clock does not see a round that fell through to the top address: it reports whether the
  top address came first, not whether it was tried.\<close>

lemma fallback_to_top_unseen:
  assumes "s \<in> set cs" "s \<noteq> c" "\<not> answers http s" "answers http c"
  shows "probe_candidates http (c # cs) (Some s) False = (False, Inr (c, named_models (projr (models_reply http c))))"
proof -
  have "snd (probe_candidates http (c # cs) (Some s) False) = Inr (c, named_models (projr (models_reply http c)))"
    using assms by (simp add: probe_choice chosen_def)
  moreover have "\<not> fst (probe_candidates http (c # cs) (Some s) False)"
    using assms by (simp add: probe_candidates_def probe_order_def)
  ultimately show ?thesis by (simp add: prod_eq_iff)
qed

section \<open>From a reply to a route\<close>

lemma land_other: "g \<noteq> grp \<Longrightarrow> map_of (sv_probes (probe_land now grp res sv)) g = map_of (sv_probes sv) g"
  by (simp add: probe_land_def Let_def map_of_hm_insert split: prod.split)

lemma land_frame: "\<exists>ps. probe_land now grp res sv = sv\<lparr>sv_probes := ps\<rparr>"
  by (simp add: probe_land_def Let_def split: prod.split) blast

definition land_all :: "nat \<Rightarrow> (string \<Rightarrow> string + json) \<Rightarrow> (string \<times> string list \<times> string option \<times> bool) list \<Rightarrow> serve \<Rightarrow> serve" where
  "land_all now http jobs sv = fold (\<lambda>(grp, cands, sticky, promote). probe_land now grp (probe_candidates http cands sticky promote)) jobs sv"

lemma land_all_frame: "\<exists>ps. land_all now http jobs sv = sv\<lparr>sv_probes := ps\<rparr>"
proof (induction jobs arbitrary: sv)
  case (Cons j jobs)
  obtain grp cands sticky promote where j: "j = (grp, cands, sticky, promote)" by (cases j)
  obtain ps where "probe_land now grp (probe_candidates http cands sticky promote) sv = sv\<lparr>sv_probes := ps\<rparr>" using land_frame by blast
  with Cons.IH [of "sv\<lparr>sv_probes := ps\<rparr>"] show ?case by (auto simp: land_all_def j)
next
  case Nil
  show ?case by (rule exI [of _ "sv_probes sv"]) (simp add: land_all_def)
qed

lemma land_all_other: "g \<notin> fst ` set jobs \<Longrightarrow> map_of (sv_probes (land_all now http jobs sv)) g = map_of (sv_probes sv) g"
  unfolding land_all_def by (induction jobs arbitrary: sv) (auto simp: land_other)

lemma land_all_hit:
  assumes "distinct (map fst jobs)" "(grp, cands, sticky, promote) \<in> set jobs"
    and "snd (probe_candidates http cands sticky promote) = Inr (url, ms)"
  shows "\<exists>pr. map_of (sv_probes (land_all now http jobs sv)) grp = Some pr \<and> pr_ok pr \<and> pr_seen pr = now \<and> pr_selected pr = Some url
    \<and> pr_models pr = (if ms = [] then [jobj [(''id'', JStr grp)]] else ms)"
  using assms(1,2)
proof (induction jobs arbitrary: sv)
  case (Cons j jobs)
  obtain grp' cands' sticky' promote' where j: "j = (grp', cands', sticky', promote')" by (cases j)
  show ?case
  proof (cases "j = (grp, cands, sticky, promote)")
    case True
    then have "grp \<notin> fst ` set jobs" using Cons.prems(1) by simp
    then have "map_of (sv_probes (land_all now http (j # jobs) sv)) grp
        = map_of (sv_probes (probe_land now grp (probe_candidates http cands sticky promote) sv)) grp"
      using land_all_other True by (simp add: land_all_def)
    moreover obtain tt where "probe_candidates http cands sticky promote = (tt, Inr (url, ms))" using assms(3) by (metis prod.collapse)
    ultimately show ?thesis by (simp add: probe_land_def Let_def map_of_hm_insert)
  next
    case False
    then have "(grp, cands, sticky, promote) \<in> set jobs" using Cons.prems(2) by auto
    with Cons show ?thesis by (simp add: land_all_def j)
  qed
qed simp

lemma distinct_map_filter:
  assumes "distinct (map fst xs)" "\<And>x y. x \<in> set xs \<Longrightarrow> f x = Some y \<Longrightarrow> fst y = fst x"
  shows "distinct (map fst (List.map_filter f xs))"
  using assms
proof (induction xs)
  case (Cons x xs)
  have "fst ` set (List.map_filter f xs) \<subseteq> fst ` set xs" proof
    fix k assume "k \<in> fst ` set (List.map_filter f xs)"
    then obtain y where y: "k = fst y" "y \<in> set (List.map_filter f xs)" by blast
    then obtain x' where "x' \<in> set xs" "f x' = Some y" unfolding in_map_filter by (metis imageE)
    with y(1) Cons.prems(2) [of x' y] show "k \<in> fst ` set xs" by auto
  qed
  moreover have "distinct (map fst (List.map_filter f xs))" using Cons by simp
  moreover have "fst y \<notin> fst ` set xs" if "f x = Some y" for y using Cons.prems(1) Cons.prems(2) [of x y] that by simp
  ultimately show ?case by (cases "f x") (auto simp: List.map_filter_simps)
qed (simp add: List.map_filter_simps)

lemma distinct_jobs:
  assumes "distinct (map fst tbl)" "named tbl"
  shows "distinct (map fst (probe_jobs now tbl sv))"
  unfolding probe_jobs_def
  by (rule distinct_map_filter [OF assms(1)])
     (use assms(2) in \<open>auto simp: named_def split: option.splits if_splits prod.splits\<close>)

lemma named_announced: "named (announced_groups sv now local)"
  using named_fold_put [of "[]" "announced_entries sv now local"] by (simp add: named_def announced_groups_def)

lemma announced_name: "map_of (announced_groups sv now local) g = Some e \<Longrightarrow> ge_group e = g"
  using named_announced [of sv now local] by (fastforce simp: named_def dest: map_of_SomeD)

lemma known_nodes_frame: "known_nodes (sv\<lparr>sv_probes := ps\<rparr>) = known_nodes sv" "known_nodes (sv\<lparr>sv_live := l\<rparr>) = known_nodes sv"
  by (simp_all add: known_nodes_def)

lemma announced_frame:
  "announced_groups (sv\<lparr>sv_probes := ps\<rparr>) now local = announced_groups sv now local"
  "announced_groups (sv\<lparr>sv_live := l\<rparr>) now local = announced_groups sv now local"
proof -
  have f: "fresh_view (sv\<lparr>sv_probes := ps\<rparr>) now = fresh_view sv now" "fresh_view (sv\<lparr>sv_live := l\<rparr>) now = fresh_view sv now"
    by (simp_all add: fresh_view_def fun_eq_iff split: option.split)
  show "announced_groups (sv\<lparr>sv_probes := ps\<rparr>) now local = announced_groups sv now local"
    "announced_groups (sv\<lparr>sv_live := l\<rparr>) now local = announced_groups sv now local"
    by (simp_all add: announced_groups_def announced_entries_def known_nodes_frame f cong: option.case_cong)
qed

lemma age_groups_frame: "\<exists>l. fst (age_groups sv now tbl) = sv\<lparr>sv_live := l\<rparr>"
  by (simp add: age_groups_def split: prod.split) blast

lemma prober_round_land: "prober_round now local http sv = (let tbl = announced_groups sv now local; sv1 = probe_begin tbl sv
    in age_groups (land_all now http (probe_jobs now tbl sv1) sv1) now tbl)"
  by (simp add: prober_round_def land_all_def Let_def)

text \<open>What the prober leaves for a group one of whose addresses replies.\<close>

definition sticky_of :: "serve \<Rightarrow> string \<Rightarrow> string option" where
  "sticky_of sv g = Option.bind (map_of (sv_probes sv) g) pr_selected"

definition promote_due :: "serve \<Rightarrow> nat \<Rightarrow> string \<Rightarrow> bool" where
  "promote_due sv now g = (case map_of (sv_probes sv) g of Some p \<Rightarrow> sc_probe_promote (sv_cfg sv) \<le> now - pr_promoted_at p | None \<Rightarrow> True)"

lemma job_of_group:
  assumes "map_of tbl g = Some e" "ge_group e = g" "ge_openai e = Some ep" "ep_candidates ep \<noteq> []"
  shows "(g, ep_candidates ep, sticky_of sv g, promote_due sv now g) \<in> set (probe_jobs now tbl (probe_begin tbl sv))"
proof -
  have "map_of (sv_probes (probe_begin tbl sv)) g = map_of (sv_probes sv) g" "sv_cfg (probe_begin tbl sv) = sv_cfg sv"
    using assms(1,3) map_of_hm_retain_key [of "\<lambda>k. case map_of tbl k of Some e \<Rightarrow> ge_openai e \<noteq> None | None \<Rightarrow> False" "sv_probes sv" g]
    by (simp_all add: probe_begin_def)
  then show ?thesis unfolding probe_jobs_def in_map_filter
    by (intro image_eqI [OF _ map_of_SomeD [OF assms(1)]])
       (use assms in \<open>auto simp: sticky_of_def promote_due_def split: option.split\<close>)
qed

lemma prober_round_health:
  assumes e: "map_of (announced_groups sv now local) g = Some e" "ge_openai e = Some ep"
    and c: "c \<in> set (ep_candidates ep)" "answers http c"
  shows "\<exists>url ms pr. chosen http (ep_candidates ep) (sticky_of sv g) (promote_due sv now g) = Some url
    \<and> ms = named_models (projr (models_reply http url))
    \<and> map_of (sv_probes (fst (prober_round now local http sv))) g = Some pr \<and> pr_ok pr \<and> pr_seen pr = now \<and> pr_selected pr = Some url
    \<and> pr_models pr = (if ms = [] then [jobj [(''id'', JStr g)]] else ms)
    \<and> ((ge_placed e \<longrightarrow> ge_running e \<noteq> 0) \<longrightarrow> (\<exists>l. map_of (sv_live (fst (prober_round now local http sv))) g = Some l \<and> lv_ok_at l = now))"
proof -
  let ?tbl = "announced_groups sv now local"
  let ?sv1 = "probe_begin ?tbl sv"
  let ?jobs = "probe_jobs now ?tbl ?sv1"
  let ?sv2 = "land_all now http ?jobs ?sv1"
  have d: "distinct (map fst ?tbl)" by (rule bt_wf_distinct [OF bt_wf_announced])
  have grp: "ge_group e = g" using announced_name e(1) by blast
  have ne: "ep_candidates ep \<noteq> []" using c(1) by auto
  obtain url where url: "chosen http (ep_candidates ep) (sticky_of sv g) (promote_due sv now g) = Some url"
    using chosen_some [OF c] by blast
  let ?ms = "named_models (projr (models_reply http url))"
  have "snd (probe_candidates http (ep_candidates ep) (sticky_of sv g) (promote_due sv now g)) = Inr (url, ?ms)"
    using url by (simp add: probe_choice)
  from land_all_hit [OF distinct_jobs [OF d named_announced] job_of_group [OF e(1) grp e(2) ne] this] obtain pr where
    pr: "map_of (sv_probes ?sv2) g = Some pr" "pr_ok pr" "pr_seen pr = now" "pr_selected pr = Some url"
      "pr_models pr = (if ?ms = [] then [jobj [(''id'', JStr g)]] else ?ms)"
    by blast
  have "\<exists>l. map_of (sv_live (fst (age_groups ?sv2 now ?tbl))) g = Some l \<and> lv_ok_at l = now" if "ge_placed e \<longrightarrow> ge_running e \<noteq> 0"
  proof -
    have "in_service ?sv2 now e = Inr ()" using pr(1,2,3) e(2) ne that grp by (auto simp: in_service_def health_of_def)
    then show ?thesis using e(1) by (simp add: age_groups_live [OF d] lv_round_def new_liveness_def)
  qed
  moreover have "sv_probes (fst (age_groups ?sv2 now ?tbl)) = sv_probes ?sv2" using age_groups_frame [of ?sv2 now ?tbl] by auto
  ultimately show ?thesis using pr url by (auto simp: prober_round_land Let_def)
qed

text \<open>A working route is kept. After a round of the prober the gateway's traffic for a group goes to the
  address it went to before, as long as that address is still announced and replies and no promotion
  is due; in every other round it goes to the highest ranked address that replies.\<close>

theorem working_route_kept:
  assumes "map_of (announced_groups sv now local) g = Some e" "ge_openai e = Some ep" "c \<in> set (ep_candidates ep)" "answers http c"
  shows "endpoint_url (fst (prober_round now local http sv)) e =
    (case map_of (sv_probes sv) g of
       Some p \<Rightarrow> (case pr_selected p of
           Some s \<Rightarrow> if s \<in> set (ep_candidates ep) \<and> answers http s \<and> now - pr_promoted_at p < sc_probe_promote (sv_cfg sv) then Some s
             else List.find (answers http) (ep_candidates ep)
         | None \<Rightarrow> List.find (answers http) (ep_candidates ep))
     | None \<Rightarrow> List.find (answers http) (ep_candidates ep))"
proof -
  from prober_round_health [OF assms] obtain pr url where
    "map_of (sv_probes (fst (prober_round now local http sv))) g = Some pr" "pr_selected pr = Some url"
    "chosen http (ep_candidates ep) (sticky_of sv g) (promote_due sv now g) = Some url" by blast
  moreover have "ge_group e = g" using announced_name assms(1) by blast
  ultimately have "endpoint_url (fst (prober_round now local http sv)) e = chosen http (ep_candidates ep) (sticky_of sv g) (promote_due sv now g)"
    using assms(2) by (simp add: endpoint_url_def)
  then show ?thesis by (auto simp: chosen_def sticky_of_def promote_due_def not_le split: option.split)
qed

lemma served_is_routed:
  assumes "map_of (group_table sv now local) g = Some e" "serves sv now e m"
  shows "map_of (model_table sv now local) m \<noteq> None"
proof -
  from assms(2) obtain x where "entry_of_group sv now e m = Some x" by (auto simp: serves_entry)
  then obtain models where "health_of sv now e = Inr models" "x \<in> set models" "as_str (jget x ''id'') = Some m"
    by (auto simp: entry_of_group_def dest: find_Some_in split: sum.splits)
  then have "(m, x, e) \<in> set (offers sv now (group_table sv now local))"
    using map_of_SomeD [OF assms(1)] by (force simp: offers_def in_map_filter)
  then have "map_of (offers sv now (group_table sv now local)) m \<noteq> None" unfolding map_of_eq_None_iff by (metis fst_conv image_eqI)
  then show ?thesis by (simp add: model_table_offers map_of_or_insert_all map_of_map_value)
qed

lemma prober_round_announced: "announced_groups (fst (prober_round now local http sv)) now' local = announced_groups sv now' local"
proof -
  have b: "\<exists>ps. probe_begin tbl sv = sv\<lparr>sv_probes := ps\<rparr>" for tbl by (auto simp: probe_begin_def)
  obtain ps where "probe_begin (announced_groups sv now local) sv = sv\<lparr>sv_probes := ps\<rparr>" using b by blast
  moreover obtain qs where "land_all now http (probe_jobs now (announced_groups sv now local) (sv\<lparr>sv_probes := ps\<rparr>)) (sv\<lparr>sv_probes := ps\<rparr>)
      = sv\<lparr>sv_probes := qs\<rparr>" using land_all_frame [of now http _ "sv\<lparr>sv_probes := ps\<rparr>"] by force
  moreover obtain l where "fst (age_groups (sv\<lparr>sv_probes := qs\<rparr>) now (announced_groups sv now local)) = sv\<lparr>sv_probes := qs, sv_live := l\<rparr>"
    using age_groups_frame [of "sv\<lparr>sv_probes := qs\<rparr>"] by blast
  ultimately show ?thesis by (simp add: prober_round_land Let_def announced_frame)
qed

text \<open>C23: an endpoint that replies becomes a route. After one round of the prober, a group that is announced,
  whose ranks run if it has any, and one of whose allowed addresses replies, is in the table and
  healthy; the gateway routes to an address of it that replied; and every model the reply names, or
  the group's own name where it names none, can be asked for.\<close>

theorem answered_probe_is_routed:
  assumes "map_of (announced_groups sv now local) g = Some e" "ge_openai e = Some ep" "c \<in> set (ep_candidates ep)" "answers http c"
    and "ge_placed e \<longrightarrow> ge_running e \<noteq> 0" "fst (prober_round now local http sv) = sv'"
  shows "\<exists>url models. url \<in> set (ep_candidates ep) \<and> answers http url \<and> endpoint_url sv' e = Some url
    \<and> map_of (group_table sv' now local) g = Some e \<and> health_of sv' now e = Inr models
    \<and> models = (let ms = named_models (projr (models_reply http url)) in if ms = [] then [jobj [(''id'', JStr g)]] else ms)
    \<and> model_ids models \<noteq> [] \<and> (\<forall>m \<in> set (model_ids models). map_of (model_table sv' now local) m \<noteq> None)"
proof -
  from prober_round_health [OF assms(1-4)] assms(5) obtain url ms pr l where
    "chosen http (ep_candidates ep) (sticky_of sv g) (promote_due sv now g) = Some url" "ms = named_models (projr (models_reply http url))"
    and pr: "map_of (sv_probes sv') g = Some pr" "pr_ok pr" "pr_seen pr = now" "pr_selected pr = Some url"
      "pr_models pr = (if ms = [] then [jobj [(''id'', JStr g)]] else ms)"
    and l: "map_of (sv_live sv') g = Some l" "lv_ok_at l = now"
    unfolding assms(6) by blast
  then have url: "url \<in> set (ep_candidates ep)" "answers http url" "ms = named_models (projr (models_reply http url))"
    using chosen_answers by blast+
  have grp: "ge_group e = g" using announced_name assms(1) by blast
  have health: "health_of sv' now e = Inr (pr_models pr)"
    using pr(1,2,3) assms(2,3,5) grp by (auto simp: health_of_def)
  have "map_of (announced_groups sv' now local) g = Some e" using assms(1,6) prober_round_announced by metis
  moreover have "\<not> lv_retired now ttl l" for ttl using l(2) by (simp add: lv_retired_def)
  ultimately have tab: "map_of (group_table sv' now local) g = Some e"
    using map_of_hm_retain_key [of "\<lambda>name. case map_of (sv_live sv') name of Some l \<Rightarrow> \<not> lv_retired now (sc_model_ttl (sv_cfg sv')) l | None \<Rightarrow> True"
      "announced_groups sv' now local" g] l(1) by (simp add: hm_retain_def group_table_def)
  have "serves sv' now e m" if "m \<in> set (model_ids (pr_models pr))" for m using that health by (simp add: serves_def)
  then have routed: "\<forall>m \<in> set (model_ids (pr_models pr)). map_of (model_table sv' now local) m \<noteq> None"
    using served_is_routed [OF tab] by blast
  have "model_ids (pr_models pr) \<noteq> []"
  proof (cases "ms = []")
    case True
    then show ?thesis using pr(5) by (simp add: model_ids_def jget_jobj List.map_filter_simps)
  next
    case False
    then obtain m ns where "ms = m # ns" by (cases ms) auto
    moreover from this have "m \<in> set (named_models (projr (models_reply http url)))" using url(3) by simp
    then have "as_str (jget m ''id'') \<noteq> None" by (simp add: named_models_def)
    ultimately show ?thesis using pr(5) by (auto simp: model_ids_def List.map_filter_simps)
  qed
  moreover have "endpoint_url sv' e = Some url" using assms(2) grp pr(1,4) by (simp add: endpoint_url_def)
  ultimately show ?thesis using url pr(5) tab health routed by (intro exI [of _ url] exI [of _ "pr_models pr"]) (simp add: Let_def)
qed

section \<open>The life of a watch\<close>

lemma learn_peer_holder:
  assumes "map_of (sv_nodes sv) nid = Some x"
  shows "\<exists>x'. map_of (sv_nodes (fst (learn_peer local peer (sv, sps)))) nid = Some x' \<and> nw_addr x' = nw_addr x"
proof -
  have alts: "nw_addr (fold (\<lambda>a w. if a = nw_addr w then w else w\<lparr>nw_alternates := bs_insert a (nw_alternates w)\<rparr>) as w) = nw_addr w" for as w
    by (induction as arbitrary: w) auto
  have nodes: "sv_nodes (fst (ensure_watched a os sv)) = sv_nodes sv" for a os
    using ensure_watched_cases [of a os sv] by auto
  obtain j p where peer: "peer = (j, p)" by (cases peer)
  show ?thesis
  proof (cases "map_of (sv_nodes sv) j")
    case (Some w)
    then show ?thesis using assms
      by (auto simp: learn_peer_def peer alts map_of_hm_insert Let_def split: option.split prod.split)
  next
    case None
    then show ?thesis using assms nodes
      by (auto simp: learn_peer_def peer Let_def split: option.split prod.split dest: arg_cong [of _ _ "\<lambda>z. sv_nodes (fst z)"])
  qed
qed

lemma learn_peers_holder:
  "map_of (sv_nodes (fst acc)) nid = Some x \<Longrightarrow>
    \<exists>x'. map_of (sv_nodes (fst (fold (learn_peer local) ps acc))) nid = Some x' \<and> nw_addr x' = nw_addr x"
proof (induction ps arbitrary: acc x)
  case (Cons p ps)
  obtain sv sps where acc: "acc = (sv, sps)" by (cases acc)
  with Cons.prems learn_peer_holder [of sv nid x local p sps]
  obtain x' where "map_of (sv_nodes (fst (learn_peer local p acc))) nid = Some x'" "nw_addr x' = nw_addr x" by auto
  with Cons.IH [OF this(1)] show ?case by auto
qed auto

text \<open>C40: a replaced watch goes on. A node's watch whose view has gone stale loses the node to another
  address that replies, and its row is dropped; but its task is not told. When its own address replies
  again it puts its row back and stays, so the node is watched twice, and the claim on the node
  remains with the other watch.\<close>

theorem replaced_watch_comes_back:
  assumes "map_of (sv_nodes sv) nid = Some x" "nw_addr x \<noteq> addr"
    and "case map_of (sv_daemons sv) (nw_addr x) of Some v \<Rightarrow> \<not> fresh_view sv now v | None \<Rightarrow> True"
    and "wt_addr w = nw_addr x" "wt_node w = Some nid" "http (nw_addr x) = Inr snap" "as_str (jget snap ''node_id'') = Some nid"
    and "claim_node now nid addr sv = (ok, sv1)" "watch_poll now' local http w sv1 = (sv2, w2, sps)"
  shows "ok \<and> \<not> hm_has (sv_daemons sv1) (nw_addr x) \<and> w2 \<noteq> None \<and> hm_has (sv_daemons sv2) (nw_addr x)
    \<and> (\<exists>y. map_of (sv_nodes sv2) nid = Some y \<and> nw_addr y = addr)"
proof -
  have claim: "ok" "sv1 = drop_watch (nw_addr x) (sv\<lparr>sv_nodes := hm_insert nid
      \<lparr>nw_addr = addr, nw_alternates = bs_insert (nw_addr x) (bs_remove addr (nw_alternates x))\<rparr> (sv_nodes sv)\<rparr>)"
    using assms(1,2,3,8) by (auto simp: claim_node_def split: option.splits)
  have gone1: "\<not> hm_has (sv_daemons sv1) (nw_addr x)" by (simp add: claim(2) drop_watch_def hm_has_def map_of_hm_remove)
  have holder: "map_of (sv_nodes sv1) nid = Some \<lparr>nw_addr = addr, nw_alternates = bs_insert (nw_addr x) (bs_remove addr (nw_alternates x))\<rparr>"
    by (simp add: claim(2) drop_watch_def map_of_hm_insert)
  let ?learnt = "if sc_discover_peers (sv_cfg sv1) then fold (learn_peer local) (entries (jget snap ''peers'')) (sv1, []) else (sv1, [])"
  have "\<exists>y. map_of (sv_nodes (fst ?learnt)) nid = Some y \<and> nw_addr y = addr"
    using learn_peers_holder [of "(sv1, [])" nid _ local "entries (jget snap ''peers'')"] holder by auto
  moreover have "\<exists>v. poll_status now' local (nw_addr x) (Inr snap) sv1 =
      (Some nid, (fst ?learnt)\<lparr>sv_daemons := hm_insert (nw_addr x) v (sv_daemons (fst ?learnt))\<rparr>, snd ?learnt)"
    using assms(7) by (auto simp: poll_status_def Let_def split: prod.split)
  ultimately show ?thesis using claim(1) gone1 assms(4-6,9)
    by (auto simp: watch_poll_def watch_answered_def hm_has_def map_of_hm_insert)
qed

lemma fresh_view_error [simp]: "fresh_view sv now (v\<lparr>dv_error := e\<rparr>) = fresh_view sv now v"
  by (simp add: fresh_view_def)

text \<open>Alternates none of which replies: only error messages change.\<close>

lemma try_each_silent:
  assumes "\<forall>a \<in> set alts. isl (http a)"
  shows "\<exists>ds. try_each now local http nid alts sv = (None, sv\<lparr>sv_daemons := ds\<rparr>, []) \<and> map fst ds = map fst (sv_daemons sv)
    \<and> (\<forall>v \<in> set (hm_values ds). \<exists>u \<in> set (hm_values (sv_daemons sv)). dv_seen v = dv_seen u)"
  using assms
proof (induction alts arbitrary: sv)
  case Nil
  then show ?case by (auto intro: exI [of _ "sv_daemons sv"])
next
  case (Cons a alts)
  then obtain e where e: "http a = Inl e" by (cases "http a") auto
  let ?ds = "hm_modify a (\<lambda>v. v\<lparr>dv_error := Some e\<rparr>) (sv_daemons sv)"
  have "\<forall>v \<in> set (hm_values ?ds). \<exists>u \<in> set (hm_values (sv_daemons sv)). dv_seen v = dv_seen u"
    by (force dest!: hm_values_modify simp: hm_values_def)
  with Cons.IH [of "sv\<lparr>sv_daemons := ?ds\<rparr>"] Cons.prems e show ?case
    by (auto simp: poll_status_def split: prod.splits) metis
qed

lemma try_alternates_silent:
  assumes "\<forall>a. isl (http a)"
  shows "\<exists>ds. try_alternates now local http nid cur sv = (None, sv\<lparr>sv_daemons := ds\<rparr>, [])
    \<and> (\<forall>v \<in> set (hm_values ds). \<exists>u \<in> set (hm_values (sv_daemons sv)). dv_seen v = dv_seen u)"
proof -
  define alts where "alts = sort_key (\<lambda>a. starts_with ''127.'' a \<or> starts_with ''::1'' a)
    (case map_of (sv_nodes sv) nid of Some w \<Rightarrow> filter (\<lambda>a. a \<noteq> cur) (nw_alternates w) | None \<Rightarrow> [])"
  have "try_alternates now local http nid cur sv = try_each now local http nid alts sv" by (simp add: try_alternates_def alts_def)
  then show ?thesis using try_each_silent [of alts http now local nid sv] assms by auto
qed

text \<open>A seed's watch can end for good. When another watch holds the node of a daemon named in the settings
  under another address, the seed's watch ends with the seed's address as that watch's alternate; the
  watch that remains is not a seed's, so once the daemon is silent for longer than \<open>model_ttl\<close> it is
  given up as well, and neither address is watched any more.\<close>

theorem merged_seed_is_given_up:
  assumes "wt_seed w" "wt_node w = None" "map_of (sv_nodes sv) nid = Some x" "nw_addr x \<noteq> wt_addr w"
    and "map_of (sv_daemons sv) (nw_addr x) = Some v" "fresh_view sv now v"
    and "wt_addr h = nw_addr x" "\<not> wt_seed h" "wt_node h = Some nid" "wt_failing h = Some t"
    and "watch_answered now nid w sv = (sv1, r1)" "\<forall>a. isl (http a)"
    and "t + sc_model_ttl (sv_cfg sv) < later" "\<forall>u \<in> set (hm_values (sv_daemons sv)). \<not> fresh_view sv later u"
    and "watch_silent later local http h sv1 = (sv2, r2, sps)"
  shows "r1 = None \<and> r2 = None \<and> sps = [] \<and> wt_addr w \<notin> set (sv_watched sv2) \<and> nw_addr x \<notin> set (sv_watched sv2)
    \<and> map_of (sv_nodes sv2) nid = None"
proof -
  have sv1: "sv1 = drop_watch (wt_addr w) (sv\<lparr>sv_nodes := hm_insert nid (x\<lparr>nw_alternates := bs_insert (wt_addr w) (nw_alternates x)\<rparr>) (sv_nodes sv)\<rparr>)"
    and r1: "r1 = None"
    using assms(2-6,11) by (auto simp: watch_answered_def claim_node_def)
  obtain ds where tried: "try_alternates later local http nid (wt_addr h) sv1 = (None, sv1\<lparr>sv_daemons := ds\<rparr>, [])"
    and seen: "\<forall>v \<in> set (hm_values ds). \<exists>u \<in> set (hm_values (sv_daemons sv1)). dv_seen v = dv_seen u"
    using try_alternates_silent [OF assms(12), of later local nid "wt_addr h" sv1] by blast
  have "set (hm_values (sv_daemons sv1)) \<subseteq> set (hm_values (sv_daemons sv))"
    by (auto simp: sv1 drop_watch_def hm_remove_def hm_values_def)
  moreover have "fresh_view (sv1\<lparr>sv_daemons := ds\<rparr>) later v = fresh_view sv later u" if "dv_seen v = dv_seen u" for u v
    using that by (cases "dv_seen u") (simp_all add: fresh_view_def sv1 drop_watch_def)
  ultimately have "\<forall>v \<in> set (hm_values ds). \<not> fresh_view (sv1\<lparr>sv_daemons := ds\<rparr>) later v"
    using seen assms(14) by blast
  then have "\<not> published_alive later (Some nid) (wt_addr h) (sv1\<lparr>sv_daemons := ds\<rparr>)" by (simp add: published_alive_def Let_def)
  moreover have "sc_model_ttl (sv_cfg (sv1\<lparr>sv_daemons := ds\<rparr>)) = sc_model_ttl (sv_cfg sv)" by (simp add: sv1 drop_watch_def)
  moreover have late: "sc_model_ttl (sv_cfg sv) < later - t" using assms(13) by simp
  ultimately have "sv2 = (let s = drop_watch (wt_addr h) (sv1\<lparr>sv_daemons := ds\<rparr>) in s\<lparr>sv_nodes := hm_remove nid (sv_nodes s)\<rparr>) \<and> r2 = None \<and> sps = []"
    using assms(8-10,15) late tried by (auto simp: watch_silent_def Let_def)
  then show ?thesis using r1 assms(7) by (auto simp: sv1 drop_watch_def map_of_hm_remove Let_def)
qed

end
