(* ===== verification/WatchExamples.thy ===== *)
theory WatchExamples
  imports ServeExamples WatchLife
begin

text \<open>
  The gateway at work on the snapshots of \<open>ServeExamples\<close>: an announcement, a round of the prober, two
  watches of one node, a stream of frames, and the events of a daemon.
\<close>

section \<open>An announcement\<close>

definition announced_node :: json where
  "announced_node = jobj [(''node_id'', JStr ''n''), (''boot_id'', JStr ''b''), (''seq'', jnat 1), (''http'', JStr ''10.0.0.9:80''),
     (''addrs'', jstrs [''192.168.0.9'', ''10.0.0.9''])]"

lemma parse_80: "parse_uint 65535 10 ''80'' = Some 80"
  by (simp add: parse_uint_def to_digit_def)

lemma heard_node: "fst (snd (hear_serve [] announced_node ''10.0.0.9'' gateway [])) = [(''10.0.0.9:80'', [''10.0.0.9:80'', ''10.0.0.9:80''])]"
proof -
  have t: "text_of announced_node ''node_id'' = ''n''" "text_of announced_node ''boot_id'' = ''b''" "as_u64 (jget announced_node ''seq'') = Some 1"
    "Option.bind (as_str (jget announced_node ''http'')) (rsplit_once (CHR '':'')) = Some (''10.0.0.9'', ''80'')"
    "permits (sc_allowed_sources (sv_cfg gateway)) ''10.0.0.9'' []" by code_simp+
  have "snd (hear_node [] announced_node ''10.0.0.9'' ''80'' gateway) = [(''10.0.0.9:80'', [''10.0.0.9:80'', ''10.0.0.9:80''])]" by code_simp
  with t show ?thesis by (simp add: hear_serve_def replayed_def parse_80 split_def)
qed

theorem announced_addresses_allowed_witness:
  "\<exists>sv' seen'. hear_serve [] announced_node ''10.0.0.9'' gateway [] = (sv', [(''10.0.0.9:80'', [''10.0.0.9:80'', ''10.0.0.9:80''])], seen')
    \<and> (\<exists>port. reaches_allowed (sc_allowed_sources (sv_cfg gateway)) [] port ''10.0.0.9:80'')"
proof -
  obtain sv' seen' where h: "hear_serve [] announced_node ''10.0.0.9'' gateway [] = (sv', [(''10.0.0.9:80'', [''10.0.0.9:80'', ''10.0.0.9:80''])], seen')"
    using heard_node by (metis prod.collapse)
  from announced_addresses_allowed [OF this] h show ?thesis by auto
qed

section \<open>A round of the prober\<close>

definition engine :: "string \<Rightarrow> string + json" where
  "engine url = (if url = ''http://10.0.0.1:80/v1/models'' then Inr (jobj [(''data'', JArr [jobj [(''id'', JStr ''m'')]])]) else Inl ''refused'')"

definition entry_g :: group_entry where
  "entry_g = the (map_of (announced_groups gateway 20 []) ''g'')"

definition endpoint_g :: endpoint where
  "endpoint_g = the (ge_openai entry_g)"

lemma entry_g: "map_of (announced_groups gateway 20 []) ''g'' = Some entry_g" "ge_openai entry_g = Some endpoint_g"
    "''http://10.0.0.1:80/v1'' \<in> set (ep_candidates endpoint_g)" "answers engine ''http://10.0.0.1:80/v1''"
    "ge_placed entry_g \<longrightarrow> ge_running entry_g \<noteq> 0" "ep_candidates endpoint_g = [''http://10.0.0.1:80/v1'']"
  by code_simp+

theorem answered_probe_is_routed_witness:
  "\<exists>sv'. fst (prober_round 20 [] engine (gateway\<lparr>sv_probes := []\<rparr>)) = sv' \<and> endpoint_url sv' entry_g = Some ''http://10.0.0.1:80/v1''
    \<and> map_of (model_table sv' 20 []) ''m'' \<noteq> None"
proof -
  have a: "map_of (announced_groups (gateway\<lparr>sv_probes := []\<rparr>) 20 []) ''g'' = Some entry_g" by (simp add: announced_frame entry_g(1))
  have ids: "model_ids (let ms = named_models (projr (models_reply engine ''http://10.0.0.1:80/v1'')) in if ms = [] then [jobj [(''id'', JStr ''g'')]] else ms) = [''m'']"
    by code_simp
  from answered_probe_is_routed [OF a entry_g(2,3,4,5) refl] entry_g(6) ids show ?thesis by auto
qed

theorem working_route_kept_witness:
  "endpoint_url (fst (prober_round 20 [] engine gateway)) entry_g = Some ''http://10.0.0.1:80/v1''
    \<and> pr_selected (probed ''m'') = Some ''http://10.0.0.1:80/v1'' \<and> (20::nat) - pr_promoted_at (probed ''m'') < sc_probe_promote (sv_cfg gateway)"
proof -
  have p: "map_of (sv_probes gateway) ''g'' = Some (probed ''m'')" "pr_selected (probed ''m'') = Some ''http://10.0.0.1:80/v1''"
    "(20::nat) - pr_promoted_at (probed ''m'') < sc_probe_promote (sv_cfg gateway)" by code_simp+
  with working_route_kept [OF entry_g(1-4)] entry_g(3,4) show ?thesis by simp
qed

section \<open>Two watches of a node\<close>

definition held_node :: serve where
  "held_node = gateway\<lparr>sv_nodes := [(''n'', \<lparr>nw_addr = ''a:80'', nw_alternates = []\<rparr>)]\<rparr>"

definition watch_on :: "string \<Rightarrow> bool \<Rightarrow> string option \<Rightarrow> watch" where
  "watch_on a seed nid = \<lparr>wt_addr = a, wt_seed = seed, wt_node = nid, wt_failing = Some 30, wt_untried = [], wt_stream = None\<rparr>"

theorem replaced_watch_comes_back_witness:
  "\<exists>sv1 sv2 w2 sps. claim_node 100 ''n'' ''c:80'' held_node = (True, sv1) \<and> watch_poll 101 [] (\<lambda>_. Inr (jobj [(''node_id'', JStr ''n'')]))
      (watch_on ''a:80'' False (Some ''n'')) sv1 = (sv2, w2, sps) \<and> w2 \<noteq> None \<and> hm_has (sv_daemons sv2) ''a:80''
    \<and> (\<exists>y. map_of (sv_nodes sv2) ''n'' = Some y \<and> nw_addr y = ''c:80'')"
proof -
  let ?http = "\<lambda>_::string. Inr (jobj [(''node_id'', JStr ''n'')]) :: string + json"
  obtain ok sv1 where c: "claim_node 100 ''n'' ''c:80'' held_node = (ok, sv1)" by (cases "claim_node 100 ''n'' ''c:80'' held_node")
  obtain sv2 w2 sps where p: "watch_poll 101 [] ?http (watch_on ''a:80'' False (Some ''n'')) sv1 = (sv2, w2, sps)"
    by (cases "watch_poll 101 [] ?http (watch_on ''a:80'' False (Some ''n'')) sv1")
  have h: "map_of (sv_nodes held_node) ''n'' = Some \<lparr>nw_addr = ''a:80'', nw_alternates = []\<rparr>" by code_simp
  have stale: "case map_of (sv_daemons held_node) ''a:80'' of Some v \<Rightarrow> \<not> fresh_view held_node 100 v | None \<Rightarrow> True" by code_simp
  have n: "as_str (jget (jobj [(''node_id'', JStr ''n'')]) ''node_id'') = Some ''n''" by code_simp
  from replaced_watch_comes_back [OF h, of "''c:80''" 100 "watch_on ''a:80'' False (Some ''n'')" ?http, OF _ _ _ _ _ n c p] stale
  show ?thesis using c p by (simp add: watch_on_def)
qed

theorem merged_seed_is_given_up_witness:
  "\<exists>sv1 sv2. watch_answered 20 ''n'' (watch_on ''127.0.0.1:80'' True None) held_node = (sv1, None)
    \<and> watch_silent 100 [] (\<lambda>_. Inl ''refused'') (watch_on ''a:80'' False (Some ''n'')) sv1 = (sv2, None, [])
    \<and> ''127.0.0.1:80'' \<notin> set (sv_watched sv2) \<and> ''a:80'' \<notin> set (sv_watched sv2)"
proof -
  let ?http = "\<lambda>_::string. Inl ''refused'' :: string + json"
  let ?w = "watch_on ''127.0.0.1:80'' True None" and ?h = "watch_on ''a:80'' False (Some ''n'')"
  obtain sv1 r1 where a: "watch_answered 20 ''n'' ?w held_node = (sv1, r1)" by (cases "watch_answered 20 ''n'' ?w held_node")
  obtain sv2 r2 sps where p: "watch_silent 100 [] ?http ?h sv1 = (sv2, r2, sps)" by (cases "watch_silent 100 [] ?http ?h sv1")
  have x: "map_of (sv_nodes held_node) ''n'' = Some \<lparr>nw_addr = ''a:80'', nw_alternates = []\<rparr>" by code_simp
  obtain v where v: "map_of (sv_daemons held_node) ''a:80'' = Some v" "fresh_view held_node 20 v"
  proof -
    have "case map_of (sv_daemons held_node) ''a:80'' of Some v \<Rightarrow> fresh_view held_node 20 v | None \<Rightarrow> False" by code_simp
    then show ?thesis using that by (auto split: option.splits)
  qed
  have t: "30 + sc_model_ttl (sv_cfg held_node) < 100" by code_simp
  have stale: "\<forall>u \<in> set (hm_values (sv_daemons held_node)). \<not> fresh_view held_node 100 u" by code_simp
  have w: "wt_seed ?w" "wt_node ?w = None" "nw_addr \<lparr>nw_addr = ''a:80'', nw_alternates = []\<rparr> \<noteq> wt_addr ?w"
    "wt_addr ?h = nw_addr \<lparr>nw_addr = ''a:80'', nw_alternates = []\<rparr>" "\<not> wt_seed ?h" "wt_node ?h = Some ''n''" "wt_failing ?h = Some 30"
    by (simp_all add: watch_on_def)
  have "r1 = None \<and> r2 = None \<and> sps = [] \<and> wt_addr ?w \<notin> set (sv_watched sv2) \<and> ''a:80'' \<notin> set (sv_watched sv2)"
    using merged_seed_is_given_up [OF w(1,2) x w(3) _ v(2) w(4-7) a, of ?http 100 "[]"] v(1) t stale p by simp
  with a p show ?thesis by (simp add: watch_on_def)
qed

section \<open>A stream and its events\<close>

theorem event_stream_reads_back_witness:
  "\<exists>buf' got'. es_next [] (map ReadBytes [[0x81, 2, 104], [105, 0x89], [0]]) = (NextText ''hi'', buf', map ReadBytes got')
    \<and> buf' @ concat got' = concat (map wire_item [None])"
proof -
  have "sendable (Some ''hi'')" "sendable None"
    by (simp_all add: sendable_def MAX_WS_FRAME_def)
  moreover have "[] @ concat [[0x81, 2, 104], [105, 0x89], [0]] = concat (map wire_item [Some ''hi'', None])" by code_simp
  ultimately have "case first_text [Some ''hi'', None] of
      Some (t, later) \<Rightarrow> \<exists>buf' got'. es_next [] (map ReadBytes [[0x81, 2, 104], [105, 0x89], [0]]) = (NextText t, buf', map ReadBytes got')
        \<and> [] \<notin> set got' \<and> buf' @ concat got' = concat (map wire_item later)
    | None \<Rightarrow> es_next [] (map ReadBytes [[0x81, 2, 104], [105, 0x89], [0]]) = (NextTick, [], [])"
    by (intro event_stream_reads_back) auto
  then show ?thesis by (simp add: first_text_def) blast
qed

definition calm :: env where
  "calm = \<lparr>e_now = 1, e_cfg = \<lparr>pg_pending_timeout_ms = 1, agent_degraded_after_ms = 1, agent_dead_after_ms = 1, history_keep_ms = 1,
     peer_stale_after_ms = 1, peer_dead_after_ms = 1, election_hold_down_ms = 1, election_boot_wait_ms = 1,
     probe_interval_ms = 1, probe_timeout_ms = 1, island_placement = True, island_hold_down_ms = 1,
     host_connect_timeout_ms = 1, slow_call_warn_ms = 1, agent_ping_interval_ms = 1, peer_status_interval_ms = 1,
     tcp_dead_after_ms = 1, session_reap_grace_ms = 1\<rparr>, e_local_addrs = [], e_local_tags = [], e_local_ifaces = [], e_local_macs = [],
     e_all_local_addrs = [], e_send_err = (\<lambda>_ _. None), e_sub_ok = (\<lambda>_. True), e_debug = (\<lambda>_. [])\<rparr>"

definition young_daemon :: state where
  "young_daemon = (new_state ''10.0.0.1'' ''box'' [] ''b'')\<lparr>node_id := ''n''\<rparr>"

definition row_set :: "(string \<times> patch list \<times> string) list" where
  "row_set = [(''agent_up'', [patch_set [''groups'', ''g''] (JStr ''up'')], [])]"

definition young_events :: "json list" where
  "young_events = emitted ''n'' 0 [(1, hd row_set)]"


end
