(* ===== verification/ServeProxy.thy ===== *)
theory ServeProxy
  imports ServeWatch ServeWs Config
begin

text \<open>
  The OpenAI route of the gateway (\<open>rust/mentatd-serve/src/proxy.rs\<close>), with the HTTP client of
  \<open>rust/mentatd-serve/src/main.rs\<close> it sends through and the table of requests in flight of
  \<open>rust/mentatd-serve/src/ui.rs\<close>. What a connection does with a request is an argument. Parameters stand for
  what other crates provide: the reader and the text of JSON, and the text of a status code; the text
  of a duration in seconds is one as well.
\<close>

section \<open>Sending\<close>

text \<open>What becomes of one request under its timeout.\<close>

datatype 'r attempt = Responded 'r | ConnectFailed string | RequestFailed string | TimedOut

record send_error =
  se_msg :: string
  se_connect :: bool
  se_timeout :: bool

definition timeout_text :: "(nat \<Rightarrow> string) \<Rightarrow> nat \<Rightarrow> string" where
  "timeout_text secs t = ''timeout after '' @ secs t @ ''s''"

definition send_once_checked :: "(nat \<Rightarrow> string) \<Rightarrow> nat \<Rightarrow> 'r attempt \<Rightarrow> send_error + 'r" where
  "send_once_checked secs t a = (case a of
     Responded r \<Rightarrow> Inr r
   | ConnectFailed e \<Rightarrow> Inl \<lparr>se_msg = e, se_connect = True, se_timeout = False\<rparr>
   | RequestFailed e \<Rightarrow> Inl \<lparr>se_msg = e, se_connect = False, se_timeout = False\<rparr>
   | TimedOut \<Rightarrow> Inl \<lparr>se_msg = timeout_text secs t, se_connect = False, se_timeout = True\<rparr>)"

definition send_once :: "(nat \<Rightarrow> string) \<Rightarrow> nat \<Rightarrow> 'r attempt \<Rightarrow> string + 'r" where
  "send_once secs t a = map_sum se_msg (\<lambda>r. r) (send_once_checked secs t a)"

text \<open>The retry for requests that may be repeated: \<open>retry\<close> is what the fresh connection would do, and a
  request that cannot be built is not sent.\<close>

definition send :: "(nat \<Rightarrow> string) \<Rightarrow> nat \<Rightarrow> string option \<Rightarrow> 'r attempt \<Rightarrow> 'r attempt \<Rightarrow> string + 'r" where
  "send secs t unbuilt first retry = (case unbuilt of
     Some e \<Rightarrow> Inl e
   | None \<Rightarrow> (case first of
         TimedOut \<Rightarrow> Inl (timeout_text secs t)
       | Responded r \<Rightarrow> Inr r
       | ConnectFailed e \<Rightarrow> Inl e
       | RequestFailed e \<Rightarrow> (case retry of
             TimedOut \<Rightarrow> Inl (timeout_text secs t)
           | Responded r \<Rightarrow> Inr r
           | ConnectFailed e2 \<Rightarrow> Inl (e2 @ '' (first attempt: '' @ e @ '')'')
           | RequestFailed e2 \<Rightarrow> Inl (e2 @ '' (first attempt: '' @ e @ '')''))))"

datatype body_read = BodyBytes string | BodyFailed string | BodyTimeout

definition is_success :: "nat \<Rightarrow> bool" where
  "is_success code \<longleftrightarrow> 200 \<le> code \<and> code < 300"

definition read_json :: "(nat \<Rightarrow> string) \<Rightarrow> (string \<Rightarrow> string + json) \<Rightarrow> nat \<times> body_read \<Rightarrow> string + json" where
  "read_json status_text from_slice resp = (case snd resp of
     BodyTimeout \<Rightarrow> Inl ''timeout reading body''
   | BodyFailed e \<Rightarrow> Inl e
   | BodyBytes b \<Rightarrow> if is_success (fst resp) then from_slice b else Inl (''HTTP '' @ status_text (fst resp)))"

definition http_get_json :: "(nat \<Rightarrow> string) \<Rightarrow> (nat \<Rightarrow> string) \<Rightarrow> (string \<Rightarrow> string + json) \<Rightarrow> nat \<Rightarrow> string option
    \<Rightarrow> (nat \<times> body_read) attempt \<Rightarrow> (nat \<times> body_read) attempt \<Rightarrow> string + json" where
  "http_get_json secs status_text from_slice t unbuilt first retry =
     (case send secs t unbuilt first retry of Inl e \<Rightarrow> Inl e | Inr resp \<Rightarrow> read_json status_text from_slice resp)"

definition http_post_json :: "(nat \<Rightarrow> string) \<Rightarrow> (nat \<Rightarrow> string) \<Rightarrow> (string \<Rightarrow> string + json) \<Rightarrow> nat \<Rightarrow> string option
    \<Rightarrow> (nat \<times> body_read) attempt \<Rightarrow> string + json" where
  "http_post_json secs status_text from_slice t unbuilt a =
     (case unbuilt of Some e \<Rightarrow> Inl e
      | None \<Rightarrow> (case send_once secs t a of Inl e \<Rightarrow> Inl e | Inr resp \<Rightarrow> read_json status_text from_slice resp))"

section \<open>Which upstream path\<close>

definition strip_suffix :: "string \<Rightarrow> string \<Rightarrow> string option" where
  "strip_suffix p s = map_option rev (strip_prefix (rev p) (rev s))"

definition upstream_url :: "string \<Rightarrow> string \<Rightarrow> string" where
  "upstream_url base tail =
     (let base = trim_slashes base
      in case (strip_suffix ''/v1'' base, strip_prefix ''/v1'' tail) of
           (Some _, Some rest) \<Rightarrow> base @ rest
         | (Some r, None) \<Rightarrow> r @ tail
         | (None, _) \<Rightarrow> base @ tail)"

section \<open>Which model\<close>

record routed =
  rt_model :: string
  rt_stream :: bool

definition find_map :: "('a \<Rightarrow> 'b option) \<Rightarrow> 'a list \<Rightarrow> 'b option" where
  "find_map f xs = (case List.map_filter f xs of [] \<Rightarrow> None | y # _ \<Rightarrow> Some y)"

definition trim_quotes :: "string \<Rightarrow> string" where
  "trim_quotes s = (let d = dropWhile (\<lambda>c. c = CHR 0x22) in rev (d (rev (d s))))"

definition boundary_of :: "string \<Rightarrow> string option" where
  "boundary_of content_type =
     (case split_once (CHR '';'') content_type of
        None \<Rightarrow> None
      | Some (kind, params) \<Rightarrow>
          (if to_ascii_lowercase (trim kind) \<noteq> ''multipart/form-data'' then None
           else find_map (\<lambda>p. case split_once (CHR ''='') p of
               None \<Rightarrow> None
             | Some (k, v) \<Rightarrow> if to_ascii_lowercase (trim k) = ''boundary'' then Some (trim_quotes (trim v)) else None)
             (split_on (CHR '';'') params)))"

text \<open>\<open>split_once\<close> with a string.\<close>

definition split_str :: "string \<Rightarrow> string \<Rightarrow> (string \<times> string) option" where
  "split_str p s = map_option (\<lambda>i. (take i s, drop (i + length p) s)) (find_sub s p)"

definition text_part :: "string \<Rightarrow> (string \<times> string) option" where
  "text_part part =
     (case find_sub part (crlf @ crlf) of
        None \<Rightarrow> None
      | Some i \<Rightarrow>
          (let head = to_ascii_lowercase (utf8_lossy (take i part))
           in if contains_str ''filename='' head then None
              else (case split_str (''name='' @ [CHR 0x22]) head of
                  None \<Rightarrow> None
                | Some (_, r) \<Rightarrow> (case split_once (CHR 0x22) r of
                      None \<Rightarrow> None
                    | Some (name, _) \<Rightarrow>
                        (let v = drop (i + 4) part; v1 = (case strip_suffix crlf v of Some u \<Rightarrow> u | None \<Rightarrow> v)
                         in if valid_utf8 v1 then Some (name, v1) else None)))))"

lemma find_sub_bound: "find_sub xs p = Some i \<Longrightarrow> i + length p \<le> length xs"
proof (induction xs p arbitrary: i rule: find_sub.induct)
  case (2 x xs p)
  then show ?case
  proof (cases "take (length p) (x # xs) = p")
    case True
    then have "length p \<le> length (x # xs)" by (metis length_take min.cobounded1)
    with True 2(2) show ?thesis by simp
  qed (use 2 in auto)
qed (auto split: if_splits)

text \<open>The walk from delimiter to delimiter: what lies between two of them is a part. \<open>inside\<close> is false until the
  first one.\<close>

function form_loop :: "string \<Rightarrow> bool \<Rightarrow> string \<Rightarrow> str_map \<Rightarrow> str_map" where
  "form_loop b inside rest out =
     (case find_sub rest (''--'' @ b) of
        None \<Rightarrow> out
      | Some i \<Rightarrow> form_loop b True (drop (i + length b + 2) rest)
          (if inside then (case text_part (take i rest) of Some (n, v) \<Rightarrow> bt_insert n v out | None \<Rightarrow> out) else out))"
  by pat_completeness auto
termination form_loop
proof (relation "measure (\<lambda>(b, inside, rest, out). length rest)")
  fix b rest i
  assume "find_sub rest (''--'' @ b) = Some i"
  from find_sub_bound [OF this] show "((b, True, drop (i + length b + 2) rest, if inside then case text_part (take i rest) of Some (n, v) \<Rightarrow> bt_insert n v out | None \<Rightarrow> out else out), b, inside, rest, out)
      \<in> measure (\<lambda>(b, inside, rest, out). length rest)" for inside :: bool and out :: str_map by auto
qed simp

declare form_loop.simps [simp del]

definition form_fields :: "string \<Rightarrow> string \<Rightarrow> str_map" where
  "form_fields body b = form_loop b False body []"

definition route_by :: "(string \<Rightarrow> string + json) \<Rightarrow> string option \<Rightarrow> string \<Rightarrow> string + routed" where
  "route_by from_slice content_type body =
     (case boundary_of (case content_type of Some ct \<Rightarrow> ct | None \<Rightarrow> []) of
        Some b \<Rightarrow>
          (let flds = form_fields body b
           in case map_of flds ''model'' of
                None \<Rightarrow> Inl ''no model field in the form''
              | Some m \<Rightarrow> Inr \<lparr>rt_model = m, rt_stream = (map_of flds ''stream'' = Some ''true'')\<rparr>)
      | None \<Rightarrow>
          (case from_slice body of
             Inl _ \<Rightarrow> Inl ''body is neither JSON nor multipart/form-data''
           | Inr v \<Rightarrow> (case as_str (jget v ''model'') of
                 None \<Rightarrow> Inl ''no model field in request''
               | Some m \<Rightarrow> Inr \<lparr>rt_model = m, rt_stream = flag_of (jget v ''stream'')\<rparr>)))"

section \<open>Dispatch\<close>

record refusal =
  rl_status :: nat
  rl_body :: json

definition refusal_new :: "nat \<Rightarrow> string \<Rightarrow> refusal" where
  "refusal_new status e = \<lparr>rl_status = status, rl_body = jobj [(''error'', JStr e)]\<rparr>"

definition refusal_message :: "(nat \<Rightarrow> string) \<Rightarrow> refusal \<Rightarrow> string" where
  "refusal_message status_text r =
     (case as_str (jget (rl_body r) ''error'') of Some e \<Rightarrow> e | None \<Rightarrow> ''HTTP '' @ status_text (rl_status r))"

record call =
  cl_model :: string
  cl_tail :: string
  cl_content_type :: "string option"
  cl_accept :: "string option"
  cl_bytes :: string
  cl_deadline :: nat

record upstream =
  up_url :: string
  up_content_type :: string
  up_accept :: "string option"
  up_body :: string

definition upstream_request :: "call \<Rightarrow> string \<Rightarrow> upstream" where
  "upstream_request c base = \<lparr>up_url = upstream_url base (cl_tail c),
     up_content_type = (case cl_content_type c of Some t \<Rightarrow> t | None \<Rightarrow> ''application/json''),
     up_accept = cl_accept c, up_body = cl_bytes c\<rparr>"

definition refusal_of :: "call \<Rightarrow> serve \<Rightarrow> nat \<Rightarrow> net list \<Rightarrow> refusal" where
  "refusal_of c sv now local =
     (let pending = not_ready sv now local; waited = show_nat (sc_model_wait (sv_cfg sv) div 1000)
      in case map_of pending (cl_model c) of
           Some why \<Rightarrow> refusal_new 503 (cl_model c @ '' is not ready after '' @ waited @ ''s: '' @ why)
         | None \<Rightarrow> \<lparr>rl_status = 404, rl_body = jobj
             [(''error'', JStr (''no group serves model '' @ debug_str (cl_model c) @ '' after '' @ waited @ ''s'')),
              (''available'', jstrs (map fst (model_table sv now local))),
              (''not_ready'', jobj (map (\<lambda>(g, why). (g, JStr why)) pending))]\<rparr>)"

text \<open>One turn of the loop: what the gateway knows when it starts, what becomes of the request, and the clock
  where the deadline is compared with it.\<close>

record 'r turn =
  tn_sv :: serve
  tn_local :: "net list"
  tn_now :: nat
  tn_unbuilt :: "string option"
  tn_attempt :: "'r attempt"
  tn_later :: nat

definition turn_route :: "call \<Rightarrow> 'r turn \<Rightarrow> (string \<times> string) option" where
  "turn_route c t = map_of (model_table (tn_sv t) (tn_now t) (tn_local t)) (cl_model c)"

text \<open>The request a turn sends.\<close>

definition turn_sends :: "call \<Rightarrow> 'r turn \<Rightarrow> upstream option" where
  "turn_sends c t = (case turn_route c t of Some (_, base) \<Rightarrow> (if tn_unbuilt t = None then Some (upstream_request c base) else None) | None \<Rightarrow> None)"

datatype 'r outcome = Again | Answered string 'r | RefusedWith refusal

definition dispatch_turn :: "(nat \<Rightarrow> string) \<Rightarrow> (nat \<Rightarrow> string) \<Rightarrow> call \<Rightarrow> 'r turn \<Rightarrow> 'r outcome" where
  "dispatch_turn secs secs0 c t =
     (let timeout = sc_serving_timeout (sv_cfg (tn_sv t))
      in case turn_route c t of
           None \<Rightarrow> if tn_later t < cl_deadline c then Again else RefusedWith (refusal_of c (tn_sv t) (tn_later t) (tn_local t))
         | Some (grp, _) \<Rightarrow>
             (case tn_unbuilt t of
                Some e \<Rightarrow> RefusedWith (refusal_new 502 (''cannot build the upstream request: '' @ e))
              | None \<Rightarrow>
                  (case send_once_checked secs timeout (tn_attempt t) of
                     Inr resp \<Rightarrow> Answered grp resp
                   | Inl e \<Rightarrow>
                       (if se_connect e \<and> tn_later t < cl_deadline c then Again
                        else if se_timeout e then RefusedWith (refusal_new 504 (grp @ '' gave no response within '' @ secs0 timeout @ ''s''))
                        else RefusedWith (refusal_new 502 (grp @ '' did not answer: '' @ se_msg e))))))"

text \<open>The loop over the turns it would take; the first component is what was sent, the last \<open>Again\<close> when the turns
  end before it does.\<close>

fun dispatch :: "(nat \<Rightarrow> string) \<Rightarrow> (nat \<Rightarrow> string) \<Rightarrow> call \<Rightarrow> 'r turn list \<Rightarrow> upstream list \<times> 'r outcome" where
  "dispatch secs secs0 c [] = ([], Again)"
| "dispatch secs secs0 c (t # ts) =
     (let sent = (case turn_sends c t of Some u \<Rightarrow> [u] | None \<Rightarrow> [])
      in case dispatch_turn secs secs0 c t of
           Again \<Rightarrow> (case dispatch secs secs0 c ts of (later, r) \<Rightarrow> (sent @ later, r))
         | r \<Rightarrow> (sent, r))"

section \<open>Requests in flight\<close>

record inflight =
  fl_model :: string
  fl_group :: string
  fl_started :: nat
  fl_prompt_bytes :: nat
  fl_stream :: bool
  fl_first_byte :: "nat option"
  fl_out_bytes :: nat

record load =
  ld_next_req :: nat
  ld_inflight :: "(nat, inflight) table"

definition tracked_new :: "nat \<Rightarrow> string \<Rightarrow> string \<Rightarrow> nat \<Rightarrow> bool \<Rightarrow> load \<Rightarrow> load \<times> nat" where
  "tracked_new now model grp bytes stream ld =
     (let i = ld_next_req ld
      in (ld\<lparr>ld_next_req := u64_add i 1, ld_inflight := bt_insert i \<lparr>fl_model = model, fl_group = grp, fl_started = now,
            fl_prompt_bytes = bytes, fl_stream = stream, fl_first_byte = None, fl_out_bytes = 0\<rparr> (ld_inflight ld)\<rparr>, i))"

definition tracked_saw :: "nat \<Rightarrow> nat \<Rightarrow> nat \<Rightarrow> load \<Rightarrow> load" where
  "tracked_saw now i n ld = ld\<lparr>ld_inflight := hm_modify i (\<lambda>r. r\<lparr>
     fl_first_byte := Some (case fl_first_byte r of Some t \<Rightarrow> t | None \<Rightarrow> now), fl_out_bytes := u64_add (fl_out_bytes r) n\<rparr>) (ld_inflight ld)\<rparr>"

definition tracked_drop :: "nat \<Rightarrow> load \<Rightarrow> load" where
  "tracked_drop i ld = ld\<lparr>ld_inflight := hm_remove i (ld_inflight ld)\<rparr>"

text \<open>One poll of a body, and of the counted body around it: its frames pass unchanged.\<close>

datatype polled = PollPending | PollEnd | PollData string | PollOther | PollError string

definition tracked_poll :: "nat \<Rightarrow> nat \<Rightarrow> polled \<Rightarrow> load \<Rightarrow> polled \<times> load" where
  "tracked_poll now i p ld = (p, case p of PollData d \<Rightarrow> tracked_saw now i (length d) ld | _ \<Rightarrow> ld)"

section \<open>A stream that starts before the upstream has replied\<close>

definition error_events :: "(json \<Rightarrow> string) \<Rightarrow> string \<Rightarrow> string list" where
  "error_events shown msg =
     [''data: '' @ shown (jobj [(''error'', jobj [(''message'', JStr msg), (''type'', JStr ''upstream_error'')])]) @ nl @ nl,
      ''data: [DONE]'' @ nl @ nl]"

definition keepalive_line :: string where
  "keepalive_line = '': keepalive'' @ nl @ nl"

text \<open>\<open>KeepRelaying\<close> has the number of the request's row; the body itself is asked by the poll.\<close>

datatype keep = KeepWaiting | KeepRelaying nat | KeepFailing "string list" | KeepDone

text \<open>What the channel from the dispatch gives: nothing yet, the upstream's status with the request's row, a
  refusal, or that the sender is gone.\<close>

datatype awaited = RxPending | RxReply nat nat | RxRefused refusal | RxDropped

record poll_input =
  po_rx :: awaited
  po_tick :: bool
  po_body :: polled
  po_now :: nat

definition keep_relay :: "poll_input \<Rightarrow> nat \<Rightarrow> load \<Rightarrow> polled \<times> keep \<times> load" where
  "keep_relay x i ld = (case tracked_poll (po_now x) i (po_body x) ld of (p, ld') \<Rightarrow> (p, KeepRelaying i, ld'))"

definition keep_fail :: "string list \<Rightarrow> load \<Rightarrow> polled \<times> keep \<times> load" where
  "keep_fail q ld = (case q of b # q' \<Rightarrow> (PollData b, KeepFailing q', ld) | [] \<Rightarrow> (PollEnd, KeepDone, ld))"

definition keep_poll :: "(nat \<Rightarrow> string) \<Rightarrow> (json \<Rightarrow> string) \<Rightarrow> poll_input \<Rightarrow> keep \<Rightarrow> load \<Rightarrow> polled \<times> keep \<times> load" where
  "keep_poll status_text shown x k ld =
     (case k of
        KeepWaiting \<Rightarrow>
          (case po_rx x of
             RxReply status i \<Rightarrow>
               (if is_success status then keep_relay x i ld
                else keep_fail (error_events shown (''upstream answered HTTP '' @ status_text status)) (tracked_drop i ld))
           | RxRefused r \<Rightarrow> keep_fail (error_events shown (refusal_message status_text r)) ld
           | RxDropped \<Rightarrow> keep_fail (error_events shown ''the router dropped the request'') ld
           | RxPending \<Rightarrow> (if po_tick x then PollData keepalive_line else PollPending, KeepWaiting, ld))
      | KeepRelaying i \<Rightarrow> keep_relay x i ld
      | KeepFailing q \<Rightarrow> keep_fail q ld
      | KeepDone \<Rightarrow> (PollEnd, KeepDone, ld))"

section \<open>The request\<close>

definition MAX_PROXY_BODY :: nat where
  "MAX_PROXY_BODY = 128 * 1024 * 1024"

text \<open>\<open>Limited\<close> around a body that is read to its end, or fails.\<close>

definition collect_limited :: "nat \<Rightarrow> string option \<Rightarrow> string option" where
  "collect_limited cap body = (case body of Some b \<Rightarrow> if length b \<le> cap then Some b else None | None \<Rightarrow> None)"

definition over_cap :: "nat \<Rightarrow> refusal" where
  "over_cap cap = refusal_new 413 (''request body over '' @ show_nat cap @ '' bytes'')"

text \<open>\<open>HeaderValue::to_str\<close>: the text of a header of visible ASCII.\<close>

definition header_str :: "string \<Rightarrow> string option" where
  "header_str v = (if list_all (\<lambda>c. let b = of_char c :: nat in 32 \<le> b \<and> b < 127 \<or> b = 9) v then Some v else None)"

text \<open>Up to the dispatch; the third component is whether the client gets comment lines while it waits.\<close>

definition forward :: "(string \<Rightarrow> string + json) \<Rightarrow> nat \<Rightarrow> string option \<Rightarrow> string option \<Rightarrow> string \<Rightarrow> string option \<Rightarrow> serve
    \<Rightarrow> refusal + routed \<times> call \<times> bool" where
  "forward from_slice now content_type accept tail body sv =
     (case collect_limited MAX_PROXY_BODY body of
        None \<Rightarrow> Inl (over_cap MAX_PROXY_BODY)
      | Some bytes \<Rightarrow>
          (case route_by from_slice (Option.bind content_type header_str) bytes of
             Inl e \<Rightarrow> Inl (refusal_new 400 e)
           | Inr r \<Rightarrow> Inr (r, \<lparr>cl_model = rt_model r, cl_tail = tail, cl_content_type = content_type, cl_accept = accept,
               cl_bytes = bytes, cl_deadline = now + sc_model_wait (sv_cfg sv)\<rparr>, rt_stream r \<and> sc_sse_keepalive (sv_cfg sv) \<noteq> 0)))"

text \<open>The upstream's response as it goes to the client, with the row of the request: status and content type.\<close>

definition relay_response :: "nat \<Rightarrow> routed \<Rightarrow> call \<Rightarrow> string \<Rightarrow> nat \<times> string option \<Rightarrow> load \<Rightarrow> (nat \<times> string option) \<times> load \<times> nat" where
  "relay_response now r c grp resp ld =
     (case tracked_new now (rt_model r) grp (length (cl_bytes c)) (rt_stream r) ld of (ld', i) \<Rightarrow> (resp, ld', i))"

text \<open>The answer to the client. \<open>early\<close> is whether it gets comment lines while it waits, \<open>timely\<close> whether the
  dispatch ends before the first of them is due, and \<open>result\<close> what it ends with.\<close>

datatype answer = AnsRefused refusal | AnsRelayed nat "string option" nat | AnsStream keep

definition forward_answer :: "bool \<Rightarrow> bool \<Rightarrow> nat \<Rightarrow> routed \<Rightarrow> call \<Rightarrow> refusal + string \<times> nat \<times> string option \<Rightarrow> load \<Rightarrow> answer \<times> load" where
  "forward_answer early timely now r c result ld =
     (if early \<and> \<not> timely then (AnsStream KeepWaiting, ld)
      else (case result of
          Inl x \<Rightarrow> (AnsRefused x, ld)
        | Inr (grp, resp) \<Rightarrow> (case relay_response now r c grp resp ld of ((status, ct), ld', i) \<Rightarrow> (AnsRelayed status ct i, ld'))))"

text \<open>The task that awaits the dispatch behind such a stream, and what it sends over the channel. A client that hung up
  has dropped the receiver, so the row goes with what could not be sent.\<close>

definition dispatch_task :: "bool \<Rightarrow> nat \<Rightarrow> routed \<Rightarrow> call \<Rightarrow> refusal + string \<times> nat \<times> string option \<Rightarrow> load \<Rightarrow> awaited option \<times> load" where
  "dispatch_task hung_up now r c result ld =
     (case result of
        Inl x \<Rightarrow> (if hung_up then None else Some (RxRefused x), ld)
      | Inr (grp, status, _) \<Rightarrow>
          (case tracked_new now (rt_model r) grp (length (cl_bytes c)) True ld of (ld', i) \<Rightarrow>
             if hung_up then (None, tracked_drop i ld') else (Some (RxReply status i), ld')))"

end
