(* ===== verification/ServeMcp.thy ===== *)
theory ServeMcp
  imports ServeProxy
begin

text \<open>
  The merged MCP endpoint (\<open>rust/mentatd-serve/src/mcp.rs\<close>): the tools of every group under one list, each
  with an argument that names the group to run it. A POST to a group is an argument, as in
  \<open>ServeTokens\<close>. An operation that may fetch a group's list returns the changed cache with its result.
\<close>

definition GROUP_ARG :: string where
  "GROUP_ARG = ''__group''"

definition NATIVE :: string where
  "NATIVE = ''serve_status''"

definition MAX_MCP_BODY :: nat where
  "MAX_MCP_BODY = 16 * 1024 * 1024"

section \<open>The tools of a group\<close>

definition tools_key :: "string \<Rightarrow> string \<Rightarrow> string" where
  "tools_key grp url = grp @ '' '' @ url"

text \<open>A list that is not empty is kept for \<open>tools_ttl\<close>.\<close>

definition cached_tools :: "serve \<Rightarrow> nat \<Rightarrow> string \<Rightarrow> json list option" where
  "cached_tools sv now k = (case map_of (sv_tools sv) k of
     Some (t, Inr tools) \<Rightarrow> if tools \<noteq> [] \<and> now - t \<le> sc_tools_ttl (sv_cfg sv) then Some tools else None
   | _ \<Rightarrow> None)"

definition tools_request :: json where
  "tools_request = jobj [(''jsonrpc'', JStr ''2.0''), (''id'', jnat 1), (''method'', JStr ''tools/list'')]"

definition group_tools :: "(string \<Rightarrow> json \<Rightarrow> string + json) \<Rightarrow> nat \<Rightarrow> string \<Rightarrow> string \<Rightarrow> serve \<Rightarrow> json list \<times> serve" where
  "group_tools post_json now grp url sv =
     (case cached_tools sv now (tools_key grp url) of
        Some tools \<Rightarrow> (tools, sv)
      | None \<Rightarrow>
          (let got = (case post_json url tools_request of Inr v \<Rightarrow> Inr (elems (jget (jget v ''result'') ''tools'')) | Inl e \<Rightarrow> Inl e)
           in (case got of Inr tools \<Rightarrow> tools | Inl _ \<Rightarrow> [],
               sv\<lparr>sv_tools := hm_insert (tools_key grp url) (now, got) (sv_tools sv)\<rparr>)))"

section \<open>The merge\<close>

record merged =
  mg_description :: string
  mg_schema :: json
  mg_groups :: "string list"

definition no_schema :: json where
  "no_schema = jobj [(''type'', JStr ''object''), (''properties'', JObj [])]"

definition merge_tool :: "string \<Rightarrow> json \<Rightarrow> (string, merged) table \<Rightarrow> (string, merged) table" where
  "merge_tool grp t out = (case as_str (jget t ''name'') of
     None \<Rightarrow> out
   | Some name \<Rightarrow>
       (if name = NATIVE then out
        else (case map_of out name of
            Some m \<Rightarrow> bt_insert name (m\<lparr>mg_groups := mg_groups m @ [grp]\<rparr>) out
          | None \<Rightarrow> bt_insert name \<lparr>mg_description = str_of (jget t ''description''),
              mg_schema = (case jget t ''inputSchema'' of JObj o1 \<Rightarrow> JObj o1 | _ \<Rightarrow> no_schema), mg_groups = [grp]\<rparr> out)))"

definition mcp_url :: "group_entry \<Rightarrow> string option" where
  "mcp_url e = Option.bind (ge_mcp e) ep_best"

fun merge_groups :: "(string \<Rightarrow> json \<Rightarrow> string + json) \<Rightarrow> nat \<Rightarrow> group_entry list \<Rightarrow> (string, merged) table \<Rightarrow> serve
    \<Rightarrow> (string, merged) table \<times> serve" where
  "merge_groups post_json now [] out sv = (out, sv)"
| "merge_groups post_json now (e # es) out sv = (case mcp_url e of
     None \<Rightarrow> merge_groups post_json now es out sv
   | Some url \<Rightarrow> (case group_tools post_json now (ge_group e) url sv of
       (tools, sv') \<Rightarrow> merge_groups post_json now es (fold (merge_tool (ge_group e)) tools out) sv'))"

definition merge :: "(string \<Rightarrow> json \<Rightarrow> string + json) \<Rightarrow> nat \<Rightarrow> net list \<Rightarrow> serve \<Rightarrow> (string, merged) table \<times> serve" where
  "merge post_json now local sv = merge_groups post_json now (map snd (group_table sv now local)) [] sv"

section \<open>The list\<close>

definition group_arg :: "string list \<Rightarrow> json" where
  "group_arg groups = jobj [(''type'', JStr ''string''), (''enum'', jstrs groups),
     (''description'', JStr (''Which group runs this tool. Offered by: '' @ join '', '' groups @ ''.''))]"

text \<open>\<open>None\<close> is the panic of a schema that is not an object.\<close>

definition with_group_arg :: "merged \<Rightarrow> json option" where
  "with_group_arg m = (case mg_schema m of
     JObj o1 \<Rightarrow>
       (let o2 = (if hm_has o1 ''type'' then o1 else bt_insert ''type'' (JStr ''object'') o1);
            props = (case map_of o2 ''properties'' of Some (JObj ps) \<Rightarrow> ps | _ \<Rightarrow> []);
            o3 = bt_insert ''properties'' (JObj (bt_insert GROUP_ARG (group_arg (mg_groups m)) props)) o2
        in Some (JObj (if 1 < length (mg_groups m)
             then bt_insert ''required'' (JArr ((case map_of o3 ''required'' of Some (JArr rs) \<Rightarrow> rs | _ \<Rightarrow> []) @ [JStr GROUP_ARG])) o3
             else o3)))
   | _ \<Rightarrow> None)"

definition tool_row :: "string \<times> merged \<Rightarrow> json option" where
  "tool_row nm = map_option (\<lambda>schema. jobj [(''name'', JStr (fst nm)), (''description'', JStr (mg_description (snd nm))), (''inputSchema'', schema)])
     (with_group_arg (snd nm))"

definition native_row :: json where
  "native_row = jobj [(''name'', JStr NATIVE),
     (''description'', JStr ''What mentatd-serve can route right now: watched daemons, each group's health and endpoints, and the model table.''),
     (''inputSchema'', no_schema)]"

definition tool_list :: "(string \<Rightarrow> json \<Rightarrow> string + json) \<Rightarrow> nat \<Rightarrow> net list \<Rightarrow> serve \<Rightarrow> json list option \<times> serve" where
  "tool_list post_json now local sv = (case merge post_json now local sv of (out, sv') \<Rightarrow>
     (map_option ((#) native_row) (those (map tool_row out)), sv'))"

section \<open>A call\<close>

definition rpc_result :: "json \<Rightarrow> json \<Rightarrow> json" where
  "rpc_result rid v = jobj [(''jsonrpc'', JStr ''2.0''), (''id'', rid), (''result'', v)]"

definition rpc_error :: "json \<Rightarrow> int \<Rightarrow> string \<Rightarrow> json" where
  "rpc_error rid code msg = jobj [(''jsonrpc'', JStr ''2.0''), (''id'', rid),
     (''error'', jobj [(''code'', JNum (NegInt code)), (''message'', JStr msg)])]"

definition text_result :: "json \<Rightarrow> bool \<Rightarrow> string \<Rightarrow> json" where
  "text_result rid err msg = rpc_result rid (jobj [(''content'', JArr [jobj [(''type'', JStr ''text''), (''text'', JStr msg)]]), (''isError'', JBool err)])"

definition tool_err :: "json \<Rightarrow> string \<Rightarrow> json" where
  "tool_err rid msg = text_result rid True msg"

definition list_or_none :: "string list \<Rightarrow> string" where
  "list_or_none names = (let joined = join '', '' names in if joined = [] then ''none'' else joined)"

text \<open>Which group runs the tool, or why none does.\<close>

definition pick_group :: "string \<Rightarrow> merged \<Rightarrow> json option \<Rightarrow> string + string" where
  "pick_group name m asked = (case Option.bind asked as_str of
     Some g \<Rightarrow> if g \<in> set (mg_groups m) then Inr g
       else Inl (''group '' @ debug_str g @ '' does not offer '' @ debug_str name @ ''. Groups that do: '' @ list_or_none (mg_groups m))
   | None \<Rightarrow> (case mg_groups m of
         [g] \<Rightarrow> Inr g
       | _ \<Rightarrow> Inl (debug_str name @ '' runs in more than one group. Pass '' @ debug_str GROUP_ARG @ '': '' @ list_or_none (mg_groups m))))"

text \<open>The request that goes to a group: its URL and the call without the added argument.\<close>

definition forward_call :: "json \<Rightarrow> string \<Rightarrow> (string \<times> json) list \<Rightarrow> json" where
  "forward_call rid name args = jobj [(''jsonrpc'', JStr ''2.0''), (''id'', rid), (''method'', JStr ''tools/call''),
     (''params'', jobj [(''name'', JStr name), (''arguments'', JObj args)])]"

definition call_target :: "nat \<Rightarrow> net list \<Rightarrow> json \<Rightarrow> json \<Rightarrow> (string, merged) table \<Rightarrow> serve \<Rightarrow> string + string \<times> string \<times> json" where
  "call_target now local rid params out sv =
     (let name = str_of (jget params ''name'')
      in case map_of out name of
           None \<Rightarrow> Inl (''no tool '' @ debug_str name @ ''. Tools right now: '' @ list_or_none (NATIVE # map fst out))
         | Some m \<Rightarrow>
             (let args = entries (jget params ''arguments'')
              in case pick_group name m (map_of args GROUP_ARG) of
                   Inl e \<Rightarrow> Inl e
                 | Inr grp \<Rightarrow> (case Option.bind (map_of (group_table sv now local) grp) mcp_url of
                       None \<Rightarrow> Inl (''group '' @ debug_str grp @ '' has no MCP endpoint'')
                     | Some url \<Rightarrow> Inr (grp, url, forward_call rid name (hm_remove GROUP_ARG args)))))"

definition mcp_call :: "(json \<Rightarrow> string) \<Rightarrow> (json \<Rightarrow> string) \<Rightarrow> (string \<Rightarrow> json \<Rightarrow> string + json) \<Rightarrow> nat \<Rightarrow> net list \<Rightarrow> json \<Rightarrow> json \<Rightarrow> serve
    \<Rightarrow> json \<times> serve" where
  "mcp_call shown pretty post_json now local rid params sv =
     (if str_of (jget params ''name'') = NATIVE then (text_result rid False (pretty (status_view sv now local)), sv)
      else (case merge post_json now local sv of (out, sv') \<Rightarrow>
        ((case call_target now local rid params out sv' of
            Inl e \<Rightarrow> tool_err rid e
          | Inr (grp, url, fwd) \<Rightarrow> (case post_json url fwd of
                Inr v \<Rightarrow> if jfield v ''result'' \<noteq> None \<or> jfield v ''error'' \<noteq> None then v
                  else tool_err rid (grp @ '' replied with neither result nor error: '' @ shown v)
              | Inl e \<Rightarrow> tool_err rid (grp @ '' did not answer: '' @ e))), sv')))"

section \<open>Requests\<close>

text \<open>The outcome of one request: a reply, none for a notification, or the panic.\<close>

datatype rpc_outcome = RpcReply json | RpcSilent | RpcPanic

definition initialized :: "string \<Rightarrow> json \<Rightarrow> json" where
  "initialized version req = jobj
     [(''protocolVersion'', JStr (case as_str (jget (jget req ''params'') ''protocolVersion'') of Some p \<Rightarrow> p | None \<Rightarrow> ''2025-06-18'')),
      (''capabilities'', jobj [(''tools'', jobj [(''listChanged'', JBool False)])]),
      (''serverInfo'', jobj [(''name'', JStr ''mentatd-serve''), (''version'', JStr version)])]"

definition rpc :: "(json \<Rightarrow> string) \<Rightarrow> (json \<Rightarrow> string) \<Rightarrow> (string \<Rightarrow> json \<Rightarrow> string + json) \<Rightarrow> string \<Rightarrow> nat \<Rightarrow> net list \<Rightarrow> json \<Rightarrow> serve
    \<Rightarrow> rpc_outcome \<times> serve" where
  "rpc shown pretty post_json version now local req sv =
     (let rid = jget req ''id''; meth = str_of (jget req ''method'')
      in if meth = ''initialize'' then (RpcReply (rpc_result rid (initialized version req)), sv)
         else if starts_with ''notifications/'' meth then (RpcSilent, sv)
         else if meth = ''ping'' then (RpcReply (rpc_result rid (JObj [])), sv)
         else if meth = ''tools/list'' then (case tool_list post_json now local sv of
             (Some ts, sv') \<Rightarrow> (RpcReply (rpc_result rid (jobj [(''tools'', JArr ts)])), sv')
           | (None, sv') \<Rightarrow> (RpcPanic, sv'))
         else if meth = ''tools/call'' then (case mcp_call shown pretty post_json now local rid (jget req ''params'') sv of
             (v, sv') \<Rightarrow> (RpcReply v, sv'))
         else (RpcReply (rpc_error rid (- 32601) (''no method '' @ debug_str meth)), sv))"

fun rpc_batch :: "(json \<Rightarrow> string) \<Rightarrow> (json \<Rightarrow> string) \<Rightarrow> (string \<Rightarrow> json \<Rightarrow> string + json) \<Rightarrow> string \<Rightarrow> nat \<Rightarrow> net list \<Rightarrow> json list \<Rightarrow> serve
    \<Rightarrow> json list option \<times> serve" where
  "rpc_batch shown pretty post_json version now local [] sv = (Some [], sv)"
| "rpc_batch shown pretty post_json version now local (r # rs) sv =
     (case rpc shown pretty post_json version now local r sv of
        (RpcPanic, sv') \<Rightarrow> (None, sv')
      | (RpcSilent, sv') \<Rightarrow> rpc_batch shown pretty post_json version now local rs sv'
      | (RpcReply v, sv') \<Rightarrow> (case rpc_batch shown pretty post_json version now local rs sv' of
            (vs, sv'') \<Rightarrow> (map_option ((#) v) vs, sv'')))"

text \<open>The response: a status and a body, where an accepted notification has none. The whole is \<open>None\<close> when the
  task panics.\<close>

definition mcp_handle :: "(string \<Rightarrow> string + json) \<Rightarrow> (json \<Rightarrow> string) \<Rightarrow> (json \<Rightarrow> string) \<Rightarrow> (string \<Rightarrow> json \<Rightarrow> string + json) \<Rightarrow> string
    \<Rightarrow> nat \<Rightarrow> net list \<Rightarrow> string option \<Rightarrow> serve \<Rightarrow> (nat \<times> json option) option \<times> serve" where
  "mcp_handle from_slice shown pretty post_json version now local body sv =
     (case collect_limited MAX_MCP_BODY body of
        None \<Rightarrow> (Some (413, Some (rl_body (over_cap MAX_MCP_BODY))), sv)
      | Some bytes \<Rightarrow> (case from_slice bytes of
            Inl e \<Rightarrow> (Some (400, Some (rpc_error JNull (- 32700) (''parse error: '' @ e))), sv)
          | Inr (JArr reqs) \<Rightarrow> (case rpc_batch shown pretty post_json version now local reqs sv of
                (None, sv') \<Rightarrow> (None, sv')
              | (Some [], sv') \<Rightarrow> (Some (202, None), sv')
              | (Some vs, sv') \<Rightarrow> (Some (200, Some (JArr vs)), sv'))
          | Inr req \<Rightarrow> (case rpc shown pretty post_json version now local req sv of
                (RpcPanic, sv') \<Rightarrow> (None, sv')
              | (RpcSilent, sv') \<Rightarrow> (Some (202, None), sv')
              | (RpcReply v, sv') \<Rightarrow> (Some (200, Some v), sv'))))"

section \<open>The page\<close>

text \<open>The status page's rows, with the lists it asks for in the background: the cache key, the group and the
  URL of each fetch it starts, and the end of one.\<close>

definition page_row :: "nat \<Rightarrow> group_entry \<Rightarrow> json list \<times> serve \<times> (string \<times> string \<times> string) list \<Rightarrow> json list \<times> serve \<times> (string \<times> string \<times> string) list" where
  "page_row now e acc = (case acc of (rows, sv, fetches) \<Rightarrow>
     (case mcp_url e of
        None \<Rightarrow> acc
      | Some url \<Rightarrow>
          (let k = tools_key (ge_group e) url;
               start = cached_tools sv now k = None \<and> k \<notin> set (sv_tools_fetching sv);
               (tools, err) = (case map_of (sv_tools sv) k of
                   Some (_, Inr ts) \<Rightarrow> (jstrs (List.map_filter (\<lambda>t. as_str (jget t ''name'')) ts), JNull)
                 | Some (_, Inl e1) \<Rightarrow> (JNull, JStr e1)
                 | None \<Rightarrow> (JNull, JNull))
           in (rows @ [jobj [(''group'', JStr (ge_group e)), (''tools'', tools), (''error'', err)]],
               if start then sv\<lparr>sv_tools_fetching := k # sv_tools_fetching sv\<rparr> else sv,
               if start then fetches @ [(k, ge_group e, url)] else fetches))))"

definition page_view :: "nat \<Rightarrow> net list \<Rightarrow> serve \<Rightarrow> json list \<times> serve \<times> (string \<times> string \<times> string) list" where
  "page_view now local sv = fold (page_row now) (map snd (group_table sv now local)) ([], sv, [])"

definition page_fetch :: "(string \<Rightarrow> json \<Rightarrow> string + json) \<Rightarrow> nat \<Rightarrow> string \<times> string \<times> string \<Rightarrow> serve \<Rightarrow> serve" where
  "page_fetch post_json now f sv = (case f of (k, grp, url) \<Rightarrow>
     (let sv1 = snd (group_tools post_json now grp url sv) in sv1\<lparr>sv_tools_fetching := filter (\<lambda>x. x \<noteq> k) (sv_tools_fetching sv1)\<rparr>))"

end
