(* ===== verification/ProxyProps.thy ===== *)
theory ProxyProps
  imports ServeProxy "HOL-Library.Sublist"
begin

text \<open>
  The OpenAI route: a form routes on its text fields whatever its files hold, a request reaches at most
  one upstream and is answered by its deadline, a stream that starts early is comments followed by one
  whole answer, and the table of requests in flight.
\<close>

section \<open>Searching\<close>

lemma find_sub_append:
  assumes "\<And>j. j < length a \<Longrightarrow> \<not> prefix p (drop j (a @ p @ r))"
  shows "find_sub (a @ p @ r) p = Some (length a)"
  using assms
proof (induction a)
  case Nil
  show ?case
  proof (cases "p @ r")
    case (Cons y ys)
    then have "take (length p) (y # ys) = p" by (metis append_eq_conv_conj)
    with Cons show ?thesis by simp
  qed simp
next
  case (Cons x a)
  have "\<not> prefix p (x # a @ p @ r)" using Cons.prems [of 0] by simp
  then have "take (length p) (x # a @ p @ r) \<noteq> p" by (metis take_is_prefix)
  moreover have "find_sub (a @ p @ r) p = Some (length a)" using Cons.prems [of "Suc j" for j] by (intro Cons.IH) simp
  ultimately show ?case by simp
qed

lemma find_sub_first: "find_sub xs p = Some i \<Longrightarrow> j < i \<Longrightarrow> \<not> prefix p (drop j xs)"
proof (induction xs p arbitrary: i j rule: find_sub.induct)
  case (2 x xs p)
  then show ?case
    by (cases j) (auto simp: prefix_def split: if_splits)
qed (auto split: if_splits)

lemma find_sub_extend:
  assumes "find_sub (s @ d) d = Some (length s)"
  shows "find_sub (s @ d @ r) d = Some (length s)"
proof (rule find_sub_append)
  fix j assume j: "j < length s"
  have "\<not> prefix d (drop j (s @ d))" using find_sub_first [OF assms j] .
  moreover have "take (length d) (drop j (s @ d @ r)) = take (length d) (drop j (s @ d))" using j by simp
  ultimately show "\<not> prefix d (drop j (s @ d @ r))" by (metis prefix_def append_eq_conv_conj take_is_prefix)
qed

lemma contains_str_iff: "contains_str p s \<longleftrightarrow> (\<exists>a b. s = a @ p @ b)"
proof (induction p s rule: contains_str.induct)
  case (2 p c s)
  have "starts_with p (c # s) \<longleftrightarrow> (\<exists>b. c # s = p @ b)" by (simp add: starts_with_def strip_prefix_Some)
  with 2 show ?case by (auto simp: Cons_eq_append_conv) 
qed auto

section \<open>Forms\<close>

text \<open>A part as a client writes it: lines of headers, an empty line and a value. A text field has one line; a
  file has the line with its name and one with its type.\<close>

datatype form_part = TextField string string | FileField string string string string

fun part_lines :: "form_part \<Rightarrow> string list" where
  "part_lines (TextField n v) = [''Content-Disposition: form-data; name='' @ [CHR 0x22] @ n @ [CHR 0x22]]"
| "part_lines (FileField n f ty bs) = [''Content-Disposition: form-data; name='' @ [CHR 0x22] @ n @ [CHR 0x22] @ ''; filename='' @ [CHR 0x22] @ f @ [CHR 0x22],
     ''Content-Type: '' @ ty]"

fun part_value :: "form_part \<Rightarrow> string" where
  "part_value (TextField n v) = v"
| "part_value (FileField n f ty bs) = bs"

definition part_head :: "string list \<Rightarrow> string" where
  "part_head hs = concat (map ((@) crlf) hs)"

definition part_text :: "form_part \<Rightarrow> string" where
  "part_text p = part_head (part_lines p) @ crlf @ crlf @ part_value p @ crlf"

definition form_body :: "string \<Rightarrow> form_part list \<Rightarrow> string" where
  "form_body b ps = concat (map (\<lambda>p. ''--'' @ b @ part_text p) ps) @ ''--'' @ b @ ''--'' @ crlf"

text \<open>Header text is printable ASCII; the name of a text field has no quote and no \<open>=\<close> of its own, and its value is
  text. A file may hold any bytes.\<close>

definition printable :: "string \<Rightarrow> bool" where
  "printable s \<longleftrightarrow> (\<forall>c \<in> set s. let k = of_char c :: nat in 32 \<le> k \<and> k < 127)"

fun part_ok :: "form_part \<Rightarrow> bool" where
  "part_ok (TextField n v) \<longleftrightarrow> printable n \<and> CHR 0x22 \<notin> set n \<and> CHR ''='' \<notin> set n \<and> valid_utf8 v"
| "part_ok (FileField n f ty bs) \<longleftrightarrow> printable n \<and> printable f \<and> printable ty"

definition text_fields :: "form_part list \<Rightarrow> (string \<times> string) list" where
  "text_fields ps = List.map_filter (\<lambda>p. case p of TextField n v \<Rightarrow> Some (to_ascii_lowercase n, v) | _ \<Rightarrow> None) ps"

text \<open>No part holds the delimiter.\<close>

definition apart :: "string \<Rightarrow> form_part \<Rightarrow> bool" where
  "apart b p \<longleftrightarrow> find_sub (part_text p @ ''--'' @ b) (''--'' @ b) = Some (length (part_text p))"

lemma find_sub_skip: "c \<notin> set w \<Longrightarrow> find_sub (w @ r) (c # p) = map_option (\<lambda>i. length w + i) (find_sub r (c # p))"
proof (induction w)
  case (Cons x w)
  then show ?case by (auto simp: option.map_comp comp_def)
qed (cases "find_sub r (c # p)"; simp)

lemma head_found:
  assumes "\<forall>h \<in> set hs. h \<noteq> [] \<and> CHR 0x0D \<notin> set h" "hs \<noteq> []"
  shows "find_sub (part_head hs @ crlf @ crlf @ v) (crlf @ crlf) = Some (length (part_head hs))"
  using assms
proof (induction hs)
  case (Cons h hs)
  let ?p = "[CHR 0x0A, CHR 0x0D, CHR 0x0A]"
  obtain c h' where h: "h = c # h'" "c \<noteq> CHR 0x0D" "CHR 0x0D \<notin> set h" using Cons.prems by (cases h) auto
  have one: "find_sub (crlf @ h @ r) (crlf @ crlf) = map_option (\<lambda>i. 2 + length h + i) (find_sub r (crlf @ crlf))" for r
    using find_sub_skip [of "CHR 0x0D" "CHR 0x0A # h" r ?p] h by (simp add: crlf_def option.map_comp comp_def)
  have "part_head (h # hs) @ crlf @ crlf @ v = crlf @ h @ part_head hs @ crlf @ crlf @ v"
    "length (part_head (h # hs)) = 2 + length h + length (part_head hs)" by (simp_all add: part_head_def crlf_def)
  moreover have "find_sub (part_head hs @ crlf @ crlf @ v) (crlf @ crlf) = Some (length (part_head hs))"
    using Cons find_sub_append [of "[]" "crlf @ crlf" v] by (cases "hs = []") (auto simp: part_head_def)
  ultimately show ?case using one by simp
qed simp

lemma ascii_valid: "\<forall>c \<in> set s. (of_char c :: nat) < 128 \<Longrightarrow> valid_utf8 s"
  by (induction s) (simp_all add: Let_def)

lemma lower_ascii: "(of_char c :: nat) < 128 \<Longrightarrow> (of_char (lower_char c) :: nat) < 128"
  by (simp add: lower_char_def Let_def)

lemma lower_char_eq: "(of_char d :: nat) < 65 \<Longrightarrow> lower_char c = d \<longleftrightarrow> c = d"
proof -
  assume d: "(of_char d :: nat) < 65"
  have "(of_char (char_of (of_char c + 32 :: nat)) :: nat) = of_char c + 32" if "(of_char c :: nat) \<le> 90" using that by simp
  with d show ?thesis by (auto simp: lower_char_def Let_def)
qed

lemma printable_append [simp]: "printable (s @ t) \<longleftrightarrow> printable s \<and> printable t"
  by (auto simp: printable_def)

lemma lower_mem: "(of_char d :: nat) < 65 \<Longrightarrow> d \<in> set (to_ascii_lowercase n) \<longleftrightarrow> d \<in> set n"
  by (simp add: to_ascii_lowercase_def image_iff) (metis lower_char_eq)

lemma split_once_at: "c \<notin> set s \<Longrightarrow> split_once c (s @ c # t) = Some (s, t)"
  by (induction s) auto

lemma lower_field: "map lower_char ''Content-Disposition: form-data; name='' = ''content-disposition: form-data; name=''"
  by code_simp

text \<open>The header of a text field in lower case, up to its only \<open>=\<close>.\<close>

lemma field_head_no_file:
  assumes "CHR ''='' \<notin> set n"
  shows "\<not> contains_str ''filename='' (crlf @ ''content-disposition: form-data; name='' @ [CHR 0x22] @ n @ [CHR 0x22])"
proof
  let ?u = "crlf @ ''content-disposition: form-data; name''"
  assume "contains_str ''filename='' (crlf @ ''content-disposition: form-data; name='' @ [CHR 0x22] @ n @ [CHR 0x22])"
  then obtain a b where "?u @ CHR ''='' # [CHR 0x22] @ n @ [CHR 0x22] = (a @ ''filename'') @ CHR ''='' # b"
    by (auto simp: contains_str_iff)
  moreover have "CHR ''='' \<notin> set ?u" "CHR ''='' \<notin> set ([CHR 0x22] @ n @ [CHR 0x22])" using assms by (simp_all add: crlf_def)
  ultimately have "?u = a @ ''filename''" by (metis append_Cons_eq_iff)
  then have "rev ?u = rev ''filename'' @ rev a" by simp
  then show False by (simp add: crlf_def)
qed

lemma text_part_of:
  assumes ok: "part_ok p"
  shows "text_part (part_text p) = (case p of TextField n v \<Rightarrow> Some (to_ascii_lowercase n, v) | _ \<Rightarrow> None)"
proof -
  let ?h = "part_head (part_lines p)"
  have lines: "\<forall>h \<in> set (part_lines p). h \<noteq> [] \<and> CHR 0x0D \<notin> set h" "part_lines p \<noteq> []"
    using ok by (cases p; fastforce simp: printable_def)+
  have at_head: "find_sub (part_text p) (crlf @ crlf) = Some (length ?h)"
    using head_found [OF lines, of "part_value p @ crlf"] by (simp add: part_text_def)
  have parts: "take (length ?h) (part_text p) = ?h" "drop (length ?h + 4) (part_text p) = part_value p @ crlf"
    by (simp_all add: part_text_def crlf_def)
  have "\<forall>c \<in> set ?h. (of_char c :: nat) < 128" using ok by (cases p) (auto simp: part_head_def crlf_def printable_def Let_def)
  then have lossy: "utf8_lossy ?h = ?h" by (intro utf8_lossy_valid ascii_valid)
  have strip: "strip_suffix crlf (v @ crlf) = Some v" for v by (simp add: strip_suffix_def)
  show ?thesis
  proof (cases p)
    case (TextField n v)
    let ?l = "to_ascii_lowercase n"
    have low: "to_ascii_lowercase ?h = crlf @ ''content-disposition: form-data; name='' @ [CHR 0x22] @ ?l @ [CHR 0x22]"
      using lower_field by (simp add: TextField part_head_def to_ascii_lowercase_def crlf_def lower_char_eq)
    have chars: "CHR ''='' \<notin> set ?l" "CHR 0x22 \<notin> set ?l" using ok TextField by (simp_all add: lower_mem)
    then have "\<not> contains_str ''filename='' (to_ascii_lowercase ?h)" unfolding low by (intro field_head_no_file)
    moreover have "split_once (CHR 0x22) (?l @ [CHR 0x22]) = Some (?l, [])" using split_once_at [OF chars(2), of "[]"] by simp
    moreover have "split_str (''name='' @ [CHR 0x22]) (to_ascii_lowercase ?h) = Some (crlf @ ''content-disposition: form-data; '', ?l @ [CHR 0x22])"
      unfolding low by (simp add: split_str_def crlf_def)
    ultimately have "text_part (part_text p) = (if valid_utf8 (part_value p) then Some (?l, part_value p) else None)"
      by (simp add: text_part_def at_head parts lossy strip)
    then show ?thesis using ok TextField by simp
  next
    case (FileField n f ty bs)
    have "contains_str ''filename='' (to_ascii_lowercase ?h)"
      unfolding contains_str_iff FileField part_lines.simps part_head_def to_ascii_lowercase_def
      apply (rule exI [of _ "map lower_char (crlf @ ''Content-Disposition: form-data; name='' @ [CHR 0x22] @ n @ [CHR 0x22] @ ''; '')"])
      by (simp add: lower_char_def)
    then have "text_part (part_text p) = None" by (simp add: text_part_def at_head parts lossy)
    then show ?thesis using FileField by simp
  qed
qed

text \<open>The walk sees exactly the parts.\<close>

lemma form_walk:
  assumes "\<forall>p \<in> set ps. part_ok p \<and> apart b p" "find_sub (''--'' @ crlf) (''--'' @ b) = None"
  shows "form_loop b True (concat (map (\<lambda>p. part_text p @ ''--'' @ b) ps) @ ''--'' @ crlf) out = bt_extend out (text_fields ps)"
  using assms(1)
proof (induction ps arbitrary: out)
  case Nil
  then show ?case using assms(2) by (simp add: form_loop.simps text_fields_def map_filter_simps bt_extend_def)
next
  case (Cons p ps)
  let ?rest = "concat (map (\<lambda>p. part_text p @ ''--'' @ b) ps) @ ''--'' @ crlf"
  have "find_sub (part_text p @ (''--'' @ b) @ ?rest) (''--'' @ b) = Some (length (part_text p))"
    using Cons.prems find_sub_extend [of "part_text p" "''--'' @ b" ?rest] by (simp add: apart_def)
  moreover have "text_part (part_text p) = (case p of TextField n v \<Rightarrow> Some (to_ascii_lowercase n, v) | _ \<Rightarrow> None)"
    using Cons.prems by (simp add: text_part_of)
  ultimately have "form_loop b True (part_text p @ (''--'' @ b) @ ?rest) out
      = form_loop b True ?rest (case p of TextField n v \<Rightarrow> bt_insert (to_ascii_lowercase n) v out | _ \<Rightarrow> out)"
    by (subst form_loop.simps) (cases p; simp)
  then show ?case using Cons
    by (cases p) (simp_all add: text_fields_def map_filter_simps bt_extend_def)
qed

lemma form_fields_of:
  assumes "\<forall>p \<in> set ps. part_ok p \<and> apart b p" "find_sub (''--'' @ crlf) (''--'' @ b) = None"
  shows "form_fields (form_body b ps) b = bt_of_list (text_fields ps)"
proof -
  have shift: "concat (map (\<lambda>p. d @ f p) ps) @ d = d @ concat (map (\<lambda>p. f p @ d) ps)" for d and f :: "form_part \<Rightarrow> string"
    by (induction ps) simp_all
  have "form_body b ps = (''--'' @ b) @ concat (map (\<lambda>p. part_text p @ ''--'' @ b) ps) @ ''--'' @ crlf"
    using shift [of "''--'' @ b" part_text] by (simp add: form_body_def)
  moreover have "find_sub ((''--'' @ b) @ r) (''--'' @ b) = Some 0" for r using find_sub_append [of "[]" "''--'' @ b" r] by simp
  ultimately show ?thesis using form_walk [OF assms] by (simp add: form_fields_def form_loop.simps [of b False])
qed

text \<open>A form routes on its fields and on nothing an upload holds. For every form a client writes, whose
  parts do not hold the delimiter, the gateway reads the text of the last field named \<open>model\<close>, in any
  spelling of upper and lower case, and streams exactly if the last field \<open>stream\<close> is \<open>true\<close>; the bytes of
  files play no part, whatever they spell. A form without the field is refused as one.\<close>

theorem form_routes_on_fields:
  assumes "\<forall>p \<in> set ps. part_ok p \<and> apart b p" "find_sub (''--'' @ crlf) (''--'' @ b) = None" "boundary_of ct = Some b"
  shows "route_by from_slice (Some ct) (form_body b ps) = (case map_of (rev (text_fields ps)) ''model'' of
      None \<Rightarrow> Inl ''no model field in the form''
    | Some m \<Rightarrow> Inr \<lparr>rt_model = m, rt_stream = (map_of (rev (text_fields ps)) ''stream'' = Some ''true'')\<rparr>)"
proof -
  have "map_of (bt_of_list kvs) k = map_of (rev kvs) k" for kvs :: "(string \<times> string) list" and k
    by (simp add: bt_extend_ins_all bt.get_ins_all split: option.splits)
  then show ?thesis by (simp add: route_by_def assms(3) form_fields_of [OF assms(1,2)] split: option.split)
qed

section \<open>Paths\<close>

text \<open>The upstream's root: the announced base without the version.\<close>

lemma upstream_url_root:
  "upstream_url base tail = (case strip_suffix ''/v1'' (trim_slashes base) of Some r \<Rightarrow> r | None \<Rightarrow> trim_slashes base) @ tail"
proof (cases "strip_suffix ''/v1'' (trim_slashes base)")
  case (Some r)
  then have "trim_slashes base = r @ ''/v1''" by (auto simp: strip_suffix_def strip_prefix_Some simp flip: rev_append)
  with Some show ?thesis by (auto simp: upstream_url_def Let_def strip_prefix_Some split: option.split)
qed (simp add: upstream_url_def Let_def)

section \<open>Dispatch\<close>

text \<open>A turn whose request an upstream may have seen.\<close>

definition reached :: "call \<Rightarrow> 'r turn \<Rightarrow> bool" where
  "reached c t \<longleftrightarrow> turn_sends c t \<noteq> None \<and> (case tn_attempt t of ConnectFailed _ \<Rightarrow> False | _ \<Rightarrow> True)"

lemma dispatch_again: "dispatch_turn secs secs0 c t = Again \<Longrightarrow> \<not> reached c t \<and> tn_later t < cl_deadline c"
  by (auto simp: dispatch_turn_def reached_def turn_sends_def send_once_checked_def Let_def split: option.splits attempt.splits if_splits sum.splits)

lemma turn_sends_body: "turn_sends c t = Some u \<Longrightarrow> up_body u = cl_bytes c"
  by (auto simp: turn_sends_def upstream_request_def split: option.splits if_splits)

lemma dispatch_turns:
  assumes "dispatch secs secs0 c ts = (reqs, r)"
  shows "(r = Again \<and> (\<forall>t \<in> set ts. dispatch_turn secs secs0 c t = Again) \<and> reqs = List.map_filter (turn_sends c) ts)
    \<or> (\<exists>pre t post. ts = pre @ t # post \<and> (\<forall>x \<in> set pre. dispatch_turn secs secs0 c x = Again)
        \<and> r = dispatch_turn secs secs0 c t \<and> r \<noteq> Again \<and> reqs = List.map_filter (turn_sends c) (pre @ [t]))"
  using assms
proof (induction ts arbitrary: reqs)
  case (Cons t ts)
  show ?case
  proof (cases "dispatch_turn secs secs0 c t = Again")
    case True
    obtain s2 where s2: "dispatch secs secs0 c ts = (s2, r)" "reqs = (case turn_sends c t of Some u \<Rightarrow> [u] | None \<Rightarrow> []) @ s2"
      using Cons.prems True by (auto simp: Let_def split: prod.splits)
    then have reqs: "reqs = List.map_filter (turn_sends c) [t] @ s2" by (simp add: map_filter_simps split: option.split)
    from Cons.IH [OF s2(1)] show ?thesis
    proof
      assume "r = Again \<and> (\<forall>t \<in> set ts. dispatch_turn secs secs0 c t = Again) \<and> s2 = List.map_filter (turn_sends c) ts"
      then show ?thesis using True reqs by (simp add: map_filter_simps split: option.splits)
    next
      assume "\<exists>pre t post. ts = pre @ t # post \<and> (\<forall>x \<in> set pre. dispatch_turn secs secs0 c x = Again)
        \<and> r = dispatch_turn secs secs0 c t \<and> r \<noteq> Again \<and> s2 = List.map_filter (turn_sends c) (pre @ [t])"
      then obtain pre t1 post where "ts = pre @ t1 # post" "\<forall>x \<in> set pre. dispatch_turn secs secs0 c x = Again"
        "r = dispatch_turn secs secs0 c t1" "r \<noteq> Again" "s2 = List.map_filter (turn_sends c) (pre @ [t1])" by blast
      then show ?thesis using True reqs
        by (intro disjI2 exI [of _ "t # pre"] exI [of _ t1] exI [of _ post]) (simp add: map_filter_simps split: option.splits)
    qed
  next
    case False
    then have "r = dispatch_turn secs secs0 c t" "reqs = List.map_filter (turn_sends c) ([] @ [t])"
      using Cons.prems by (auto simp: Let_def map_filter_simps split: outcome.splits option.splits)
    with False show ?thesis by (intro disjI2 exI [of _ "[]"] exI [of _ t] exI [of _ ts]) simp
  qed
qed (simp add: map_filter_simps)

text \<open>C25: a prompt reaches at most one upstream. However a model comes and goes and however its connections
  fail, the gateway sends the client's bytes, and all but the last of the requests it sends were
  refused before an upstream saw them; an answer is the reply to that last one, from the group the
  model was routed to when it was sent.\<close>

theorem request_reaches_one_upstream:
  assumes "dispatch secs secs0 c ts = (reqs, r)"
  shows "\<exists>pre t. prefix (pre @ t) ts \<and> length t \<le> 1 \<and> reqs = List.map_filter (turn_sends c) (pre @ t)
    \<and> (\<forall>x \<in> set pre. \<not> reached c x) \<and> (\<forall>u \<in> set reqs. up_body u = cl_bytes c)
    \<and> (\<forall>grp resp. r = Answered grp resp \<longrightarrow> (\<exists>x base. t = [x] \<and> reached c x \<and> tn_attempt x = Responded resp \<and> turn_route c x = Some (grp, base)))"
proof -
  have body: "\<forall>u \<in> set (List.map_filter (turn_sends c) xs). up_body u = cl_bytes c" for xs :: "'a turn list"
    using turn_sends_body by (fastforce simp: List.map_filter_def)
  have answer: "\<exists>base. reached c x \<and> tn_attempt x = Responded resp \<and> turn_route c x = Some (grp, base)"
    if "dispatch_turn secs secs0 c x = Answered grp resp" for x grp resp
    using that by (auto simp: dispatch_turn_def reached_def turn_sends_def send_once_checked_def Let_def split: option.splits attempt.splits if_splits sum.splits)
  consider "r = Again" "\<forall>t \<in> set ts. dispatch_turn secs secs0 c t = Again" "reqs = List.map_filter (turn_sends c) ts"
    | pre t post where "ts = pre @ t # post" "\<forall>x \<in> set pre. dispatch_turn secs secs0 c x = Again"
      "r = dispatch_turn secs secs0 c t" "reqs = List.map_filter (turn_sends c) (pre @ [t])"
    using dispatch_turns [OF assms] by blast
  then show ?thesis
  proof cases
    case 1
    moreover have "\<forall>x \<in> set ts. \<not> reached c x" using 1(2) dispatch_again by blast
    ultimately show ?thesis using body [of ts] by (rule_tac x = ts in exI, rule_tac x = "[]" in exI) auto
  next
    case 2
    have "prefix (pre @ [t]) ts" by (simp add: 2(1))
    moreover have "\<forall>x \<in> set pre. \<not> reached c x" using 2(2) dispatch_again by blast
    ultimately show ?thesis using 2(3,4) body [of "pre @ [t]"] answer [of t] by (rule_tac x = pre in exI, rule_tac x = "[t]" in exI) (simp del: map_filter_simps)
  qed
qed

text \<open>C26: a request is held until its deadline and no longer: the retry loop ends. Once a turn ends at the deadline the client has
  its answer; and a refusal before that is only given where an upstream may have seen the request or
  the request cannot be written at all.\<close>

theorem request_answered_by_deadline:
  assumes "dispatch secs secs0 c ts = (reqs, r)"
  shows "((\<exists>t \<in> set ts. cl_deadline c \<le> tn_later t) \<longrightarrow> r \<noteq> Again)
    \<and> (\<forall>q. r = RefusedWith q \<longrightarrow> (\<exists>t \<in> set ts. cl_deadline c \<le> tn_later t \<or> reached c t \<or> tn_unbuilt t \<noteq> None))"
proof -
  have "cl_deadline c \<le> tn_later t \<or> reached c t \<or> tn_unbuilt t \<noteq> None" if "dispatch_turn secs secs0 c t = RefusedWith q" for t q
    using that by (auto simp: dispatch_turn_def reached_def turn_sends_def send_once_checked_def Let_def split: option.splits attempt.splits if_splits sum.splits)
  moreover have "\<not> cl_deadline c \<le> tn_later t" if "dispatch_turn secs secs0 c t = Again" for t using dispatch_again [OF that] by simp
  ultimately show ?thesis using dispatch_turns [OF assms] by (elim disjE exE conjE) (simp_all, blast+)
qed

section \<open>A stream that starts early\<close>

fun keep_run :: "(nat \<Rightarrow> string) \<Rightarrow> (json \<Rightarrow> string) \<Rightarrow> poll_input list \<Rightarrow> keep \<Rightarrow> load \<Rightarrow> polled list \<times> keep \<times> load" where
  "keep_run status_text shown [] k ld = ([], k, ld)"
| "keep_run status_text shown (x # xs) k ld =
     (case keep_poll status_text shown x k ld of (p, k1, ld1) \<Rightarrow>
        case keep_run status_text shown xs k1 ld1 of (ps, k2, ld2) \<Rightarrow> (p # ps, k2, ld2))"

text \<open>The polls of a queue of frames that is played and then ends.\<close>

definition played :: "string list \<Rightarrow> nat \<Rightarrow> polled list" where
  "played q n = map PollData (take n q) @ replicate (n - length q) PollEnd"

lemma keep_run_done: "keep_run status_text shown xs KeepDone ld = (replicate (length xs) PollEnd, KeepDone, ld)"
  by (induction xs) (simp_all add: keep_poll_def)

lemma keep_run_failing: "fst (keep_run status_text shown xs (KeepFailing q) ld) = played q (length xs)"
proof (induction xs arbitrary: q)
  case (Cons x xs)
  show ?case
  proof (cases q)
    case Nil
    then show ?thesis by (simp add: keep_poll_def keep_fail_def keep_run_done played_def)
  next
    case (Cons b q')
    then show ?thesis using Cons.IH [of q'] by (simp add: keep_poll_def keep_fail_def played_def case_prod_beta)
  qed
qed (simp add: played_def)

lemma keep_run_relaying: "fst (keep_run status_text shown xs (KeepRelaying i) ld) = map po_body xs"
proof (induction xs arbitrary: ld)
  case (Cons x xs)
  then show ?case by (simp add: keep_poll_def keep_relay_def tracked_poll_def case_prod_beta)
qed simp

text \<open>What follows the comments, by what the dispatch said.\<close>

definition early_answer :: "(nat \<Rightarrow> string) \<Rightarrow> (json \<Rightarrow> string) \<Rightarrow> awaited \<Rightarrow> poll_input list \<Rightarrow> polled list" where
  "early_answer status_text shown rx xs = (case rx of
     RxPending \<Rightarrow> []
   | RxReply status i \<Rightarrow> if is_success status then map po_body xs
       else played (error_events shown (''upstream answered HTTP '' @ status_text status)) (length xs)
   | RxRefused r \<Rightarrow> played (error_events shown (refusal_message status_text r)) (length xs)
   | RxDropped \<Rightarrow> played (error_events shown ''the router dropped the request'') (length xs))"

lemma keep_fail_run:
  "fst (case keep_fail q ld of (p, k1, ld1) \<Rightarrow> case keep_run status_text shown xs k1 ld1 of (ps, k2, ld2) \<Rightarrow> (p # ps, k2, ld2))
     = played q (Suc (length xs))"
proof (cases q)
  case Nil
  then show ?thesis by (simp add: keep_fail_def keep_run_done played_def)
next
  case (Cons b q')
  then show ?thesis using keep_run_failing [of status_text shown xs q' ld] by (simp add: keep_fail_def played_def case_prod_beta)
qed

text \<open>C27: a stream that starts before its upstream has replied is well formed. Whatever is polled, the client
  first gets comment lines, one per tick of the interval, as long as nothing is known; then either
  the upstream's body, frame by frame and unchanged, or one error event and the terminator, and the
  end. No comment falls into a body, and no error after a byte of an answer.\<close>

theorem early_stream_well_formed:
  "fst (keep_run status_text shown xs KeepWaiting ld) =
     map (\<lambda>x. if po_tick x then PollData keepalive_line else PollPending) (takeWhile (\<lambda>x. po_rx x = RxPending) xs)
     @ (case dropWhile (\<lambda>x. po_rx x = RxPending) xs of [] \<Rightarrow> [] | x # ys \<Rightarrow> early_answer status_text shown (po_rx x) (x # ys))"
proof (induction xs)
  case (Cons x xs)
  show ?case
  proof (cases "po_rx x")
    case RxPending
    then show ?thesis using Cons.IH by (simp add: keep_poll_def case_prod_beta)
  next
    case (RxReply status i)
    have relay: "fst (keep_run status_text shown (x # xs) KeepWaiting ld) = map po_body (x # xs)" if "is_success status"
      using that RxReply keep_run_relaying [of status_text shown "x # xs" i ld] by (simp add: keep_poll_def)
    show ?thesis using relay RxReply keep_fail_run by (simp add: early_answer_def keep_poll_def del: keep_run.simps(1))
  qed (use keep_fail_run in \<open>simp_all add: early_answer_def keep_poll_def\<close>)
qed simp

section \<open>Requests in flight\<close>

text \<open>A tracked request is opened once, counted while it is open, and closed once; the list is the requests
  that are open. Fewer than \<open>2 ^ 64\<close> requests are opened in the life of a gateway.\<close>

inductive track_step :: "load \<times> nat list \<Rightarrow> load \<times> nat list \<Rightarrow> bool" where
  opened: "tracked_new now model grp bytes stream ld = (ld', i) \<Longrightarrow> ld_next_req ld + 1 < 2 ^ 64 \<Longrightarrow> track_step (ld, os) (ld', i # os)"
| counted: "i \<in> set os \<Longrightarrow> track_step (ld, os) (tracked_saw now i n ld, os)"
| ended: "i \<in> set os \<Longrightarrow> track_step (ld, os) (tracked_drop i ld, remove1 i os)"

fun track_start :: "load \<times> nat list \<Rightarrow> bool" where
  "track_start (ld, os) \<longleftrightarrow> ld_inflight ld = [] \<and> os = []"

fun track_inv :: "load \<times> nat list \<Rightarrow> bool" where
  "track_inv (ld, os) \<longleftrightarrow> distinct os \<and> bt_wf (ld_inflight ld) \<and> set (map fst (ld_inflight ld)) = set os \<and> (\<forall>i \<in> set os. i < ld_next_req ld)"

lemma track_inv_step:
  assumes "track_step x y" "track_inv x"
  shows "track_inv y"
  using assms
proof cases
  case (opened now model grp bytes stream ld ld' i os)
  then have "i = ld_next_req ld" "ld_next_req ld' = ld_next_req ld + 1" "\<exists>r. ld_inflight ld' = bt_insert i r (ld_inflight ld)"
    by (auto simp: tracked_new_def Let_def u64_add_def)
  with opened assms(2) show ?thesis by (fastforce simp: less_Suc_eq fst_set_bt_insert intro: bt_wf_insert)
next
  case (counted i os ld now n)
  with assms(2) show ?thesis by (auto simp: tracked_saw_def hm_modify_def bt_wf_def comp_def case_prod_beta)
next
  case (ended i os ld)
  with assms(2) show ?thesis by (fastforce simp: tracked_drop_def hm_remove_def bt_wf_filter)
qed

interpretation tracking: transition_system track_start track_step track_inv
  by unfold_locales (auto simp: bt_wf_def intro: track_inv_step elim!: track_start.elims)

text \<open>The table of requests in flight is honest: whatever requests open, carry bytes and end in whatever
  order, its rows are exactly the open requests, each under a number of its own.\<close>

theorem inflight_rows_are_open_requests:
  assumes "track_start (ld0, os0)" "track_step\<^sup>*\<^sup>* (ld0, os0) (ld, os)"
  shows "map fst (ld_inflight ld) = sort os \<and> distinct os"
proof -
  have "track_inv (ld, os)" using assms by (rule tracking.inv_reached)
  then have "distinct os" "sorted_wrt (<) (map fst (ld_inflight ld))" "set (map fst (ld_inflight ld)) = set os" by (auto simp: bt_wf_def)
  moreover from this(2) have "sorted (map fst (ld_inflight ld))" "distinct (map fst (ld_inflight ld))"
    by (auto simp: strict_sorted_iff)
  ultimately show ?thesis by (metis sorted_distinct_set_unique distinct_sort set_sort sorted_sort)
qed

end
