(* ===== verification/McpProps.thy ===== *)
theory McpProps
  imports ServeMcp ProxyProps ServeRoutes
begin

text \<open>
  The merged MCP endpoint: what the merge holds, that a listed tool can be called where it is listed and
  runs nowhere else, and that no answer of a group makes the endpoint panic.
\<close>

section \<open>The merge\<close>

text \<open>The lists the groups give, in the order of the table, and the cache after them.\<close>

fun offers :: "(string \<Rightarrow> json \<Rightarrow> string + json) \<Rightarrow> nat \<Rightarrow> group_entry list \<Rightarrow> serve \<Rightarrow> (string \<times> json list) list" where
  "offers post_json now [] sv = []"
| "offers post_json now (e # es) sv = (case mcp_url e of
     None \<Rightarrow> offers post_json now es sv
   | Some url \<Rightarrow> (case group_tools post_json now (ge_group e) url sv of
       (tools, sv') \<Rightarrow> (ge_group e, tools) # offers post_json now es sv'))"

lemma merge_groups_offers:
  "fst (merge_groups post_json now es out sv) = fold (\<lambda>(g, ts). fold (merge_tool g) ts) (offers post_json now es sv) out"
  by (induction es arbitrary: out sv) (auto split: option.split prod.split)

text \<open>How often a group lists a tool.\<close>

definition times :: "string \<Rightarrow> json list \<Rightarrow> nat" where
  "times name ts = length (filter (\<lambda>t. as_str (jget t ''name'') = Some name) ts)"

definition offered_by :: "string \<Rightarrow> (string \<times> json list) list \<Rightarrow> string list" where
  "offered_by name os = concat (map (\<lambda>(g, ts). replicate (times name ts) g) os)"

definition groups_of :: "(string, merged) table \<Rightarrow> string \<Rightarrow> string list" where
  "groups_of out name = (case map_of out name of Some m \<Rightarrow> mg_groups m | None \<Rightarrow> [])"

definition merge_wf :: "(string, merged) table \<Rightarrow> bool" where
  "merge_wf out \<longleftrightarrow> bt_wf out \<and> (\<forall>(name, m) \<in> set out. name \<noteq> NATIVE \<and> mg_groups m \<noteq> [] \<and> (\<exists>o1. mg_schema m = JObj o1))"

lemma merge_tool_wf: "merge_wf out \<Longrightarrow> merge_wf (merge_tool g t out)"
proof -
  assume wf: "merge_wf out"
  have put: "merge_wf (bt_insert name m out)" if "name \<noteq> NATIVE" "mg_groups m \<noteq> []" "\<exists>o1. mg_schema m = JObj o1" for name m
    using wf that by (auto simp: merge_wf_def bt_wf_insert dest!: in_bt_insert)
  have "\<exists>o1. mg_schema m = JObj o1" if "map_of out name = Some m" for name m
    using wf that by (auto simp: merge_wf_def dest!: map_of_SomeD)
  then show ?thesis using wf put by (auto simp: merge_tool_def no_schema_def jobj_def split: option.split json.split)
qed

lemma merge_tool_groups:
  "groups_of (merge_tool g t out) name
     = groups_of out name @ (if as_str (jget t ''name'') = Some name \<and> name \<noteq> NATIVE then [g] else [])"
  by (auto simp: groups_of_def merge_tool_def map_of_bt_insert_gen split: option.split)

lemma merge_group_groups: "name \<noteq> NATIVE \<Longrightarrow> groups_of (fold (merge_tool g) ts out) name = groups_of out name @ replicate (times name ts) g"
  by (induction ts arbitrary: out) (simp_all add: merge_tool_groups times_def)

lemma fold_merge_wf: "merge_wf out \<Longrightarrow> merge_wf (fold (\<lambda>(g, ts). fold (merge_tool g) ts) os out)"
proof (induction os arbitrary: out)
  case (Cons x os)
  have "merge_wf (fold (merge_tool g) ts out)" if "merge_wf out" for g ts out
    using that by (induction ts arbitrary: out) (simp_all add: merge_tool_wf)
  with Cons show ?case by (simp add: case_prod_beta)
qed simp

lemma fold_merge_groups:
  "name \<noteq> NATIVE \<Longrightarrow> groups_of (fold (\<lambda>(g, ts). fold (merge_tool g) ts) os out) name = groups_of out name @ offered_by name os"
  by (induction os arbitrary: out) (auto simp: merge_group_groups offered_by_def)

definition all_offers :: "(string \<Rightarrow> json \<Rightarrow> string + json) \<Rightarrow> nat \<Rightarrow> net list \<Rightarrow> serve \<Rightarrow> (string \<times> json list) list" where
  "all_offers post_json now local sv = offers post_json now (map snd (group_table sv now local)) sv"

lemma merge_wf_merge: "merge_wf (fst (merge post_json now local sv))"
proof -
  have "merge_wf []" by (simp add: merge_wf_def bt_wf_def)
  then show ?thesis by (simp add: merge_def merge_groups_offers fold_merge_wf)
qed

lemma groups_of_merge: "name \<noteq> NATIVE \<Longrightarrow> groups_of (fst (merge post_json now local sv)) name = offered_by name (all_offers post_json now local sv)"
  by (simp add: merge_def merge_groups_offers fold_merge_groups all_offers_def) (simp add: groups_of_def)

text \<open>A row of the merge lists exactly the groups that offer the tool, in the order of the table.\<close>

lemma merge_row:
  assumes "map_of (fst (merge post_json now local sv)) name = Some m"
  shows "name \<noteq> NATIVE \<and> mg_groups m = offered_by name (all_offers post_json now local sv) \<and> mg_groups m \<noteq> [] \<and> (\<exists>o1. mg_schema m = JObj o1)"
proof -
  have "(name, m) \<in> set (fst (merge post_json now local sv))" using assms by (rule map_of_SomeD)
  with merge_wf_merge [of post_json now local sv] have *: "name \<noteq> NATIVE" "mg_groups m \<noteq> []" "\<exists>o1. mg_schema m = JObj o1"
    by (auto simp: merge_wf_def)
  with groups_of_merge [OF *(1), of post_json now local sv] assms show ?thesis by (simp add: groups_of_def)
qed

lemma merge_row_none: "name \<noteq> NATIVE \<Longrightarrow> map_of (fst (merge post_json now local sv)) name = None \<longleftrightarrow> offered_by name (all_offers post_json now local sv) = []"
proof -
  assume n: "name \<noteq> NATIVE"
  show ?thesis using groups_of_merge [OF n, of post_json now local sv] merge_row [of post_json now local sv name]
    by (cases "map_of (fst (merge post_json now local sv)) name") (auto simp: groups_of_def)
qed

section \<open>No panic\<close>

lemma those_map_some: "(\<forall>x \<in> set xs. f x \<noteq> None) \<Longrightarrow> those (map f xs) \<noteq> None"
  by (induction xs) (auto split: option.split)

lemma tool_list_some: "fst (tool_list post_json now local sv) \<noteq> None"
proof -
  obtain out sv' where m: "merge post_json now local sv = (out, sv')" by force
  have "\<forall>x \<in> set out. tool_row x \<noteq> None"
    using merge_wf_merge [of post_json now local sv] m by (fastforce simp: merge_wf_def tool_row_def with_group_arg_def Let_def)
  then have "those (map tool_row out) \<noteq> None" by (rule those_map_some)
  then show ?thesis by (simp add: tool_list_def m)
qed

lemma rpc_no_panic: "fst (rpc shown pretty post_json version now local req sv) \<noteq> RpcPanic"
  using tool_list_some [of post_json now local sv] by (auto simp: rpc_def Let_def split: prod.split option.split)

lemma rpc_batch_some: "fst (rpc_batch shown pretty post_json version now local reqs sv) \<noteq> None"
proof (induction reqs arbitrary: sv)
  case (Cons r rs)
  obtain o1 sv' where r: "rpc shown pretty post_json version now local r sv = (o1, sv')" by force
  then have "o1 \<noteq> RpcPanic" using rpc_no_panic [of shown pretty post_json version now local r sv] by simp
  with r Cons [of sv'] show ?case by (cases o1) (auto split: prod.split)
qed simp

text \<open>C30: the MCP endpoint always answers. Whatever a client posts and whatever the groups' servers reply,
  malformed tools and schemas included, the handler gives a response: the two places where the code
  insists that a schema is an object are never wrong.\<close>

theorem mcp_always_answers: "fst (mcp_handle from_slice shown pretty post_json version now local body sv) \<noteq> None"
proof -
  have one: "fst (case rpc shown pretty post_json version now local req sv of
      (RpcPanic, sv') \<Rightarrow> (None, sv') | (RpcSilent, sv') \<Rightarrow> (Some (202, None), sv') | (RpcReply v, sv') \<Rightarrow> (Some (200, Some v), sv')) \<noteq> None" for req
    using rpc_no_panic [of shown pretty post_json version now local req sv] by (auto split: prod.split rpc_outcome.split)
  have "fst (case rpc_batch shown pretty post_json version now local reqs sv of
      (None, sv') \<Rightarrow> (None, sv') | (Some [], sv') \<Rightarrow> (Some (202, None), sv') | (Some vs, sv') \<Rightarrow> (Some (200, Some (JArr vs)), sv')) \<noteq> None" for reqs
    using rpc_batch_some [of shown pretty post_json version now local reqs sv] by (auto split: prod.split option.split list.split)
  with one show ?thesis by (auto simp: mcp_handle_def split: option.split sum.split json.split)
qed

section \<open>The added argument\<close>

lemma jget_JObj_insert: "jget (JObj (bt_insert k v o1)) k' = (if k' = k then v else jget (JObj o1) k')"
  by (simp add: jget_def map_of_bt_insert_gen)

text \<open>A listed tool is the group's tool with one argument more. Its schema keeps every entry and every
  property of the schema the group gave, adds the property that names the group with exactly the groups
  offering the tool as its choices, and requires it if and only if more than one entry is listed.\<close>

theorem group_argument_added:
  assumes "mg_schema m = JObj o1" "with_group_arg m = Some v"
  shows "jget (jget v ''properties'') GROUP_ARG = group_arg (mg_groups m)
    \<and> (k \<noteq> GROUP_ARG \<longrightarrow> jget (jget v ''properties'') k = jget (jget (JObj o1) ''properties'') k)
    \<and> (k \<notin> {''type'', ''properties'', ''required''} \<longrightarrow> jget v k = jget (JObj o1) k)
    \<and> (hm_has o1 ''type'' \<longrightarrow> jget v ''type'' = jget (JObj o1) ''type'')
    \<and> (if 1 < length (mg_groups m) then elems (jget v ''required'') = elems (jget (JObj o1) ''required'') @ [JStr GROUP_ARG]
       else jget v ''required'' = jget (JObj o1) ''required'')"
proof -
  define o2 where "o2 = (if hm_has o1 ''type'' then o1 else bt_insert ''type'' (JStr ''object'') o1)"
  define props where "props = (case map_of o2 ''properties'' of Some (JObj ps) \<Rightarrow> ps | _ \<Rightarrow> [])"
  define o3 where "o3 = bt_insert ''properties'' (JObj (bt_insert GROUP_ARG (group_arg (mg_groups m)) props)) o2"
  have o2: "map_of o2 k = map_of o1 k" if "k \<noteq> ''type'' \<or> hm_has o1 ''type''" for k using that by (auto simp: o2_def map_of_bt_insert_gen)
  have o3: "map_of o3 k = map_of o1 k" if "k \<noteq> ''type'' \<or> hm_has o1 ''type''" "k \<noteq> ''properties''" for k
    using that o2 [of k] by (auto simp: o3_def map_of_bt_insert_gen)
  let ?rs = "case map_of o3 ''required'' of Some (JArr rs) \<Rightarrow> rs | _ \<Rightarrow> []"
  have v: "v = JObj (if 1 < length (mg_groups m) then bt_insert ''required'' (JArr (?rs @ [JStr GROUP_ARG])) o3 else o3)"
    using assms(2) unfolding with_group_arg_def Let_def assms(1) json.case o2_def [symmetric] props_def [symmetric] o3_def [symmetric] by simp
  have props: "jget (JObj props) k = jget (jget (JObj o1) ''properties'') k" for k
    by (simp add: props_def o2 jget_def split: option.split json.split)
  have p: "jget v ''properties'' = JObj (bt_insert GROUP_ARG (group_arg (mg_groups m)) props)"
    by (simp add: v jget_def map_of_bt_insert_gen o3_def)
  have same: "jget v k = jget (JObj o1) k" if "k \<noteq> ''type'' \<or> hm_has o1 ''type''" "k \<noteq> ''properties''" "k \<noteq> ''required''" for k
    using o3 [OF that(1,2)] that(3) by (simp add: v jget_def map_of_bt_insert_gen)
  have required: "elems (jget v ''required'') = elems (jget (JObj o1) ''required'') @ [JStr GROUP_ARG]" if "1 < length (mg_groups m)"
    using that by (simp add: v jget_def map_of_bt_insert_gen o3 elems_def as_array_def split: option.split json.split)
  have optional: "jget v ''required'' = jget (JObj o1) ''required''" if "\<not> 1 < length (mg_groups m)"
    using that by (simp add: v jget_def o3)
  show ?thesis using props [of k] same required optional by (simp add: p jget_JObj_insert)
qed

section \<open>Calls\<close>

lemma in_offered_by: "g \<in> set (offered_by name os) \<longleftrightarrow> (\<exists>ts t. (g, ts) \<in> set os \<and> t \<in> set ts \<and> as_str (jget t ''name'') = Some name)"
proof (induction os)
  case (Cons x os)
  obtain h ts where x: "x = (h, ts)" by force
  have "g \<in> set (replicate (times name ts) h) \<longleftrightarrow> g = h \<and> (\<exists>t \<in> set ts. as_str (jget t ''name'') = Some name)"
    by (auto simp: times_def filter_empty_conv)
  moreover have "offered_by name (x # os) = replicate (times name ts) h @ offered_by name os" by (simp add: offered_by_def x)
  ultimately show ?case using Cons by (auto simp: x)
qed (simp add: offered_by_def)

text \<open>C28: a tool runs only where it is offered and asked for. Whatever a client puts into a call, the group
  it is forwarded to is one whose own list has the tool; the client named it, or it is the only entry
  for the tool; and it goes to that group's endpoint with the client's arguments, the added one taken
  out.\<close>

theorem tool_runs_where_offered:
  assumes "merge post_json now local sv = (out, sv')" "call_target now local rid params out sv' = Inr (grp, url, fwd)"
    and "str_of (jget params ''name'') = name" "jget params ''arguments'' = args"
  shows "(\<exists>ts t. (grp, ts) \<in> set (all_offers post_json now local sv) \<and> t \<in> set ts \<and> as_str (jget t ''name'') = Some name)
    \<and> (as_str (jget args GROUP_ARG) = Some grp
       \<or> as_str (jget args GROUP_ARG) = None \<and> offered_by name (all_offers post_json now local sv) = [grp])
    \<and> Option.bind (map_of (group_table sv' now local) grp) mcp_url = Some url
    \<and> jget (jget fwd ''params'') ''name'' = JStr name
    \<and> (\<forall>k. jget (jget (jget fwd ''params'') ''arguments'') k = (if k = GROUP_ARG then JNull else jget args k))"
proof -
  obtain m where m: "map_of out name = Some m" using assms(2,3) by (auto simp: call_target_def Let_def split: option.splits)
  then have groups: "mg_groups m = offered_by name (all_offers post_json now local sv)"
    using merge_row [of post_json now local sv name m] assms(1) by simp
  have pick: "pick_group name m (map_of (entries args) GROUP_ARG) = Inr grp" "Option.bind (map_of (group_table sv' now local) grp) mcp_url = Some url"
    "fwd = forward_call rid name (hm_remove GROUP_ARG (entries args))"
    using assms m by (auto simp: call_target_def Let_def split: option.splits sum.splits)
  have asked: "as_str (jget args GROUP_ARG) = Option.bind (map_of (entries args) GROUP_ARG) as_str"
    by (auto simp: jget_def entries_def as_object_def as_str_def split: json.split option.split)
  have "grp \<in> set (mg_groups m) \<and> (as_str (jget args GROUP_ARG) = Some grp \<or> as_str (jget args GROUP_ARG) = None \<and> mg_groups m = [grp])"
    using pick(1) unfolding asked by (auto simp: pick_group_def split: option.splits if_splits list.splits)
  moreover have "jget (jget fwd ''params'') ''name'' = JStr name" "jget (jget fwd ''params'') ''arguments'' = JObj (hm_remove GROUP_ARG (entries args))"
    by (simp_all add: pick(3) forward_call_def jget_jobj)
  moreover have "jget (JObj (hm_remove GROUP_ARG (entries args))) k = (if k = GROUP_ARG then JNull else jget args k)" for k
    by (auto simp: jget_def hm_remove_def map_of_filter_key entries_def as_object_def split: json.split option.split)
  ultimately show ?thesis using pick(2) groups by (simp add: in_offered_by)
qed

text \<open>One round through the lists leaves the cache such that a second one gives the same.\<close>

lemma group_tools_frame:
  assumes "group_tools post_json now g url sv = (ts, sv')"
  shows "(\<exists>tls. sv' = sv\<lparr>sv_tools := tls\<rparr>) \<and> (k \<noteq> tools_key g url \<longrightarrow> map_of (sv_tools sv') k = map_of (sv_tools sv) k)"
  using assms by (auto simp: group_tools_def Let_def map_of_hm_insert split: option.splits intro: exI [of _ "sv_tools sv"])

lemma group_tools_again:
  assumes "group_tools post_json now g url sv = (ts, sv1)" "sv_cfg sv2 = sv_cfg sv"
    and "map_of (sv_tools sv2) (tools_key g url) = map_of (sv_tools sv1) (tools_key g url)"
  shows "fst (group_tools post_json now g url sv2) = ts"
proof (cases "cached_tools sv now (tools_key g url)")
  case None
  define got where "got = (case post_json url tools_request of Inr v \<Rightarrow> Inr (elems (jget (jget v ''result'') ''tools'')) | Inl e \<Rightarrow> Inl e)"
  have sv1: "ts = (case got of Inr tools \<Rightarrow> tools | Inl _ \<Rightarrow> [])" "map_of (sv_tools sv1) (tools_key g url) = Some (now, got)"
    using assms(1) None by (auto simp: group_tools_def Let_def got_def map_of_hm_insert)
  then have "cached_tools sv2 now (tools_key g url) = (case got of Inr tools \<Rightarrow> if tools \<noteq> [] then Some tools else None | Inl _ \<Rightarrow> None)"
    using assms(3) by (simp add: cached_tools_def split: sum.split)
  then show ?thesis using sv1(1) by (auto simp: group_tools_def got_def Let_def split: sum.splits option.splits if_splits)
next
  case (Some tools)
  then have "ts = tools" "sv1 = sv" using assms(1) by (simp_all add: group_tools_def)
  then have "cached_tools sv2 now (tools_key g url) = Some tools" using Some assms(2,3) by (simp add: cached_tools_def split: option.splits prod.splits sum.splits)
  then show ?thesis using \<open>ts = tools\<close> by (simp add: group_tools_def)
qed

definition entry_key :: "group_entry \<Rightarrow> string option" where
  "entry_key e = map_option (tools_key (ge_group e)) (mcp_url e)"

lemma merge_groups_frame:
  "(\<exists>tls. snd (merge_groups post_json now es out sv) = sv\<lparr>sv_tools := tls\<rparr>)
     \<and> (Some k \<notin> entry_key ` set es \<longrightarrow> map_of (sv_tools (snd (merge_groups post_json now es out sv))) k = map_of (sv_tools sv) k)"
proof (induction es arbitrary: out sv)
  case Nil
  then show ?case by (auto intro: exI [of _ "sv_tools sv"])
next
  case (Cons e es)
  show ?case
  proof (cases "mcp_url e")
    case (Some url)
    obtain ts sv1 where gt: "group_tools post_json now (ge_group e) url sv = (ts, sv1)" by force
    from group_tools_frame [OF gt, of k] Cons [of "fold (merge_tool (ge_group e)) ts out" sv1] Some gt
    show ?thesis by (auto simp: entry_key_def)
  qed (use Cons in \<open>auto simp: entry_key_def\<close>)
qed

lemma offers_again:
  assumes "distinct (filter (\<lambda>k. k \<noteq> None) (map entry_key es))" "sv_cfg sv2 = sv_cfg sv"
    and "\<And>k. Some k \<in> entry_key ` set es \<Longrightarrow> map_of (sv_tools sv2) k = map_of (sv_tools (snd (merge_groups post_json now es out sv))) k"
  shows "offers post_json now es sv2 = offers post_json now es sv"
  using assms
proof (induction es arbitrary: sv sv2 out)
  case (Cons e es)
  show ?case
  proof (cases "mcp_url e")
    case None
    then show ?thesis using Cons.IH [of sv2 sv out] Cons.prems by (auto simp: entry_key_def)
  next
    case (Some url)
    let ?k = "tools_key (ge_group e) url"
    obtain ts sv1 where gt: "group_tools post_json now (ge_group e) url sv = (ts, sv1)" by force
    obtain ts2 sv3 where gt2: "group_tools post_json now (ge_group e) url sv2 = (ts2, sv3)" by force
    let ?fin = "snd (merge_groups post_json now es (fold (merge_tool (ge_group e)) ts out) sv1)"
    have key: "entry_key e = Some ?k" by (simp add: entry_key_def Some)
    have fresh_key: "Some ?k \<notin> entry_key ` set es" using Cons.prems(1) key by auto
    have fin: "map_of (sv_tools sv2) k = map_of (sv_tools ?fin) k" if "Some k \<in> entry_key ` set (e # es)" for k
      using Cons.prems(3) [OF that] by (simp add: Some gt)
    have "map_of (sv_tools ?fin) ?k = map_of (sv_tools sv1) ?k" using merge_groups_frame fresh_key by blast
    then have same: "ts2 = ts" using group_tools_again [OF gt Cons.prems(2)] fin [of ?k] key gt2 by (metis fst_conv image_eqI list.set_intros(1))
    have "offers post_json now es sv3 = offers post_json now es sv1"
    proof (rule Cons.IH)
      show "distinct (filter (\<lambda>k. k \<noteq> None) (map entry_key es))" using Cons.prems(1) key by simp
      show "sv_cfg sv3 = sv_cfg sv1" using group_tools_frame [OF gt, of "[]"] group_tools_frame [OF gt2, of "[]"] Cons.prems(2) by auto
      show "map_of (sv_tools sv3) k = map_of (sv_tools ?fin) k" if "Some k \<in> entry_key ` set es" for k
        using that fresh_key fin [of k] group_tools_frame [OF gt2, of k] by auto
    qed
    then show ?thesis using Some gt gt2 same by simp
  qed
qed simp

lemma key_group: "CHR '' '' \<notin> set g \<Longrightarrow> CHR '' '' \<notin> set g' \<Longrightarrow> tools_key g url = tools_key g' url' \<Longrightarrow> g = g'"
proof -
  assume g: "CHR '' '' \<notin> set g" "CHR '' '' \<notin> set g'" and k: "tools_key g url = tools_key g' url'"
  have "split_once (CHR '' '') (tools_key h u) = Some (h, u)" if "CHR '' '' \<notin> set h" for h u using split_once_at [OF that, of u] by (simp add: tools_key_def)
  with g k show ?thesis by (metis option.inject prod.inject)
qed

lemma entry_keys_distinct:
  assumes "distinct (map ge_group es)" "\<forall>e \<in> set es. CHR '' '' \<notin> set (ge_group e)"
  shows "distinct (filter (\<lambda>k. k \<noteq> None) (map entry_key es))"
  using assms
proof (induction es)
  case (Cons e es)
  have "entry_key e \<noteq> entry_key x" if "x \<in> set es" "entry_key e \<noteq> None" for x
  proof
    assume "entry_key e = entry_key x"
    with that(2) obtain u v where "tools_key (ge_group e) u = tools_key (ge_group x) v" by (cases "mcp_url x") (auto simp: entry_key_def)
    then have "ge_group e = ge_group x" using key_group Cons.prems(2) that(1) by (metis list.set_intros)
    with that(1) Cons.prems(1) show False by auto
  qed
  with Cons show ?case by auto
qed simp

lemma group_table_tools: "group_table (sv\<lparr>sv_tools := tls\<rparr>) now local = group_table sv now local"
proof -
  have f: "fresh_view (sv\<lparr>sv_tools := tls\<rparr>) now = fresh_view sv now" "known_nodes (sv\<lparr>sv_tools := tls\<rparr>) = known_nodes sv"
    by (simp_all add: fresh_view_def known_nodes_def fun_eq_iff split: option.split)
  show ?thesis by (simp add: group_table_def announced_groups_def announced_entries_def f cong: option.case_cong)
qed

lemma table_groups: "map ge_group (map snd (group_table sv now local)) = map fst (group_table sv now local)"
  using named_group_table [of sv now local] by (auto simp: named_def)

lemma merge_again:
  assumes "merge post_json now local sv = (out, sv')" "\<forall>(g, e) \<in> set (group_table sv now local). CHR '' '' \<notin> set g"
  shows "fst (merge post_json now local sv') = out"
proof -
  let ?es = "map snd (group_table sv now local)"
  have sv': "sv' = snd (merge_groups post_json now ?es [] sv)" "out = fst (merge_groups post_json now ?es [] sv)"
    using assms(1) by (simp_all add: merge_def)
  obtain tls where tls: "sv' = sv\<lparr>sv_tools := tls\<rparr>" using merge_groups_frame [of post_json now ?es "[]" sv] sv' by auto
  have "distinct (map ge_group ?es)" using bt_wf_distinct [OF bt_wf_group_table] by (simp only: table_groups)
  moreover have "\<forall>e \<in> set ?es. CHR '' '' \<notin> set (ge_group e)" using assms(2) named_group_table [of sv now local] by (fastforce simp: named_def)
  ultimately have "offers post_json now ?es sv' = offers post_json now ?es sv"
    by (intro offers_again [where out = "[]"] entry_keys_distinct) (simp_all add: tls flip: sv'(1))
  then show ?thesis by (simp add: merge_def sv'(2) merge_groups_offers tls group_table_tools)
qed

lemma offers_in_table:
  "(g, ts) \<in> set (offers post_json now es sv) \<Longrightarrow> \<exists>e \<in> set es. ge_group e = g \<and> mcp_url e \<noteq> None"
  by (induction es arbitrary: sv) (auto split: option.splits prod.splits)


text \<open>A group that lists a tool twice is listed twice: the call then has to name it, though there is no other.\<close>

lemma twice_listed_needs_group:
  assumes "map_of (fst (merge post_json now local sv)) name = Some m" "all_offers post_json now local sv = [(g, ts)]" "2 \<le> times name ts"
  shows "set (mg_groups m) = {g} \<and> isl (pick_group name m None)"
proof -
  have "mg_groups m = replicate (times name ts) g" using merge_row [OF assms(1)] assms(2) by (simp add: offered_by_def)
  moreover obtain n where "times name ts = Suc (Suc n)" using assms(3) by (metis add_2_eq_Suc le_Suc_ex)
  ultimately show ?thesis by (auto simp: pick_group_def)
qed

end
