(* ===== verification/ServeTokens.thy ===== *)
theory ServeTokens
  imports ServeProxy
begin

text \<open>
  \<open>POST /v1/responses/input_tokens\<close> (\<open>rust/mentatd-serve/src/tokens.rs\<close>): the messages of an input are
  counted by the engine that serves the model, and media are priced at flat rates. The POST to the
  engine is an argument: what a URL and a body would be answered with. Costs are natural numbers; an
  input of at most 32 MiB cannot hold enough media to pass \<open>2 ^ 64\<close>.
\<close>

definition IMAGE_TOKENS :: nat where
  "IMAGE_TOKENS = 4000"

definition VIDEO_TOKENS :: nat where
  "VIDEO_TOKENS = 40000"

definition SUPPORTED :: string where
  "SUPPORTED = ''vllm''"

definition MAX_TOKENS_BODY :: nat where
  "MAX_TOKENS_BODY = 32 * 1024 * 1024"

definition tokenize_root :: "string \<Rightarrow> string" where
  "tokenize_root base = (let base = trim_slashes base in case strip_suffix ''/v1'' base of Some r \<Rightarrow> r | None \<Rightarrow> base)"

definition split_part :: "json \<Rightarrow> string \<times> nat \<Rightarrow> string \<times> nat" where
  "split_part p acc =
     (let kind = str_of (jget p ''type'')
      in if kind \<in> {''input_image'', ''image_url'', ''image''} then (fst acc, snd acc + IMAGE_TOKENS)
         else if kind \<in> {''input_video'', ''video_url'', ''video''} then (fst acc, snd acc + VIDEO_TOKENS)
         else (case as_str (jget p ''text'') of Some s \<Rightarrow> (fst acc @ s, snd acc) | None \<Rightarrow> acc))"

definition split_content :: "json \<Rightarrow> string \<times> nat" where
  "split_content content = (case content of
     JStr s \<Rightarrow> (s, 0)
   | JArr parts \<Rightarrow> fold split_part parts ([], 0)
   | _ \<Rightarrow> ([], 0))"

definition chat_message :: "string \<Rightarrow> string \<Rightarrow> json" where
  "chat_message role text = jobj [(''role'', JStr role), (''content'', JStr text)]"

definition split_item :: "json \<Rightarrow> json list \<times> nat \<Rightarrow> json list \<times> nat" where
  "split_item item acc = (case as_str item of
     Some s \<Rightarrow> (fst acc @ [chat_message ''user'' s], snd acc)
   | None \<Rightarrow> (case split_content (jget item ''content'') of (text, cost) \<Rightarrow>
       (fst acc @ [chat_message (case as_str (jget item ''role'') of Some r \<Rightarrow> r | None \<Rightarrow> ''user'') text], snd acc + cost)))"

definition split_input :: "json \<Rightarrow> json list \<times> nat" where
  "split_input pl =
     (let ms = (case as_str (jget pl ''instructions'') of Some s \<Rightarrow> if s = [] then [] else [chat_message ''system'' s] | None \<Rightarrow> [])
      in case jget pl ''input'' of
           JStr s \<Rightarrow> (ms @ [chat_message ''user'' s], 0)
         | JArr items \<Rightarrow> fold split_item items (ms, 0)
         | _ \<Rightarrow> (ms, 0))"

definition tokenize_request :: "string \<Rightarrow> json list \<Rightarrow> json \<Rightarrow> json" where
  "tokenize_request model messages pl = jobj ([(''model'', JStr model), (''messages'', JArr messages)]
     @ (case jfield pl ''tools'' of Some (JArr ts) \<Rightarrow> [(''tools'', JArr ts)] | _ \<Rightarrow> []))"

definition failed :: "nat \<Rightarrow> string \<Rightarrow> nat \<times> json" where
  "failed status e = (status, jobj [(''error'', JStr e)])"

text \<open>No route for the model, or a provider whose tokenizer is not known.\<close>

definition count_unrouted :: "serve \<Rightarrow> nat \<Rightarrow> net list \<Rightarrow> string \<Rightarrow> nat \<times> json" where
  "count_unrouted sv now local model = (case map_of (not_ready sv now local) model of
     Some why \<Rightarrow> failed 503 (model @ '' is not ready: '' @ why)
   | None \<Rightarrow> (404, jobj [(''error'', JStr (''no group serves model '' @ debug_str model)),
       (''available'', jstrs (map fst (model_table sv now local)))]))"

definition count_unsupported :: "string \<Rightarrow> string \<Rightarrow> string \<Rightarrow> nat \<times> json" where
  "count_unsupported model grp provider = failed 400 (''cannot count tokens for '' @ model @ '': group '' @ grp @ '' ''
     @ (if provider = [] then ''announced no provider'' else ''announced provider '' @ debug_str provider)
     @ '', and the router only counts for '' @ debug_str SUPPORTED @ ''. Set MENTAT_MODEL_PROVIDER on the container'')"

definition count_text :: "(json \<Rightarrow> string) \<Rightarrow> (string \<Rightarrow> json \<Rightarrow> string + json) \<Rightarrow> string \<Rightarrow> string \<Rightarrow> string \<Rightarrow> json list \<Rightarrow> json
    \<Rightarrow> (nat \<times> json) + nat" where
  "count_text shown post_json model grp base messages pl =
     (if messages = [] then Inr 0
      else (case post_json (tokenize_root base @ ''/tokenize'') (tokenize_request model messages pl) of
          Inl e \<Rightarrow> Inl (failed 502 (grp @ '' could not tokenize: '' @ e))
        | Inr v \<Rightarrow> (case as_u64 (jget v ''count'') of
              Some n \<Rightarrow> Inr n
            | None \<Rightarrow> Inl (failed 502 (grp @ '' returned no count: '' @ shown v)))))"

definition count_tokens :: "(string \<Rightarrow> string + json) \<Rightarrow> (json \<Rightarrow> string) \<Rightarrow> (string \<Rightarrow> json \<Rightarrow> string + json) \<Rightarrow> nat \<Rightarrow> net list
    \<Rightarrow> string option \<Rightarrow> serve \<Rightarrow> nat \<times> json" where
  "count_tokens from_slice shown post_json now local body sv =
     (case collect_limited MAX_TOKENS_BODY body of
        None \<Rightarrow> (rl_status (over_cap MAX_TOKENS_BODY), rl_body (over_cap MAX_TOKENS_BODY))
      | Some bytes \<Rightarrow> (case from_slice bytes of
            Inl _ \<Rightarrow> failed 400 ''body is not JSON''
          | Inr pl \<Rightarrow> (case as_str (jget pl ''model'') of
                None \<Rightarrow> failed 400 ''no model field in request''
              | Some model \<Rightarrow> (case map_of (model_table sv now local) model of
                    None \<Rightarrow> count_unrouted sv now local model
                  | Some (grp, base) \<Rightarrow>
                      (let provider = (case map_of (group_table sv now local) grp of Some e \<Rightarrow> ge_provider e | None \<Rightarrow> [])
                       in if provider \<noteq> SUPPORTED then count_unsupported model grp provider
                          else (case split_input pl of (messages, media) \<Rightarrow>
                            (case count_text shown post_json model grp base messages pl of
                               Inl r \<Rightarrow> r
                             | Inr n \<Rightarrow> (200, jobj [(''object'', JStr ''response.input_tokens''), (''input_tokens'', jnat (u64_add n media))]))))))))"

end
