(* ===== verification/TokensProps.thy ===== *)
theory TokensProps
  imports ServeTokens ProxyProps
begin

text \<open>
  Token counts: every text of an input reaches the engine and every medium is priced, once; the request goes
  to the server the proxy would send it to.
\<close>

text \<open>The tokenizer is asked at the root the proxy resolves paths against.\<close>

lemma tokenize_root_upstream: "upstream_url base tail = tokenize_root base @ tail"
  by (simp add: upstream_url_root tokenize_root_def Let_def split: option.split)

section \<open>What an input holds\<close>

definition is_image :: "json \<Rightarrow> bool" where
  "is_image p \<longleftrightarrow> str_of (jget p ''type'') \<in> {''input_image'', ''image_url'', ''image''}"

definition is_video :: "json \<Rightarrow> bool" where
  "is_video p \<longleftrightarrow> str_of (jget p ''type'') \<in> {''input_video'', ''video_url'', ''video''}"

definition part_price :: "json \<Rightarrow> nat" where
  "part_price p = (if is_image p then IMAGE_TOKENS else if is_video p then VIDEO_TOKENS else 0)"

definition part_string :: "json \<Rightarrow> string" where
  "part_string p = (if is_image p \<or> is_video p then [] else str_of (jget p ''text''))"

definition content_string :: "json \<Rightarrow> string" where
  "content_string c = (case c of JStr s \<Rightarrow> s | JArr ps \<Rightarrow> concat (map part_string ps) | _ \<Rightarrow> [])"

text \<open>The items of an input as messages, and the parts that may be media.\<close>

definition item_message :: "json \<Rightarrow> json" where
  "item_message item = (case as_str item of
     Some s \<Rightarrow> chat_message ''user'' s
   | None \<Rightarrow> chat_message (case as_str (jget item ''role'') of Some r \<Rightarrow> r | None \<Rightarrow> ''user'') (content_string (jget item ''content'')))"

definition input_items :: "json \<Rightarrow> json list" where
  "input_items pl = (case jget pl ''input'' of JStr s \<Rightarrow> [JStr s] | JArr items \<Rightarrow> items | _ \<Rightarrow> [])"

definition input_parts :: "json \<Rightarrow> json list" where
  "input_parts pl = concat (map (\<lambda>item. elems (jget item ''content'')) (input_items pl))"

definition system_message :: "json \<Rightarrow> json list" where
  "system_message pl = (let s = str_of (jget pl ''instructions'') in if s = [] then [] else [chat_message ''system'' s])"

lemma fold_split_part: "fold split_part ps (t, n) = (t @ concat (map part_string ps), n + sum_list (map part_price ps))"
  by (induction ps arbitrary: t n)
    (auto simp: split_part_def part_string_def part_price_def is_image_def is_video_def str_of_def Let_def split: option.split)

lemma split_content_eq: "split_content c = (content_string c, sum_list (map part_price (elems c)))"
  by (cases c) (simp_all add: split_content_def content_string_def elems_def as_array_def fold_split_part)

lemma fold_split_item:
  "fold split_item items (ms, n) = (ms @ map item_message items, n + sum_list (map part_price (concat (map (\<lambda>i. elems (jget i ''content'')) items))))"
proof (induction items arbitrary: ms n)
  case (Cons i items)
  have "elems (jget (JStr s) k) = []" for s k by (simp add: jget_def elems_def as_array_def)
  then have "split_item i (ms, n) = (ms @ [item_message i], n + sum_list (map part_price (elems (jget i ''content''))))"
    by (auto simp: split_item_def item_message_def split_content_eq as_str_def split: json.split option.split)
  with Cons show ?case by simp
qed simp

lemma split_input_eq: "split_input pl = (system_message pl @ map item_message (input_items pl), sum_list (map part_price (input_parts pl)))"
proof -
  have sys: "(case as_str (jget pl ''instructions'') of Some s \<Rightarrow> if s = [] then [] else [chat_message ''system'' s] | None \<Rightarrow> []) = system_message pl"
    by (simp add: system_message_def str_of_def Let_def split: option.split)
  show ?thesis unfolding split_input_def sys Let_def
    by (cases "jget pl ''input''") (simp_all add: input_items_def input_parts_def fold_split_item item_message_def as_str_def elems_def as_array_def jget_def)
qed

lemma sum_part_price: "sum_list (map part_price ps) = IMAGE_TOKENS * length (filter is_image ps) + VIDEO_TOKENS * length (filter is_video ps)"
  by (induction ps) (auto simp: part_price_def is_image_def is_video_def)

text \<open>A message is sent for every item, so an input without messages has no media either.\<close>

lemma no_message_no_media: "fst (split_input pl) = [] \<Longrightarrow> snd (split_input pl) = 0"
  by (simp add: split_input_eq input_parts_def)

text \<open>C31: a count is the engine's own for every message, plus the flat price of every medium. For a model whose
  group announces the supported provider, the engine is sent one message per item of the input in order,
  after the instructions, with all their text, at the address the proxy would use; the answer is its
  count plus 4000 for each image and 40000 for each video.\<close>

theorem tokens_counted_once:
  assumes "collect_limited MAX_TOKENS_BODY body = Some bytes" "from_slice bytes = Inr pl" "as_str (jget pl ''model'') = Some model"
    and "map_of (model_table sv now local) model = Some (grp, base)"
    and "map_of (group_table sv now local) grp = Some e" "ge_provider e = SUPPORTED"
    and "messages = system_message pl @ map item_message (input_items pl)" "messages \<noteq> []"
    and "post_json (upstream_url base ''/tokenize'') (tokenize_request model messages pl) = Inr v" "as_u64 (jget v ''count'') = Some n"
    and "n + IMAGE_TOKENS * length (filter is_image (input_parts pl)) + VIDEO_TOKENS * length (filter is_video (input_parts pl)) < 2 ^ 64"
  shows "count_tokens from_slice shown post_json now local body sv = (200, jobj [(''object'', JStr ''response.input_tokens''),
    (''input_tokens'', jnat (n + IMAGE_TOKENS * length (filter is_image (input_parts pl)) + VIDEO_TOKENS * length (filter is_video (input_parts pl))))])"
proof -
  have "count_text shown post_json model grp base messages pl = Inr n"
    using assms(8,9,10) by (simp add: count_text_def tokenize_root_upstream)
  then show ?thesis using assms(1-7,11)
    by (simp add: count_tokens_def split_input_eq sum_part_price u64_add_def add.assoc)
qed

end
