(* ===== verification/Doubles.thy ===== *)
theory Doubles
  imports Json Config
begin

text \<open>
  The arithmetic of \<open>f64\<close> that the settings, the status output and the status page use. A finite double is its
  exact rational value, a sum or a quotient is rounded to the nearest double with ties to even, and \<open>{:.1}\<close>
  prints one decimal of the exact value, ties to even. The sign of a zero is not kept: no comparison here
  depends on it. A \<open>Duration\<close> is its number of nanoseconds.
\<close>

section \<open>Rounding\<close>

datatype f64 = Finite rat | Infinite bool | NotANumber

text \<open>A power of two, and the exponent of a positive value: the largest one whose power is not above it.\<close>

definition pow2 :: "int \<Rightarrow> rat" where
  "pow2 e = (if 0 \<le> e then 2 ^ nat e else 1 / 2 ^ nat (- e))"

definition bexp :: "rat \<Rightarrow> int" where
  "bexp x = (case quotient_of x of (n, d) \<Rightarrow>
     (let e = int (nbits (nat n)) - int (nbits (nat d)) in if pow2 e \<le> x then e else e - 1))"

definition half_even :: "rat \<Rightarrow> int" where
  "half_even x = (let q = \<lfloor>x\<rfloor>; r = x - of_int q in if r < 1 / 2 \<or> (r = 1 / 2 \<and> even q) then q else q + 1)"

text \<open>The nearest double: 53 significant bits, no bit below \<open>2\<^sup>-\<^sup>1\<^sup>0\<^sup>7\<^sup>4\<close>, and infinity from \<open>2\<^sup>1\<^sup>0\<^sup>2\<^sup>4\<close> up.\<close>

definition round_f64 :: "rat \<Rightarrow> f64" where
  "round_f64 x = (if x = 0 then Finite 0
     else (let u = max (bexp \<bar>x\<bar> - 52) (- 1074); v = of_int (half_even (\<bar>x\<bar> / pow2 u)) * pow2 u
           in if 2 ^ 1024 \<le> v then Infinite (0 < x) else Finite (sgn x * v)))"

section \<open>Operations\<close>

definition add_f64 :: "f64 \<Rightarrow> f64 \<Rightarrow> f64" where
  "add_f64 a b = (case (a, b) of
     (Finite x, Finite y) \<Rightarrow> round_f64 (x + y)
   | (Infinite p, Infinite q) \<Rightarrow> if p = q then a else NotANumber
   | (Infinite _, Finite _) \<Rightarrow> a
   | (Finite _, Infinite _) \<Rightarrow> b
   | _ \<Rightarrow> NotANumber)"

text \<open>Division of two finite doubles, the second not zero.\<close>

definition div_f64 :: "rat \<Rightarrow> rat \<Rightarrow> f64" where
  "div_f64 x y = round_f64 (x / y)"

text \<open>\<open>v as u64\<close>: toward zero, and clamped to the range.\<close>

definition f64_to_u64 :: "rat \<Rightarrow> nat" where
  "f64_to_u64 x = min u64_max (nat \<lfloor>x\<rfloor>)"

text \<open>\<open>{:.1}\<close>.\<close>

definition fixed1 :: "f64 \<Rightarrow> string" where
  "fixed1 v = (case v of
     Finite x \<Rightarrow> (let t = nat (half_even (\<bar>x\<bar> * 10))
       in (if x < 0 then ''-'' else []) @ show_nat (t div 10) @ ''.'' @ show_nat (t mod 10))
   | Infinite p \<Rightarrow> if p then ''inf'' else ''-inf''
   | NotANumber \<Rightarrow> ''NaN'')"

definition f64_pos :: "f64 \<Rightarrow> bool" where
  "f64_pos v = (case v of Finite r \<Rightarrow> 0 < r | Infinite p \<Rightarrow> p | NotANumber \<Rightarrow> False)"

definition f64_nonneg :: "f64 \<Rightarrow> bool" where
  "f64_nonneg v = (case v of Finite r \<Rightarrow> 0 \<le> r | Infinite p \<Rightarrow> p | NotANumber \<Rightarrow> False)"

section \<open>Reading a double\<close>

text \<open>\<open>f64::from_str\<close>: an optional sign, then a name or digits with a point and an exponent, one digit at least
  around the point.\<close>

definition signed :: "string \<Rightarrow> bool \<times> string" where
  "signed s = (case s of [] \<Rightarrow> (False, []) | c # t \<Rightarrow>
     if c = CHR ''-'' then (True, t) else if c = CHR ''+'' then (False, t) else (False, s))"

definition digits_of :: "string \<Rightarrow> string \<times> string" where
  "digits_of s = (takeWhile (\<lambda>c. to_digit 10 c \<noteq> None) s, dropWhile (\<lambda>c. to_digit 10 c \<noteq> None) s)"

definition pow10 :: "int \<Rightarrow> rat" where
  "pow10 e = (if 0 \<le> e then 10 ^ nat e else 1 / 10 ^ nat (- e))"

definition parse_exponent :: "string \<Rightarrow> int option" where
  "parse_exponent s = (case s of [] \<Rightarrow> Some 0 | c # t \<Rightarrow>
     if c \<noteq> CHR ''e'' \<and> c \<noteq> CHR ''E'' then None
     else (case signed t of (neg, d) \<Rightarrow> if d = [] then None
         else map_option (\<lambda>n. if neg then - int n else int n) (read_digits 10 0 d)))"

definition parse_decimal :: "string \<Rightarrow> rat option" where
  "parse_decimal s = (case digits_of s of (whole, rest) \<Rightarrow>
     (case (case rest of c # t \<Rightarrow> if c = CHR ''.'' then digits_of t else ([], rest) | [] \<Rightarrow> ([], [])) of (part, tail) \<Rightarrow>
        if whole = [] \<and> part = [] then None
        else (case (read_digits 10 0 (whole @ part), parse_exponent tail) of
            (Some n, Some e) \<Rightarrow> Some (of_nat n * pow10 (e - int (length part)))
          | _ \<Rightarrow> None)))"

definition parse_f64 :: "string \<Rightarrow> f64 option" where
  "parse_f64 s = (case signed s of (neg, t) \<Rightarrow>
     (let w = to_ascii_lowercase t
      in if w = ''inf'' \<or> w = ''infinity'' then Some (Infinite (\<not> neg))
         else if w = ''nan'' then Some NotANumber
         else map_option (\<lambda>x. round_f64 (if neg then - x else x)) (parse_decimal t)))"

section \<open>Durations\<close>

definition NANOS :: nat where
  "NANOS = 10 ^ 9"

text \<open>The longest duration has \<open>u64\<close> seconds; a longer one, or one of no finite double, is a panic.\<close>

definition duration_fits :: "nat \<Rightarrow> nat option" where
  "duration_fits ns = (if ns < 2 ^ 64 * NANOS then Some ns else None)"

definition from_secs_f64 :: "f64 \<Rightarrow> nat option" where
  "from_secs_f64 v = (case v of
     Finite x \<Rightarrow> if x < 0 \<or> 2 ^ 64 \<le> x then None else Some (nat (half_even (x * of_nat NANOS)))
   | _ \<Rightarrow> None)"

definition as_secs_f64 :: "nat \<Rightarrow> f64" where
  "as_secs_f64 ns = add_f64 (round_f64 (of_nat (ns div NANOS))) (div_f64 (of_nat (ns mod NANOS)) (of_nat NANOS))"

section \<open>Whole values\<close>

lemma half_even_whole: "half_even (of_int n) = n"
  by (simp add: half_even_def)

lemma bexp_nat: "0 < n \<Longrightarrow> bexp (of_nat n) = int (nbits n) - 1"
proof -
  assume "0 < n"
  then obtain j where j: "nbits n = Suc j" "2 ^ j \<le> n" using nbits_bounds by blast
  have "quotient_of (of_nat n) = (int n, 1)" using quotient_of_int [of "int n"] by simp
  moreover have "pow2 (int j) = of_nat (2 ^ j)" by (simp add: pow2_def)
  moreover have "(of_nat (2 ^ j) :: rat) \<le> of_nat n" using j(2) by (simp only: of_nat_le_iff)
  ultimately show ?thesis using j(1) by (simp add: bexp_def Let_def nbits.simps [of "Suc 0"] nbits.simps [of 0])
qed

lemma round_f64_nat:
  assumes "n < 2 ^ 53"
  shows "round_f64 (of_nat n) = Finite (of_nat n)"
proof (cases "n = 0")
  case True
  then show ?thesis by (simp add: round_f64_def)
next
  case False
  then obtain j where j: "nbits n = Suc j" "2 ^ j \<le> n" using nbits_bounds [of n] by blast
  have "j < 53" using power_less_imp_less_exp [of "2::nat" j 53] j(2) assms by simp
  moreover define u where "u = max (bexp (of_nat n) - 52) (- 1074)"
  ultimately have u: "u \<le> 0" using bexp_nat [of n] False j(1) by simp
  then have p: "pow2 u = 1 / 2 ^ nat (- u)" "pow2 u \<noteq> 0" by (auto simp: pow2_def)
  have "of_nat n / pow2 u = of_int (int (n * 2 ^ nat (- u)))" using p by simp
  then have "half_even (of_nat n / pow2 u) = int (n * 2 ^ nat (- u))" by (metis half_even_whole)
  then have v: "of_int (half_even (of_nat n / pow2 u)) * pow2 u = (of_nat n :: rat)" using p by simp
  have "(of_nat n :: rat) < of_nat (2 ^ 53)" using assms by (simp only: of_nat_less_iff)
  also have "\<dots> < 2 ^ 1024" by simp
  finally have "\<not> 2 ^ 1024 \<le> (of_nat n :: rat)" by simp
  with False v show ?thesis by (simp add: round_f64_def Let_def u_def)
qed

lemma fixed1_nat: "fixed1 (Finite (of_nat n)) = show_nat n @ ''.0''"
proof -
  have "of_nat n * (10 :: rat) = of_int (int (n * 10))" by simp
  then have "half_even (of_nat n * 10) = int (n * 10)" by (metis half_even_whole)
  moreover have "nat (int n * 10) = n * 10" by simp
  ultimately show ?thesis by (simp add: fixed1_def show_nat.simps [of 0] digit_char_def char_of_def bit_simps)
qed

section \<open>The error of rounding\<close>

lemma pow2_powi: "pow2 e = 2 powi e"
  by (simp add: pow2_def power_int_def power_inverse inverse_eq_divide power_one_over)

lemma pow2_pos: "0 < pow2 e"
  by (simp add: pow2_powi)

lemma pow2_mono: "a \<le> b \<Longrightarrow> pow2 a \<le> pow2 b"
  by (simp add: pow2_powi power_int_increasing)

lemma pow2_less: "pow2 a < pow2 b \<Longrightarrow> a < b"
  using pow2_mono [of b a] by linarith

lemma pow2_add: "pow2 (a + b) = pow2 a * pow2 b"
  by (simp add: pow2_powi power_int_add)

lemma half_even_near: "\<bar>of_int (half_even y) - y\<bar> \<le> 1 / 2"
proof -
  have "of_int \<lfloor>y\<rfloor> \<le> y" "y < of_int \<lfloor>y\<rfloor> + 1" by linarith+
  then show ?thesis by (auto simp: half_even_def Let_def)
qed

lemma half_even_unique: "\<bar>y - of_int n\<bar> < 1 / 2 \<Longrightarrow> half_even y = n"
  using half_even_near [of y] by linarith

lemma half_even_nonneg: "0 \<le> y \<Longrightarrow> 0 \<le> half_even y"
  by (simp add: half_even_def Let_def)

lemma bexp_bounds:
  assumes "0 < x"
  shows "pow2 (bexp x) \<le> x" "x < pow2 (bexp x + 1)"
proof -
  obtain n d where q: "quotient_of x = (n, d)" by force
  have x: "x = of_int n / of_int d" and "0 < d" using quotient_of_div [OF q] quotient_of_denom_pos [OF q] by auto
  with assms have "0 < n" by (simp add: zero_less_divide_iff)
  obtain i where i: "nbits (nat n) = Suc i" "2 ^ i \<le> nat n" "nat n < 2 ^ Suc i" using nbits_bounds [of "nat n"] \<open>0 < n\<close> by auto
  obtain j where j: "nbits (nat d) = Suc j" "2 ^ j \<le> nat d" "nat d < 2 ^ Suc j" using nbits_bounds [of "nat d"] \<open>0 < d\<close> by auto
  have n: "2 ^ i \<le> n" "n < 2 ^ Suc i" using i(2,3) \<open>0 < n\<close> by (simp_all add: nat_less_iff le_nat_iff)
  have d: "2 ^ j \<le> d" "d < 2 ^ Suc j" using j(2,3) \<open>0 < d\<close> by (simp_all add: nat_less_iff le_nat_iff)
  have rn: "(2::rat) ^ i \<le> of_int n" "of_int n < (2::rat) ^ Suc i"
    using of_int_le_iff [of "2 ^ i" n, where 'a = rat] of_int_less_iff [of n "2 ^ Suc i", where 'a = rat] n by simp_all
  have rd: "(2::rat) ^ j \<le> of_int d" "of_int d < (2::rat) ^ Suc j"
    using of_int_le_iff [of "2 ^ j" d, where 'a = rat] of_int_less_iff [of d "2 ^ Suc j", where 'a = rat] d by simp_all
  define e where "e = int i - int j"
  have be: "bexp x = (if pow2 e \<le> x then e else e - 1)" using q i(1) j(1) by (simp add: bexp_def Let_def e_def)
  have "x < 2 ^ Suc i / 2 ^ j" unfolding x using rn rd \<open>0 < n\<close> by (intro frac_less) simp_all
  also have "\<dots> = pow2 (e + 1)" by (simp add: pow2_powi e_def power_int_diff power_int_add)
  finally have up: "x < pow2 (e + 1)" .
  have "pow2 (e - 1) = 2 ^ i / 2 ^ Suc j" by (simp add: pow2_powi e_def power_int_diff)
  also have "\<dots> \<le> x" unfolding x using rn rd \<open>0 < n\<close> \<open>0 < d\<close> by (intro frac_le) (simp_all add: less_imp_le)
  finally have "pow2 (e - 1) \<le> x" .
  with up be show "pow2 (bexp x) \<le> x" "x < pow2 (bexp x + 1)" by (auto split: if_splits)
qed

lemma round_f64_error:
  assumes "0 \<le> x" "x < pow2 k" "- 1020 \<le> k" "k \<le> 1022"
  shows "\<exists>v. round_f64 x = Finite v \<and> 0 \<le> v \<and> \<bar>v - x\<bar> \<le> pow2 (k - 54)"
proof (cases "x = 0")
  case True
  then show ?thesis using pow2_pos [of "k - 54"] by (simp add: round_f64_def)
next
  case False
  with assms have x: "0 < x" by simp
  define u where "u = max (bexp x - 52) (- 1074)"
  define v where "v = of_int (half_even (x / pow2 u)) * pow2 u"
  have "bexp x < k" using bexp_bounds(1) [OF x] assms(2) pow2_less by fastforce
  then have u: "u \<le> k - 53" using assms(3) by (simp add: u_def)
  have "v - x = (of_int (half_even (x / pow2 u)) - x / pow2 u) * pow2 u"
    using pow2_pos [of u] by (simp add: v_def algebra_simps)
  then have "\<bar>v - x\<bar> = \<bar>of_int (half_even (x / pow2 u)) - x / pow2 u\<bar> * pow2 u" using pow2_pos [of u] by (simp add: abs_mult)
  also have "\<dots> \<le> 1 / 2 * pow2 u" using half_even_near pow2_pos [of u] by (intro mult_right_mono) auto
  also have "\<dots> \<le> 1 / 2 * pow2 (k - 53)" using pow2_mono [OF u] by simp
  also have "\<dots> = pow2 (k - 54)" using pow2_add [of "k - 54" 1] by (simp add: pow2_powi)
  finally have err: "\<bar>v - x\<bar> \<le> pow2 (k - 54)" .
  have "pow2 (k - 54) \<le> pow2 1022" "pow2 k \<le> pow2 1022" using assms(4) by (auto intro: pow2_mono)
  moreover have "pow2 1022 + pow2 1022 = 2 ^ 1023" by (simp add: pow2_def)
  moreover have "(2 :: rat) ^ 1023 < 2 ^ 1024" by simp
  ultimately have "\<not> 2 ^ 1024 \<le> v" using err assms(2) by linarith
  then have "round_f64 x = Finite v" using x by (simp add: round_f64_def Let_def u_def [symmetric] v_def [symmetric])
  moreover have "0 \<le> v" using half_even_nonneg [of "x / pow2 u"] x pow2_pos [of u] by (simp add: v_def)
  ultimately show ?thesis using err by blast
qed

text \<open>A duration below \<open>2\<^sup>2\<^sup>1\<close> seconds survives the way through a double.\<close>

lemma from_as_secs:
  assumes "ns < 2 ^ 21 * NANOS"
  shows "from_secs_f64 (as_secs_f64 ns) = Some ns"
proof -
  define s m where "s = ns div NANOS" and "m = ns mod NANOS"
  have "s < 2 ^ 21" using assms by (simp add: s_def less_mult_imp_div_less NANOS_def)
  have m: "m < NANOS" by (simp add: m_def NANOS_def)
  obtain f where f: "div_f64 (of_nat m) (of_nat NANOS) = Finite f" "0 \<le> f" "\<bar>f - of_nat m / of_nat NANOS\<bar> \<le> pow2 (- 54)"
    using round_f64_error [of "of_nat m / of_nat NANOS" 0] m by (auto simp: div_f64_def pow2_def NANOS_def)
  have "(of_nat m :: rat) / of_nat NANOS < 1" using m by (simp add: NANOS_def)
  moreover have "pow2 (- 54) \<le> 1" by (simp add: pow2_def)
  ultimately have f2: "f \<le> 2" using f(3) by linarith
  have s: "round_f64 (of_nat s) = Finite (of_nat s)" using round_f64_nat [of s] \<open>s < 2 ^ 21\<close> by simp
  have sr: "(of_nat s :: rat) \<le> 2097151" using \<open>s < 2 ^ 21\<close> of_nat_le_iff [of s 2097151, where 'a = rat] by simp
  obtain v where v: "round_f64 (of_nat s + f) = Finite v" "0 \<le> v" "\<bar>v - (of_nat s + f)\<bar> \<le> pow2 (- 32)"
    using round_f64_error [of "of_nat s + f" 22] f(2) f2 sr by (auto simp: pow2_def)
  have "as_secs_f64 ns = Finite v" using s f(1) v(1) by (simp add: as_secs_f64_def add_f64_def s_def m_def)
  moreover have "pow2 (- 32) \<le> 1" "(2097160 :: rat) \<le> 2 ^ 64" by (simp_all add: pow2_def)
  then have "v < 2 ^ 64" using v(3) f2 sr by linarith
  moreover have "half_even (v * of_nat NANOS) = int ns"
  proof (rule half_even_unique)
    define err where "err = v - (of_nat s + of_nat m / of_nat NANOS)"
    have "ns = s * NANOS + m" by (simp add: s_def m_def)
    then have "v * of_nat NANOS - of_int (int ns) = err * of_nat NANOS" by (simp add: err_def NANOS_def field_simps)
    moreover have "pow2 (- 32) + pow2 (- 54) \<le> 1 / 2 ^ 31" by (simp add: pow2_def)
    with v(3) f(3) have "\<bar>err\<bar> \<le> 1 / 2 ^ 31" unfolding err_def by linarith
    then have "\<bar>err * of_nat NANOS\<bar> < 1 / 2" by (simp add: abs_mult NANOS_def)
    ultimately show "\<bar>v * of_nat NANOS - of_int (int ns)\<bar> < 1 / 2" by (simp only:)
  qed
  ultimately show ?thesis using v(2) by (simp add: from_secs_f64_def)
qed

end
