(* ===== verification/ServeUi.thy ===== *)
theory ServeUi
  imports ServeMcp ServeTokens Doubles
begin

text \<open>
  The numbers behind the status page (\<open>rust/mentatd-serve/src/ui.rs\<close>) and the choice of a handler for a
  request (\<open>handle\<close> in \<open>rust/mentatd-serve/src/main.rs\<close>). The fixed text of the
  page is left out.
\<close>

section \<open>Doubles\<close>

text \<open>A double as a JSON value, which has no place for infinities; and milliseconds as seconds.\<close>

definition json_f64 :: "f64 \<Rightarrow> json" where
  "json_f64 v = (case v of Finite r \<Rightarrow> JNum (Float r) | _ \<Rightarrow> JNull)"

definition secs_json :: "nat \<Rightarrow> json" where
  "secs_json ms = json_f64 (as_secs_f64 (ms * 1000000))"

section \<open>The engine's metrics\<close>

definition prom_label :: "string \<Rightarrow> string \<Rightarrow> string" where
  "prom_label labels k = (case find_map (\<lambda>part. case split_once (CHR ''='') part of
       Some (x, v) \<Rightarrow> if trim x = k then Some (trim_quotes (trim v)) else None | None \<Rightarrow> None) (split_on (CHR '','') labels) of
     Some v \<Rightarrow> v | None \<Rightarrow> [])"

type_synonym series = "string \<times> string \<times> string \<times> f64"

definition scrape_line :: "string list \<Rightarrow> string \<Rightarrow> series option" where
  "scrape_line want line =
     (if starts_with ''#'' line then None
      else (case strip_prefix ''vllm:'' line of
          None \<Rightarrow> None
        | Some rest \<Rightarrow>
            (let name = takeWhile (\<lambda>c. c \<noteq> CHR ''{'' \<and> c \<noteq> CHR '' '') rest; tail = drop (length name) rest
             in if tail = [] \<or> name \<notin> set want then None
                else (let (labels, val) = (case Option.bind (strip_prefix ''{'' tail) (split_once (CHR ''}'')) of Some lv \<Rightarrow> lv | None \<Rightarrow> ([], tail))
                      in map_option (\<lambda>v. (name, prom_label labels ''model_name'', prom_label labels ''finished_reason'', v)) (parse_f64 (trim val))))))"

definition scrape :: "string \<Rightarrow> string list \<Rightarrow> series list" where
  "scrape text want = List.map_filter (scrape_line want) (lines_of text)"

definition WANTED :: "string list" where
  "WANTED = [''num_requests_running'', ''num_requests_waiting'', ''kv_cache_usage_perc'', ''prompt_tokens_total'', ''generation_tokens_total'',
     ''num_preemptions_total'', ''request_success_total'', ''time_to_first_token_seconds_sum'', ''time_to_first_token_seconds_count'',
     ''request_queue_time_seconds_sum'', ''request_queue_time_seconds_count'', ''inter_token_latency_seconds_sum'', ''inter_token_latency_seconds_count'']"

text \<open>\<open>v["k"] = x\<close>, which makes an object of null.\<close>

definition jset :: "string \<Rightarrow> json \<Rightarrow> json \<Rightarrow> json" where
  "jset k x v = JObj (bt_insert k x (entries v))"

definition put_series :: "series \<Rightarrow> (string, json) table \<Rightarrow> (string, json) table" where
  "put_series s by_model = (case s of (name, model, reason, v) \<Rightarrow>
     (let e = (case map_of by_model model of Some e \<Rightarrow> e | None \<Rightarrow> JObj [])
      in bt_insert model (if name = ''request_success_total''
           then (if f64_pos v then jset ''finished'' (jset reason (json_f64 v) (jget e ''finished'')) e else e)
           else jset name (json_f64 v) e) by_model))"

definition mean_of :: "string \<times> string \<Rightarrow> json \<Rightarrow> json" where
  "mean_of mb e =
     (let num = (\<lambda>k. case as_f64 (jget e k) of Some r \<Rightarrow> r | None \<Rightarrow> 0);
          s = num (snd mb @ ''_sum''); c = num (snd mb @ ''_count'')
      in if 0 < c then jset (fst mb) (json_f64 (div_f64 s c)) e else e)"

definition MEANS :: "(string \<times> string) list" where
  "MEANS = [(''ttft_s'', ''time_to_first_token_seconds''), (''queue_s'', ''request_queue_time_seconds''), (''itl_s'', ''inter_token_latency_seconds'')]"

definition engine_stats :: "string \<Rightarrow> (string, json) table" where
  "engine_stats text =
     map (\<lambda>(m, e). (m, fold mean_of MEANS e)) (fold put_series (scrape text WANTED) [])"

text \<open>One scrape is shared for a second; \<open>fetched\<close> is what the engine would reply.\<close>

definition METRICS_TTL_MS :: nat where
  "METRICS_TTL_MS = 1000"

type_synonym metrics_cache = "(string, nat \<times> string) table"

definition metrics_for :: "nat \<Rightarrow> (string \<Rightarrow> string + string) \<Rightarrow> string \<Rightarrow> string \<Rightarrow> metrics_cache \<Rightarrow> string option \<times> metrics_cache" where
  "metrics_for now fetched grp base cache =
     (case (case map_of cache grp of Some (t, text) \<Rightarrow> if now - t \<le> METRICS_TTL_MS then Some text else None | None \<Rightarrow> None) of
        Some text \<Rightarrow> (Some text, cache)
      | None \<Rightarrow> (case fetched (tokenize_root base @ ''/metrics'') of
            Inr text \<Rightarrow> (Some text, hm_insert grp (now, text) cache)
          | Inl _ \<Rightarrow> (None, cache)))"

definition fetch_text :: "(string \<Rightarrow> string) \<Rightarrow> (nat \<Rightarrow> string) \<Rightarrow> nat \<Rightarrow> string option \<Rightarrow> (nat \<times> body_read) attempt \<Rightarrow> string + string" where
  "fetch_text utf8_error secs t unbuilt a = (case unbuilt of
     Some e \<Rightarrow> Inl e
   | None \<Rightarrow> (case send_once secs t a of
         Inl e \<Rightarrow> Inl e
       | Inr (_, BodyTimeout) \<Rightarrow> Inl ''timeout reading metrics''
       | Inr (_, BodyFailed e) \<Rightarrow> Inl e
       | Inr (_, BodyBytes b) \<Rightarrow> if valid_utf8 b then Inr b else Inl (utf8_error b)))"

section \<open>The page's document\<close>

definition model_row :: "group_entry \<Rightarrow> load \<Rightarrow> (string, json) table \<Rightarrow> string \<Rightarrow> json" where
  "model_row e ld engine name =
     (let m = (case map_of engine name of Some m \<Rightarrow> m | None \<Rightarrow> JObj [])
      in jobj [(''model'', JStr name), (''group'', JStr (ge_group e)), (''provider'', JStr (ge_provider e)), (''healthy'', JBool True), (''why_not'', JNull),
           (''inflight'', jnat (length (filter (\<lambda>r. fl_model r = name) (hm_values (ld_inflight ld))))),
           (''running'', jget m ''num_requests_running''), (''waiting'', jget m ''num_requests_waiting''), (''kv'', jget m ''kv_cache_usage_perc''),
           (''prompt_tokens'', jget m ''prompt_tokens_total''), (''generation_tokens'', jget m ''generation_tokens_total''),
           (''preemptions'', jget m ''num_preemptions_total''), (''ttft_s'', jget m ''ttft_s''), (''queue_s'', jget m ''queue_s''),
           (''itl_s'', jget m ''itl_s''), (''finished'', jget m ''finished'')])"

definition dead_row :: "group_entry \<Rightarrow> string \<Rightarrow> json" where
  "dead_row e why = jobj [(''model'', JStr (ge_group e)), (''group'', JStr (ge_group e)), (''provider'', JStr (ge_provider e)),
     (''healthy'', JBool False), (''why_not'', JStr why), (''inflight'', jnat 0)]"

definition group_rows :: "nat \<Rightarrow> (string \<Rightarrow> string + string) \<Rightarrow> serve \<Rightarrow> load \<Rightarrow> group_entry
    \<Rightarrow> metrics_cache \<Rightarrow> json list \<times> metrics_cache" where
  "group_rows now fetched sv ld e cache =
     (if ge_openai e = None \<and> ge_mcp e \<noteq> None then ([], cache)
      else (case health_of sv now e of
          Inl why \<Rightarrow> ([dead_row e why], cache)
        | Inr models \<Rightarrow>
            (case metrics_for now fetched (ge_group e) (case endpoint_url sv e of Some u \<Rightarrow> u | None \<Rightarrow> []) cache of
               (text, cache') \<Rightarrow>
                 (let engine = (case text of Some t \<Rightarrow> engine_stats t | None \<Rightarrow> [])
                  in (map (model_row e ld engine) (model_ids models), cache')))))"

definition request_row :: "nat \<Rightarrow> nat \<times> inflight \<Rightarrow> json" where
  "request_row now ir = (case ir of (i, r) \<Rightarrow> jobj [(''id'', jnat i), (''model'', JStr (fl_model r)), (''group'', JStr (fl_group r)),
     (''age_s'', secs_json (now - fl_started r)), (''prompt_bytes'', jnat (fl_prompt_bytes r)), (''stream'', JBool (fl_stream r)),
     (''ttfb_s'', jopt (\<lambda>t. secs_json (t - fl_started r)) (fl_first_byte r)), (''out_bytes'', jnat (fl_out_bytes r))])"

definition stats :: "nat \<Rightarrow> net list \<Rightarrow> (string \<Rightarrow> string + string) \<Rightarrow> load
    \<Rightarrow> metrics_cache \<Rightarrow> serve \<Rightarrow> json \<times> metrics_cache \<times> serve \<times> (string \<times> string \<times> string) list" where
  "stats now local fetched ld cache sv =
     (let (rows, cache') = fold (\<lambda>e (rows, c). case group_rows now fetched sv ld e c of (rs, c') \<Rightarrow> (rows @ rs, c'))
            (map snd (group_table sv now local)) ([], cache);
          (mcp, sv', fetches) = page_view now local sv
      in (jobj [(''uptime_s'', jnat ((now - sv_started sv) div 1000)), (''models'', JArr rows),
            (''requests'', JArr (map (request_row now) (ld_inflight ld))), (''mcp'', JArr mcp)], cache', sv', fetches))"

section \<open>Routes\<close>

definition wants_html :: "string option \<Rightarrow> bool" where
  "wants_html accept = (case Option.bind accept header_str of Some a \<Rightarrow> contains_str ''text/html'' a | None \<Rightarrow> False)"

datatype handler = Forbidden | HtmlPage | StatusDoc | StatsDoc | ModelList | McpServer | TokenCount | Proxy | NotFound

definition route_request :: "serve \<Rightarrow> net list \<Rightarrow> string \<Rightarrow> string \<Rightarrow> string \<Rightarrow> string option \<Rightarrow> handler" where
  "route_request sv local peer_ip meth uri_path accept =
     (if \<not> permits (sc_allowed_sources (sv_cfg sv)) peer_ip local then Forbidden
      else (let p = trim_slashes uri_path; pth = (if p = [] then ''/'' else p)
            in if meth = ''GET'' then
                 (if pth = ''/'' \<and> wants_html accept then HtmlPage
                  else if pth \<in> {''/'', ''/healthz'', ''/status.json''} then StatusDoc
                  else if pth = ''/stats.json'' then StatsDoc
                  else if pth \<in> {''/v1'', ''/v1/models''} then ModelList
                  else NotFound)
               else if meth = ''POST'' then
                 (if pth = ''/mcp'' then McpServer
                  else if pth = ''/v1/responses/input_tokens'' then TokenCount
                  else Proxy)
               else NotFound))"

end
