(* ===== verification/ProxyExamples.thy ===== *)
theory ProxyExamples
  imports ServeExamples McpProps TokensProps ServeUi
begin

text \<open>
  Requests through the gateway of \<open>ServeExamples\<close>: a form, a request that waits for its upstream, tools and token
  counts.
\<close>

section \<open>A form\<close>

definition whisper_parts :: "form_part list" where
  "whisper_parts = [FileField ''file'' ''a.wav'' ''audio/wav'' (''RIFF name='' @ [CHR 0x22] @ ''model'' @ [CHR 0x22]), TextField ''Model'' ''whisper'']"

theorem form_routes_on_fields_witness:
  "route_by (\<lambda>_. Inl []) (Some ''multipart/form-data;boundary=BOUND'') (form_body ''BOUND'' whisper_parts)
     = Inr \<lparr>rt_model = ''whisper'', rt_stream = False\<rparr>"
proof -
  have ok: "part_ok (whisper_parts ! 0)" "part_ok (whisper_parts ! 1)" by code_simp+
  moreover have "apart ''BOUND'' (whisper_parts ! 0)" "apart ''BOUND'' (whisper_parts ! 1)"
    by (simp_all add: apart_def whisper_parts_def part_text_def part_head_def crlf_def)
  moreover have "set whisper_parts = {whisper_parts ! 0, whisper_parts ! 1}" by (simp add: whisper_parts_def)
  ultimately have "\<forall>p \<in> set whisper_parts. part_ok p \<and> apart ''BOUND'' p" by (metis empty_iff insert_iff)
  moreover have "find_sub (''--'' @ crlf) (''--'' @ ''BOUND'') = None" by (simp add: crlf_def)
  moreover have "boundary_of ''multipart/form-data;boundary=BOUND'' = Some ''BOUND''"
    by (simp add: boundary_of_def trim_visible visible_def find_map_def map_filter_simps to_ascii_lowercase_def lower_char_def trim_quotes_def)
  moreover have "text_fields whisper_parts = [(''model'', ''whisper'')]" by code_simp
  ultimately show ?thesis using form_routes_on_fields [of whisper_parts "''BOUND''" "''multipart/form-data;boundary=BOUND''" "\<lambda>_. Inl []"] by simp
qed

section \<open>A request that waits\<close>

definition prompt :: call where
  "prompt = \<lparr>cl_model = ''m'', cl_tail = ''/v1/completions'', cl_content_type = None, cl_accept = None, cl_bytes = ''{}'', cl_deadline = 30\<rparr>"

definition a_turn :: "serve \<Rightarrow> nat attempt \<Rightarrow> nat \<Rightarrow> nat turn" where
  "a_turn sv a later = \<lparr>tn_sv = sv, tn_local = [], tn_now = 20, tn_unbuilt = None, tn_attempt = a, tn_later = later\<rparr>"

definition prompt_turns :: "nat turn list" where
  "prompt_turns = [a_turn (gateway\<lparr>sv_probes := []\<rparr>) TimedOut 21, a_turn gateway (ConnectFailed ''refused'') 22, a_turn gateway (Responded 200) 23]"

lemma prompt_run: "dispatch (\<lambda>_. []) (\<lambda>_. []) prompt prompt_turns
    = (let u = upstream_request prompt ''http://10.0.0.1:80/v1'' in [u, u], Answered ''g'' 200)"
  by code_simp

theorem request_reaches_one_upstream_witness:
  "\<exists>pre t. prefix (pre @ t) prompt_turns \<and> length t \<le> 1 \<and> (\<exists>x. t = [x] \<and> reached prompt x \<and> tn_attempt x = Responded 200)
    \<and> up_url (hd (fst (dispatch (\<lambda>_. []) (\<lambda>_. []) prompt prompt_turns))) = ''http://10.0.0.1:80/v1/completions''"
proof -
  have "up_url (hd (fst (dispatch (\<lambda>_. []) (\<lambda>_. []) prompt prompt_turns))) = ''http://10.0.0.1:80/v1/completions''" by code_simp
  moreover obtain pre t where t: "prefix (pre @ t) prompt_turns" "length t \<le> 1"
    and ans: "\<forall>grp resp. Answered ''g'' 200 = Answered grp resp \<longrightarrow> (\<exists>x base. t = [x] \<and> reached prompt x \<and> tn_attempt x = Responded resp \<and> turn_route prompt x = Some (grp, base))"
    using request_reaches_one_upstream [OF prompt_run [unfolded Let_def]] by (elim exE conjE) (rule that)
  moreover from ans obtain x where "t = [x]" "reached prompt x" "tn_attempt x = Responded 200" by blast
  ultimately show ?thesis by (intro exI conjI)
qed

theorem request_answered_by_deadline_witness:
  "snd (dispatch (\<lambda>_. []) (\<lambda>_. []) prompt [a_turn (gateway\<lparr>sv_probes := []\<rparr>) TimedOut 21, a_turn gateway (ConnectFailed ''refused'') 31]) \<noteq> Again"
proof -
  let ?ts = "[a_turn (gateway\<lparr>sv_probes := []\<rparr>) TimedOut 21, a_turn gateway (ConnectFailed ''refused'') 31]"
  obtain reqs r where run: "dispatch (\<lambda>_. []) (\<lambda>_. []) prompt ?ts = (reqs, r)" by force
  have "\<exists>t \<in> set ?ts. cl_deadline prompt \<le> tn_later t" by (simp add: a_turn_def prompt_def)
  with request_answered_by_deadline [OF run] have "r \<noteq> Again" by blast
  then show ?thesis by (simp only: run snd_conv not_False_eq_True)
qed

definition idle :: load where
  "idle = \<lparr>ld_next_req = 1, ld_inflight = []\<rparr>"

theorem inflight_rows_are_open_requests_witness:
  "map fst (ld_inflight (fst (tracked_new 5 ''m'' ''g'' 2 True idle))) = [1]"
proof -
  have "track_step (idle, []) (fst (tracked_new 5 ''m'' ''g'' 2 True idle), [1])"
    by (rule track_step.opened) (simp_all add: tracked_new_def idle_def)
  then have "track_step\<^sup>*\<^sup>* (idle, []) (fst (tracked_new 5 ''m'' ''g'' 2 True idle), [1])" by blast
  moreover have "track_start (idle, [])" by (simp add: idle_def)
  ultimately show ?thesis using inflight_rows_are_open_requests by fastforce
qed

section \<open>Tools\<close>

definition tool_agent :: json where
  "tool_agent = jobj [(''alive'', JBool True), (''node_ip'', JStr ''10.0.0.1''),
     (''services'', jobj [(''mcp'', jobj [(''port'', jnat 90), (''path'', JStr ''/mcp'')]),
       (''openai'', jobj [(''port'', jnat 80), (''path'', JStr ''/v1''), (''provider'', JStr ''vllm'')])])]"

definition tool_gateway :: serve where
  "tool_gateway = gateway\<lparr>sv_daemons := [(''a:80'', view_of (snap_of [(''g'', group_of_agents [(''1'', tool_agent)] []), (''h'', group_of_agents [(''2'', tool_agent)] [])]))]\<rparr>"

definition tools_post :: "string \<Rightarrow> json \<Rightarrow> string + json" where
  "tools_post url req = (if url = ''http://10.0.0.1:90/mcp''
     then Inr (jobj [(''result'', jobj [(''tools'', JArr [jobj [(''name'', JStr ''reload'')]])])]) else Inl ''no route'')"

lemma tool_merge: "merge tools_post 20 [] tool_gateway = ([(''reload'', \<lparr>mg_description = [], mg_schema = no_schema, mg_groups = [''g'', ''h'']\<rparr>)],
    tool_gateway\<lparr>sv_tools := [(''g http://10.0.0.1:90/mcp'', 20, Inr [jobj [(''name'', JStr ''reload'')]]),
      (''h http://10.0.0.1:90/mcp'', 20, Inr [jobj [(''name'', JStr ''reload'')]])]\<rparr>)"
  by code_simp

definition reload_on :: "string \<Rightarrow> json" where
  "reload_on g = jobj [(''name'', JStr ''reload''), (''arguments'', JObj [(''__group'', JStr g), (''force'', JBool True)])]"

theorem tool_runs_where_offered_witness:
  "\<exists>url fwd. call_target 20 [] (jnat 7) (reload_on ''h'') (fst (merge tools_post 20 [] tool_gateway)) (snd (merge tools_post 20 [] tool_gateway)) = Inr (''h'', url, fwd)
    \<and> jget (jget (jget fwd ''params'') ''arguments'') ''force'' = JBool True \<and> jget (jget (jget fwd ''params'') ''arguments'') GROUP_ARG = JNull"
proof -
  let ?r = "call_target 20 [] (jnat 7) (reload_on ''h'') (fst (merge tools_post 20 [] tool_gateway)) (snd (merge tools_post 20 [] tool_gateway))"
  have "\<not> isl ?r \<and> fst (projr ?r) = ''h''" by code_simp
  then obtain url fwd where r: "?r = Inr (''h'', url, fwd)" by (cases ?r) auto
  have "jget (jget (reload_on ''h'') ''arguments'') ''force'' = JBool True" "GROUP_ARG \<noteq> ''force''" by code_simp+
  with tool_runs_where_offered [OF surjective_pairing r refl refl] r show ?thesis by auto
qed


theorem group_argument_added_witness:
  "\<exists>v. with_group_arg \<lparr>mg_description = [], mg_schema = JObj [(''required'', JArr [JStr ''x''])], mg_groups = [''g'', ''h'']\<rparr> = Some v
    \<and> elems (jget v ''required'') = [JStr ''x'', JStr ''__group''] \<and> jget (jget v ''properties'') GROUP_ARG = group_arg [''g'', ''h'']"
proof -
  let ?m = "\<lparr>mg_description = [], mg_schema = JObj [(''required'', JArr [JStr ''x''])], mg_groups = [''g'', ''h'']\<rparr>"
  have "with_group_arg ?m \<noteq> None" by (simp add: with_group_arg_def Let_def)
  then obtain v where v: "with_group_arg ?m = Some v" by auto
  have "elems (jget (JObj [(''required'', JArr [JStr ''x''])]) ''required'') = [JStr ''x'']" by code_simp
  with group_argument_added [of ?m "[(''required'', JArr [JStr ''x''])]" v "''a''"] v show ?thesis by (simp add: GROUP_ARG_def)
qed

section \<open>Token counts\<close>

definition question :: json where
  "question = jobj [(''model'', JStr ''m''), (''input'', JArr [JStr ''hi'', jobj [(''content'', JArr [jobj [(''type'', JStr ''input_image'')]])]])]"

theorem tokens_counted_once_witness:
  "count_tokens (\<lambda>_. Inr question) (\<lambda>_. []) (\<lambda>url req. if url = ''http://10.0.0.1:80/tokenize'' then Inr (jobj [(''count'', jnat 14)]) else Inl []) 20 []
     (Some ''x'') tool_gateway = (200, jobj [(''object'', JStr ''response.input_tokens''), (''input_tokens'', jnat 4014)])"
proof -
  have route: "map_of (model_table tool_gateway 20 []) ''m'' = Some (''g'', ''http://10.0.0.1:80/v1'')" by code_simp
  have "map_option ge_provider (map_of (group_table tool_gateway 20 []) ''g'') = Some SUPPORTED" by code_simp
  then obtain e where e: "map_of (group_table tool_gateway 20 []) ''g'' = Some e" "ge_provider e = SUPPORTED" by auto
  have parts: "length (filter is_image (input_parts question)) = 1" "length (filter is_video (input_parts question)) = 0" by code_simp+
  have q: "as_str (jget question ''model'') = Some ''m''" "system_message question @ map item_message (input_items question) \<noteq> []" by code_simp+
  have url: "upstream_url ''http://10.0.0.1:80/v1'' ''/tokenize'' = ''http://10.0.0.1:80/tokenize''" by code_simp
  have body: "collect_limited MAX_TOKENS_BODY (Some ''x'') = Some ''x''" by (simp add: collect_limited_def MAX_TOKENS_BODY_def)
  have n: "as_u64 (jget (jobj [(''count'', jnat 14)]) ''count'') = Some 14" by code_simp
  show ?thesis
    using tokens_counted_once [OF body _ q(1) route e refl q(2) _ n, of "\<lambda>_. Inr question"
        "\<lambda>url req. if url = ''http://10.0.0.1:80/tokenize'' then Inr (jobj [(''count'', jnat 14)]) else Inl []"]
    by (simp add: parts url IMAGE_TOKENS_def)
qed

end
