(* ===== verification/Logfmt.thy ===== *)
theory Logfmt
  imports Http Ip
begin

text \<open>
  The one-line log of \<open>rust/common/src/logfmt.rs\<close>, and the \<open>{:?}\<close> form of a string that it and the status
  output use. Whether a character beyond ASCII is printed as it is comes from the Unicode tables of the standard
  library, so \<open>plain\<close> is a parameter.
\<close>

section \<open>The debug form of a string\<close>

definition char_has :: "char list \<Rightarrow> string \<Rightarrow> bool" where
  "char_has cs s \<longleftrightarrow> (\<exists>c \<in> set s. c \<in> set cs)"

text \<open>The number of a character from its one to four bytes.\<close>

definition code_point :: "string \<Rightarrow> nat" where
  "code_point c = (case map of_char c of
     [a] \<Rightarrow> a
   | [a, b] \<Rightarrow> (a - 192) * 64 + (b - 128)
   | [a, b, d] \<Rightarrow> (a - 224) * 4096 + (b - 128) * 64 + (d - 128)
   | [a, b, d, e] \<Rightarrow> (a - 240) * 262144 + (b - 128) * 4096 + (d - 128) * 64 + (e - 128)
   | _ \<Rightarrow> 0)"

definition escape_point :: "(string \<Rightarrow> bool) \<Rightarrow> string \<Rightarrow> string" where
  "escape_point plain c =
     (if c = [CHR 0x00] then [CHR 0x5C, CHR ''0'']
      else if c = [CHR 0x09] then [CHR 0x5C, CHR ''t'']
      else if c = [CHR 0x0D] then [CHR 0x5C, CHR ''r'']
      else if c = [CHR 0x0A] then [CHR 0x5C, CHR ''n'']
      else if c = [CHR 0x5C] \<or> c = [CHR 0x22] then CHR 0x5C # c
      else if (if code_point c < 128 then 32 \<le> code_point c \<and> code_point c < 127 else plain c) then c
      else [CHR 0x5C, CHR ''u'', CHR ''{''] @ show_hex (code_point c) @ [CHR ''}''])"

function escape_all :: "(string \<Rightarrow> bool) \<Rightarrow> string \<Rightarrow> string" where
  "escape_all plain s = (if s = [] then []
     else (let n = fst (utf8_next s) in escape_point plain (take n s) @ escape_all plain (drop n s)))"
  by pat_completeness auto
termination escape_all
  by (relation "measure (length \<circ> snd)") (use utf8_next_pos in auto)

declare escape_all.simps [simp del]

definition debug_form :: "(string \<Rightarrow> bool) \<Rightarrow> string \<Rightarrow> string" where
  "debug_form plain s = CHR 0x22 # escape_all plain s @ [CHR 0x22]"

section \<open>The line\<close>

definition log_field :: "(string \<Rightarrow> bool) \<Rightarrow> string \<times> string \<Rightarrow> string" where
  "log_field plain kv = (case kv of (k, v) \<Rightarrow>
     CHR '' '' # k @ CHR ''='' # (if char_has [CHR '' '', CHR 0x22] v then debug_form plain v else v))"

text \<open>\<open>{:03}\<close>.\<close>

definition pad3 :: "nat \<Rightarrow> string" where
  "pad3 n = replicate (3 - length (show_nat n)) (CHR ''0'') @ show_nat n"

text \<open>\<open>log\<close>: the line for an event at \<open>ms\<close> milliseconds since the epoch, before its line end.\<close>

definition log_line :: "(string \<Rightarrow> bool) \<Rightarrow> string option \<Rightarrow> nat \<Rightarrow> string \<Rightarrow> (string \<times> string) list \<Rightarrow> string" where
  "log_line plain program ms event fs =
     (case program of None \<Rightarrow> ''mentat'' | Some p \<Rightarrow> p) @ '' ts='' @ show_nat (ms div 1000) @ ''.'' @ pad3 (ms mod 1000) @
     '' event='' @ event @ concat (map (log_field plain) fs)"

section \<open>One line per event\<close>

lemma in_range_high: "in_range lo hi s i \<Longrightarrow> 128 \<le> lo \<Longrightarrow> i < length s \<and> 128 \<le> (of_char (s ! i) :: nat)"
  by (auto simp: in_range_def)

lemma utf8_next_later:
  "fst (utf8_next s) \<le> 4"
  "1 < fst (utf8_next s) \<Longrightarrow> 128 \<le> (of_char (s ! 0) :: nat)"
  "1 < fst (utf8_next s) \<Longrightarrow> \<exists>lo hi. 128 \<le> lo \<and> in_range lo hi s 1"
  "2 < fst (utf8_next s) \<Longrightarrow> in_range 128 191 s 2"
  "3 < fst (utf8_next s) \<Longrightarrow> in_range 128 191 s 3"
proof -
  show "fst (utf8_next s) \<le> 4" "1 < fst (utf8_next s) \<Longrightarrow> 128 \<le> (of_char (s ! 0) :: nat)"
    "2 < fst (utf8_next s) \<Longrightarrow> in_range 128 191 s 2" "3 < fst (utf8_next s) \<Longrightarrow> in_range 128 191 s 3"
    by (simp_all add: utf8_next_def Let_def split: if_splits)
  assume "1 < fst (utf8_next s)"
  then have "in_range 160 191 s 1 \<or> in_range 128 159 s 1 \<or> in_range 144 191 s 1 \<or> in_range 128 143 s 1 \<or> in_range 128 191 s 1"
    by (simp add: utf8_next_def Let_def split: if_splits)
  moreover have "128 \<le> (160::nat)" "128 \<le> (144::nat)" "128 \<le> (128::nat)" by simp_all
  ultimately show "\<exists>lo hi. 128 \<le> lo \<and> in_range lo hi s 1" by blast
qed

text \<open>A character is one byte, or every byte of it is above ASCII.\<close>

lemma utf8_next_bytes:
  assumes "fst (utf8_next s) \<noteq> 1" "i < fst (utf8_next s)" "s \<noteq> []"
  shows "i < length s \<and> 128 \<le> (of_char (s ! i) :: nat)"
proof -
  have n: "1 < fst (utf8_next s)" using assms(1) utf8_next_pos [of s] by simp
  have "i < 4" using assms(2) utf8_next_later(1) [of s] by simp
  then consider "i = 0" | "i = 1" | "i = 2" | "i = 3" by linarith
  then show ?thesis
  proof cases
    case 1
    with assms(3) utf8_next_later(2) [OF n] show ?thesis by simp
  next
    case 2
    with utf8_next_later(3) [OF n] show ?thesis using in_range_high by blast
  next
    case 3
    with assms(2) utf8_next_later(4) [of s] show ?thesis by (auto dest: in_range_high)
  next
    case 4
    with assms(2) utf8_next_later(5) [of s] show ?thesis by (auto dest: in_range_high)
  qed
qed

lemma digit_char_line: "d < 16 \<Longrightarrow> digit_char d \<noteq> CHR 0x0A"
proof
  assume "d < 16" "digit_char d = CHR 0x0A"
  then have "of_char (digit_char d) = (10 :: nat)" by simp
  with \<open>d < 16\<close> show False by (auto simp: digit_char_def split: if_splits)
qed

lemma show_hex_line: "CHR 0x0A \<notin> set (show_hex n)"
proof (induction n rule: show_hex.induct)
  case (1 n)
  show ?case
  proof (cases "n < 16")
    case True
    with digit_char_line [OF True] show ?thesis by (simp add: show_hex.simps [of n] eq_commute)
  next
    case False
    with 1 digit_char_line [of "n mod 16"] show ?thesis by (simp add: show_hex.simps [of n] eq_commute)
  qed
qed

lemma escape_point_line: "c = [x] \<or> CHR 0x0A \<notin> set c \<Longrightarrow> CHR 0x0A \<notin> set (escape_point plain c)"
  using show_hex_line by (auto simp: escape_point_def)

lemma escape_all_line: "CHR 0x0A \<notin> set (escape_all plain s)"
proof (induction plain s rule: escape_all.induct)
  case (1 plain s)
  show ?case
  proof (cases "s = []")
    case False
    let ?n = "fst (utf8_next s)"
    have "(\<exists>x. take ?n s = [x]) \<or> CHR 0x0A \<notin> set (take ?n s)"
    proof (cases "?n = 1")
      case True
      with False show ?thesis by (cases s) auto
    next
      case other: False
      then have "\<forall>i < ?n. i < length s \<and> 128 \<le> (of_char (s ! i) :: nat)" using utf8_next_bytes False by blast
      then have "\<forall>c \<in> set (take ?n s). 128 \<le> (of_char c :: nat)" by (auto simp: in_set_conv_nth)
      then show ?thesis by fastforce
    qed
    then have "CHR 0x0A \<notin> set (escape_point plain (take ?n s))" using escape_point_line by blast
    with 1 False show ?thesis by (simp add: escape_all.simps [of plain s] Let_def)
  qed (simp add: escape_all.simps)
qed

text \<open>An event is one line when no name in it has a line end and every value that has one also has a space or a
  double quote: such a value is written in its debug form, which escapes the line end.\<close>

theorem log_is_one_line:
  assumes "CHR 0x0A \<notin> set event" "\<forall>p. program = Some p \<longrightarrow> CHR 0x0A \<notin> set p"
    and "\<forall>(k, v) \<in> set fs. CHR 0x0A \<notin> set k \<and> (CHR 0x0A \<in> set v \<longrightarrow> char_has [CHR '' '', CHR 0x22] v)"
  shows "CHR 0x0A \<notin> set (log_line plain program ms event fs)"
proof -
  have n: "CHR 0x0A \<notin> set (show_nat k)" for k using show_nat_chars by fastforce
  have "CHR 0x0A \<notin> set (log_field plain kv)" if "kv \<in> set fs" for kv
  proof -
    obtain k v where kv: "kv = (k, v)" by force
    with assms(3) that have "CHR 0x0A \<notin> set k" "CHR 0x0A \<in> set v \<longrightarrow> char_has [CHR '' '', CHR 0x22] v" by blast+
    with kv escape_all_line [of plain v] show ?thesis by (auto simp: log_field_def debug_form_def)
  qed
  with assms(1,2) n show ?thesis by (auto simp: log_line_def pad3_def split: option.split)
qed

theorem log_is_one_line_witness:
  "CHR 0x0A \<notin> set (log_line (\<lambda>_. True) None 1007 ''peer_lost'' [(''why'', ''timed out'' @ [CHR 0x0A]), (''node'', ''ab'')])"
  by (rule log_is_one_line) (simp_all add: char_has_def)

text \<open>A value with a line end and neither a space nor a quote is written as it is, and splits the line.\<close>

theorem log_value_splits_line:
  "log_line plain None 1007 ''agent_up'' [(''group'', ''a'' @ [CHR 0x0A] @ ''event=x'')]
     = ''mentat ts=1.007 event=agent_up group=a'' @ [CHR 0x0A] @ ''event=x''"
  by (simp add: log_line_def log_field_def char_has_def pad3_def show_nat.simps digit_char_def char_of_def bit_simps numeral_2_eq_2)

end
