(* ===== verification/Render.thy ===== *)
theory Render
  imports Doubles Logfmt Claim
begin

text \<open>
  The terminal form of a status snapshot (\<open>meta_line\<close> and \<open>render\<close> of \<open>rust/mentatd/src/status.rs\<close>). The
  document comes off the wire, so it may be any JSON value. A string cut at a place that is not between two
  characters panics, which is \<open>None\<close> here. Subtractions on \<open>usize\<close> wrap, as in the release build. \<open>shown\<close> is the
  JSON text of a value, and \<open>plain\<close> the Unicode table of \<^term>\<open>debug_form\<close>.
\<close>

section \<open>Pieces\<close>

text \<open>\<open>&s[..n.min(s.len())]\<close>: a continuation byte cannot start the rest.\<close>

definition str_to :: "nat \<Rightarrow> string \<Rightarrow> string option" where
  "str_to n s = (if length s \<le> n then Some s
     else (let b = of_char (s ! n) :: nat in if 128 \<le> b \<and> b < 192 then None else Some (take n s)))"

definition usize_sub :: "nat \<Rightarrow> nat \<Rightarrow> nat" where
  "usize_sub a b = nat ((int a - int b) mod 2 ^ 64)"

definition show_bool :: "bool \<Rightarrow> string" where
  "show_bool b = (if b then ''true'' else ''false'')"

definition f64_or0 :: "json \<Rightarrow> rat" where
  "f64_or0 v = (case as_f64 v of Some x \<Rightarrow> x | None \<Rightarrow> 0)"

definition u64_or0 :: "json \<Rightarrow> nat" where
  "u64_or0 v = (case as_u64 v of Some n \<Rightarrow> n | None \<Rightarrow> 0)"

definition true_in :: "json \<Rightarrow> bool" where
  "true_in v \<longleftrightarrow> as_bool v = Some True"

definition line_end :: string where
  "line_end = [CHR 0x0A]"

text \<open>Concatenate what every step gives, unless one of them panics.\<close>

definition all_of :: "string option list \<Rightarrow> string option" where
  "all_of xs = map_option concat (those xs)"

section \<open>An agent's metadata\<close>

definition meta_cell :: "(string \<Rightarrow> bool) \<Rightarrow> string \<times> json \<Rightarrow> string" where
  "meta_cell plain kv = (case kv of (k, v) \<Rightarrow>
     (let s = str_or [] v
      in k @ ''='' @ (if s = [] \<or> char_has [CHR '' '', CHR 0x22, CHR ''=''] s then debug_form plain s else s)))"

definition meta_line :: "(string \<Rightarrow> bool) \<Rightarrow> json \<Rightarrow> string option" where
  "meta_line plain m = (if entries m = [] then None
     else Some (''    meta '' @ join '' '' (map (meta_cell plain) (entries m)) @ line_end))"

section \<open>The daemon and its peers\<close>

text \<open>The one line that entrypoints read: the sums over the groups, as doubles.\<close>

definition gpu_line :: "(string \<times> json) list \<Rightarrow> string" where
  "gpu_line gs =
     (let sum = (\<lambda>k. foldl (\<lambda>acc (_, g). add_f64 acc (Finite (f64_or0 (jget g k)))) (Finite 0) gs);
          used = fixed1 (sum ''gpus_used''); all = fixed1 (sum ''gpus_total'')
      in ''Resources: '' @ used @ ''/'' @ all @ '' GPU ('' @ used @ '' reserved in placement groups)'' @ line_end)"

definition daemon_line :: "json \<Rightarrow> string" where
  "daemon_line data = ''mentat daemon: '' @ str_or ''?'' (jget data ''node_ip'') @ '':'' @ show_nat (u64_or0 (jget data ''control_port'')) @
     '' ('' @ str_or ''?'' (jget data ''hostname'') @ '')'' @
     (if jget data ''head_node_id'' = jget data ''node_id'' then '' [head]'' else []) @ line_end"

text \<open>Which box owns a MAC: this one first, then every peer, a later one replacing an earlier.\<close>

definition mac_owner :: "json \<Rightarrow> (string, string) table" where
  "mac_owner data =
     fold (\<lambda>(ip, macs) t. fold (\<lambda>mac. bt_insert mac (str_or ''?'' ip)) (List.map_filter (\<lambda>(_, m). as_str m) (entries macs)) t)
       ((jget data ''node_ip'', jget data ''addr_macs'')
          # map (\<lambda>(_, p). (jget p ''node_ip'', jget p ''addr_macs'')) (entries (jget data ''peers''))) []"

definition reach_cell :: "(string, string) table \<Rightarrow> string \<times> json \<Rightarrow> string" where
  "reach_cell owners rr = (case rr of (remote, r) \<Rightarrow>
     (let rtt_ms = show_nat (u64_or0 (jget r ''rtt_ms'')) @ ''ms''
      in if \<not> true_in (jget r ''ok'') then remote @ ''=fail''
         else if jget r ''direct'' = JBool False then
           (let mac = str_or ''?'' (jget r ''neighbour_mac'')
            in remote @ ''=fwd('' @ (case map_of owners mac of Some via \<Rightarrow> via | None \<Rightarrow> mac) @ '')/'' @ rtt_ms)
         else remote @ ''=ok/'' @ rtt_ms))"

definition reach_line :: "(string, string) table \<Rightarrow> string \<times> json \<Rightarrow> string" where
  "reach_line owners lr = (case lr of (local, remotes) \<Rightarrow>
     ''  reach from '' @ local @ '': '' @ join '' '' (map (reach_cell owners) (entries remotes)) @ line_end)"

definition peer_lines :: "(json \<Rightarrow> string) \<Rightarrow> json \<Rightarrow> (string, string) table \<Rightarrow> string \<times> json \<Rightarrow> string option" where
  "peer_lines shown data owners pp = (case pp of (pid, p) \<Rightarrow>
     map_option (\<lambda>short. ''peer '' @ short @ ''... '' @ str_or ''?'' (jget p ''node_ip'') @ '' alive='' @ shown (jget p ''alive'') @
         (if as_str (jget data ''head_node_id'') = Some pid then '' [head]'' else []) @ line_end @
         concat (map (reach_line owners) (entries (jget p ''probes''))))
       (str_to 8 pid))"

definition island_member :: "json \<Rightarrow> string \<Rightarrow> string" where
  "island_member iv n = (case as_str (jget (jget iv ''addrs'') n) of
     Some a \<Rightarrow> a | None \<Rightarrow> (case node_ip_of n of Some ip \<Rightarrow> ip | None \<Rightarrow> n))"

definition fabric_line :: "nat \<times> json \<Rightarrow> string" where
  "fabric_line il = (case il of (i, ix) \<Rightarrow>
     ''fabric '' @ show_nat i @ '': '' @ join '' '' (map (island_member ix) (List.map_filter as_str (elems (jget ix ''nodes'')))) @ line_end)"

section \<open>A group\<close>

definition agent_lines :: "(string \<Rightarrow> bool) \<Rightarrow> bool \<Rightarrow> string \<times> json \<Rightarrow> string" where
  "agent_lines plain scoped ia = (case ia of (i, a) \<Rightarrow>
     (let gpus = length (elems (jget (jget a ''machine'') ''gpus''));
          free = length (elems (jget a ''gpus_free''));
          vendors = sort_dedup (List.map_filter (\<lambda>g. as_str (jget g ''vendor'')) (elems (jget (jget a ''machine'') ''gpus'')))
      in ''  agent '' @ i @ '' node='' @ str_or ''?'' (jget a ''node_ip'') @ '' container='' @ str_or ''?'' (jget a ''container'') @
         '' gpus='' @ show_nat (usize_sub gpus free) @ ''/'' @ show_nat gpus @
         '' vendor='' @ (if vendors = [] then ''?'' else join ''+'' vendors) @ '' alive='' @ show_bool (true_in (jget a ''alive'')) @
         (if true_in (jget a ''degraded'') then '' degraded=true'' else []) @ line_end @
         (if scoped then [] else (case meta_line plain (jget a ''meta'') of Some l \<Rightarrow> l | None \<Rightarrow> []))))"

definition pg_line :: "string \<times> json \<Rightarrow> string" where
  "pg_line ip = (case ip of (i, p) \<Rightarrow> ''  pg '' @ i @ '' bundles='' @ show_nat (length (elems (jget p ''bundles''))) @
     '' state='' @ str_or ''?'' (jget p ''state'') @ line_end)"

definition actor_line :: "string \<times> json \<Rightarrow> string option" where
  "actor_line ia = (case ia of (i, a) \<Rightarrow>
     map_option (\<lambda>node. ''  actor '' @ str_or ''?'' (jget a ''name'') @ '' ['' @ i @ ''] node='' @ node @ ''... pid='' @
         show_nat (u64_or0 (jget a ''pid'')) @ '' state='' @ str_or ''?'' (jget a ''state'') @ line_end)
       (str_to 6 (str_or ''??????'' (jget a ''node_id''))))"

definition render_group :: "(string \<Rightarrow> bool) \<Rightarrow> bool \<Rightarrow> string \<times> json \<Rightarrow> string option" where
  "render_group plain scoped ng = (case ng of (name, g) \<Rightarrow>
     map_option (\<lambda>acts. ''group '' @ name @ '': gpus='' @ show_nat (f64_to_u64 (f64_or0 (jget g ''gpus_used''))) @ ''/'' @
         show_nat (f64_to_u64 (f64_or0 (jget g ''gpus_total''))) @ line_end @
         concat (map (agent_lines plain scoped) (entries (jget g ''agents''))) @
         concat (map pg_line (entries (jget g ''placement_groups''))) @ acts)
       (all_of (map actor_line (entries (jget g ''actors'')))))"

section \<open>The whole output\<close>

definition render :: "(json \<Rightarrow> string) \<Rightarrow> (string \<Rightarrow> bool) \<Rightarrow> json \<Rightarrow> bool \<Rightarrow> string option" where
  "render shown plain data scoped =
     (let gs = entries (jget data ''groups'')
      in Option.bind (all_of (map (peer_lines shown data (mac_owner data)) (entries (jget data ''peers'')))) (\<lambda>ps.
         map_option (\<lambda>gl. (if scoped then gpu_line gs else []) @ daemon_line data @ ps @
             concat (map fabric_line (enumerate 0 (elems (jget data ''islands'')))) @ gl)
           (all_of (map (render_group plain scoped) gs))))"

end
