(* ===== verification/Host.thy ===== *)
theory Host
  imports Logfmt Meta Common AgentProc
begin

text \<open>
  What a process takes from its box before it serves: the machine inventory (\<open>machine.rs\<close>), the metadata of
  \<open>/proc\<close> and \<open>/sys\<close> (\<open>meta.rs\<close>), the mesh key (\<open>secret.rs\<close>), a program beside it (\<open>find_sibling\<close> in
  \<open>main.rs\<close>), the identity of the agent (\<open>run\<close> in \<open>agent.rs\<close>), the host name and the keepalive timers
  (\<open>daemon.rs\<close>), and the small JSON files it writes (\<open>state.rs\<close>). The files, the environment and the programs it
  runs are arguments: \<open>file\<close> is the text of a file that reads as UTF-8, \<open>names\<close> the entries of a directory.
\<close>

section \<open>Paths\<close>

text \<open>\<open>Path::join\<close>: an absolute right side replaces the left.\<close>

definition path_join :: "string \<Rightarrow> string \<Rightarrow> string" where
  "path_join d f = (if starts_with ''/'' f then f
     else if d = [] \<or> ends_with ''/'' d then d @ f else d @ ''/'' @ f)"

text \<open>\<open>find_sibling\<close>: \<open>exe_dir\<close> is the directory of the running program, \<open>path_var\<close> the value of PATH.\<close>

definition find_sibling :: "string option \<Rightarrow> string option \<Rightarrow> (string \<Rightarrow> bool) \<Rightarrow> string \<Rightarrow> string option" where
  "find_sibling exe_dir path_var is_file f =
     List.find is_file ((case exe_dir of Some d \<Rightarrow> [path_join d f] | None \<Rightarrow> [])
       @ map (\<lambda>d. path_join d f) (split_on (CHR '':'') (case path_var of Some p \<Rightarrow> p | None \<Rightarrow> [])))"

definition find_subcommand :: "string option \<Rightarrow> string option \<Rightarrow> (string \<Rightarrow> bool) \<Rightarrow> string \<Rightarrow> string option" where
  "find_subcommand exe_dir path_var is_file name = find_sibling exe_dir path_var is_file (''mentatd-'' @ name)"

section \<open>The machine inventory\<close>

definition PROBE :: string where
  "PROBE = ''mentatd-probe-machine''"

text \<open>A program that was run: whether it succeeded, the text of its status, its output and its errors.\<close>

datatype ran = NotRun string | Ran bool string string string

definition probe_path :: "vars \<Rightarrow> (string \<Rightarrow> string option) \<Rightarrow> string option" where
  "probe_path var sibling = (case var ''MENTAT_MACHINE_PROBE'' of
     Some p \<Rightarrow> if p \<noteq> [] then Some p else sibling PROBE
   | None \<Rightarrow> sibling PROBE)"

definition parse_machine :: "(string \<Rightarrow> string + machine) \<Rightarrow> string \<Rightarrow> string \<Rightarrow> string + machine" where
  "parse_machine from_str raw from = (case from_str (trim raw) of
     Inr m \<Rightarrow> Inr m | Inl e \<Rightarrow> Inl (from @ '' is not a machine: '' @ e @ '': '' @ trim raw))"

text \<open>\<open>detect_machine\<close>: \<open>Inl\<close> is the reason of the exit.\<close>

definition detect_machine ::
  "vars \<Rightarrow> (string \<Rightarrow> string option) \<Rightarrow> (string \<Rightarrow> ran) \<Rightarrow> (string \<Rightarrow> string + machine) \<Rightarrow> string + machine" where
  "detect_machine var sibling output from_str =
     (case (case var ''MENTAT_MACHINE'' of Some s \<Rightarrow> if trim s = [] then None else Some s | None \<Rightarrow> None) of
        Some raw \<Rightarrow> parse_machine from_str raw ''MENTAT_MACHINE''
      | None \<Rightarrow>
          (case probe_path var sibling of
             None \<Rightarrow> Inl (''no '' @ PROBE @ '' beside this binary or on PATH. Install it, or set '' @
               ''MENTAT_MACHINE to the inventory this box has'')
           | Some probe \<Rightarrow>
               (case output probe of
                  NotRun e \<Rightarrow> Inl (probe @ '' did not run: '' @ e)
                | Ran good status out err \<Rightarrow>
                    (if \<not> good then Inl (probe @ '' exited '' @ status @ '': '' @ trim (utf8_lossy err))
                     else parse_machine from_str (utf8_lossy out) probe))))"

section \<open>Metadata of the box\<close>

definition read_trim :: "(string \<Rightarrow> string option) \<Rightarrow> string \<Rightarrow> string option" where
  "read_trim file p = (case file p of Some s \<Rightarrow> if trim s = [] then None else Some (trim s) | None \<Rightarrow> None)"

definition sorted_names :: "(string \<Rightarrow> string list) \<Rightarrow> string \<Rightarrow> string list" where
  "sorted_names names dir = sort (names dir)"

definition trim_end :: "string \<Rightarrow> string" where
  "trim_end s = rev (trim_front (map rev white_space) (length s) (rev s))"

fun after_sep :: "string \<Rightarrow> string \<Rightarrow> string option" where
  "after_sep sep [] = (if sep = [] then Some [] else None)"
| "after_sep sep (c # s) = (case strip_prefix sep (c # s) of Some t \<Rightarrow> Some t | None \<Rightarrow> after_sep sep s)"

text \<open>The RoCE v2 GIDs of a port that map an IPv4 address, by index.\<close>

definition port_gid :: "(string \<Rightarrow> string option) \<Rightarrow> string \<Rightarrow> string \<Rightarrow> (nat \<times> string) option" where
  "port_gid file p idx =
     (case parse_uint (2 ^ 32 - 1) 10 idx of
        None \<Rightarrow> None
      | Some i \<Rightarrow>
          (if read_trim file (path_join (path_join p ''gid_attrs/types'') idx) \<noteq> Some ''RoCE v2'' then None
           else (case Option.bind (read_trim file (path_join (path_join p ''gids'') idx)) ipv4_of_gid of
               None \<Rightarrow> None
             | Some v4 \<Rightarrow>
                 (let ndev = (case read_trim file (path_join (path_join p ''gid_attrs/ndevs'') idx) of Some d \<Rightarrow> d | None \<Rightarrow> [])
                  in Some (i, trim_end (show_nat i @ '' '' @ v4 @ '' '' @ ndev))))))"

text \<open>\<open>gids.sort()\<close> on pairs: by index, then by text.\<close>

definition port_meta :: "(string \<Rightarrow> string option) \<Rightarrow> (string \<Rightarrow> string list) \<Rightarrow> string \<Rightarrow> string \<Rightarrow> string \<Rightarrow> str_map \<Rightarrow> str_map" where
  "port_meta file names portdir dev port out =
     (let p = path_join portdir port; stem = ''rdma.'' @ dev @ ''.'' @ port;
          out1 = (case read_trim file (path_join p ''state'') of
              Some s \<Rightarrow> bt_insert (stem @ ''.state'') (case after_sep '': '' s of Some t \<Rightarrow> t | None \<Rightarrow> s) out
            | None \<Rightarrow> out);
          gids = sort_key fst (sort_key snd (List.map_filter (port_gid file p) (sorted_names names (path_join p ''gids''))))
      in if gids = [] then out1 else bt_insert (stem @ ''.gid'') (join '', '' (map snd gids)) out1)"

definition rdma_ports :: "(string \<Rightarrow> string option) \<Rightarrow> (string \<Rightarrow> string list) \<Rightarrow> string \<Rightarrow> str_map" where
  "rdma_ports file names cls =
     fold (\<lambda>dev out. let portdir = path_join (path_join cls dev) ''ports''
       in fold (port_meta file names portdir dev) (sorted_names names portdir) out) (sorted_names names cls) []"

definition DRIVER_MODULES :: "string list" where
  "DRIVER_MODULES = [''nvidia'', ''amdgpu'', ''mlx5_core'']"

definition probed :: "(string \<Rightarrow> string option) \<Rightarrow> (string \<Rightarrow> string list) \<Rightarrow> string \<Rightarrow> str_map" where
  "probed file names fsroot =
     (let out = (case read_trim file (path_join fsroot ''proc/sys/kernel/osrelease'') of Some v \<Rightarrow> [(''kernel'', v)] | None \<Rightarrow> []);
          out1 = fold (\<lambda>m out. case read_trim file (path_join (path_join (path_join fsroot ''sys/module'') m) ''version'') of
              Some v \<Rightarrow> bt_insert (''driver.'' @ m) v out | None \<Rightarrow> out) DRIVER_MODULES out
      in bt_extend out1 (rdma_ports file names (path_join fsroot ''sys/class/infiniband'')))"

text \<open>\<open>from_file\<close> of \<open>meta.rs\<close>: \<open>read\<close> is the text or the error of the read, \<open>from_str\<close> the JSON reader.\<close>

definition meta_from_file :: "(json \<Rightarrow> string) \<Rightarrow> (string \<Rightarrow> string + json) \<Rightarrow> string + string \<Rightarrow> string + str_map" where
  "meta_from_file shown from_str text = (case text of
     Inl e \<Rightarrow> Inl e
   | Inr t \<Rightarrow> (case from_str t of
       Inl e \<Rightarrow> Inl e
     | Inr v \<Rightarrow> (case as_object v of
         None \<Rightarrow> Inl ''not a JSON object''
       | Some kvs \<Rightarrow> Inr (bt_of_list (map (\<lambda>(k, x). (k, case x of JStr s \<Rightarrow> s | other \<Rightarrow> shown other)) kvs)))))"

definition meta_collect ::
  "(json \<Rightarrow> string) \<Rightarrow> (string \<Rightarrow> string + json) \<Rightarrow> (string \<Rightarrow> string + string) \<Rightarrow> (string \<Rightarrow> string list) \<Rightarrow> (string \<times> string) list \<Rightarrow> str_map" where
  "meta_collect shown from_str read names environ =
     (let file = (\<lambda>p. case read p of Inr t \<Rightarrow> Some t | Inl _ \<Rightarrow> None);
          m1 = probed file names ''/'';
          m2 = (case map_of environ ''MENTAT_META_FILE'' of
              Some p \<Rightarrow> if p = [] then m1
                else (case meta_from_file shown from_str (read p) of Inr m \<Rightarrow> bt_extend m1 m | Inl _ \<Rightarrow> m1)
            | None \<Rightarrow> m1)
      in fst (bounded (bt_extend m2 (meta_from_env environ))))"

section \<open>The mesh key\<close>

definition secret_from_file :: "string \<Rightarrow> string + payload \<Rightarrow> string + payload option" where
  "secret_from_file pth contents = (case contents of
     Inl e \<Rightarrow> Inl (''MENTAT_SECRET_FILE '' @ pth @ '': '' @ e)
   | Inr bytes \<Rightarrow> (let k = trim_ascii bytes
       in if k = [] then Inl (''MENTAT_SECRET_FILE '' @ pth @ '': file is empty'') else Inr (Some k)))"

definition secret_load :: "vars \<Rightarrow> (string \<Rightarrow> string + payload) \<Rightarrow> string + payload option" where
  "secret_load var read =
     (case var ''MENTAT_SECRET_FILE'' of
        Some p \<Rightarrow> if trim p \<noteq> [] then secret_from_file (trim p) (read (trim p)) else Inr (secret_from_env (var ''MENTAT_SECRET''))
      | None \<Rightarrow> Inr (secret_from_env (var ''MENTAT_SECRET'')))"

section \<open>The agent's identity\<close>

text \<open>\<open>hostname\<close>: \<open>ran\<close> is the run of the program of that name.\<close>

definition hostname_of :: "ran \<Rightarrow> string" where
  "hostname_of r = (case r of
     Ran _ _ out _ \<Rightarrow> if trim (utf8_lossy out) = [] then ''unknown'' else trim (utf8_lossy out)
   | NotRun _ \<Rightarrow> ''unknown'')"

text \<open>What \<open>run\<close> in \<open>agent.rs\<close> settles before its first connection; \<open>Inl\<close> is an exit. \<open>lower\<close> is the Unicode
  lowercase of the provider's name, \<open>mine\<close> the addresses of the box and \<open>route\<close> the one toward the daemon.\<close>

definition agent_identity ::
  "vars \<Rightarrow> (string \<Rightarrow> string) \<Rightarrow> ran \<Rightarrow> string list \<Rightarrow> string option \<Rightarrow> nat \<Rightarrow> string + machine \<Rightarrow> str_map \<Rightarrow> string \<Rightarrow> string \<Rightarrow> string + agent_opts" where
  "agent_identity var lower hostprog mine route pid mach meta daemon_addr grp =
     (let container = (case var ''CONTAINER_NAME'' of Some c \<Rightarrow> if c \<noteq> [] then c else hostname_of hostprog | None \<Rightarrow> hostname_of hostprog);
          ip = claimed_node_ip (var ''MENTAT_NODE_IP'') mine route daemon_addr
      in case mach of
           Inl why \<Rightarrow> Inl why
         | Inr m \<Rightarrow>
             (case announced_services (lower (trim (case var ''MENTAT_MODEL_PROVIDER'' of Some p \<Rightarrow> p | None \<Rightarrow> []))) var of
                Inl why \<Rightarrow> Inl why
              | Inr services \<Rightarrow> Inr \<lparr>ao_id = grp @ ''@'' @ container @ ''@'' @ ip, ao_group = grp, ao_node_ip = ip,
                  ao_container = container, ao_pid = pid, ao_machine = m, ao_services = services, ao_meta = meta\<rparr>))"

text \<open>The pause before the next connection, which the attempts lengthen.\<close>

definition retry_ms :: "nat \<Rightarrow> nat" where
  "retry_ms attempt = (if attempt < 5 then 1000 else 5000)"

section \<open>Keepalive\<close>

text \<open>\<open>as c_int\<close>, and division and subtraction on \<open>c_int\<close>: the idle time, the interval and the count.\<close>

definition as_i32 :: "nat \<Rightarrow> int" where
  "as_i32 n = (let m = int n mod 2 ^ 32 in if m < 2 ^ 31 then m else m - 2 ^ 32)"

definition keepalive :: "nat \<Rightarrow> int \<times> int \<times> int" where
  "keepalive dead_after_ms =
     (let whole_s = as_i32 (max (dead_after_ms div 1000) 5);
          intvl = max (if 0 \<le> whole_s then whole_s div 5 else - ((- whole_s) div 5)) 1
      in (max (whole_s - 3 * intvl) 1, intvl, 3))"

section \<open>Small JSON files\<close>

text \<open>\<open>write_json_file\<close> over a store of files. \<open>fails\<close> says at which step the system refuses, if any; a write that
  fails leaves some prefix of the text behind.\<close>

datatype write_step = MakeDir | Create | WriteAll nat | Flush | Rename

definition write_json_file :: "write_step option \<Rightarrow> string \<Rightarrow> string \<Rightarrow> (string \<Rightarrow> string option) \<Rightarrow> bool \<times> (string \<Rightarrow> string option)" where
  "write_json_file fails pth text fs =
     (let tmp = pth @ ''.tmp''
      in case fails of
           Some MakeDir \<Rightarrow> (False, fs)
         | Some Create \<Rightarrow> (False, fs)
         | Some (WriteAll n) \<Rightarrow> (False, fs(tmp := Some (take n text)))
         | Some Flush \<Rightarrow> (False, fs(tmp := Some text))
         | Some Rename \<Rightarrow> (False, fs(tmp := Some text))
         | None \<Rightarrow> (True, fs(tmp := None, pth := Some text)))"

end
