(* ===== verification/Cli.thy ===== *)
theory Cli
  imports Render Host Clients
begin

text \<open>
  The command line (\<open>rust/mentatd/src/main.rs\<close>) and the start of the daemon (\<open>run\<close> in \<open>daemon.rs\<close>). The result is
  what the process did in order, and how it ended. The argument parser is code of the \<open>clap\<close> crate, so it is a
  part of the \<open>world\<close> the process runs in, with the environment, the files and the connections.
\<close>

section \<open>Data\<close>

datatype cmd =
    Daemon (d_port: nat) (d_http_port: nat) (d_node_ip: "string option") (d_head_json: string) (d_peers: "string list")
  | Start (st_head: bool) (st_block: bool) (st_address: "string option") (st_object_store_memory: "nat option")
  | StatusCmd "string option" "string option" bool
  | Stop "string option" "string option" bool
  | InternalAgent string string

record cli =
  cli_version :: bool
  cli_cmd :: "cmd option"

record daemon_opts =
  do_port :: nat
  do_http_port :: nat
  do_node_ip :: string
  do_head_json :: string
  do_peers :: "string list"

text \<open>A connection to a daemon: whether its handle can be cloned, how each of the two writes ends, and what it reads.\<close>

record cli_link =
  lk_clone :: "io_error option"
  lk_hello :: "io_error option"
  lk_request :: "io_error option"
  lk_reads :: reader

text \<open>\<open>w_bind\<close> is how binding the control port fails, \<open>w_host\<close> the run of \<open>hostname\<close>, \<open>w_boot\<close> the boot id, \<open>w_pid\<close> the
  process, \<open>w_rnd\<close> a random id, \<open>w_head_json\<close> the JSON value in the head file if it reads as one.\<close>

record world =
  w_args :: "string list"
  w_var :: vars
  w_exe_dir :: "string option"
  w_is_file :: "string \<Rightarrow> bool"
  w_exec :: "string \<Rightarrow> string list \<Rightarrow> string option"
  w_clap :: "string list \<Rightarrow> nat + cli"
  w_route :: "string option"
  w_bind :: "nat \<Rightarrow> string option"
  w_host :: ran
  w_boot :: string
  w_pid :: nat
  w_rnd :: string
  w_current_exe :: bool
  w_spawn :: "string list \<Rightarrow> string + nat"
  w_head_json :: "json option"
  w_connect :: "string \<Rightarrow> io_error + cli_link"

datatype effect =
    Out string
  | ErrOut string
  | Logged string "(string \<times> string) list"
  | Wrote string json
  | Spawned "string list"
  | Sends string frame

datatype ending = Exit nat | Execs string "string list" | AgentRuns string string | DaemonRuns daemon_opts state | Panicked

type_synonym run = "effect list \<times> ending"

text \<open>The parts of other crates: the JSON text of a value, the frame reader's parts, the text of an I/O error and the
  debug text of a message.\<close>

record codec =
  cd_shown :: "json \<Rightarrow> string"
  cd_plain :: "string \<Rightarrow> bool"
  cd_from_slice :: "payload \<Rightarrow> frame option"
  cd_value_of :: "payload \<Rightarrow> json option"
  cd_bad :: "payload \<Rightarrow> string"
  cd_io :: "io_error \<Rightarrow> string"
  cd_debug :: "msg \<Rightarrow> string"

section \<open>External subcommands\<close>

definition BUILTIN :: "string list" where
  "BUILTIN = [''daemon'', ''start'', ''status'', ''stop'', ''internal-agent'', ''help'']"

definition exec_external_subcommand :: "world \<Rightarrow> run option" where
  "exec_external_subcommand w = (case w_args w of
     _ # sub # rest \<Rightarrow>
       (let name = utf8_lossy sub
        in if starts_with ''-'' name \<or> name \<in> set BUILTIN then None
           else map_option (\<lambda>p. case w_exec w p rest of
                None \<Rightarrow> ([], Execs p rest)
              | Some e \<Rightarrow> ([ErrOut (''mentatd: cannot run '' @ p @ '': '' @ e)], Exit 1))
             (find_subcommand (w_exe_dir w) (w_var w ''PATH'') (w_is_file w) name))
   | _ \<Rightarrow> None)"

section \<open>The environment\<close>

definition filled :: "string option \<Rightarrow> string option" where
  "filled v = (case v of Some s \<Rightarrow> if s = [] then None else Some s | None \<Rightarrow> None)"

definition group_env :: "vars \<Rightarrow> string option" where
  "group_env var = (case filled (var ''MENTAT_GROUP'') of Some g \<Rightarrow> Some g | None \<Rightarrow> filled (var ''SERVICE_NAME''))"

definition group_from_env :: "vars \<Rightarrow> string" where
  "group_from_env var = (case group_env var of Some g \<Rightarrow> g | None \<Rightarrow> ''default'')"

definition LOCAL :: string where
  "LOCAL = ''127.0.0.1:6379''"

definition resolve_address :: "vars \<Rightarrow> json option \<Rightarrow> string option \<Rightarrow> string" where
  "resolve_address var head_json flag = (case filled flag of
     Some a \<Rightarrow> a
   | None \<Rightarrow> (case filled (var ''RAY_ADDRESS'') of
       Some a \<Rightarrow> a
     | None \<Rightarrow> (case Option.bind head_json (\<lambda>v. as_str (jget v ''address'')) of Some a \<Rightarrow> a | None \<Rightarrow> LOCAL)))"

section \<open>A request to a daemon\<close>

datatype cli_error = Io io_error | Ended string | Refused string

definition cli_error_text :: "codec \<Rightarrow> cli_error \<Rightarrow> string" where
  "cli_error_text cd e = (case e of Io x \<Rightarrow> cd_io cd x | Ended t \<Rightarrow> t | Refused t \<Rightarrow> t)"

definition cli_hello :: "vars \<Rightarrow> string \<Rightarrow> frame" where
  "cli_hello var rnd = frame_new 1 (C (Hello PROTO rnd (group_from_env var) False ''cli'' []))"

text \<open>One reply off the connection; \<open>eof\<close> is the error when it is closed.\<close>

definition cli_reply :: "codec \<Rightarrow> string \<Rightarrow> reader \<Rightarrow> cli_error + ((msg \<times> payload) \<times> reader)" where
  "cli_reply cd eof r = (case read_frame (cd_from_slice cd) (cd_value_of cd) (cd_bad cd) r of
     Inl e \<Rightarrow> Inl (Io e)
   | Inr None \<Rightarrow> Inl (Ended eof)
   | Inr (Some ((f, pl), r')) \<Rightarrow> (case f_msg f of R (Err e _ _ _) \<Rightarrow> Inl (Refused e) | m \<Rightarrow> Inr ((m, pl), r')))"

definition cli_request :: "codec \<Rightarrow> world \<Rightarrow> string \<Rightarrow> client_msg \<Rightarrow> effect list \<times> (cli_error + msg \<times> payload)" where
  "cli_request cd w addr m =
     (case w_connect w addr of
        Inl e \<Rightarrow> ([], Inl (Io e))
      | Inr l \<Rightarrow>
          (case lk_clone l of Some e \<Rightarrow> ([], Inl (Io e)) | None \<Rightarrow>
          (case lk_hello l of Some e \<Rightarrow> ([], Inl (Io e)) | None \<Rightarrow>
            (let sent1 = [Sends addr (cli_hello (w_var w) (w_rnd w))]
             in case cli_reply cd ''daemon closed the connection before answering hello'' (lk_reads l) of
                  Inl e \<Rightarrow> (sent1, Inl e)
                | Inr (_, r1) \<Rightarrow>
                    (case lk_request l of Some e \<Rightarrow> (sent1, Inl (Io e)) | None \<Rightarrow>
                      (let sent2 = sent1 @ [Sends addr (frame_new 2 (C m))]
                       in case cli_reply cd ''daemon closed the connection before replying'' r1 of
                            Inl e \<Rightarrow> (sent2, Inl e)
                          | Inr (reply, _) \<Rightarrow> (sent2, Inr reply)))))))"

section \<open>The daemon's start\<close>

definition env_peers :: "vars \<Rightarrow> string list" where
  "env_peers var = filter (\<lambda>s. s \<noteq> []) (map trim (split_on (CHR '','') (case var ''MENTAT_PEERS'' of Some v \<Rightarrow> v | None \<Rightarrow> [])))"

definition daemon_run :: "world \<Rightarrow> daemon_opts \<Rightarrow> run" where
  "daemon_run w d =
     (if trim (do_node_ip d) = [] then
        (let why = ''node ip is empty: set MENTAT_NODE_IP or --node-ip to the address this node is known by''
         in ([Logged ''daemon_no_node_ip'' [(''error'', why)], ErrOut (''mentatd: '' @ why)], Exit 1))
      else
        (let addr = do_node_ip d @ '':'' @ show_nat (do_port d); host = hostname_of (w_host w);
             s = (new_state (do_node_ip d) host addr (w_boot w))\<lparr>http_port := do_http_port d\<rparr>
         in case w_bind w (do_port d) of
              Some e \<Rightarrow> ([ErrOut (''mentatd: daemon exited: '' @ e)], Exit 1)
            | None \<Rightarrow> ([Wrote (do_head_json d) (jobj [(''address'', JStr addr), (''node_ip'', JStr (do_node_ip d)), (''pid'', jnat (w_pid w))]),
                 Logged ''daemon_up'' [(''addr'', addr), (''node_id'', node_id s), (''hostname'', host)]], DaemonRuns d s)))"

definition cmd_daemon :: "world \<Rightarrow> nat \<Rightarrow> nat \<Rightarrow> string option \<Rightarrow> string \<Rightarrow> string list \<Rightarrow> run" where
  "cmd_daemon w port http ip head_json ps =
     (case (case ip of Some i \<Rightarrow> Inr i | None \<Rightarrow> node_ip_from (w_var w ''MENTAT_NODE_IP'') (w_route w)) of
        Inl why \<Rightarrow> ([Logged ''daemon_no_node_ip'' [(''error'', why)], ErrOut (''mentatd: '' @ why)], Exit 1)
      | Inr i \<Rightarrow> daemon_run w \<lparr>do_port = port, do_http_port = http, do_node_ip = i, do_head_json = head_json,
          do_peers = (if ps = [] then env_peers (w_var w) else ps)\<rparr>)"

section \<open>The agent's start\<close>

definition not_blank :: "string option \<Rightarrow> string option" where
  "not_blank v = (case v of Some s \<Rightarrow> if trim s = [] then None else Some s | None \<Rightarrow> None)"

definition told_daemon :: "vars \<Rightarrow> string option \<Rightarrow> string option" where
  "told_daemon var address = (case not_blank (var ''MENTAT_DAEMON'') of Some a \<Rightarrow> Some a | None \<Rightarrow> not_blank address)"

definition head_without_address :: "string \<Rightarrow> string" where
  "head_without_address ray = ''--head names no daemon, so this agent would register with the local one while RAY_ADDRESS names '' @ ray @
     ''. Every agent of a group and its driver must reach one daemon. Pass --address='' @ ray"

definition cmd_start :: "world \<Rightarrow> bool \<Rightarrow> bool \<Rightarrow> string option \<Rightarrow> nat option \<Rightarrow> run" where
  "cmd_start w head block address store =
     (let notes = (if store = None then [] else [Logged ''object_store_flag_ignored''
            [(''why'', ''mentat has no object store, so unified memory stays with the model'')]]);
          grp = group_from_env (w_var w); told = told_daemon (w_var w) address
      in case (if head \<and> told = None then not_blank (w_var w ''RAY_ADDRESS'') else None) of
           Some ray \<Rightarrow> (notes @ [Logged ''head_without_address'' [(''error'', head_without_address ray)],
               ErrOut (''mentatd: '' @ head_without_address ray)], Exit 1)
         | None \<Rightarrow>
             (let addr = (case told of Some a \<Rightarrow> a | None \<Rightarrow> LOCAL);
                  args = [''internal-agent'', ''--group'', grp, ''--daemon'', addr]
              in if block then (notes, AgentRuns grp addr)
                 else if \<not> w_current_exe w then (notes, Panicked)
                 else (case w_spawn w args of
                     Inr pid \<Rightarrow> (notes @ [Spawned args, Wrote ''/tmp/mentat/agent.json'' (jobj [(''pid'', jnat pid), (''group'', JStr grp)]),
                         Out (''mentatd agent started (group='' @ grp @ '', daemon='' @ addr @ ''). Registration retries until the daemon answers'' @ line_end)],
                         Exit 0)
                   | Inl e \<Rightarrow> (notes @ [ErrOut (''mentatd: cannot start the agent: '' @ e)], Exit 1))))"

section \<open>Status and stop\<close>

definition daemon_at :: "codec \<Rightarrow> string \<Rightarrow> cli_error \<Rightarrow> effect" where
  "daemon_at cd addr e = ErrOut (''mentatd: daemon at '' @ addr @ '': '' @ cli_error_text cd e)"

definition cmd_status :: "codec \<Rightarrow> world \<Rightarrow> string option \<Rightarrow> string option \<Rightarrow> bool \<Rightarrow> run" where
  "cmd_status cd w address grp as_json =
     (let addr = resolve_address (w_var w) (w_head_json w) address;
          scope = (case grp of Some g \<Rightarrow> Some g | None \<Rightarrow> group_env (w_var w))
      in case cli_request cd w addr (Status scope) of
           (sends, Inr (R (StatusOk data), _)) \<Rightarrow>
             (if as_json then (sends @ [Out (cd_shown cd data @ line_end)], Exit 0)
              else (case render (cd_shown cd) (cd_plain cd) data (scope \<noteq> None) of
                  Some text \<Rightarrow> (sends @ [Out text], Exit 0) | None \<Rightarrow> (sends, Panicked)))
         | (sends, Inr (other, _)) \<Rightarrow> (sends @ [ErrOut (''mentatd: unexpected reply: '' @ cd_debug cd other)], Exit 1)
         | (sends, Inl e) \<Rightarrow> (sends @ [daemon_at cd addr e], Exit 1))"

definition cmd_stop :: "codec \<Rightarrow> world \<Rightarrow> string option \<Rightarrow> string option \<Rightarrow> bool \<Rightarrow> run" where
  "cmd_stop cd w address grp everything =
     (let addr = resolve_address (w_var w) (w_head_json w) address
      in case cli_request cd w addr (ActorStop (case grp of Some g \<Rightarrow> g | None \<Rightarrow> []) everything) of
           (sends, Inr _) \<Rightarrow> (sends @ [Out (''stop sent'' @ line_end)], Exit 0)
         | (sends, Inl e) \<Rightarrow> (sends @ [daemon_at cd addr e], Exit 1))"

section \<open>The program\<close>

definition RAY_COMPAT_VERSION :: string where
  "RAY_COMPAT_VERSION = ''2.57.0''"

text \<open>Whether the program was run under a name that starts with \<open>ray\<close>; \<open>None\<close> is the panic of a name that is not UTF-8.\<close>

definition invoked_as_ray :: "string list \<Rightarrow> bool option" where
  "invoked_as_ray args = (case args of
     a # _ \<Rightarrow> if valid_utf8 a then Some (starts_with ''ray'' (last (split_on (CHR ''/'') a))) else None
   | [] \<Rightarrow> Some False)"

definition usage :: string where
  "usage = ''usage: mentatd <daemon|start|status|stop> (see --help)'' @ line_end @
     ''any other name runs mentatd-<name> from PATH, e.g. mentatd serve''"

definition main :: "codec \<Rightarrow> string \<Rightarrow> world \<Rightarrow> run" where
  "main cd version w = (case exec_external_subcommand w of
     Some r \<Rightarrow> r
   | None \<Rightarrow> (case invoked_as_ray (w_args w) of
       None \<Rightarrow> ([], Panicked)
     | Some ray \<Rightarrow> (case w_clap w (w_args w) of
         Inl code \<Rightarrow> ([], Exit code)
       | Inr c \<Rightarrow>
           (if cli_version c then
              ([Out ((if ray then ''ray, version '' @ RAY_COMPAT_VERSION @ '' (mentatd '' @ version @ '')'' else ''mentatd '' @ version) @ line_end)], Exit 0)
            else (case cli_cmd c of
                None \<Rightarrow> ([ErrOut usage], Exit 2)
              | Some (Daemon port http ip head_json ps) \<Rightarrow> cmd_daemon w port http ip head_json ps
              | Some (Start head block address store) \<Rightarrow> cmd_start w head block address store
              | Some (InternalAgent grp daemon) \<Rightarrow> ([], AgentRuns grp daemon)
              | Some (StatusCmd address grp as_json) \<Rightarrow> cmd_status cd w address grp as_json
              | Some (Stop address grp everything) \<Rightarrow> cmd_stop cd w address grp everything)))))"

end
