(* ===== verification/CliProps.thy ===== *)
theory CliProps
  imports Cli
begin

text \<open>
  The command line against a daemon: what \<open>mentatd status\<close> prints of the daemon's state, byte stream and rendering
  included, and which daemon an agent is sent to.
\<close>

section \<open>Rendering a snapshot\<close>

definition ascii :: "string \<Rightarrow> bool" where
  "ascii s \<longleftrightarrow> (\<forall>c \<in> set s. (of_char c :: nat) < 128)"

lemma str_to_ascii: "ascii s \<Longrightarrow> \<exists>t. str_to n s = Some t"
proof -
  assume "ascii s"
  then have "(of_char (s ! n) :: nat) < 128" if "n < length s" using that by (simp add: ascii_def)
  then show ?thesis by (cases "n < length s") (auto simp: str_to_def Let_def)
qed

lemma all_of_some: "\<forall>x \<in> set xs. \<exists>y. x = Some y \<Longrightarrow> \<exists>t. all_of xs = Some t"
proof -
  have "\<forall>x \<in> set xs. \<exists>y. x = Some y \<Longrightarrow> those xs \<noteq> None" by (induction xs) auto
  moreover assume "\<forall>x \<in> set xs. \<exists>y. x = Some y"
  ultimately show ?thesis by (auto simp: all_of_def)
qed

lemma in_entries_jobj: "x \<in> set (entries (jobj kvs)) \<Longrightarrow> x \<in> set kvs"
  by (auto simp: jobj_def entries_def as_object_def dest: in_bt_extend)

lemma snapshot_fields:
  "jget (snapshot E s scope) ''groups'' = jobj (map (\<lambda>g. (g, group_json s g)) (snapshot_groups s scope))"
  "jget (snapshot E s scope) ''peers'' = jobj (map (\<lambda>p. (pe_node_id p, peer_row p)) (hm_values (peers s)))"
  by (simp_all add: snapshot_def jget_jobj)

lemma snapshot_groups_scoped: "snapshot_groups s (Some g) = [g]"
proof -
  let ?gs = "sort_dedup (map ag_group (hm_values (agents s)) @ map ac_group (hm_values (actors s)))"
  have "filter (\<lambda>x. x = g) gs = [] \<or> filter (\<lambda>x. x = g) gs = [g]" if "distinct gs" for gs :: "string list"
    using that by (induction gs) (auto simp: filter_empty_conv)
  from this [of ?gs] show ?thesis by (auto simp: snapshot_groups_def Let_def distinct_sort_dedup)
qed

lemma group_actors: "jget (group_json s g) ''actors'' = jobj (map (\<lambda>a. (ac_id a, actor_row a)) (filter (\<lambda>a. ac_group a = g) (hm_values (actors s))))"
  by (simp add: group_json_def jget_jobj)

lemma actor_row_node: "as_str (jget (actor_row a) ''node_id'') = Some (ac_node_id a)"
  by (simp add: actor_row_def jget_jobj as_str_def split: actor_state.split prod.split)

text \<open>On a snapshot whose ids are ASCII, as the ids daemons give themselves are, no slice panics.\<close>

lemma render_total:
  assumes "\<forall>p \<in> set (hm_values (peers s)). ascii (pe_node_id p)" "\<forall>a \<in> set (hm_values (actors s)). ascii (ac_node_id a)"
  shows "\<exists>text. render shown plain (snapshot E s scope) scoped =
     Some ((if scoped then gpu_line (entries (jget (snapshot E s scope) ''groups'')) else []) @ text)"
proof -
  let ?d = "snapshot E s scope"
  have "\<exists>t. peer_lines shown ?d (mac_owner ?d) x = Some t" if "x \<in> set (entries (jget ?d ''peers''))" for x
  proof -
    from in_entries_jobj [OF that [unfolded snapshot_fields(2)]] assms(1)
    obtain pid p where "x = (pid, p)" "ascii pid" by auto
    with str_to_ascii [of pid 8] show ?thesis by (auto simp: peer_lines_def)
  qed
  then obtain ps where ps: "all_of (map (peer_lines shown ?d (mac_owner ?d)) (entries (jget ?d ''peers''))) = Some ps"
    using all_of_some [of "map (peer_lines shown ?d (mac_owner ?d)) (entries (jget ?d ''peers''))"] by auto
  have "\<exists>t. render_group plain scoped x = Some t" if "x \<in> set (entries (jget ?d ''groups''))" for x
  proof -
    from in_entries_jobj [OF that [unfolded snapshot_fields(1)]] obtain g where x: "x = (g, group_json s g)" by auto
    have "\<exists>t. actor_line y = Some t" if y: "y \<in> set (entries (jget (group_json s g) ''actors''))" for y
    proof -
      from in_entries_jobj [OF y [unfolded group_actors]] assms(2)
      obtain i a where "y = (i, actor_row a)" "ascii (ac_node_id a)" by auto
      with str_to_ascii [of "ac_node_id a" 6] show ?thesis by (auto simp: actor_line_def str_or_def actor_row_node)
    qed
    then obtain l where "all_of (map actor_line (entries (jget (group_json s g) ''actors''))) = Some l"
      using all_of_some [of "map actor_line (entries (jget (group_json s g) ''actors''))"] by auto
    with x show ?thesis by (simp add: render_group_def)
  qed
  then obtain gl where "all_of (map (render_group plain scoped) (entries (jget ?d ''groups''))) = Some gl"
    using all_of_some [of "map (render_group plain scoped) (entries (jget ?d ''groups''))"] by auto
  with ps show ?thesis by (simp add: render_def)
qed

lemma f64_small: "n < 2 ^ 53 \<Longrightarrow> f64_or0 (jnat n) = of_nat n"
  by (simp add: f64_or0_def as_f64_def jnat_def num_f64_def f64_of_nat_def)

lemma group_counts:
  "jget (group_json s g) ''gpus_used'' = jnat (gpus_total s g - gpus_free s g)"
  "jget (group_json s g) ''gpus_total'' = jnat (gpus_total s g)"
  by (simp_all add: group_json_def jget_jobj)

text \<open>The GPU line of a group: its counts as doubles, which are exact below \<open>2\<^sup>5\<^sup>3\<close>.\<close>

lemma gpu_line_group:
  assumes "gpus_total s g < 2 ^ 53"
  shows "gpu_line [(g, group_json s g)] = ''Resources: '' @ show_nat (gpus_total s g - gpus_free s g) @ ''.0/'' @
     show_nat (gpus_total s g) @ ''.0 GPU ('' @ show_nat (gpus_total s g - gpus_free s g) @ ''.0 reserved in placement groups)'' @ line_end"
proof -
  have u: "gpus_total s g - gpus_free s g < 2 ^ 53" using assms by simp
  show ?thesis
    unfolding gpu_line_def group_counts
    using assms u by (simp add: group_counts f64_small add_f64_def round_f64_nat fixed1_nat del: of_nat_diff)
qed

text \<open>A container's name is printed as it is in the scoped form too.\<close>

lemma container_printed_raw: "\<exists>before after. agent_lines plain True (i, a) = before @ str_or ''?'' (jget a ''container'') @ after"
  unfolding agent_lines_def Let_def prod.case append_assoc [symmetric]
  by (rule_tac x = "''  agent '' @ i @ '' node='' @ str_or ''?'' (jget a ''node_ip'') @ '' container=''" in exI) simp

section \<open>A reply off the wire\<close>

lemma cli_reply_written:
  assumes "cd_from_slice cd (to_vec f) = Some f" "f_msg f \<noteq> Unknown" "\<nexists>e c h p. f_msg f = R (Err e c h p)"
    and "length (to_vec f) \<le> MAX_FRAME" "length pl \<le> MAX_FRAME" "healthy r" "bytes_of r = write_frame to_vec f pl @ rest"
  shows "\<exists>r'. cli_reply cd eof r = Inr ((f_msg f, pl), r') \<and> healthy r' \<and> bytes_of r' = rest"
proof -
  obtain r' where "read_frame (cd_from_slice cd) (cd_value_of cd) (cd_bad cd) r = Inr (Some ((f, pl), r'))" "healthy r'" "bytes_of r' = rest"
    using read_frame_bytes [of "cd_from_slice cd" "to_vec f" f pl r rest] assms by (auto simp: write_frame_def Let_def)
  with assms(3) show ?thesis by (auto simp: cli_reply_def split: msg.split reply_msg.split)
qed

lemma cli_request_answered:
  assumes "w_connect w addr = Inr \<lparr>lk_clone = None, lk_hello = None, lk_request = None, lk_reads = r\<rparr>"
    and "\<exists>r1. cli_reply cd ''daemon closed the connection before answering hello'' r = Inr (h, r1)
      \<and> (\<exists>r2. cli_reply cd ''daemon closed the connection before replying'' r1 = Inr (a, r2))"
  shows "cli_request cd w addr m = ([Sends addr (cli_hello (w_var w) (w_rnd w)), Sends addr (frame_new 2 (C m))], Inr a)"
  using assms by (auto simp: cli_request_def)

section \<open>Properties\<close>

text \<open>C20: what \<open>mentatd status --group\<close> prints is what the daemon holds. When the daemon's answer to the hello and to
  the request arrive, cut into whatever chunks, the command writes the two frames, exits with success and prints text
  whose first line has the GPUs in use and the GPUs of the group as the daemon's state counts them, to the digit,
  though the document carries them as doubles. The ids in the state are ASCII, the counts below \<open>2\<^sup>5\<^sup>3\<close>, and the two
  headers within the cap and read back by the deserializer.\<close>

theorem status_shows_group_gpus:
  assumes "w_connect w addr = Inr \<lparr>lk_clone = None, lk_hello = None, lk_request = None, lk_reads = r\<rparr>"
    and "resolve_address (w_var w) (w_head_json w) address = addr"
    and "handle_client_msg E rnd expired client (C (Status (Some g))) t pl0 s = (Reply m pl, s')"
    and "\<forall>f \<in> {frame_new 1 (R (HelloOk pr nid ip ctl head)), frame_new 2 m}. cd_from_slice cd (to_vec f) = Some f \<and> length (to_vec f) \<le> MAX_FRAME"
    and "healthy r" "bytes_of r = write_frame to_vec (frame_new 1 (R (HelloOk pr nid ip ctl head))) [] @ write_frame to_vec (frame_new 2 m) pl @ rest"
    and "gpus_total s g < 2 ^ 53"
    and "\<forall>p \<in> set (hm_values (peers s)). ascii (pe_node_id p)" "\<forall>a \<in> set (hm_values (actors s)). ascii (ac_node_id a)"
  shows "\<exists>text. cmd_status cd w address (Some g) False =
     ([Sends addr (cli_hello (w_var w) (w_rnd w)), Sends addr (frame_new 2 (C (Status (Some g)))),
       Out (''Resources: '' @ show_nat (gpus_total s g - gpus_free s g) @ ''.0/'' @ show_nat (gpus_total s g) @ ''.0 GPU ('' @
         show_nat (gpus_total s g - gpus_free s g) @ ''.0 reserved in placement groups)'' @ line_end @ text)], Exit 0)"
proof -
  let ?h = "frame_new 1 (R (HelloOk pr nid ip ctl head))"
  have m: "m = R (StatusOk (snapshot E s (Some g)))" "pl = []" using assms(3) by (auto simp: handle_client_msg_def)
  obtain r1 where r1: "cli_reply cd ''daemon closed the connection before answering hello'' r = Inr ((f_msg ?h, []), r1)"
      "healthy r1" "bytes_of r1 = write_frame to_vec (frame_new 2 m) pl @ rest"
    using cli_reply_written [of cd to_vec ?h "[]" r "write_frame to_vec (frame_new 2 m) pl @ rest"] assms(4-6)
    by (auto simp: frame_new_def)
  obtain r2 where "cli_reply cd ''daemon closed the connection before replying'' r1 = Inr ((m, pl), r2)"
    using cli_reply_written [of cd to_vec "frame_new 2 m" pl r1 rest] assms(4) r1(2,3) m by (auto simp: frame_new_def)
  with r1(1) have req: "cli_request cd w addr (Status (Some g)) =
      ([Sends addr (cli_hello (w_var w) (w_rnd w)), Sends addr (frame_new 2 (C (Status (Some g))))], Inr (m, pl))"
    by (intro cli_request_answered [OF assms(1)]) blast
  have "entries (jget (snapshot E s (Some g)) ''groups'') = [(g, group_json s g)]"
    by (simp add: snapshot_fields snapshot_groups_scoped jobj_def entries_def as_object_def bt_extend_def)
  then obtain body where "render (cd_shown cd) (cd_plain cd) (snapshot E s (Some g)) True = Some (gpu_line [(g, group_json s g)] @ body)"
    using render_total [OF assms(8,9), of "cd_shown cd" "cd_plain cd" E "Some g" True] by auto
  with req m assms(2) gpu_line_group [OF assms(7)] show ?thesis by (auto simp: cmd_status_def)
qed

text \<open>The agent of a head container and \<open>mentatd status\<close> beside it talk to one daemon. When \<open>start --head\<close> goes on
  to run or to spawn an agent, the address it gives it is the one that \<open>status\<close> with the same flag resolves to in the
  same environment; where the two could differ, \<open>start\<close> refuses. \<open>MENTAT_DAEMON\<close> is unset and there is no head file, and
  the flag and \<open>RAY_ADDRESS\<close> are not made of spaces alone.\<close>

theorem head_agent_and_status_meet:
  assumes "cmd_start w True block address store = (effs, fin)"
    and "fin = AgentRuns grp addr \<or> Spawned [''internal-agent'', ''--group'', grp, ''--daemon'', addr] \<in> set effs"
    and "w_var w ''MENTAT_DAEMON'' = None" "w_head_json w = None"
    and "\<forall>v. address = Some v \<or> w_var w ''RAY_ADDRESS'' = Some v \<longrightarrow> v = [] \<or> trim v \<noteq> []"
  shows "resolve_address (w_var w) (w_head_json w) address = addr \<and> grp = group_from_env (w_var w)"
proof -
  have "trim [] = []" by (simp add: trim_def)
  then have blank: "filled v = not_blank v" if "\<forall>u. v = Some u \<longrightarrow> u = [] \<or> trim u \<noteq> []" for v
    using that by (auto simp: filled_def not_blank_def split: option.split)
  have told: "told_daemon (w_var w) address = filled address"
    using assms(3,5) blank [of address] by (simp add: told_daemon_def not_blank_def)
  have ray: "filled (w_var w ''RAY_ADDRESS'') = not_blank (w_var w ''RAY_ADDRESS'')" using assms(5) by (intro blank) blast
  from assms(1,2,4) told ray show ?thesis
    by (auto simp: cmd_start_def resolve_address_def Let_def split: option.splits if_splits sum.splits)
qed

end
