(* ===== verification/HostProps.thy ===== *)
theory HostProps
  imports Host Agents
begin

text \<open>
  What a process takes from its box: the metadata an agent collects is what the daemon stores, the address in a GID
  is read back, and the keepalive timers add up.
\<close>

section \<open>Metadata\<close>

lemma bt_wf_fold: "bt_wf m \<Longrightarrow> (\<And>x m. bt_wf m \<Longrightarrow> bt_wf (f x m)) \<Longrightarrow> bt_wf (fold f xs m)"
  by (induction xs arbitrary: m) auto

lemma bt_wf_port_meta: "bt_wf out \<Longrightarrow> bt_wf (port_meta file names dir dev port out)"
  by (auto simp: port_meta_def Let_def bt_wf_insert split: option.split)

lemma bt_wf_rdma_ports: "bt_wf (rdma_ports file names cls)"
  by (auto simp: rdma_ports_def Let_def intro!: bt_wf_fold bt_wf_port_meta bt_wf_Nil)

lemma bt_wf_probed: "bt_wf (probed file names fsroot)"
  by (auto simp: probed_def Let_def bt_wf_insert bt_wf_def [of "[_]"] bt_wf_Nil
      intro!: bt_wf_extend bt_wf_fold split: option.split)

lemma bt_wf_collected:
  obtains m where "bt_wf m" "meta_collect shown from_str read names environ = fst (bounded m)"
proof
  let ?file = "\<lambda>p. case read p of Inr t \<Rightarrow> Some t | Inl _ \<Rightarrow> None"
  let ?m2 = "case map_of environ ''MENTAT_META_FILE'' of
      Some p \<Rightarrow> if p = [] then probed ?file names ''/''
        else (case meta_from_file shown from_str (read p) of Inr m \<Rightarrow> bt_extend (probed ?file names ''/'') m | Inl _ \<Rightarrow> probed ?file names ''/'')
    | None \<Rightarrow> probed ?file names ''/''"
  have "bt_wf ?m2" using bt_wf_probed by (auto intro!: bt_wf_extend split: option.split sum.split)
  then show "bt_wf (bt_extend ?m2 (meta_from_env environ))" by (rule bt_wf_extend)
  show "meta_collect shown from_str read names environ = fst (bounded (bt_extend ?m2 (meta_from_env environ)))"
    by (simp add: meta_collect_def Let_def)
qed

text \<open>The metadata an agent collects reaches the daemon's table whole. Whatever the box's files, the metadata file and
  the environment hold, what the agent collects is within the limits, and the daemon, which applies the limits again,
  drops nothing of it: registering with it is registering with exactly that table.\<close>

theorem collected_meta_kept:
  "within_limits (meta_collect shown from_str read names environ)
   \<and> fst (bounded (meta_collect shown from_str read names environ)) = meta_collect shown from_str read names environ"
proof -
  obtain m where m: "bt_wf m" "meta_collect shown from_str read names environ = fst (bounded m)" by (rule bt_wf_collected)
  show ?thesis unfolding m(2) using bounded_limits [OF m(1)] by blast
qed

section \<open>GIDs\<close>

definition hex4 :: "nat \<Rightarrow> nat \<Rightarrow> string" where
  "hex4 a b = [digit_char (a div 16), digit_char (a mod 16), digit_char (b div 16), digit_char (b mod 16)]"

lemma digit_char_plain: "d < 16 \<Longrightarrow> digit_char d \<noteq> CHR ''+'' \<and> digit_char d \<noteq> CHR '':''"
  using digit_char_not [of d] by (cases "digit_char d = CHR ''+''"; cases "digit_char d = CHR '':''") simp_all

lemma parse_hex4:
  assumes "a < 256" "b < 256"
  shows "parse_uint 65535 16 (hex4 a b) = Some (a * 256 + b)"
proof -
  have d: "a div 16 < 16" "b div 16 < 16" "a mod 16 < 16" "b mod 16 < 16" using assms by auto
  have "((a div 16 * 16 + a mod 16) * 16 + b div 16) * 16 + b mod 16 = a * 256 + b" by simp
  then show ?thesis using assms d digit_char_plain [OF d(1)] by (simp add: hex4_def parse_uint_def to_digit_digit_char)
qed

text \<open>The GID that sysfs writes for an IPv4 address names that address.\<close>

definition gid_of :: "nat \<Rightarrow> nat \<Rightarrow> nat \<Rightarrow> nat \<Rightarrow> string" where
  "gid_of a b c d = join '':'' ([''0000'', ''0000'', ''0000'', ''0000'', ''0000'', ''ffff'', hex4 a b, hex4 c d])"

theorem gid_names_address:
  assumes "a < 256" "b < 256" "c < 256" "d < 256"
  shows "ipv4_of_gid (gid_of a b c d) = Some (show_ipv4 a b c d)"
proof -
  have h: "digit_char (k div 16) \<noteq> CHR '':'' \<and> digit_char (k mod 16) \<noteq> CHR '':''" if "k < 256" for k
    using digit_char_plain [of "k div 16"] digit_char_plain [of "k mod 16"] that by auto
  have "split_on (CHR '':'') (gid_of a b c d) =
      [''0000'', ''0000'', ''0000'', ''0000'', ''0000'', ''ffff'', hex4 a b, hex4 c d]"
    using assms h [of a] h [of b] h [of c] h [of d] by (simp add: gid_of_def hex4_def)
  moreover have "(a * 256 + b) div 256 = a" "(a * 256 + b) mod 256 = b" "(c * 256 + d) div 256 = c" "(c * 256 + d) mod 256 = d"
    using assms by auto
  ultimately show ?thesis using assms by (simp add: ipv4_of_gid_def parse_hex4 show_ipv4_def)
qed

section \<open>Keepalive\<close>

text \<open>The idle time and the probes add up to the configured seconds, as long as these fit the system's integer; above
  that the cast turns the sum negative and the connection is given up after four seconds.\<close>

theorem keepalive_adds_up:
  assumes "5000 \<le> ms" "ms div 1000 < 2 ^ 31" "keepalive ms = (idle, intvl, cnt)"
  shows "idle + cnt * intvl = int (ms div 1000) \<and> 1 \<le> idle \<and> 1 \<le> intvl"
proof -
  let ?t = "ms div 1000"
  have t: "5 \<le> ?t" using assms(1) by simp
  then have "as_i32 (max ?t 5) = int ?t" using assms(2) by (simp add: as_i32_def Let_def max_def)
  moreover have "1 \<le> int ?t div 5" "1 \<le> int ?t - 3 * (int ?t div 5)" using t by linarith+
  ultimately have "keepalive ms = (int ?t - 3 * (int ?t div 5), int ?t div 5, 3)" by (simp add: keepalive_def Let_def max_def)
  with \<open>1 \<le> int ?t div 5\<close> \<open>1 \<le> int ?t - 3 * (int ?t div 5)\<close> assms(3) show ?thesis by simp
qed

theorem keepalive_wraps: "keepalive 3000000000000 = (1, 1, 3)"
  by (simp add: keepalive_def as_i32_def)

end
