(* ===== verification/CliExamples.thy ===== *)
theory CliExamples
  imports CliProps HostProps Examples
begin

text \<open>The command line's properties at concrete inputs: a status request to the small deployment, and an agent's start.\<close>

definition hello_answer :: frame where
  "hello_answer = frame_new 1 (R (HelloOk PROTO ''n1'' ''10.0.0.1'' ''10.0.0.1:6379'' ''n1''))"

definition status_answer :: frame where
  "status_answer = frame_new 2 (R (StatusOk (snapshot quiet lab (Some ''g''))))"

definition tagged :: "frame \<Rightarrow> payload" where
  "tagged f = (if f = hello_answer then [1] else [2])"

definition small_codec :: codec where
  "small_codec = \<lparr>cd_shown = (\<lambda>_. ''true''), cd_plain = (\<lambda>_. True),
     cd_from_slice = (\<lambda>b. if b = [1] then Some hello_answer else if b = [2] then Some status_answer else None),
     cd_value_of = (\<lambda>_. None), cd_bad = (\<lambda>_. []), cd_io = (\<lambda>_. []), cd_debug = (\<lambda>_. [])\<rparr>"

text \<open>The replies arrive in three pieces, with a call interrupted between them.\<close>

definition small_reads :: reader where
  "small_reads = [Data [1, 0, 0], Interrupted, Data [0, 0, 0, 0, 0, 1, 1, 0], Data [0, 0, 0, 0, 0, 0, 2]]"

definition small_world :: world where
  "small_world = \<lparr>w_args = [''mentatd'', ''status''], w_var = (\<lambda>_. None), w_exe_dir = None, w_is_file = (\<lambda>_. False),
     w_exec = (\<lambda>_ _. None), w_clap = (\<lambda>_. Inl 2), w_route = None, w_bind = (\<lambda>_. None), w_host = NotRun [], w_boot = ''b'',
     w_pid = 1, w_rnd = ''c1'', w_current_exe = True, w_spawn = (\<lambda>_. Inr 7), w_head_json = None,
     w_connect = (\<lambda>_. Inr \<lparr>lk_clone = None, lk_hello = None, lk_request = None, lk_reads = small_reads\<rparr>)\<rparr>"

lemma lab_counts: "gpus_total lab ''g'' = 4" "gpus_free lab ''g'' = 4"
  by code_simp+

theorem status_shows_group_gpus_witness:
  "\<exists>text. cmd_status small_codec small_world None (Some ''g'') False =
     ([Sends LOCAL (cli_hello (\<lambda>_. None) ''c1''), Sends LOCAL (frame_new 2 (C (Status (Some ''g'')))),
       Out (''Resources: 0.0/4.0 GPU (0.0 reserved in placement groups)'' @ line_end @ text)], Exit 0)"
proof -
  have ne: "status_answer \<noteq> hello_answer" by (simp add: status_answer_def hello_answer_def frame_new_def)
  have "\<exists>text. cmd_status small_codec small_world None (Some ''g'') False =
     ([Sends LOCAL (cli_hello (w_var small_world) (w_rnd small_world)), Sends LOCAL (frame_new 2 (C (Status (Some ''g'')))),
       Out (''Resources: '' @ show_nat (gpus_total lab ''g'' - gpus_free lab ''g'') @ ''.0/'' @ show_nat (gpus_total lab ''g'') @ ''.0 GPU ('' @
         show_nat (gpus_total lab ''g'' - gpus_free lab ''g'') @ ''.0 reserved in placement groups)'' @ line_end @ text)], Exit 0)"
  proof (rule status_shows_group_gpus [where r = small_reads and E = quiet and rnd = "[]" and expired = False and client = "''c1''"
        and t = "[]" and ?pl0.0 = "[]" and m = "R (StatusOk (snapshot quiet lab (Some ''g'')))" and pl = "[]" and s' = lab
        and to_vec = tagged and rest = "[]" and pr = PROTO and nid = "''n1''" and ip = "''10.0.0.1''" and ctl = "''10.0.0.1:6379''" and head = "''n1''"],
      fold hello_answer_def status_answer_def)
    show "w_connect small_world LOCAL = Inr \<lparr>lk_clone = None, lk_hello = None, lk_request = None, lk_reads = small_reads\<rparr>"
      by (simp add: small_world_def)
    show "resolve_address (w_var small_world) (w_head_json small_world) None = LOCAL"
      by (simp add: small_world_def resolve_address_def filled_def)
    show "handle_client_msg quiet [] False ''c1'' (C (Status (Some ''g''))) [] [] lab = (Reply (R (StatusOk (snapshot quiet lab (Some ''g'')))) [], lab)"
      by (simp add: handle_client_msg_def)
    show "\<forall>f \<in> {hello_answer, status_answer}. cd_from_slice small_codec (tagged f) = Some f \<and> length (tagged f) \<le> MAX_FRAME"
      using ne by (simp add: small_codec_def tagged_def MAX_FRAME_def)
    show "healthy small_reads" by (simp add: small_reads_def)
    show "bytes_of small_reads = write_frame tagged hello_answer [] @ write_frame tagged status_answer [] @ []"
      using ne by (simp add: small_reads_def write_frame_def tagged_def u32_le_def)
    show "gpus_total lab ''g'' < 2 ^ 53" by (simp add: lab_counts)
    show "\<forall>p \<in> set (hm_values (peers lab)). ascii (pe_node_id p)" "\<forall>a \<in> set (hm_values (actors lab)). ascii (ac_node_id a)"
      by (simp_all add: lab_def empty_box_def new_state_def hm_values_def)
  qed
  then show ?thesis
    by (simp add: small_world_def lab_counts show_nat.simps digit_char_def char_of_def bit_simps)
qed

theorem head_agent_and_status_meet_witness:
  "cmd_start small_world True True None None = ([], AgentRuns ''default'' LOCAL)
   \<and> resolve_address (w_var small_world) (w_head_json small_world) None = LOCAL"
proof -
  have c: "cmd_start small_world True True None None = ([], AgentRuns ''default'' LOCAL)"
    by (simp add: cmd_start_def small_world_def told_daemon_def not_blank_def group_from_env_def group_env_def filled_def)
  from head_agent_and_status_meet [OF c, of "''default''" LOCAL] c show ?thesis by (simp add: small_world_def)
qed

theorem keepalive_adds_up_witness: "fst (keepalive 75000) + 3 * 15 = 75 \<and> 1 \<le> fst (keepalive 75000)"
proof -
  have k: "keepalive 75000 = (30, 15, 3)" by (simp add: keepalive_def as_i32_def)
  from keepalive_adds_up [OF _ _ k] k show ?thesis by simp
qed

end
