(* ===== verification/MeshRun.thy ===== *)
theory MeshRun
  imports Announce Host Doubles
begin

text \<open>
  The threads of the mesh around the holds of \<open>Mesh\<close> and \<open>Announce\<close> (\<open>rust/mentatd/src/mesh.rs\<close>, \<open>announce.rs\<close> and the
  relay of \<open>daemon.rs\<close>): a connection to a peer from its target to its end, a probe from its socket calls to the
  cell it writes, a round of the prober, the start of the mesh, the announcing loop, and the relay of a connection to
  the head. System calls are arguments with their outcomes, an error being its text; the reader of a frame is what
  \<^term>\<open>read_frame\<close> gives, as \<^typ>\<open>msg option\<close> or the text of its error.
\<close>

section \<open>Dialling a peer\<close>

text \<open>\<open>to_socket_addrs()?.next()\<close>.\<close>

definition first_addr :: "(string \<Rightarrow> string + string list) \<Rightarrow> string \<Rightarrow> string + string" where
  "first_addr resolve target = (case resolve target of
     Inl e \<Rightarrow> Inl e | Inr [] \<Rightarrow> Inl ''no address'' | Inr (a # _) \<Rightarrow> Inr a)"

definition dial_host :: "string \<Rightarrow> string" where
  "dial_host seed = (case rsplit_once (CHR '':'') seed of Some (h, _) \<Rightarrow> h | None \<Rightarrow> seed)"

text \<open>Where \<open>try_connect\<close> connects to: the address behind a pretend one, unless its cable is cut.\<close>

definition dial_address :: "test_net option \<Rightarrow> string list \<Rightarrow> string \<Rightarrow> string + string" where
  "dial_address net locals seed = (case net of
     None \<Rightarrow> Inr seed
   | Some n \<Rightarrow> (if \<not> link_up n locals (dial_host seed) then Inl (dial_host seed @ '' is cut (MENTAT_TEST_NET)'')
       else Inr (case real_addr n (dial_host seed) of Some r \<Rightarrow> r | None \<Rightarrow> seed)))"

text \<open>A link to a peer: how its hello is written, what answers it, and the messages that follow until it ends, each
  with the environment it is handled in.\<close>

record peer_link =
  pk_sock :: sock
  pk_setup :: "string option"
  pk_send :: "string option"
  pk_reply :: "string + msg option"
  pk_msgs :: "(env \<times> msg) list"
  pk_end :: env

text \<open>\<open>peer_loop\<close>, and what follows it.\<close>

definition peer_loop :: "string \<Rightarrow> peer_link \<Rightarrow> state \<Rightarrow> state" where
  "peer_loop peer l s = peer_lost (pk_end l) (pk_sock l) peer (fold (\<lambda>(E, m). handle_peer_msg E peer m) (pk_msgs l) s)"

definition try_connect ::
  "env \<Rightarrow> test_net option \<Rightarrow> (string \<Rightarrow> string + string list) \<Rightarrow> (string \<Rightarrow> string + peer_link) \<Rightarrow> string \<Rightarrow> state
     \<Rightarrow> (string + string option) \<times> state" where
  "try_connect E net resolve tcp seed s =
     (case (case dial_address net (e_local_addrs E) seed of Inl e \<Rightarrow> Inl e | Inr d \<Rightarrow>
           (case first_addr resolve d of Inl e \<Rightarrow> Inl e | Inr a \<Rightarrow> tcp a)) of
        Inl e \<Rightarrow> (Inl e, s)
      | Inr l \<Rightarrow>
          (case pk_setup l of Some e \<Rightarrow> (Inl e, s) | None \<Rightarrow>
          (case pk_send l of Some e \<Rightarrow> (Inl e, s) | None \<Rightarrow>
          (case pk_reply l of
             Inl e \<Rightarrow> (Inl e, s)
           | Inr None \<Rightarrow> (Inl ''peer closed the connection at hello'', s)
           | Inr (Some m) \<Rightarrow>
               (case hello_reply E (pk_sock l) seed m s of
                  (Inl e, s1) \<Rightarrow> (Inl e, s1)
                | (Inr None, s1) \<Rightarrow> (Inr None, s1)
                | (Inr (Some (peer, took)), s1) \<Rightarrow> (Inr (Some peer), if took then peer_loop peer l s1 else s1))))))"

text \<open>The targets of a round of \<open>connector\<close>, tried in order up to the first that is reached: the last error, if
  every one failed, and the node id learned.\<close>

fun dial_each :: "(string \<Rightarrow> state \<Rightarrow> (string + string option) \<times> state) \<Rightarrow> string list \<Rightarrow> string option \<times> string option \<Rightarrow> state
    \<Rightarrow> (string option \<times> string option) \<times> state" where
  "dial_each f [] r s = (r, s)"
| "dial_each f (t # ts) (err, known) s =
     (case f t s of
        (Inr (Some i), s') \<Rightarrow> ((None, Some i), s')
      | (Inr None, s') \<Rightarrow> ((None, known), s')
      | (Inl e, s') \<Rightarrow> dial_each f ts (Some e, known) s')"

definition names_self :: "(string \<Rightarrow> string + (string \<times> nat) list) \<Rightarrow> string list \<Rightarrow> nat \<Rightarrow> string \<Rightarrow> bool" where
  "names_self resolve mine cport seed =
     (case resolve seed of Inl _ \<Rightarrow> False
      | Inr as \<Rightarrow> \<exists>(ip, port) \<in> set as. port = cport \<and> (is_loopback ip \<or> ip \<in> set mine))"

text \<open>\<open>start\<close>: whether the elector waits for peers, and the state with every seed being dialled.\<close>

definition mesh_start :: "(string \<Rightarrow> string + (string \<times> nat) list) \<Rightarrow> string list \<Rightarrow> nat \<Rightarrow> nat \<Rightarrow> string list \<Rightarrow> state \<Rightarrow> bool \<times> state" where
  "mesh_start resolve mine announce_port cport seeds s =
     ((\<exists>x \<in> set seeds. \<not> names_self resolve mine cport x) \<or> announce_port \<noteq> 0,
      fold (\<lambda>t s. snd (dial t s)) seeds s)"

section \<open>A probe\<close>

text \<open>The socket calls of \<open>connect_from\<close>, in the order of the code.\<close>

datatype poll = PollTimeout | PollInterrupted | PollFailed string | PollReady

datatype connect_call = Connected | InProgress | ConnectFailed string

record calls =
  ca_socket :: "string option"
  ca_bind_iface :: bool
  ca_bind :: "string option"
  ca_nonblocking :: "string option"
  ca_connect :: connect_call
  ca_polls :: "poll list"
  ca_so_error :: "string option"
  ca_blocking :: "string option"

text \<open>The wait for the connect: \<open>None\<close> while no poll has ended it.\<close>

fun poll_loop :: "nat \<Rightarrow> poll list \<Rightarrow> (string option) option" where
  "poll_loop timeout [] = None"
| "poll_loop timeout (p # ps) = (case p of
     PollTimeout \<Rightarrow> Some (Some (''connect timed out after '' @ show_nat timeout @ '' ms''))
   | PollInterrupted \<Rightarrow> poll_loop timeout ps
   | PollFailed e \<Rightarrow> Some (Some e)
   | PollReady \<Rightarrow> Some None)"

definition bind_iface :: "bool \<Rightarrow> string \<Rightarrow> string list \<Rightarrow> bool \<times> string list" where
  "bind_iface bound name refused = (if \<not> bound \<and> name \<notin> set refused then (True, bs_insert name refused) else (False, refused))"

text \<open>\<open>Some (Inr ())\<close> is a connection, \<open>Some (Inl e)\<close> an error, \<open>None\<close> a wait that goes on.\<close>

definition connect_from :: "string \<Rightarrow> string \<Rightarrow> nat \<Rightarrow> calls \<Rightarrow> (string + unit) option" where
  "connect_from local remote timeout c =
     (if \<not> is_ipv4 local then Some (Inl (local @ '' is not an IPv4 address''))
      else if \<not> is_ipv4 remote then Some (Inl (remote @ '' is not an IPv4 address''))
      else case ca_socket c of Some e \<Rightarrow> Some (Inl e) | None \<Rightarrow>
          (case ca_bind c of Some e \<Rightarrow> Some (Inl e) | None \<Rightarrow>
          (case ca_nonblocking c of Some e \<Rightarrow> Some (Inl e) | None \<Rightarrow>
            (let finish = (case ca_blocking c of Some e \<Rightarrow> Inl e | None \<Rightarrow> Inr ())
             in case ca_connect c of
                  ConnectFailed e \<Rightarrow> Some (Inl e)
                | Connected \<Rightarrow> Some finish
                | InProgress \<Rightarrow>
                    (case poll_loop timeout (ca_polls c) of
                       None \<Rightarrow> None
                     | Some (Some e) \<Rightarrow> Some (Inl e)
                     | Some None \<Rightarrow> Some (case ca_so_error c of Some e \<Rightarrow> Inl e | None \<Rightarrow> finish))))))"

text \<open>A probe's connection once it is open: the time limits and the handle, the write, and the reply with the
  milliseconds since the start.\<close>

record probe_link =
  pl_setup :: "string option"
  pl_send :: "string option"
  pl_reply :: "string + msg option"
  pl_ms :: nat

definition probe_stream :: "env \<Rightarrow> string \<Rightarrow> probe_link \<Rightarrow> string + nat" where
  "probe_stream E peer l =
     (case pl_setup l of Some e \<Rightarrow> Inl e | None \<Rightarrow>
     (case pl_send l of Some e \<Rightarrow> Inl e | None \<Rightarrow>
     (case pl_reply l of Inl e \<Rightarrow> Inl e | Inr m \<Rightarrow> probe_reply E peer (pl_ms l) m)))"

text \<open>\<open>probe_pair\<close>: \<open>opened\<close> is how \<^term>\<open>connect_from\<close> ended, and \<open>tcp\<close> a connection in the pretend network.\<close>

definition probe_pair ::
  "env \<Rightarrow> test_net option \<Rightarrow> (string \<Rightarrow> string + string list) \<Rightarrow> (string \<Rightarrow> string + probe_link) \<Rightarrow> (string \<Rightarrow> string \<Rightarrow> string + probe_link)
     \<Rightarrow> string \<Rightarrow> string \<Rightarrow> string \<Rightarrow> nat \<Rightarrow> string + nat" where
  "probe_pair E net resolve tcp opened peer local remote port =
     (case (case net of
          None \<Rightarrow> opened local remote
        | Some n \<Rightarrow>
            (if \<not> reachable n local remote then Inl (local @ '' -> '' @ remote @ '' is cut (MENTAT_TEST_NET)'')
             else (case first_addr resolve (case real_addr n remote of Some r \<Rightarrow> r | None \<Rightarrow> host_port remote port) of
                 Inl e \<Rightarrow> Inl e | Inr a \<Rightarrow> tcp a))) of
        Inl e \<Rightarrow> Inl e
      | Inr l \<Rightarrow> probe_stream E peer l)"

text \<open>The MAC of the pair: only a bound probe that was answered looks at the ARP table.\<close>

definition probe_mac :: "string option \<Rightarrow> str_map \<Rightarrow> string \<Rightarrow> string \<Rightarrow> string + nat \<Rightarrow> string option" where
  "probe_mac arp bind_ifaces local remote r = (case (r, map_of bind_ifaces local) of
     (Inr _, Some dev) \<Rightarrow> Option.bind arp (\<lambda>tab. arp_entry tab remote dev)
   | _ \<Rightarrow> None)"

text \<open>\<open>probe_peer\<close>: every pair in turn, then the prune. \<open>probe\<close> gives for a pair the environment its result is stored in,
  the result and the ARP table then.\<close>

type_synonym pair_result = "string \<Rightarrow> string \<Rightarrow> env \<times> (string + nat) \<times> string option"

definition probe_one :: "pair_result \<Rightarrow> str_map \<Rightarrow> string \<Rightarrow> string \<times> string \<Rightarrow> state \<Rightarrow> state" where
  "probe_one probe bind_ifaces peer lr s = (case lr of (local, remote) \<Rightarrow>
     (case probe local remote of (E, r, arp) \<Rightarrow>
        probe_done E peer local remote r (probe_mac arp bind_ifaces local remote r) s))"

definition probe_peer :: "pair_result \<Rightarrow> string list \<Rightarrow> str_map \<Rightarrow> string \<Rightarrow> string list \<Rightarrow> state \<Rightarrow> state" where
  "probe_peer probe locals bind_ifaces peer remotes s =
     probe_end peer locals remotes bind_ifaces
       (fold (probe_one probe bind_ifaces peer) (List.product locals remotes) s)"

text \<open>A round of \<open>prober\<close>, the peers' threads one after the other; each works on its own row.\<close>

definition mesh_probe_round :: "(string \<Rightarrow> nat \<Rightarrow> pair_result) \<Rightarrow> env \<Rightarrow> state \<Rightarrow> state" where
  "mesh_probe_round probe E s =
     fold (\<lambda>(peer, port, remotes).
       probe_peer (probe peer port) (e_local_addrs E) (fabric_ifaces (e_local_ifaces E) (e_local_tags E)) peer remotes)
     (probe_targets s) s"

text \<open>The pauses of the loops, in milliseconds.\<close>

definition elector_tick :: "cfg \<Rightarrow> nat" where
  "elector_tick c = max 100 (min 1000 (election_hold_down_ms c div 5))"

definition status_interval :: "cfg \<Rightarrow> nat" where
  "status_interval c = max 50 (peer_status_interval_ms c)"

definition prober_pause :: "cfg \<Rightarrow> nat \<times> nat" where
  "prober_pause c = (max 200 (probe_interval_ms c), max 50 (probe_timeout_ms c))"

section \<open>Announcing\<close>

definition DEFAULT_PORT :: nat where
  "DEFAULT_PORT = 6382"

definition announce_port :: "vars \<Rightarrow> nat" where
  "announce_port var = (case Option.bind (var ''MENTAT_ANNOUNCE_PORT'') (\<lambda>v. parse_u16 (trim v)) of Some p \<Rightarrow> p | None \<Rightarrow> DEFAULT_PORT)"

definition announce_extra :: "vars \<Rightarrow> nat \<Rightarrow> string list" where
  "announce_extra var port =
     map (\<lambda>x. if CHR '':'' \<in> set x then x else x @ '':'' @ show_nat port)
       (filter (\<lambda>x. x \<noteq> []) (map trim (split_on (CHR '','') (case var ''MENTAT_ANNOUNCE_ADDR'' of Some v \<Rightarrow> v | None \<Rightarrow> []))))"

text \<open>The pause from the environment, in nanoseconds, or the panic of a duration that does not fit.\<close>

definition announce_interval :: "vars \<Rightarrow> nat option" where
  "announce_interval var = (case Option.bind (var ''MENTAT_ANNOUNCE_INTERVAL_S'') (\<lambda>v. parse_f64 (trim v)) of
     Some v \<Rightarrow> if f64_pos v then from_secs_f64 v else Some (5 * NANOS) | None \<Rightarrow> Some (5 * NANOS))"

text \<open>\<open>start\<close>: the outcome is to stay silent and why, to end the process, or to announce and listen.\<close>

datatype announce_mode = Silent string | Ends string | StartPanics | Announces nat nat "string list" payload

definition announce_start :: "vars \<Rightarrow> (string \<Rightarrow> string + payload) \<Rightarrow> announce_mode" where
  "announce_start var read =
     (if announce_port var = 0 then Silent ''MENTAT_ANNOUNCE_PORT=0''
      else case announce_interval var of
          None \<Rightarrow> StartPanics
        | Some iv \<Rightarrow>
            (case secret_load var read of
               Inl why \<Rightarrow> Ends why
             | Inr None \<Rightarrow> Silent ''no MENTAT_SECRET or MENTAT_SECRET_FILE''
             | Inr (Some k) \<Rightarrow> Announces (announce_port var) iv (announce_extra var (announce_port var)) k))"

text \<open>One round of \<open>run\<close>: the datagrams sent, and the next sequence number.\<close>

definition announce_sends ::
  "(payload \<Rightarrow> payload \<Rightarrow> payload) \<Rightarrow> (json \<Rightarrow> string) \<Rightarrow> env \<Rightarrow> string list \<Rightarrow> string list \<Rightarrow> string \<Rightarrow> nat \<Rightarrow> payload \<Rightarrow> nat \<Rightarrow> state
     \<Rightarrow> (string \<times> string) list \<times> nat" where
  "announce_sends hmac to_string E targets extra universe now_s k sq s =
     (case announce_round hmac to_string E s universe sq now_s k of
        Some p \<Rightarrow> map (\<lambda>t. (t, p)) (targets @ extra)
      | None \<Rightarrow> [], u64_add sq 1)"

text \<open>\<open>local_addr_macs\<close>, the files below \<open>/sys\<close> being an argument.\<close>

definition local_addr_macs :: "(string \<Rightarrow> string option) \<Rightarrow> str_map \<Rightarrow> str_map" where
  "local_addr_macs file ifaces = List.map_filter (\<lambda>(addr, iface).
     case file (''/sys/class/net/'' @ iface @ ''/address'') of
       None \<Rightarrow> None
     | Some m \<Rightarrow> (let mac = to_ascii_lowercase (trim m) in if mac = [] then None else Some (addr, mac))) ifaces"

section \<open>The relay\<close>

text \<open>\<open>relay\<close>: the first address of the head that connects, what is sent on it, and whether the relay counts.
  \<open>buffered\<close> is what the reader holds after the first frame, \<open>sends\<close> whether the two writes succeed.\<close>

definition relay_target :: "test_net option \<Rightarrow> string \<Rightarrow> string" where
  "relay_target net h = (case net of
     None \<Rightarrow> h | Some n \<Rightarrow> (case real_addr n (dial_host h) of Some r \<Rightarrow> r | None \<Rightarrow> h))"

definition relay ::
  "test_net option \<Rightarrow> (string \<Rightarrow> string + string list) \<Rightarrow> (string \<Rightarrow> bool) \<Rightarrow> bool \<Rightarrow> (frame \<Rightarrow> payload) \<Rightarrow> string list \<Rightarrow> frame \<Rightarrow> payload \<Rightarrow> payload
     \<Rightarrow> state \<Rightarrow> (string \<times> payload) option \<times> state" where
  "relay net resolve connects sends to_vec head first pl buffered s =
     (case List.map_filter (\<lambda>h. case first_addr resolve (relay_target net h) of Inl _ \<Rightarrow> None | Inr a \<Rightarrow> if connects a then Some a else None) head of
        [] \<Rightarrow> (None, s)
      | a # _ \<Rightarrow>
          (if \<not> sends then (None, s)
           else (Some (a, write_frame to_vec first pl @ buffered),
                 s\<lparr>counters := (counters s)\<lparr>ct_relayed := u64_add (ct_relayed (counters s)) 1\<rparr>\<rparr>)))"

end
