(* ===== verification/MeshRunProps.thy ===== *)
theory MeshRunProps
  imports MeshRun
begin

text \<open>
  The mesh's threads: the table after a round of probes, an announcement from the daemon that sends it to the one that
  dials, a hello relayed to the head, and the wait of a probe's connect.
\<close>

section \<open>The probe table\<close>

definition cell_of :: "state \<Rightarrow> string \<Rightarrow> string \<Rightarrow> string \<Rightarrow> pair_probe option" where
  "cell_of s peer local remote = Option.bind (map_of (peers s) peer) (\<lambda>p.
     Option.bind (map_of (pe_probe_pairs p) local) (\<lambda>row. map_of row remote))"

lemma cell_probe_done:
  assumes "map_of (peers s) peer = Some p"
  shows "cell_of (probe_done E peer l r res mac s) peer l' r' =
      (if l' = l \<and> r' = r then Some (probe_cell E res mac (map_of (pe_addr_macs p) r)
         (case cell_of s peer l r of None \<Rightarrow> no_probe | Some c \<Rightarrow> c)) else cell_of s peer l' r')"
  using assms
  by (auto simp: cell_of_def probe_done_def store_probe_def Let_def map_of_hm_modify map_of_bt_insert_gen
      split: option.split)

lemma has_probe_done: "hm_has (peers s) peer \<Longrightarrow> hm_has (peers (probe_done E peer l r res mac s)) peer"
  by (auto simp: hm_has_def probe_done_def map_of_hm_modify)

lemma probe_cell_ok: "pp_ok (probe_cell E res mac own c) \<longleftrightarrow> (\<exists>ms. res = Inr ms)"
  by (auto simp: probe_cell_def Let_def split: sum.split)

text \<open>After a list of pairs, the cell of each has the result of its probe, and every other is as it was.\<close>

lemma cell_probe_all:
  assumes "hm_has (peers s) peer"
  shows "hm_has (peers (fold (probe_one probe bi peer) ps s)) peer
    \<and> (if (l, r) \<in> set ps then \<exists>c. cell_of (fold (probe_one probe bi peer) ps s) peer l r = Some c
          \<and> (pp_ok c \<longleftrightarrow> (\<exists>ms. fst (snd (probe l r)) = Inr ms))
       else cell_of (fold (probe_one probe bi peer) ps s) peer l r = cell_of s peer l r)"
  using assms
proof (induction ps arbitrary: s)
  case (Cons lr ps)
  obtain l1 r1 where lr: "lr = (l1, r1)" by force
  obtain E res arp where pr: "probe l1 r1 = (E, res, arp)" by (metis prod_cases3)
  let ?s = "probe_one probe bi peer lr s"
  have s: "?s = probe_done E peer l1 r1 res (probe_mac arp bi l1 r1 res) s" by (simp add: probe_one_def lr pr)
  have h: "hm_has (peers ?s) peer" unfolding s by (rule has_probe_done [OF Cons.prems])
  obtain own c where c: "cell_of ?s peer l r =
      (if l = l1 \<and> r = r1 then Some (probe_cell E res (probe_mac arp bi l1 r1 res) own c) else cell_of s peer l r)"
    unfolding s using cell_probe_done Cons.prems by (metis hm_has_def not_None_eq)
  show ?case
  proof (cases "(l, r) \<in> set ps")
    case True
    with Cons.IH [OF h] show ?thesis by simp
  next
    case False
    with Cons.IH [OF h] c show ?thesis using pr by (auto simp: lr probe_cell_ok)
  qed
qed simp

lemma cell_probe_end:
  "cell_of (probe_end peer locals remotes bi s) peer l r = (if l \<in> set locals \<and> r \<in> set remotes then cell_of s peer l r else None)"
  by (auto simp: cell_of_def probe_end_def Let_def prune_pairs_def map_of_hm_modify map_of_hm_map map_of_hm_retain_key
      split: option.split bind_split)

lemma probe_answered:
  "(\<exists>ms. probe_pair E None resolve tcp opened peer l r port = Inr ms) \<longleftrightarrow>
   (\<exists>k pr. opened l r = Inr k \<and> pl_setup k = None \<and> pl_send k = None \<and> pl_reply k = Inr (Some (P (ProbeOk pr peer))))"
  by (auto simp: probe_pair_def probe_stream_def probe_reply_def
      split: sum.splits option.splits msg.splits peer_msg.splits if_splits)

text \<open>C12: after a round of probes the table of a peer is that round's answers and nothing else. It has a cell for
  exactly the pairs of an address this node announces and an address the peer announces, and the cell is marked as
  reached exactly when the connection from the one to the other was opened and the node that answered there was that
  peer: not an older round's success, and not another node behind the same address.\<close>

theorem probe_table_is_this_round:
  assumes "hm_has (peers s) peer"
    and "\<And>l r. fst (snd (probe l r)) = probe_pair (fst (probe l r)) None resolve tcp opened peer l r port"
  shows "case cell_of (probe_peer probe locals bi peer remotes s) peer l r of
      None \<Rightarrow> \<not> (l \<in> set locals \<and> r \<in> set remotes)
    | Some c \<Rightarrow> l \<in> set locals \<and> r \<in> set remotes
        \<and> (pp_ok c \<longleftrightarrow> (\<exists>k pr. opened l r = Inr k \<and> pl_setup k = None \<and> pl_send k = None
              \<and> pl_reply k = Inr (Some (P (ProbeOk pr peer)))))"
proof -
  have m: "(l, r) \<in> set (List.product locals remotes) \<longleftrightarrow> l \<in> set locals \<and> r \<in> set remotes" by simp
  show ?thesis
    using cell_probe_all [OF assms(1), of probe bi "List.product locals remotes" l r] probe_answered [of "fst (probe l r)"] assms(2) [of l r]
    unfolding probe_peer_def cell_probe_end m by (cases "l \<in> set locals \<and> r \<in> set remotes") auto
qed

section \<open>An announcement\<close>

lemma announced_fields:
  "jget (announcement E s u sq t) ''proto'' = JStr PROTO"
  "jget (announcement E s u sq t) ''node_id'' = JStr (node_id s)"
  "jget (announcement E s u sq t) ''control'' = JStr (control_addr s)"
  "jget (announcement E s u sq t) ''boot_id'' = JStr (boot_id s)"
  "jget (announcement E s u sq t) ''seq'' = jnat sq"
  "jget (announcement E s u sq t) ''t'' = jnat t"
  "jget_opt (announcement E s u sq t) ''universe'' = Some (JStr u)"
  by (simp_all add: announcement_def jget_jobj) (simp add: jget_opt_def jobj_def bt_extend_def)

text \<open>C14: an announcement is dialled by those who hold the key. The datagram a daemon sends in a round, heard by another
  daemon of its universe within the accepted clock skew, makes it dial the announced control address, if it has the
  same key, has not seen this or a later announcement of that boot, and has no live link to the node; a daemon with a
  key that gives another code drops it. The reader is assumed to read back this envelope, and the code to be bytes.\<close>

theorem announcement_is_dialled:
  assumes "announce_round hmac to_string E a universe sq t key = Some raw"
    and "from_slice raw = Some (jobj [(''p'', announcement E a universe sq t),
        (''sig'', JStr (hex (hmac key (map of_char (canonical_text to_string (announcement E a universe sq t))))))])"
    and "\<forall>b \<in> set (hmac key (map of_char (canonical_text to_string (announcement E a universe sq t)))). b < 256"
    and "\<bar>now - of_nat t\<bar> \<le> 30" "t < 2 ^ 53"
    and "node_id a \<noteq> []" "boot_id a \<noteq> []" "control_addr a \<noteq> []" "node_id a \<noteq> node_id b" "\<not> peer_alive b (node_id a)"
    and "\<not> replayed seen (node_id a) (boot_id a) sq"
  shows "fst (listen_step hmac to_string from_slice key' universe now raw b seen) =
     (if hmac key' (map of_char (canonical_text to_string (announcement E a universe sq t)))
           = hmac key (map of_char (canonical_text to_string (announcement E a universe sq t)))
      then Dials (control_addr a) else Dropped)"
proof -
  let ?v = "announcement E a universe sq t"
  have raw: "raw = sign hmac to_string ?v key" "\<not> MAX_DATAGRAM < length raw"
    using assms(1) by (auto simp: announce_round_def Let_def split: if_splits)
  have "jget_opt (jobj [(''p'', ?v), (''sig'', x)]) ''p'' = Some ?v" for x by (simp add: jget_opt_def jobj_def bt_extend_def)
  then have u: "claimed_universe from_slice raw = universe" by (simp add: claimed_universe_def assms(2) announced_fields as_str_def)
  have v: "verify hmac to_string from_slice raw key' =
      Some (if hmac key' (map of_char (canonical_text to_string ?v)) = hmac key (map of_char (canonical_text to_string ?v)) then Some ?v else None)"
    unfolding raw(1) by (rule verify_sign) (use assms(2,3) raw(1) in simp_all)
  have "major_matches PROTO" by code_simp
  moreover have "fresh (of_nat (f64_of_nat t)) now" using assms(4,5) by (simp add: fresh_def CLOCK_SKEW_S_def f64_of_nat_def)
  moreover have "fst (hear_signed ?v b seen) = Dials (control_addr a)"
    using assms(6-11) by (simp add: hear_signed_def text_of_def announced_fields as_str_def as_u64_def jnat_def Let_def)
  ultimately show ?thesis
    using raw(2) u v by (simp add: listen_step_def text_of_def announced_fields as_str_def as_u64_def jnat_def)
qed

section \<open>The relay\<close>

text \<open>C9: a driver may connect to the daemon of its own box, wherever the head is. A hello from the box itself, on a
  daemon that follows another head, is relayed: whatever address of the head answers first, the head reads the hello
  with the box's address filled in, followed by exactly the bytes the driver sent after it, treats it as a client's
  hello, and files the driver under the node of that box.\<close>

theorem relayed_hello_reaches_head:
  assumes "conn_entry E s peer_ip expired (C (Hello pr cid grp ses kind [])) = Relay addrs m" "is_loopback peer_ip"
    and "relay net resolve connects sends to_vec addrs (frame_new req m) pl buffered s = (Some (a, bytes), s')"
    and "from_slice (to_vec (frame_new req m)) = Some (frame_new req m)" "length (to_vec (frame_new req m)) \<le> MAX_FRAME" "length pl \<le> MAX_FRAME"
    and "healthy r" "bytes_of r = bytes @ rest"
    and "head_node_id h = node_id h" "node_id h \<noteq> []"
    and "\<not> is_loopback (node_ip s)" "node_ip s \<noteq> node_ip h" "node_ip s \<notin> set (e_all_local_addrs Eh)"
    and "\<exists>p \<in> set (hm_values (peers h)). pe_node_ip p = node_ip s"
    and "\<forall>p \<in> set (hm_values (peers h)). pe_node_ip p = node_ip s \<or> node_ip s \<in> set (pe_addrs p) \<longrightarrow> pe_node_id p = node_id s"
  shows "(\<exists>r'. read_frame from_slice value_of bad r = Inr (Some ((frame_new req (C (Hello pr cid grp ses kind (node_ip s))), pl), r'))
        \<and> bytes_of r' = buffered @ rest)
    \<and> conn_entry Eh h src expired' (C (Hello pr cid grp ses kind (node_ip s))) = ToClient
    \<and> client_node Eh h (node_ip s) = node_id s"
proof -
  have m: "m = C (Hello pr cid grp ses kind (node_ip s))"
    using assms(1,2) by (auto simp: conn_entry_def relay_first_def Let_def split: head.splits)
  have b: "bytes = write_frame to_vec (frame_new req m) pl @ buffered"
    using assms(3) by (auto simp: relay_def split: list.splits if_splits)
  have "\<exists>r'. read_frame from_slice value_of bad r = Inr (Some ((frame_new req m, pl), r')) \<and> healthy r' \<and> bytes_of r' = buffered @ rest"
    using read_frame_bytes [of from_slice "to_vec (frame_new req m)" "frame_new req m" pl r "buffered @ rest"] assms(4-8) b m
    by (simp add: frame_new_def write_frame_def Let_def)
  moreover have "conn_entry Eh h src expired' m = ToClient" using assms(9,10) by (simp add: m conn_entry_def head_for_def)
  moreover obtain p where "List.find (\<lambda>p. pe_node_ip p = node_ip s \<or> node_ip s \<in> set (pe_addrs p)) (hm_values (peers h)) = Some p"
    using assms(14) by (cases "List.find (\<lambda>p. pe_node_ip p = node_ip s \<or> node_ip s \<in> set (pe_addrs p)) (hm_values (peers h))")
      (auto simp: find_None_iff)
  moreover from this have "pe_node_id p = node_id s" using assms(15) by (auto simp: find_Some_iff)
  ultimately show ?thesis using assms(11-13) m by (auto simp: client_node_def)
qed

section \<open>The wait for a connect\<close>

text \<open>The wait ends with the first poll that is not interrupted, whatever its outcome, so a signal alone never fails a
  probe; but each further poll starts with the whole limit again.\<close>

theorem poll_loop_ends:
  assumes "p \<noteq> PollInterrupted"
  shows "poll_loop timeout (replicate n PollInterrupted @ p # ps) = poll_loop timeout [p]
    \<and> poll_loop timeout [p] \<noteq> None"
proof -
  have "poll_loop timeout (replicate n PollInterrupted @ p # ps) = poll_loop timeout (p # ps)" by (induction n) simp_all
  with assms show ?thesis by (cases p) auto
qed

end
