(* ===== verification/MeshRunExamples.thy ===== *)
theory MeshRunExamples
  imports MeshRunProps Examples
begin

text \<open>The properties of the mesh's threads at concrete inputs: a round of probes, an announcement and a relayed hello.\<close>

section \<open>A round of probes\<close>

text \<open>One address answers as the peer, one as another node, and the rest cannot be reached.\<close>

definition answers :: "string \<Rightarrow> string \<Rightarrow> string + probe_link" where
  "answers l r = (if r = ''b'' then Inr \<lparr>pl_setup = None, pl_send = None, pl_reply = Inr (Some (P (ProbeOk PROTO ''n1''))), pl_ms = 3\<rparr>
     else if r = ''c'' then Inr \<lparr>pl_setup = None, pl_send = None, pl_reply = Inr (Some (P (ProbeOk PROTO ''n9''))), pl_ms = 3\<rparr>
     else Inl ''down'')"

definition probe_n1 :: pair_result where
  "probe_n1 l r = (quiet, probe_pair quiet None (\<lambda>_. Inr []) (\<lambda>_. Inl []) answers ''n1'' l r 6379, None)"

theorem probe_table_is_this_round_witness:
  "(\<exists>c. cell_of (probe_peer probe_n1 [''a''] [] ''n1'' [''b'', ''c''] follower) ''n1'' ''a'' ''b'' = Some c \<and> pp_ok c)
   \<and> (\<exists>c. cell_of (probe_peer probe_n1 [''a''] [] ''n1'' [''b'', ''c''] follower) ''n1'' ''a'' ''c'' = Some c \<and> \<not> pp_ok c)"
proof -
  have h: "hm_has (peers follower) ''n1''" by (simp add: follower_def hm_has_def)
  have p: "fst (snd (probe_n1 l r)) = probe_pair (fst (probe_n1 l r)) None (\<lambda>_. Inr []) (\<lambda>_. Inl []) answers ''n1'' l r 6379" for l r
    by (simp add: probe_n1_def)
  have "answers l ''b'' = Inr \<lparr>pl_setup = None, pl_send = None, pl_reply = Inr (Some (P (ProbeOk PROTO ''n1''))), pl_ms = 3\<rparr>"
    "answers l ''c'' = Inr \<lparr>pl_setup = None, pl_send = None, pl_reply = Inr (Some (P (ProbeOk PROTO ''n9''))), pl_ms = 3\<rparr>" for l
    by (simp_all add: answers_def)
  with probe_table_is_this_round [OF h p, where locals = "[''a'']" and remotes = "[''b'', ''c'']" and l = "''a''" and bi = "[]"
      and r = "''b''"]
    probe_table_is_this_round [OF h p, where locals = "[''a'']" and remotes = "[''b'', ''c'']" and l = "''a''" and bi = "[]"
      and r = "''c''"]
  show ?thesis by (auto split: option.splits)
qed

section \<open>An announcement\<close>

definition speaker :: state where
  "speaker = (new_state ''10.0.0.1'' ''box'' ''10.0.0.1:6379'' ''boot'')\<lparr>node_id := ''n1''\<rparr>"

definition hearer :: state where
  "hearer = (new_state ''10.0.0.2'' ''box'' ''10.0.0.2:6379'' ''boot'')\<lparr>node_id := ''n2''\<rparr>"

theorem announcement_is_dialled_witness:
  "fst (listen_step (\<lambda>k m. k) (\<lambda>v. ''x'')
      (\<lambda>_. Some (jobj [(''p'', announcement quiet speaker ''default'' 4 100), (''sig'', JStr (hex [7, 200]))]))
      [7, 200] ''default'' 110 ''x'' hearer []) = Dials ''10.0.0.1:6379''"
proof -
  have r: "announce_round (\<lambda>k m. k) (\<lambda>v. ''x'') quiet speaker ''default'' 4 100 [7, 200] = Some ''x''"
    by (simp add: announce_round_def sign_def MAX_DATAGRAM_def)
  have n: "node_id speaker = ''n1''" "boot_id speaker = ''boot''" "control_addr speaker = ''10.0.0.1:6379''" "node_id hearer = ''n2''"
    "\<not> peer_alive hearer ''n1''" "\<not> replayed [] ''n1'' ''boot'' 4"
    by (simp_all add: speaker_def hearer_def new_state_def peer_alive_def replayed_def)
  from announcement_is_dialled [OF r, of "\<lambda>_. Some (jobj [(''p'', announcement quiet speaker ''default'' 4 100), (''sig'', JStr (hex [7, 200]))])"
      110 hearer "[]" "[7, 200]"] n
  show ?thesis by simp
qed

section \<open>A relayed hello\<close>

definition near_box :: state where
  "near_box = (new_state ''10.0.0.2'' ''box'' ''10.0.0.2:6379'' ''boot'')\<lparr>node_id := ''n2'', head_node_id := ''n1'',
     peers := [(''n1'', (peer_at ''n1'' ''n1'' 9)\<lparr>pe_node_ip := ''10.0.0.1'', pe_link_ip := ''10.0.0.1'', pe_control_port := 6379\<rparr>)]\<rparr>"

definition head_box :: state where
  "head_box = speaker\<lparr>head_node_id := ''n1'', peers := [(''n2'', (peer_at ''n2'' ''n1'' 9)\<lparr>pe_node_ip := ''10.0.0.2'', pe_addrs := []\<rparr>)]\<rparr>"

definition relayed :: frame where
  "relayed = frame_new 1 (C (Hello PROTO ''c'' ''g'' True ''driver'' ''10.0.0.2''))"

theorem relayed_hello_reaches_head_witness:
  "(\<exists>r'. read_frame (\<lambda>_. Some relayed) (\<lambda>_. None) (\<lambda>_. []) [Data (write_frame (\<lambda>_. [5]) relayed []), Data [8], Data [9]] = Inr (Some ((relayed, []), r'))
      \<and> bytes_of r' = [8] @ [9])
   \<and> conn_entry quiet head_box ''10.0.0.2'' False (f_msg relayed) = ToClient \<and> client_node quiet head_box ''10.0.0.2'' = ''n2''"
proof -
  have ip: "is_loopback ''127.0.0.1''" "\<not> is_loopback ''10.0.0.2''" by code_simp+
  let ?m = "C (Hello PROTO ''c'' ''g'' True ''driver'' ''10.0.0.2'')"
  have c: "conn_entry quiet near_box ''127.0.0.1'' False (C (Hello PROTO ''c'' ''g'' True ''driver'' [])) = Relay [''10.0.0.1:6379''] ?m"
    using ip by (simp add: conn_entry_def head_for_def near_box_def peer_at_def peer_row_of_def hello_of_def new_state_def relay_first_def
        show_nat.simps digit_char_def char_of_def bit_simps)
  have r: "relay None (\<lambda>a. Inr [a]) (\<lambda>_. True) True (\<lambda>_. [5]) [''10.0.0.1:6379''] (frame_new 1 ?m) [] [8] near_box =
      (Some (''10.0.0.1:6379'', write_frame (\<lambda>_. [5]) relayed [] @ [8]),
       near_box\<lparr>counters := (counters near_box)\<lparr>ct_relayed := u64_add (ct_relayed (counters near_box)) 1\<rparr>\<rparr>)"
    by (simp add: relay_def relay_target_def first_addr_def relayed_def)
  have b: "node_ip near_box = ''10.0.0.2''" "node_id near_box = ''n2''" "head_node_id head_box = node_id head_box" "node_id head_box \<noteq> []"
      "node_ip head_box = ''10.0.0.1''" "e_all_local_addrs quiet = []"
      "hm_values (peers head_box) = [(peer_at ''n2'' ''n1'' 9)\<lparr>pe_node_ip := ''10.0.0.2'', pe_addrs := []\<rparr>]" "pe_node_id (peer_at ''n2'' ''n1'' 9) = ''n2''"
    by (simp_all add: near_box_def head_box_def speaker_def new_state_def quiet_def hm_values_def peer_at_def peer_row_of_def hello_of_def)
  from relayed_hello_reaches_head [OF c ip(1) r, where from_slice = "\<lambda>_. Some relayed" and value_of = "\<lambda>_. None" and bad = "\<lambda>_. []"
      and r = "[Data (write_frame (\<lambda>_. [5]) relayed []), Data [8], Data [9]]" and rest = "[9]" and h = head_box and Eh = quiet
      and src = "''10.0.0.2''" and expired' = False] ip b
  show ?thesis by (simp add: relayed_def MAX_FRAME_def write_frame_def u32_le_def frame_new_def)
qed

end
