(* ===== verification/ServeMain.thy ===== *)
theory ServeMain
  imports ServeUi Host "HOL-Library.Monad_Syntax"
begin

text \<open>
  The start of the gateway (\<open>rust/mentatd-serve/src/main.rs\<close>): its settings from the environment, the state
  it begins with, the watch of each configured daemon, and the listener for announcements up to its loop.
  \<open>None\<close> is a panic. What the sockets do when they are bound is an argument.
\<close>

section \<open>Settings\<close>

definition env_str :: "vars \<Rightarrow> string \<Rightarrow> string \<Rightarrow> string" where
  "env_str var name dflt = (case var name of Some s \<Rightarrow> if trim s = [] then dflt else s | None \<Rightarrow> dflt)"

definition env_f64 :: "vars \<Rightarrow> string \<Rightarrow> f64 option" where
  "env_f64 var name = Option.bind (var name) (\<lambda>s. parse_f64 (trim s))"

definition env_secs_or_zero :: "vars \<Rightarrow> string \<Rightarrow> f64 \<Rightarrow> nat option" where
  "env_secs_or_zero var name dflt =
     from_secs_f64 (case env_f64 var name of Some v \<Rightarrow> if f64_nonneg v then v else dflt | None \<Rightarrow> dflt)"

definition env_secs :: "vars \<Rightarrow> string \<Rightarrow> f64 \<Rightarrow> nat option" where
  "env_secs var name dflt =
     from_secs_f64 (case env_f64 var name of Some v \<Rightarrow> if f64_pos v then v else dflt | None \<Rightarrow> dflt)"

definition env_u16 :: "vars \<Rightarrow> string \<Rightarrow> nat \<Rightarrow> nat" where
  "env_u16 var name dflt = (case parse_u16 (env_str var name (show_nat dflt)) of Some p \<Rightarrow> p | None \<Rightarrow> dflt)"

definition env_daemons :: "vars \<Rightarrow> string list" where
  "env_daemons var = filter (\<lambda>s. s \<noteq> []) (map trim (split_on (CHR '','')
     (case var ''MENTAT_DAEMONS'' of Some v \<Rightarrow> v | None \<Rightarrow> ''127.0.0.1:6380'')))"

text \<open>The durations are nanoseconds here.\<close>

definition config_from_env :: "vars \<Rightarrow> serve_cfg option" where
  "config_from_env var = do {
     probe_interval \<leftarrow> env_secs var ''PROBE_INTERVAL_S'' (Finite 5);
     probe_timeout \<leftarrow> env_secs var ''PROBE_TIMEOUT_S'' (Finite 3);
     poll_interval \<leftarrow> env_secs var ''POLL_INTERVAL_S'' (Finite 10);
     rounds \<leftarrow> duration_fits (probe_interval * 3);
     window \<leftarrow> duration_fits (rounds + probe_timeout);
     probe_fresh \<leftarrow> env_secs var ''PROBE_FRESH_S'' (as_secs_f64 window);
     again \<leftarrow> duration_fits (probe_interval * 6);
     probe_promote \<leftarrow> env_secs var ''PROBE_PROMOTE_S'' (as_secs_f64 again);
     serving_timeout \<leftarrow> env_secs var ''SERVING_TIMEOUT_S'' (Finite 1800);
     model_wait \<leftarrow> env_secs var ''MODEL_WAIT_S'' (Finite 60);
     sse_keepalive \<leftarrow> env_secs_or_zero var ''SSE_KEEPALIVE_S'' (Finite 10);
     mcp_timeout \<leftarrow> env_secs var ''MCP_TIMEOUT_S'' (Finite 180);
     tools_ttl \<leftarrow> env_secs var ''TOOLS_TTL_S'' (Finite 60);
     model_ttl \<leftarrow> env_secs var ''MODEL_TTL_S'' (Finite 3600);
     Some \<lparr>sc_daemons = env_daemons var, sc_port = env_u16 var ''SERVE_PORT'' 6381,
       sc_announce_port = env_u16 var ''MENTAT_ANNOUNCE_PORT'' 6382, sc_poll_interval = poll_interval,
       sc_probe_interval = probe_interval, sc_probe_timeout = probe_timeout, sc_probe_fresh = probe_fresh,
       sc_probe_promote = probe_promote, sc_serving_timeout = serving_timeout, sc_model_wait = model_wait,
       sc_sse_keepalive = sse_keepalive, sc_mcp_timeout = mcp_timeout, sc_tools_ttl = tools_ttl, sc_model_ttl = model_ttl,
       sc_allowed_sources = allow_parse (env_str var ''ALLOWED_SOURCES'' ''local''),
       sc_discover_peers = (env_str var ''DISCOVER_PEERS'' ''1'' = ''1'')\<rparr>}"

text \<open>The gateway's own state counts milliseconds. A part of one is rounded up, so that only zero is zero.\<close>

definition ms_of :: "nat \<Rightarrow> nat" where
  "ms_of ns = (ns + 999999) div 1000000"

definition cfg_in_ms :: "serve_cfg \<Rightarrow> serve_cfg" where
  "cfg_in_ms c = c\<lparr>sc_poll_interval := ms_of (sc_poll_interval c), sc_probe_interval := ms_of (sc_probe_interval c),
     sc_probe_timeout := ms_of (sc_probe_timeout c), sc_probe_fresh := ms_of (sc_probe_fresh c),
     sc_probe_promote := ms_of (sc_probe_promote c), sc_serving_timeout := ms_of (sc_serving_timeout c),
     sc_model_wait := ms_of (sc_model_wait c), sc_sse_keepalive := ms_of (sc_sse_keepalive c),
     sc_mcp_timeout := ms_of (sc_mcp_timeout c), sc_tools_ttl := ms_of (sc_tools_ttl c), sc_model_ttl := ms_of (sc_model_ttl c)\<rparr>"

section \<open>The first state\<close>

definition serve_new :: "nat \<Rightarrow> serve_cfg \<Rightarrow> serve" where
  "serve_new now c = \<lparr>sv_cfg = c, sv_started = now, sv_verify = False, sv_daemons = [], sv_watched = [], sv_nodes = [],
     sv_probes = [], sv_tools = [], sv_tools_fetching = [], sv_live = []\<rparr>"

definition load_new :: load where
  "load_new = \<lparr>ld_next_req = 1, ld_inflight = []\<rparr>"

definition watch_seeds :: "serve \<Rightarrow> serve \<times> spawn list" where
  "watch_seeds sv = fold (\<lambda>d (sv, sps). case ensure_watched d [] sv of (sv', sp) \<Rightarrow> (sv', sps @ sp))
     (sc_daemons (sv_cfg sv)) (sv, [])"

text \<open>\<open>main\<close> up to the loop that accepts connections: \<open>bound\<close> is the error of binding its port. The tasks started
  are the watches, the prober and the listener for announcements.\<close>

datatype serve_start = PrintsVersion | ConfigPanics | BindPanics string | ServeUp serve load "spawn list"

definition serve_main :: "string list \<Rightarrow> nat \<Rightarrow> vars \<Rightarrow> string option \<Rightarrow> serve_start" where
  "serve_main args now var bound =
     (if 1 < length args \<and> args ! 1 = ''--version'' then PrintsVersion
      else (case config_from_env var of
          None \<Rightarrow> ConfigPanics
        | Some c \<Rightarrow> (case watch_seeds (serve_new now (cfg_in_ms c)) of (sv, sps) \<Rightarrow>
            (case bound of
               Some e \<Rightarrow> BindPanics (''bind 0.0.0.0:'' @ show_nat (sc_port c) @ '': '' @ e)
             | None \<Rightarrow> ServeUp sv load_new sps))))"

section \<open>The listener\<close>

text \<open>\<open>udp_listener\<close> before its loop: it may return, end the process with a message, or listen with a key.\<close>

datatype listener = ListenOff | ListenFailed string | ListenEnds string | Listens payload

definition udp_listener_start :: "vars \<Rightarrow> string option \<Rightarrow> (string \<Rightarrow> string + payload) \<Rightarrow> serve \<Rightarrow> serve \<times> listener" where
  "udp_listener_start var bound read sv =
     (if sc_announce_port (sv_cfg sv) = 0 then (sv, ListenOff)
      else (case bound of
          Some e \<Rightarrow> (sv, ListenFailed e)
        | None \<Rightarrow> (case secret_load var read of
              Inl why \<Rightarrow> (sv, ListenEnds (''mentatd-serve: '' @ why))
            | Inr None \<Rightarrow> (sv, ListenEnds ''mentatd-serve: discovery needs MENTAT_SECRET or MENTAT_SECRET_FILE'')
            | Inr (Some k) \<Rightarrow> (sv\<lparr>sv_verify := True\<rparr>, Listens k))))"

section \<open>What the start gives\<close>

lemma keep_first_snoc: "keep_first (xs @ [x]) = (if x \<in> set xs then keep_first xs else keep_first xs @ [x])"
  by (simp add: keep_first_def)

lemma set_keep_first_rev: "set (keep_first xs) = set xs"
  by (simp add: keep_first_def)

lemma watch_seeds_fold:
  assumes "sv_nodes sv = []" "sv_watched sv = []"
  shows "fold (\<lambda>d (sv, sps). case ensure_watched d [] sv of (sv', sp) \<Rightarrow> (sv', sps @ sp)) ds (sv, [])
     = (sv\<lparr>sv_watched := rev (keep_first ds)\<rparr>, map (\<lambda>d. (d, [])) (keep_first ds))"
proof (induction ds rule: rev_induct)
  case Nil
  show ?case using assms(2) by (cases sv) (simp add: keep_first_def)
next
  case (snoc d ds)
  then show ?case using assms(1) by (simp add: ensure_watched_def hm_values_def keep_first_snoc set_keep_first_rev)
qed

text \<open>Each configured daemon is watched from the start, once, in the order of the setting, with no other address to
  try; and nothing else is watched.\<close>

theorem seeds_are_watched:
  assumes "serve_main args now var bound = ServeUp sv ld sps"
  shows "sps = map (\<lambda>d. (d, [])) (keep_first (env_daemons var))" "sv_watched sv = rev (keep_first (env_daemons var))"
proof -
  obtain c where c: "config_from_env var = Some c" and w: "watch_seeds (serve_new now (cfg_in_ms c)) = (sv, sps)"
    using assms by (auto simp: serve_main_def split: if_splits option.splits prod.splits)
  have "sc_daemons c = env_daemons var" using c by (auto simp: config_from_env_def bind_eq_Some_conv)
  then have "sc_daemons (sv_cfg (serve_new now (cfg_in_ms c))) = env_daemons var" by (simp add: serve_new_def cfg_in_ms_def)
  with w watch_seeds_fold [of "serve_new now (cfg_in_ms c)" "env_daemons var"]
  show "sps = map (\<lambda>d. (d, [])) (keep_first (env_daemons var))" "sv_watched sv = rev (keep_first (env_daemons var))"
    by (auto simp: watch_seeds_def serve_new_def)
qed

text \<open>When its setting is unset, the window in which a probe counts is three rounds and one timeout to the nanosecond,
  although it is passed on as a double.\<close>

theorem probe_window_default:
  assumes "config_from_env var = Some c" "var ''PROBE_FRESH_S'' = None"
    and "sc_probe_interval c * 3 + sc_probe_timeout c < 2 ^ 21 * NANOS"
  shows "sc_probe_fresh c = sc_probe_interval c * 3 + sc_probe_timeout c"
  using assms from_as_secs [OF assms(3)]
  by (auto simp: config_from_env_def bind_eq_Some_conv duration_fits_def env_secs_def [of var "''PROBE_FRESH_S''"] env_f64_def
      split: if_splits)

lemma from_secs_whole: "(numeral k :: rat) < 2 ^ 64 \<Longrightarrow> from_secs_f64 (Finite (numeral k)) = Some (numeral k * NANOS)"
proof -
  assume "(numeral k :: rat) < 2 ^ 64"
  moreover have "numeral k * of_nat NANOS = (of_int (int (numeral k * NANOS)) :: rat)" by simp
  then have "half_even (numeral k * of_nat NANOS) = int (numeral k * NANOS)" by (metis half_even_whole)
  then have "nat (half_even (numeral k * of_nat NANOS)) = numeral k * NANOS" by (simp only: nat_int)
  ultimately show ?thesis by (simp add: from_secs_f64_def del: of_nat_mult)
qed

lemma env_secs_unset: "env_secs (\<lambda>_. None) name dflt = from_secs_f64 dflt" "env_secs_or_zero (\<lambda>_. None) name dflt = from_secs_f64 dflt"
  by (simp_all add: env_secs_def env_secs_or_zero_def env_f64_def)

lemma env_u16_unset: "dflt \<le> 65535 \<Longrightarrow> env_u16 (\<lambda>_. None) name dflt = dflt"
  using parse_uint_show_nat [of dflt 65535] by (simp add: env_u16_def env_str_def)

lemma env_daemons_unset: "env_daemons (\<lambda>_. None) = [''127.0.0.1:6380'']"
  by (simp add: env_daemons_def trim_visible visible_def)

lemma allow_local: "allow_parse ''local'' = \<lparr>al_local = True, al_nets = [], al_prefixes = []\<rparr>"
  by (simp add: allow_parse_def allow_entry_def trim_visible visible_def to_ascii_lowercase_def lower_char_def)

text \<open>The settings of an empty environment.\<close>

theorem default_settings:
  "map_option cfg_in_ms (config_from_env (\<lambda>_. None)) = Some \<lparr>sc_daemons = [''127.0.0.1:6380''], sc_port = 6381,
     sc_announce_port = 6382, sc_poll_interval = 10000, sc_probe_interval = 5000, sc_probe_timeout = 3000, sc_probe_fresh = 18000,
     sc_probe_promote = 30000, sc_serving_timeout = 1800000, sc_model_wait = 60000, sc_sse_keepalive = 10000,
     sc_mcp_timeout = 180000, sc_tools_ttl = 60000, sc_model_ttl = 3600000,
     sc_allowed_sources = \<lparr>al_local = True, al_nets = [], al_prefixes = []\<rparr>, sc_discover_peers = True\<rparr>"
proof -
  have "from_secs_f64 (as_secs_f64 18000000000) = Some 18000000000" "from_secs_f64 (as_secs_f64 30000000000) = Some 30000000000"
    by (rule from_as_secs, simp add: NANOS_def)+
  then show ?thesis
    by (simp add: config_from_env_def env_secs_unset env_u16_unset env_daemons_unset allow_local env_str_def from_secs_whole duration_fits_def NANOS_def cfg_in_ms_def ms_of_def)
qed

theorem infinite_setting_panics: "var name = Some ''inf'' \<Longrightarrow> env_secs var name dflt = None"
proof -
  have "parse_f64 (trim ''inf'') = Some (Infinite True)" by code_simp
  moreover assume "var name = Some ''inf''"
  ultimately show ?thesis by (simp add: env_secs_def env_f64_def f64_pos_def from_secs_f64_def)
qed

text \<open>A blank beside the port's digits gives the default port, while a duration is trimmed.\<close>

theorem blank_in_port_ignored:
  "env_u16 (\<lambda>_. Some '' 7000'') ''SERVE_PORT'' 6381 = 6381" "env_secs (\<lambda>_. Some '' 7000'') ''POLL_INTERVAL_S'' d = Some (7000 * NANOS)"
proof -
  have t: "trim '' 7000'' = ''7000''" by code_simp
  then show "env_u16 (\<lambda>_. Some '' 7000'') ''SERVE_PORT'' 6381 = 6381"
    by (simp add: env_u16_def env_str_def parse_uint_def to_digit_def)
  have "parse_decimal ''7000'' = Some (of_nat 7000)"
    by (simp add: parse_decimal_def digits_of_def to_digit_def parse_exponent_def pow10_def)
  then have "parse_f64 ''7000'' = Some (Finite 7000)" using round_f64_nat [of 7000]
    by (simp add: parse_f64_def signed_def to_ascii_lowercase_def lower_char_def)
  with t show "env_secs (\<lambda>_. Some '' 7000'') ''POLL_INTERVAL_S'' d = Some (7000 * NANOS)"
    by (simp add: env_secs_def env_f64_def f64_pos_def from_secs_whole)
qed

end
