(* ===== verification/Spec2Isabelle.thy ===== *)
theory Spec2Isabelle
  imports AgentExamples WatchExamples ProxyExamples CliExamples MeshRunExamples ServeMain
begin

text \<open>
  A verification library for mentat, a small replacement for the parts of Ray that a distributed
  inference engine needs. The sources are under \<open>src/rust\<close>: the daemon and agent \<open>mentatd\<close>, the
  shared crate \<open>common\<close> and the gateway \<open>mentatd-serve\<close>.

  \<^bold>\<open>The program.\<close> A daemon runs on every box. Drivers (clients) and agents connect to it over TCP
  and exchange frames; daemons form a mesh, elect a head, probe the links between their addresses
  and derive from the probes which nodes share a fabric (an island). The head's daemon keeps the
  state of the cluster in one record behind one lock: agents with their GPUs, actors, placement
  groups, calls (refs), clients, claims and peers. A driver asks for placement groups, which are
  placed on free GPUs, creates actors in them, and calls their methods; it may claim a shape of
  nodes, which a solver matches against the topology of the mesh.

  \<^bold>\<open>The theories\<close>, in the order of the imports:
  \<^item> \<open>Prelude\<close>: tables, strings and numbers as the Rust library has them, and their lemmas.
  \<^item> \<open>Json\<close>: the values of \<open>serde_json\<close> and the accessors the code uses.
  \<^item> \<open>Wire\<close>: \<open>mentatd/src/proto.rs\<close>, messages and frames.
  \<^item> \<open>Island\<close>: \<open>mentatd/src/island.rs\<close>, islands from probed pairs; \<open>IslandRun\<close>: its loop.
  \<^item> \<open>Config\<close>: \<open>mentatd/src/config.rs\<close>. \<open>Ip\<close>: the address parser of the Rust library.
  \<^item> \<open>State\<close>: \<open>mentatd/src/state.rs\<close>. \<open>Status\<close>: the rows and snapshot of \<open>mentatd/src/status.rs\<close>.
  \<^item> \<open>Claim\<close>: \<open>mentatd/src/claim.rs\<close>; \<open>ClaimSolver\<close>: the solver against its specification.
  \<^item> \<open>Placement\<close>: the placement half of \<open>mentatd/src/daemon.rs\<close>; \<open>PlacementProps\<close>: its theorems.
  \<^item> \<open>Daemon\<close>, \<open>Clients\<close>, \<open>Agents\<close>: the rest of \<open>daemon.rs\<close>, by who calls: actors, claims, reaps and
    sweeps; client connections; agent connections.
  \<^item> \<open>Common\<close>: \<open>common/src/proto.rs\<close> and \<open>common/src/secret.rs\<close>. \<open>Meta\<close>: \<open>mentatd/src/meta.rs\<close>.
  \<^item> \<open>Testnet\<close>: \<open>mentatd/src/testnet.rs\<close>. \<open>Mesh\<close>: \<open>mentatd/src/mesh.rs\<close>; \<open>MeshProps\<close>: links and election.
  \<^item> \<open>Announce\<close>: \<open>mentatd/src/announce.rs\<close>.
  \<^item> \<open>DaemonInv\<close>, \<open>LinkInv\<close>: the invariant of the daemon's state and its preservation by every
    operation. \<open>Steps\<close>: the daemon as a transition system. \<open>Refs\<close>: calls over time. \<open>DaemonProps\<close>:
    further properties of the handlers.
  \<^item> \<open>AgentProc\<close>: \<open>mentatd/src/agent.rs\<close>, the agent process thread by thread. \<open>AgentProps\<close>: it as a
    transition system, what it holds for the daemon, its kills. \<open>AgentCalls\<close>: the order of an actor's
    calls, and the agent composed with the daemon's registration.
  \<^item> \<open>ServeNet\<close>: \<open>mentatd-serve/src/net.rs\<close>. \<open>ServeView\<close>: the gateway's state, its tables of groups and
    models and its status page, from \<open>mentatd-serve/src/main.rs\<close>; \<open>ServeRoutes\<close>: their theorems.
  \<^item> \<open>Http\<close>: \<open>mentatd/src/http.rs\<close>, the daemon's HTTP endpoint with its event stream. \<open>ServeWs\<close>:
    \<open>mentatd-serve/src/ws.rs\<close>, the reader of that stream, and \<open>mentatd-serve/src/testnet.rs\<close>.
  \<^item> \<open>ServeWatch\<close>: the watches, the listener and the prober of \<open>mentatd-serve/src/main.rs\<close>.
    \<open>WatchProps\<close>: the gateway's view against the daemon's events. \<open>WatchLife\<close>: which addresses are
    watched, and what a round of the prober does.
  \<^item> \<open>ServeProxy\<close>: \<open>mentatd-serve/src/proxy.rs\<close> with the HTTP client of \<open>main.rs\<close> and the requests in
    flight of \<open>ui.rs\<close>; \<open>ProxyProps\<close>: its theorems. \<open>ServeTokens\<close>, \<open>TokensProps\<close>: \<open>tokens.rs\<close>.
    \<open>ServeMcp\<close>, \<open>McpProps\<close>: \<open>mcp.rs\<close>. \<open>ServeUi\<close>: the numbers of \<open>ui.rs\<close> and the choice of a handler. \<open>ServeMain\<close>:
    the gateway's settings and its start.
  \<^item> \<open>MeshRun\<close>, \<open>MeshRunProps\<close>: the threads of \<open>mesh.rs\<close> and \<open>announce.rs\<close> around those holds, from the outcomes of the
    socket calls to the state they leave, and the relay of \<open>daemon.rs\<close>.
  \<^item> \<open>Doubles\<close>: reading, sums, quotients and one-decimal text of \<open>f64\<close>, durations, and the error of rounding. \<open>Logfmt\<close>: \<open>common/src/logfmt.rs\<close>. \<open>Render\<close>: the
    terminal form of a snapshot, from \<open>status.rs\<close>. \<open>Host\<close>, \<open>HostProps\<close>: what a process takes from its box, from
    \<open>machine.rs\<close>, \<open>meta.rs\<close>, \<open>secret.rs\<close> and the starts of the agent and the daemon. \<open>Cli\<close>, \<open>CliProps\<close>: the command
    line, \<open>mentatd/src/main.rs\<close>, and its commands against a daemon.
  \<^item> \<open>Examples\<close>, \<open>AgentExamples\<close>, \<open>ServeExamples\<close>, \<open>WatchExamples\<close>, \<open>ProxyExamples\<close>, \<open>CliExamples\<close>, \<open>MeshRunExamples\<close>: a small
    deployment, a run of an agent, a gateway and a command, at which the properties with hypotheses are applied.

  \<^bold>\<open>Conventions.\<close> A struct is a record, its fields with a prefix per struct; an enum is a datatype.
  A \<open>HashMap\<close> is an association list with distinct keys whose order is the iteration order, about
  which no theorem assumes anything; a \<open>BTreeMap\<close> or \<open>BTreeSet\<close> is an ascending list, strings
  ordered by their bytes. A string is the list of its UTF-8 bytes. An operation that takes the lock
  is a function from state to state; one that takes it several times is the composition of its
  holds, and in \<open>Steps\<close> each hold is a step of its own, so that other threads run in between.
  What an operation reads outside the state (the clock, the settings, the addresses of the box,
  the outcome of a write) is the record \<open>env\<close>; every step may see a different one. A result
  that may fail is a sum or an option, and a panic is an outcome of its own. Counters of 64 bits
  wrap (\<open>u64_add\<close>); JSON numbers read as doubles are rationals, rounded where the code rounds.
  Three fields of the state are the model's own: the frames sent, the sockets shut down and the
  events emitted; the agent's state also has its threads, each with where it stands. Code of other crates is a parameter: HMAC-SHA256, the text and reader of JSON,
  the debug form of a message, the text of a status code, the argument parser.

  \<^bold>\<open>What is shown.\<close> Over any interleaving of the daemon's threads: no GPU is reserved twice, no call
  waits on a dead actor, the first resolution of a call stands, new call ids are fresh, no claim
  is without a holder (\<open>Steps\<close>, \<open>Refs\<close>). Placement is all or nothing, inside one island, with rank 0
  at the driver (\<open>PlacementProps\<close>). The solver's search refines a declarative specification and its
  answers have the shape asked for (\<open>ClaimSolver\<close>). Islands are sound, disjoint and complete on closed
  cliques (\<open>Island\<close>). Two daemons keep the same link, agreeing daemons elect one head, and a head
  changes only after the hold-down (\<open>MeshProps\<close>). Frames and signatures make a round trip, and
  malformed ones are refused, or panic where the code does (\<open>Wire\<close>, \<open>Common\<close>). The glob matcher is
  compared with \<open>fnmatch\<close>, and announcements are not accepted twice (\<open>Announce\<close>). Over any
  interleaving of an agent's threads: no message for the daemon is lost while the agent holds it,
  every call it accepted stays accounted for and reaches its actor in order, and a kill is honoured
  (\<open>AgentProps\<close>, \<open>AgentCalls\<close>); a registration keeps the calls the agent reports, and two races around
  it are shown as the code has them. The locale \<open>transition_system\<close> carries invariants to reachable
  states and is interpreted for the daemon, for the daemon with its call counter, and for the agent
  process with each of its invariants; the locales of \<open>PlacementProps\<close> carry both ways of
  drawing GPUs.

  The gateway: which snapshot of a group stands, which addresses it may connect to, that its listing
  and its routes agree, and that a group leaves the tables after the time to live and not before
  (\<open>ServeRoutes\<close>); a network of the allowlist is its prefix (\<open>ServeNet\<close>). The daemon's event stream is
  read back as it was sent (\<open>ServeWs\<close>), and a view is always the daemon's snapshot with a first part of
  its events (\<open>WatchProps\<close>). An announcement adds only allowed addresses, an answered probe becomes a
  route and a working route is kept; two ends of a watch that the comments exclude are shown as the
  code has them (\<open>WatchLife\<close>). SHA-1 is checked against the vector of RFC 6455 (\<open>Http\<close>).
  A form is routed by its fields whatever its files hold, a prompt reaches at most one upstream and is
  answered by its deadline, and a stream that starts early is well formed (\<open>ProxyProps\<close>). A tool runs
  only where it is offered and asked for, every listed tool can be called, and the MCP endpoint always
  answers (\<open>McpProps\<close>); a token count prices every part of an input once (\<open>TokensProps\<close>). At its start the
  gateway watches the configured daemons, and the window in which a probe counts is three rounds and a timeout
  (\<open>ServeMain\<close>).

  The mesh end to end: after a round of probes a peer's table is that round's answers, an announcement is dialled by
  those who hold the key, and a hello relayed to the head arrives as the box's own (\<open>MeshRunProps\<close>).

  The command line: a status request, from the bytes of the connection to the printed text, shows the counts of the
  daemon's state, and the agent of a head container registers where \<open>status\<close> looks (\<open>CliProps\<close>). The metadata an
  agent collects passes the daemon's limits whole (\<open>HostProps\<close>); an event is one log line under a condition that is
  shown to be needed (\<open>Logfmt\<close>).

  \<^bold>\<open>Termination.\<close> Every loop of the model terminates by a measure, except requests that block, which
  are modelled round by round over the states they wake up in: \<open>do_wait\<close> is shown to answer once
  its deadline has passed.

  \<^bold>\<open>Not modelled.\<close> Sockets, threads, the file system and process control, which are arguments; the argument
  parser; which events are logged by the handlers; \<open>udp.rs\<close>; the HTML of the gateway's page.
\<close>

end
